(* ===== verification/TinPrelude.thy ===== *)
theory TinPrelude
  imports Main "HOL-Library.Word"
begin

text \<open>
  Shared vocabulary of the development.

  \<^item> Go's \<open>rune\<close> is a code point (\<open>nat\<close>); a Go \<open>string\<close> is a sequence of bytes, so it is
    Isabelle's \<open>string\<close> (one \<open>char\<close> per byte).  \<open>utf8\<close> is the encoding that
    \<open>strings.Builder.WriteRune\<close> and the conversion \<open>string(r)\<close> perform.
  \<^item> \<open>unicode.IsLetter\<close> and \<open>unicode.IsDigit\<close> are modelled as the standard library computes
    them: a Latin-1 property table for code points up to \<open>0xFF\<close>, and the Unicode range
    tables above it.  The range tables are a parameter (\<open>unicode_tables\<close>); no theorem
    depends on their contents.
  \<^item> Go's \<open>int64\<close> is an \<open>int\<close> in \<open>[-2^63, 2^63)\<close> and every arithmetic operation that may
    leave the range is followed by \<open>wrap64\<close>, the two's complement wrap-around.
\<close>

section \<open>Collections of facts\<close>

named_theorems wrap64_simps \<open>facts that remove a wrap-around that does not happen\<close>

section \<open>Runes and byte strings\<close>

type_synonym rune = nat

definition rune_of :: "char \<Rightarrow> rune" where
  "rune_of c = of_char c"

lemma rune_of_simps [simp]: "rune_of c = of_char c"
  by (simp add: rune_of_def)

definition byte_of :: "nat \<Rightarrow> char" where
  "byte_of n = char_of (n mod 256)"

definition utf8 :: "rune \<Rightarrow> string" where
  "utf8 r0 =
     (let r = (if r0 > 0x10FFFF \<or> (0xD800 \<le> r0 \<and> r0 \<le> 0xDFFF) then 0xFFFD else r0) in
      if r < 0x80 then [byte_of r]
      else if r < 0x800 then [byte_of (0xC0 + r div 64), byte_of (0x80 + r mod 64)]
      else if r < 0x10000 then
        [byte_of (0xE0 + r div 4096), byte_of (0x80 + r div 64 mod 64), byte_of (0x80 + r mod 64)]
      else
        [byte_of (0xF0 + r div 262144), byte_of (0x80 + r div 4096 mod 64),
         byte_of (0x80 + r div 64 mod 64), byte_of (0x80 + r mod 64)])"

definition utf8s :: "rune list \<Rightarrow> string" where
  "utf8s rs = concat (map utf8 rs)"

definition ascii :: "rune \<Rightarrow> bool" where
  "ascii r \<longleftrightarrow> r < 0x80"

lemma utf8_ascii: "ascii r \<Longrightarrow> utf8 r = [char_of r]"
  by (simp add: ascii_def utf8_def byte_of_def)

lemma utf8s_ascii: "list_all ascii rs \<Longrightarrow> utf8s rs = map char_of rs"
  by (induction rs) (simp_all add: utf8s_def utf8_ascii)

lemma utf8s_Nil [simp]: "utf8s [] = []"
  by (simp add: utf8s_def)

lemma utf8s_Cons: "utf8s (r # rs) = utf8 r @ utf8s rs"
  by (simp add: utf8s_def)

lemma utf8_not_Nil [simp]: "utf8 r \<noteq> []"
  by (simp add: utf8_def Let_def)

lemma utf8s_eq_Nil [simp]: "utf8s rs = [] \<longleftrightarrow> rs = []"
  by (cases rs) (simp_all add: utf8s_Cons)

section \<open>Character classes\<close>

record unicode_tables =
  letter_table :: "rune \<Rightarrow> bool"
  digit_table :: "rune \<Rightarrow> bool"

definition latin1_letter :: "rune \<Rightarrow> bool" where
  "latin1_letter r \<longleftrightarrow>
     (0x41 \<le> r \<and> r \<le> 0x5A) \<or> (0x61 \<le> r \<and> r \<le> 0x7A) \<or> r = 0xAA \<or> r = 0xB5 \<or> r = 0xBA \<or>
     (0xC0 \<le> r \<and> r \<le> 0xD6) \<or> (0xD8 \<le> r \<and> r \<le> 0xF6) \<or> (0xF8 \<le> r \<and> r \<le> 0xFF)"

definition isLetter :: "unicode_tables \<Rightarrow> rune \<Rightarrow> bool" where
  "isLetter U r = (if r \<le> 0xFF then latin1_letter r else letter_table U r)"

definition isDigit :: "unicode_tables \<Rightarrow> rune \<Rightarrow> bool" where
  "isDigit U r = (if r \<le> 0xFF then 0x30 \<le> r \<and> r \<le> 0x39 else digit_table U r)"

definition isIdentRune :: "unicode_tables \<Rightarrow> rune \<Rightarrow> bool" where
  "isIdentRune U r \<longleftrightarrow> isLetter U r \<or> isDigit U r \<or> r = rune_of CHR ''_''"

lemma isIdentRune_not_newline [simp]: "\<not> isIdentRune U 10"
  by (simp add: isIdentRune_def isLetter_def isDigit_def latin1_letter_def)

section \<open>Machine integers\<close>

definition wrap64 :: "int \<Rightarrow> int" where
  "wrap64 x = (x + 2 ^ 63) mod 2 ^ 64 - 2 ^ 63"

definition int64 :: "int \<Rightarrow> bool" where
  "int64 x \<longleftrightarrow> - (2 ^ 63) \<le> x \<and> x < 2 ^ 63"

lemma wrap64_range [simp]: "int64 (wrap64 x)"
  by (simp add: wrap64_def int64_def)

lemma wrap64_id [wrap64_simps]: "int64 x \<Longrightarrow> wrap64 x = x"
  by (simp add: wrap64_def int64_def)

lemma wrap64_eq_mod: "\<exists>k. wrap64 x = x + k * 2 ^ 64"
proof -
  have "wrap64 x = x + (- ((x + 2 ^ 63) div 2 ^ 64)) * 2 ^ 64"
    unfolding wrap64_def by (simp add: minus_div_mult_eq_mod [symmetric])
  then show ?thesis by blast
qed

section \<open>Floating point and decimal digits\<close>

text \<open>A \<open>float64\<close> is its bits, compared as Go compares floats.\<close>

type_synonym float64 = "64 word"

definition f64_isNaN :: "float64 \<Rightarrow> bool" where
  "f64_isNaN x \<longleftrightarrow> take_bit 11 (drop_bit 52 x) = 0x7FF \<and> take_bit 52 x \<noteq> 0"

definition f64_isZero :: "float64 \<Rightarrow> bool" where
  "f64_isZero x \<longleftrightarrow> take_bit 63 x = 0"

definition f64_eq :: "float64 \<Rightarrow> float64 \<Rightarrow> bool" where
  "f64_eq x y \<longleftrightarrow> \<not> f64_isNaN x \<and> \<not> f64_isNaN y \<and> (x = y \<or> f64_isZero x \<and> f64_isZero y)"

text \<open>The verb \<open>%d\<close>.\<close>

fun showNat :: "nat \<Rightarrow> string" where
  "showNat n = (if n < 10 then [char_of (48 + n)] else showNat (n div 10) @ [char_of (48 + n mod 10)])"

declare showNat.simps [simp del]

definition sprintf_d :: "int \<Rightarrow> string" where
  "sprintf_d i = (if i < 0 then CHR ''-'' # showNat (nat (- i)) else showNat (nat i))"

text \<open>Addition of floats and the verbs \<open>%g\<close> and \<open>%q\<close> of \<open>fmt\<close> are parameters.\<close>

record go_fmt =
  f64_add :: "float64 \<Rightarrow> float64 \<Rightarrow> float64"
  sprintf_g :: "float64 \<Rightarrow> string"
  sprintf_q :: "string \<Rightarrow> string"

end
