(* ===== verification/TinToken.thy ===== *)
theory TinToken
  imports TinPrelude
begin

text \<open>
  The token vocabulary of \<^verbatim>\<open>src/lexer/lexer.go\<close>.  \<open>TokenType\<close> is an \<open>int\<close> with \<open>iota\<close> constants in
  the source; here it is a \<open>nat\<close>, and each constant is an input abbreviation of its number.
  The two tables are association lists in the order of the source.
\<close>

section \<open>Token types\<close>

type_synonym TokenType = nat

abbreviation (input) INT_LIT :: TokenType where "INT_LIT \<equiv> 0"
abbreviation (input) FLOAT_LIT :: TokenType where "FLOAT_LIT \<equiv> 1"
abbreviation (input) STRING_LIT :: TokenType where "STRING_LIT \<equiv> 2"
abbreviation (input) BACKTICK_LIT :: TokenType where "BACKTICK_LIT \<equiv> 3"
abbreviation (input) CHAR_LIT :: TokenType where "CHAR_LIT \<equiv> 4"
abbreviation (input) BOOL_LIT :: TokenType where "BOOL_LIT \<equiv> 5"
abbreviation (input) ATOM_LIT :: TokenType where "ATOM_LIT \<equiv> 6"
abbreviation (input) IDENT :: TokenType where "IDENT \<equiv> 7"
abbreviation (input) KW_LET :: TokenType where "KW_LET \<equiv> 8"
abbreviation (input) KW_CONST :: TokenType where "KW_CONST \<equiv> 9"
abbreviation (input) KW_FN :: TokenType where "KW_FN \<equiv> 10"
abbreviation (input) KW_TYPE :: TokenType where "KW_TYPE \<equiv> 11"
abbreviation (input) KW_STRUCT :: TokenType where "KW_STRUCT \<equiv> 12"
abbreviation (input) KW_TRAIT :: TokenType where "KW_TRAIT \<equiv> 13"
abbreviation (input) KW_ENUM :: TokenType where "KW_ENUM \<equiv> 14"
abbreviation (input) KW_UNION :: TokenType where "KW_UNION \<equiv> 15"
abbreviation (input) KW_USE :: TokenType where "KW_USE \<equiv> 16"
abbreviation (input) KW_EXPORT :: TokenType where "KW_EXPORT \<equiv> 17"
abbreviation (input) KW_EXTERN :: TokenType where "KW_EXTERN \<equiv> 18"
abbreviation (input) KW_RETURN :: TokenType where "KW_RETURN \<equiv> 19"
abbreviation (input) KW_IF :: TokenType where "KW_IF \<equiv> 20"
abbreviation (input) KW_ELSE :: TokenType where "KW_ELSE \<equiv> 21"
abbreviation (input) KW_FOR :: TokenType where "KW_FOR \<equiv> 22"
abbreviation (input) KW_IN :: TokenType where "KW_IN \<equiv> 23"
abbreviation (input) KW_MATCH :: TokenType where "KW_MATCH \<equiv> 24"
abbreviation (input) KW_CASE :: TokenType where "KW_CASE \<equiv> 25"
abbreviation (input) KW_DEFAULT :: TokenType where "KW_DEFAULT \<equiv> 26"
abbreviation (input) KW_DEFER :: TokenType where "KW_DEFER \<equiv> 27"
abbreviation (input) KW_WHERE :: TokenType where "KW_WHERE \<equiv> 28"
abbreviation (input) KW_MACRO :: TokenType where "KW_MACRO \<equiv> 29"
abbreviation (input) KW_STATIC :: TokenType where "KW_STATIC \<equiv> 30"
abbreviation (input) KW_VIRTUAL :: TokenType where "KW_VIRTUAL \<equiv> 31"
abbreviation (input) KW_AS :: TokenType where "KW_AS \<equiv> 32"
abbreviation (input) KW_IS :: TokenType where "KW_IS \<equiv> 33"
abbreviation (input) KW_FORWARD :: TokenType where "KW_FORWARD \<equiv> 34"
abbreviation (input) KW_OVERRIDE :: TokenType where "KW_OVERRIDE \<equiv> 35"
abbreviation (input) KW_SIZEOF :: TokenType where "KW_SIZEOF \<equiv> 36"
abbreviation (input) KW_ADDR :: TokenType where "KW_ADDR \<equiv> 37"
abbreviation (input) KW_BREAK :: TokenType where "KW_BREAK \<equiv> 38"
abbreviation (input) KW_DO :: TokenType where "KW_DO \<equiv> 39"
abbreviation (input) KW_ECHO :: TokenType where "KW_ECHO \<equiv> 40"
abbreviation (input) KW_TEST :: TokenType where "KW_TEST \<equiv> 41"
abbreviation (input) KW_TYPEOF :: TokenType where "KW_TYPEOF \<equiv> 42"
abbreviation (input) KW_TRAITOF :: TokenType where "KW_TRAITOF \<equiv> 43"
abbreviation (input) KW_FIELDNAMES :: TokenType where "KW_FIELDNAMES \<equiv> 44"
abbreviation (input) KW_FIELDTYPES :: TokenType where "KW_FIELDTYPES \<equiv> 45"
abbreviation (input) KW_FIELDTAG :: TokenType where "KW_FIELDTAG \<equiv> 46"
abbreviation (input) KW_GETFIELD :: TokenType where "KW_GETFIELD \<equiv> 47"
abbreviation (input) KW_SETFIELD :: TokenType where "KW_SETFIELD \<equiv> 48"
abbreviation (input) KW_PASS :: TokenType where "KW_PASS \<equiv> 49"
abbreviation (input) KW_ISRC :: TokenType where "KW_ISRC \<equiv> 50"
abbreviation (input) KW_VAR :: TokenType where "KW_VAR \<equiv> 51"
abbreviation (input) KW_SPAWN :: TokenType where "KW_SPAWN \<equiv> 52"
abbreviation (input) KW_AWAIT :: TokenType where "KW_AWAIT \<equiv> 53"
abbreviation (input) KW_YIELD :: TokenType where "KW_YIELD \<equiv> 54"
abbreviation (input) KW_NIL :: TokenType where "KW_NIL \<equiv> 55"
abbreviation (input) KW_WEAK :: TokenType where "KW_WEAK \<equiv> 56"
abbreviation (input) KW_OWN :: TokenType where "KW_OWN \<equiv> 57"
abbreviation (input) KW_DATA :: TokenType where "KW_DATA \<equiv> 58"
abbreviation (input) KW_REF :: TokenType where "KW_REF \<equiv> 59"
abbreviation (input) KW_MOVE :: TokenType where "KW_MOVE \<equiv> 60"
abbreviation (input) KW_VOLATILE :: TokenType where "KW_VOLATILE \<equiv> 61"
abbreviation (input) PLUS :: TokenType where "PLUS \<equiv> 62"
abbreviation (input) MINUS :: TokenType where "MINUS \<equiv> 63"
abbreviation (input) STAR :: TokenType where "STAR \<equiv> 64"
abbreviation (input) SLASH :: TokenType where "SLASH \<equiv> 65"
abbreviation (input) PERCENT :: TokenType where "PERCENT \<equiv> 66"
abbreviation (input) ASSIGN :: TokenType where "ASSIGN \<equiv> 67"
abbreviation (input) EQEQ :: TokenType where "EQEQ \<equiv> 68"
abbreviation (input) NEQ :: TokenType where "NEQ \<equiv> 69"
abbreviation (input) LT :: TokenType where "LT \<equiv> 70"
abbreviation (input) LTEQ :: TokenType where "LTEQ \<equiv> 71"
abbreviation (input) GT :: TokenType where "GT \<equiv> 72"
abbreviation (input) GTEQ :: TokenType where "GTEQ \<equiv> 73"
abbreviation (input) AND :: TokenType where "AND \<equiv> 74"
abbreviation (input) OR :: TokenType where "OR \<equiv> 75"
abbreviation (input) NOT :: TokenType where "NOT \<equiv> 76"
abbreviation (input) AMP :: TokenType where "AMP \<equiv> 77"
abbreviation (input) BITOR :: TokenType where "BITOR \<equiv> 78"
abbreviation (input) XOR :: TokenType where "XOR \<equiv> 79"
abbreviation (input) SHL :: TokenType where "SHL \<equiv> 80"
abbreviation (input) SHR :: TokenType where "SHR \<equiv> 81"
abbreviation (input) INC :: TokenType where "INC \<equiv> 82"
abbreviation (input) APPENDEQ :: TokenType where "APPENDEQ \<equiv> 83"
abbreviation (input) PLUSEQ :: TokenType where "PLUSEQ \<equiv> 84"
abbreviation (input) MINUSEQ :: TokenType where "MINUSEQ \<equiv> 85"
abbreviation (input) STAREQ :: TokenType where "STAREQ \<equiv> 86"
abbreviation (input) SLASHEQ :: TokenType where "SLASHEQ \<equiv> 87"
abbreviation (input) PERCENTEQ :: TokenType where "PERCENTEQ \<equiv> 88"
abbreviation (input) RANGE :: TokenType where "RANGE \<equiv> 89"
abbreviation (input) PIPE :: TokenType where "PIPE \<equiv> 90"
abbreviation (input) ARROW :: TokenType where "ARROW \<equiv> 91"
abbreviation (input) DCOLON :: TokenType where "DCOLON \<equiv> 92"
abbreviation (input) QUESTION :: TokenType where "QUESTION \<equiv> 93"
abbreviation (input) AT :: TokenType where "AT \<equiv> 94"
abbreviation (input) TILDE :: TokenType where "TILDE \<equiv> 95"
abbreviation (input) DOTDOTDOT :: TokenType where "DOTDOTDOT \<equiv> 96"
abbreviation (input) LPAREN :: TokenType where "LPAREN \<equiv> 97"
abbreviation (input) RPAREN :: TokenType where "RPAREN \<equiv> 98"
abbreviation (input) LBRACE :: TokenType where "LBRACE \<equiv> 99"
abbreviation (input) RBRACE :: TokenType where "RBRACE \<equiv> 100"
abbreviation (input) LBRACKET :: TokenType where "LBRACKET \<equiv> 101"
abbreviation (input) RBRACKET :: TokenType where "RBRACKET \<equiv> 102"
abbreviation (input) COLON :: TokenType where "COLON \<equiv> 103"
abbreviation (input) SEMI :: TokenType where "SEMI \<equiv> 104"
abbreviation (input) COMMA :: TokenType where "COMMA \<equiv> 105"
abbreviation (input) DOT :: TokenType where "DOT \<equiv> 106"
abbreviation (input) HASH :: TokenType where "HASH \<equiv> 107"
abbreviation (input) CONTROL_TAG :: TokenType where "CONTROL_TAG \<equiv> 108"
abbreviation (input) SUFFIX_IDENT :: TokenType where "SUFFIX_IDENT \<equiv> 109"
abbreviation (input) NEWLINE :: TokenType where "NEWLINE \<equiv> 110"
abbreviation (input) INDENT :: TokenType where "INDENT \<equiv> 111"
abbreviation (input) DEDENT :: TokenType where "DEDENT \<equiv> 112"
abbreviation (input) EOF :: TokenType where "EOF \<equiv> 113"
abbreviation (input) ILLEGAL :: TokenType where "ILLEGAL \<equiv> 114"

definition tokenNames :: "(TokenType \<times> string) list" where
  "tokenNames = [
     (INT_LIT, ''INT''), (FLOAT_LIT, ''FLOAT''), (STRING_LIT, ''STRING''),
     (BACKTICK_LIT, ''BACKTICK''), (CHAR_LIT, ''CHAR''), (BOOL_LIT, ''BOOL''),
     (ATOM_LIT, ''ATOM''), (IDENT, ''IDENT''), (KW_LET, ''let''), (KW_CONST, ''const''),
     (KW_FN, ''fn''), (KW_TYPE, ''type''), (KW_STRUCT, ''struct''), (KW_TRAIT, ''trait''),
     (KW_ENUM, ''enum''), (KW_UNION, ''union''), (KW_USE, ''use''), (KW_EXPORT, ''export''),
     (KW_EXTERN, ''extern''), (KW_RETURN, ''return''), (KW_IF, ''if''), (KW_ELSE, ''else''),
     (KW_FOR, ''for''), (KW_IN, ''in''), (KW_MATCH, ''match''), (KW_CASE, ''case''),
     (KW_DEFAULT, ''default''), (KW_DEFER, ''defer''), (KW_WHERE, ''where''),
     (KW_MACRO, ''macro''), (KW_STATIC, ''static''), (KW_VIRTUAL, ''virtual''), (KW_AS, ''as''),
     (KW_IS, ''is''), (KW_FORWARD, ''forward''), (KW_OVERRIDE, ''override''),
     (KW_SIZEOF, ''sizeof''), (KW_ADDR, ''addr''), (KW_BREAK, ''break''), (KW_DO, ''do''),
     (KW_ECHO, ''echo''), (KW_TEST, ''test''), (KW_TYPEOF, ''typeof''), (KW_TRAITOF, ''traitof''),
     (KW_FIELDNAMES, ''fieldnames''), (KW_FIELDTYPES, ''fieldtypes''),
     (KW_FIELDTAG, ''fieldtag''), (KW_GETFIELD, ''getfield''), (KW_SETFIELD, ''setfield''),
     (KW_PASS, ''pass''), (KW_ISRC, ''isrc''), (KW_VAR, ''var''), (KW_SPAWN, ''spawn''),
     (KW_AWAIT, ''await''), (KW_YIELD, ''yield''), (KW_NIL, ''nil''), (KW_WEAK, ''weak''),
     (KW_OWN, ''own''), (KW_DATA, ''data''), (KW_REF, ''ref''), (KW_MOVE, ''move''),
     (KW_VOLATILE, ''volatile''), (PLUS, ''+''), (MINUS, ''-''), (STAR, ''*''), (SLASH, ''/''),
     (PERCENT, ''%''), (ASSIGN, ''=''), (EQEQ, ''==''), (NEQ, ''!=''), (LT, ''<''),
     (LTEQ, ''<=''), (GT, ''>''), (GTEQ, ''>=''), (AND, ''&&''), (OR, ''||''), (NOT, ''!''),
     (AMP, ''&''), (BITOR, ''|''), (XOR, ''^''), (SHL, ''<<''), (SHR, ''>>''), (INC, ''++''),
     (APPENDEQ, ''++=''), (PLUSEQ, ''+=''), (MINUSEQ, ''-=''), (STAREQ, ''*=''),
     (SLASHEQ, ''/=''), (PERCENTEQ, ''%=''), (RANGE, ''..''), (PIPE, ''|>''), (ARROW, ''->''),
     (DCOLON, ''::''), (QUESTION, ''?''), (AT, ''@''), (TILDE, ''~''), (DOTDOTDOT, ''...''),
     (LPAREN, ''(''), (RPAREN, '')''), (LBRACE, ''{''), (RBRACE, ''}''), (LBRACKET, ''[''),
     (RBRACKET, '']''), (COLON, '':''), (SEMI, '';''), (COMMA, '',''), (DOT, ''.''),
     (HASH, ''#''), (CONTROL_TAG, ''TAG''), (SUFFIX_IDENT, ''SUFFIX''), (NEWLINE, ''NEWLINE''),
     (INDENT, ''INDENT''), (DEDENT, ''DEDENT''), (EOF, ''EOF''), (ILLEGAL, ''ILLEGAL'')]"

definition keywordTable :: "(string \<times> TokenType) list" where
  "keywordTable = [
     (''let'', KW_LET), (''const'', KW_CONST), (''fn'', KW_FN), (''type'', KW_TYPE),
     (''struct'', KW_STRUCT), (''trait'', KW_TRAIT), (''enum'', KW_ENUM), (''union'', KW_UNION),
     (''use'', KW_USE), (''export'', KW_EXPORT), (''extern'', KW_EXTERN), (''return'', KW_RETURN),
     (''if'', KW_IF), (''else'', KW_ELSE), (''for'', KW_FOR), (''in'', KW_IN),
     (''match'', KW_MATCH), (''case'', KW_CASE), (''default'', KW_DEFAULT), (''defer'', KW_DEFER),
     (''where'', KW_WHERE), (''macro'', KW_MACRO), (''static'', KW_STATIC),
     (''virtual'', KW_VIRTUAL), (''as'', KW_AS), (''is'', KW_IS), (''forward'', KW_FORWARD),
     (''override'', KW_OVERRIDE), (''sizeof'', KW_SIZEOF), (''addr'', KW_ADDR),
     (''break'', KW_BREAK), (''do'', KW_DO), (''echo'', KW_ECHO), (''test'', KW_TEST),
     (''typeof'', KW_TYPEOF), (''traitof'', KW_TRAITOF), (''fieldnames'', KW_FIELDNAMES),
     (''fieldtypes'', KW_FIELDTYPES), (''fieldtag'', KW_FIELDTAG), (''getfield'', KW_GETFIELD),
     (''setfield'', KW_SETFIELD), (''pass'', KW_PASS), (''isrc'', KW_ISRC), (''var'', KW_VAR),
     (''spawn'', KW_SPAWN), (''await'', KW_AWAIT), (''yield'', KW_YIELD), (''nil'', KW_NIL),
     (''weak'', KW_WEAK), (''own'', KW_OWN), (''ref'', KW_REF), (''move'', KW_MOVE),
     (''volatile'', KW_VOLATILE), (''true'', BOOL_LIT), (''false'', BOOL_LIT)]"

definition TokenType_String :: "TokenType \<Rightarrow> string" where
  "TokenType_String t = (case map_of tokenNames t of Some s \<Rightarrow> s | None \<Rightarrow> ''TOKEN('' @ sprintf_d (int t) @ '')'')"

record Token =
  tok_Type :: TokenType
  tok_Literal :: string
  tok_Line :: int
  tok_Col :: int

abbreviation mkToken :: "TokenType \<Rightarrow> string \<Rightarrow> int \<Rightarrow> int \<Rightarrow> Token" where
  "mkToken tt lit ln cl \<equiv> \<lparr>tok_Type = tt, tok_Literal = lit, tok_Line = ln, tok_Col = cl\<rparr>"

end
