(* ===== verification/TinLexer.thy ===== *)
theory TinLexer
  imports TinToken
begin

text \<open>
  The lexer of \<^verbatim>\<open>src/lexer/lexer.go\<close>: the scanner state, every scanning function, and the
  driver \<open>Tokenize\<close>.

  \<^item> A scanning method \<open>func (l *Lexer) f(...) (Token, error)\<close> is a function from the scanner
    state to \<open>lex_error + (Token \<times> Lexer)\<close>.
  \<^item> The recursive calls of \<open>nextToken\<close> and \<open>handleLineStart\<close> are tail calls
    (\<open>return l.nextToken()\<close>).  Each body is therefore a function that either finishes
    (\<open>Done\<close>) or asks to be run again from a new state (\<open>Again\<close>), and \<open>nextToken\<close> iterates.
  \<^item> \<open>Tokenize\<close> is a partial function over \<open>option\<close>: \<open>None\<close> means that the Go loop never returns.
\<close>

section \<open>The scanner state\<close>

record Lexer =
  src :: "rune list"
  pos :: nat
  line :: int
  col :: int
  indentStack :: "nat list"  \<comment> \<open>the top of the stack is the last element\<close>
  tokens :: "Token list"
  atLineStart :: bool
  lineIndent :: nat
  dedenting :: bool

datatype lex_error =
    SuffixName int int rune
  | BadHexEscape int int
  | BadHexEscapeInChar int int
  | BadUnicodeEscape4 int int
  | BadUnicodeEscape8 int int
  | UnexpectedChar rune int int
  | IndexOutOfRange  \<comment> \<open>Go's run-time panic, not an error value\<close>

type_synonym lex_result = "lex_error + (Token \<times> Lexer)"

definition New :: "rune list \<Rightarrow> Lexer" where
  "New s = \<lparr>src = s, pos = 0, line = 1, col = 1, indentStack = [0], tokens = [],
            atLineStart = True, lineIndent = 0, dedenting = False\<rparr>"

definition peek :: "Lexer \<Rightarrow> rune" where
  "peek l = (if length (src l) \<le> pos l then 0 else src l ! pos l)"

definition peekAt :: "nat \<Rightarrow> Lexer \<Rightarrow> rune" where
  "peekAt offset l = (if length (src l) \<le> pos l + offset then 0 else src l ! (pos l + offset))"

definition advance :: "Lexer \<Rightarrow> rune \<times> Lexer" where
  "advance l =
     (if length (src l) \<le> pos l then (0, l)
      else let ch = src l ! pos l; l1 = l\<lparr>pos := Suc (pos l)\<rparr> in
        if ch = 10 then (ch, l1\<lparr>line := line l + 1, col := 1\<rparr>)
        else (ch, l1\<lparr>col := col l + 1\<rparr>))"

abbreviation skip :: "Lexer \<Rightarrow> Lexer" where
  "skip l \<equiv> snd (advance l)"

definition hasMore :: "Lexer \<Rightarrow> bool" where
  "hasMore l \<longleftrightarrow> pos l < length (src l)"

definition remaining :: "Lexer \<Rightarrow> nat" where
  "remaining l = length (src l) - pos l"

lemma remaining_update [simp]:
  "remaining (l\<lparr>atLineStart := b\<rparr>) = remaining l"
  "remaining (l\<lparr>dedenting := b\<rparr>) = remaining l"
  "remaining (l\<lparr>lineIndent := n\<rparr>) = remaining l"
  "remaining (l\<lparr>indentStack := st\<rparr>) = remaining l"
  "remaining (l\<lparr>tokens := ts\<rparr>) = remaining l"
  "remaining (l\<lparr>line := ln\<rparr>) = remaining l"
  "remaining (l\<lparr>col := cl\<rparr>) = remaining l"
  by (simp_all add: remaining_def)

lemma skip_remaining: "hasMore l \<Longrightarrow> remaining (skip l) < remaining l"
  by (auto simp: hasMore_def remaining_def advance_def Let_def)

lemma skip_remaining_le: "remaining (skip l) \<le> remaining l"
  by (auto simp: remaining_def advance_def Let_def)

text \<open>
  The loop \<^verbatim>\<open>for l.pos < len(l.src) && P(l.peek()) { sb.WriteRune(l.advance()) }\<close>
  that most scanning methods share: the runes it writes and the state it leaves.
\<close>

function scanWhile :: "(rune \<Rightarrow> bool) \<Rightarrow> Lexer \<Rightarrow> rune list \<times> Lexer" where
  "scanWhile P l =
     (if hasMore l \<and> P (peek l)
      then let (c, l1) = advance l; (cs, l2) = scanWhile P l1 in (c # cs, l2)
      else ([], l))"
  by pat_completeness auto
termination
  by (relation "measure (\<lambda>(P, l). remaining l)")
     (auto dest: skip_remaining simp: prod_eq_iff split: prod.splits)

declare scanWhile.simps [simp del]

abbreviation skipWhile :: "(rune \<Rightarrow> bool) \<Rightarrow> Lexer \<Rightarrow> Lexer" where
  "skipWhile P l \<equiv> snd (scanWhile P l)"

section \<open>Suffix macros\<close>

definition isDegenerateNumericLit :: "Token \<Rightarrow> bool" where
  "isDegenerateNumericLit tok \<longleftrightarrow>
     tok_Type tok = INT_LIT \<and>
     (case tok_Literal tok of
        [a, c] \<Rightarrow> a = CHR ''0'' \<and> c \<in> {CHR ''x'', CHR ''X'', CHR ''b'', CHR ''B'', CHR ''o'', CHR ''O''}
      | _ \<Rightarrow> False)"

definition suffixCarrier :: "TokenType \<Rightarrow> bool" where
  "suffixCarrier tt \<longleftrightarrow> tt = INT_LIT \<or> tt = FLOAT_LIT \<or> tt = STRING_LIT \<or> tt = BOOL_LIT"

definition isSuffixStart :: "unicode_tables \<Rightarrow> rune \<Rightarrow> bool" where
  "isSuffixStart U ch = isLetter U ch"

text \<open>One iteration of the loop of \<open>readSuffixIdent\<close> scans a segment and, after \<open>::\<close>, goes on.\<close>

lemma scanWhile_remaining_le: "remaining (skipWhile P l) \<le> remaining l"
proof (induction P l rule: scanWhile.induct)
  case (1 P l)
  show ?case
  proof (cases "hasMore l \<and> P (peek l)")
    case True
    then have "remaining (skipWhile P (skip l)) \<le> remaining (skip l)"
      by (intro 1) (auto simp: prod_eq_iff)
    also have "\<dots> \<le> remaining l" by (rule skip_remaining_le)
    finally show ?thesis
      using True by (subst scanWhile.simps) (simp add: split_beta Let_def)
  next
    case False
    then show ?thesis by (subst scanWhile.simps) auto
  qed
qed

function suffixSegments ::
    "unicode_tables \<Rightarrow> int \<Rightarrow> int \<Rightarrow> rune list \<Rightarrow> Lexer \<Rightarrow> lex_error + (rune list \<times> Lexer)" where
  "suffixSegments U ln cl sb l =
     (if \<not> isLetter U (peek l) \<and> peek l \<noteq> rune_of CHR ''_'' then Inl (SuffixName ln cl (peek l))
      else let (seg, l1) = scanWhile (isIdentRune U) l in
        if peek l1 = rune_of CHR '':'' \<and> peekAt 1 l1 = rune_of CHR '':''
        then let (a, l2) = advance l1; (b, l3) = advance l2 in
          suffixSegments U ln cl (sb @ seg @ [a, b]) l3
        else Inr (sb @ seg, l1))"
  by pat_completeness auto
termination
proof (relation "measure (\<lambda>(U, ln, cl, sb, l). remaining l)", simp, goal_cases)
  case (1 U ln cl sb l p seg l1 q a l2 r b l3)
  have m: "hasMore l1"
    using 1 by (auto simp: peek_def hasMore_def split: if_splits)
  have "remaining l3 \<le> remaining l2"
    using skip_remaining_le [of l2] 1 by (auto simp: prod_eq_iff)
  also have "\<dots> < remaining l1"
    using skip_remaining [OF m] 1 by (auto simp: prod_eq_iff)
  also have "\<dots> \<le> remaining l"
    using scanWhile_remaining_le [of "isIdentRune U" l] 1 by (auto simp: prod_eq_iff)
  finally show ?case by simp
qed

declare suffixSegments.simps [simp del]

definition readSuffixIdent :: "unicode_tables \<Rightarrow> int \<Rightarrow> int \<Rightarrow> Lexer \<Rightarrow> lex_result" where
  "readSuffixIdent U ln cl l =
     (case suffixSegments U ln cl [] (skip l) of
        Inl e \<Rightarrow> Inl e
      | Inr (sb, l1) \<Rightarrow>
          if peek l1 = rune_of CHR ''!''
          then let (c, l2) = advance l1 in Inr (mkToken SUFFIX_IDENT (utf8s (sb @ [c])) ln cl, l2)
          else Inr (mkToken SUFFIX_IDENT (utf8s sb) ln cl, l1))"

section \<open>String, character and atom literals\<close>

definition hexDigitVal :: "rune \<Rightarrow> nat option" where
  "hexDigitVal c =
     (if rune_of CHR ''0'' \<le> c \<and> c \<le> rune_of CHR ''9'' then Some (c - rune_of CHR ''0'')
      else if rune_of CHR ''a'' \<le> c \<and> c \<le> rune_of CHR ''f'' then Some (c - rune_of CHR ''a'' + 10)
      else if rune_of CHR ''A'' \<le> c \<and> c \<le> rune_of CHR ''F'' then Some (c - rune_of CHR ''A'' + 10)
      else None)"

fun hexLoop :: "nat \<Rightarrow> nat \<Rightarrow> Lexer \<Rightarrow> nat option \<times> Lexer" where
  "hexLoop 0 v l = (Some v, l)"
| "hexLoop (Suc n) v l =
     (if \<not> hasMore l then (None, l)
      else case hexDigitVal (peek l) of
        None \<Rightarrow> (None, l)
      | Some d \<Rightarrow> hexLoop n (v * 16 + d) (skip l))"

definition readHexDigits :: "nat \<Rightarrow> Lexer \<Rightarrow> nat option \<times> Lexer" where
  "readHexDigits n l = hexLoop n 0 l"

text \<open>The one-byte escapes, common to string and character literals.\<close>

definition simpleEscape :: "rune \<Rightarrow> nat option" where
  "simpleEscape esc = map_of
     [(rune_of CHR ''n'', 0x0A), (rune_of CHR ''t'', 0x09), (rune_of CHR ''r'', 0x0D),
      (rune_of CHR ''b'', 0x08), (rune_of CHR ''f'', 0x0C), (rune_of CHR ''v'', 0x0B),
      (rune_of CHR ''a'', 0x07), (rune_of CHR 0x22, 0x22), (rune_of CHR 0x27, 0x27),
      (rune_of CHR 0x5C, 0x5C), (rune_of CHR ''0'', 0x00)] esc"

definition badCodePoint :: "nat \<Rightarrow> bool" where
  "badCodePoint v \<longleftrightarrow> (0xD800 \<le> v \<and> v \<le> 0xDFFF) \<or> v > 0x10FFFF"

definition readUnicodeEscape ::
    "nat \<Rightarrow> (int \<Rightarrow> int \<Rightarrow> lex_error) \<Rightarrow> Lexer \<Rightarrow> lex_error + (string \<times> Lexer)" where
  "readUnicodeEscape n err l =
     (case readHexDigits n l of
        (None, l1) \<Rightarrow> Inl (err (line l1) (col l1))
      | (Some v, l1) \<Rightarrow>
          if badCodePoint v then Inl (err (line l1) (col l1)) else Inr (utf8 v, l1))"

text \<open>The \<open>switch esc\<close> of \<open>readString\<close>: the bytes an escape writes.\<close>

definition stringEscape :: "rune \<Rightarrow> Lexer \<Rightarrow> lex_error + (string \<times> Lexer)" where
  "stringEscape esc l =
     (case simpleEscape esc of
        Some b \<Rightarrow> Inr ([byte_of b], l)
      | None \<Rightarrow>
          if esc = rune_of CHR ''x'' then
            (case readHexDigits 2 l of
               (None, l1) \<Rightarrow> Inl (BadHexEscape (line l1) (col l1))
             | (Some v, l1) \<Rightarrow> Inr ([byte_of v], l1))
          else if esc = rune_of CHR ''u'' then readUnicodeEscape 4 BadUnicodeEscape4 l
          else if esc = rune_of CHR ''U'' then readUnicodeEscape 8 BadUnicodeEscape8 l
          else if esc = rune_of CHR ''{'' then Inr ([CHR 0x5C, CHR ''{''], l)
          else if esc = rune_of CHR ''}'' then Inr ([CHR 0x5C, CHR ''}''], l)
          else Inr (utf8 (rune_of CHR 0x5C) @ utf8 esc, l))"

text \<open>The inner loop of \<open>readString\<close>: a string literal nested in an interpolation.\<close>

function nestedString :: "Lexer \<Rightarrow> rune list \<times> Lexer" where
  "nestedString l =
     (if \<not> hasMore l then ([], l)
      else if peek l = rune_of CHR 0x22 then let (c, l1) = advance l in ([c], l1)
      else if peek l = rune_of CHR 0x5C then
        let (c, l1) = advance l in
        if hasMore l1
        then let (d, l2) = advance l1; (cs, l3) = nestedString l2 in (c # d # cs, l3)
        else let (cs, l3) = nestedString l1 in (c # cs, l3)
      else let (c, l1) = advance l; (cs, l2) = nestedString l1 in (c # cs, l2))"
  by pat_completeness auto
termination
proof (relation "measure remaining", simp, goal_cases)
  case (1 l p c l1 q d l2)
  then have "remaining l2 \<le> remaining l1" "remaining l1 < remaining l"
    using skip_remaining_le [of l1] skip_remaining [of l] by (auto simp: prod_eq_iff)
  then show ?case by simp
next
  case (2 l p c l1)
  then show ?case using skip_remaining [of l] by (auto simp: prod_eq_iff)
next
  case (3 l p c l1)
  then show ?case using skip_remaining [of l] by (auto simp: prod_eq_iff)
qed

declare nestedString.simps [simp del]

lemma nestedString_remaining_le: "remaining (snd (nestedString l)) \<le> remaining l"
proof (induction l rule: nestedString.induct)
  case (1 l)
  note IH = 1 and le = skip_remaining_le [of l] and le2 = skip_remaining_le [of "skip l"]
  show ?case
    using IH le le2
    by (subst nestedString.simps) (fastforce simp: split_beta Let_def prod_eq_iff intro: order_trans)
qed

lemma hexLoop_remaining_le: "remaining (snd (hexLoop n v l)) \<le> remaining l"
  by (induction n v l rule: hexLoop.induct)
     (auto split: option.splits intro: order_trans [OF _ skip_remaining_le])

lemma stringEscape_remaining_le: "stringEscape esc l = Inr (bs, l') \<Longrightarrow> remaining l' \<le> remaining l"
  using hexLoop_remaining_le [of 2 0 l] hexLoop_remaining_le [of 4 0 l] hexLoop_remaining_le [of 8 0 l]
  by (auto simp: stringEscape_def readUnicodeEscape_def readHexDigits_def
           split: option.splits if_splits prod.splits)

text \<open>The loop of \<open>readString\<close>, over \<open>braceDepth\<close>, \<open>justOpenedBrace\<close> and the bytes written.\<close>

function stringLoop :: "nat \<Rightarrow> bool \<Rightarrow> string \<Rightarrow> Lexer \<Rightarrow> lex_error + (string \<times> Lexer)" where
  "stringLoop braceDepth justOpenedBrace sb l =
     (if \<not> hasMore l then Inr (sb, l)
      else let ch = peek l in
        if ch = rune_of CHR 0x22 \<and> braceDepth = 0 then Inr (sb, skip l)
        else if ch = rune_of CHR 0x22 \<and> braceDepth > 0 \<and> \<not> justOpenedBrace then
          let (c, l1) = advance l; (cs, l2) = nestedString l1 in
          stringLoop braceDepth justOpenedBrace (sb @ utf8s (c # cs)) l2
        else if ch = rune_of CHR 0x22 \<and> braceDepth > 0 \<and> justOpenedBrace then Inr (sb, skip l)
        else
          let opened = (ch = rune_of CHR ''{'');
              depth = (if ch = rune_of CHR ''{'' then Suc braceDepth
                       else if ch = rune_of CHR ''}'' \<and> braceDepth > 0 then braceDepth - 1
                       else braceDepth) in
          if ch = rune_of CHR 0x5C then
            let (esc, l2) = advance (skip l) in
            (case stringEscape esc l2 of
               Inl e \<Rightarrow> Inl e
             | Inr (bs, l3) \<Rightarrow> stringLoop depth opened (sb @ bs) l3)
          else let (c, l1) = advance l in stringLoop depth opened (sb @ utf8 c) l1)"
  by pat_completeness auto
termination
proof (relation "measure (\<lambda>(d, j, sb, l). remaining l)", simp, goal_cases)
  case (1 d j sb l ch p c l1 q cs l2)
  then have "remaining l2 \<le> remaining l1" "remaining l1 < remaining l"
    using nestedString_remaining_le [of l1] skip_remaining [of l] by (auto simp: prod_eq_iff)
  then show ?case by simp
next
  case (2 d j sb l ch opened depth p esc l2 r bs l3)
  then have "remaining l3 \<le> remaining l2"
    by (auto dest: stringEscape_remaining_le)
  moreover have "remaining l2 < remaining l"
    using 2 skip_remaining_le [of "skip l"] skip_remaining [of l] by (auto simp: prod_eq_iff)
  ultimately show ?case by simp
next
  case (3 d j sb l ch opened depth p c l1)
  then show ?case using skip_remaining [of l] by (auto simp: prod_eq_iff)
qed

declare stringLoop.simps [simp del]

definition readString :: "int \<Rightarrow> int \<Rightarrow> Lexer \<Rightarrow> lex_result" where
  "readString ln cl l =
     (case stringLoop 0 False [] (skip l) of
        Inl e \<Rightarrow> Inl e
      | Inr (sb, l1) \<Rightarrow> Inr (mkToken STRING_LIT sb ln cl, l1))"

text \<open>The \<open>switch esc\<close> of \<open>readSingleQuote\<close>: the byte of an escaped character literal.\<close>

definition charEscape :: "rune \<Rightarrow> Lexer \<Rightarrow> lex_error + (char \<times> Lexer)" where
  "charEscape esc l =
     (case simpleEscape esc of
        Some b \<Rightarrow> Inr (byte_of b, l)
      | None \<Rightarrow>
          if esc = rune_of CHR ''x'' then
            (case readHexDigits 2 l of
               (None, l1) \<Rightarrow> Inl (BadHexEscapeInChar (line l1) (col l1))
             | (Some v, l1) \<Rightarrow> Inr (byte_of v, l1))
          else Inr (byte_of esc, l))"

definition closeQuote :: "Lexer \<Rightarrow> Lexer" where
  "closeQuote l = (if hasMore l \<and> peek l = rune_of CHR 0x27 then skip l else l)"

definition isSimpleAtomRune :: "unicode_tables \<Rightarrow> rune \<Rightarrow> bool" where
  "isSimpleAtomRune U r \<longleftrightarrow> isLetter U r \<or> isDigit U r \<or> r = rune_of CHR ''_'' \<or> r = rune_of CHR '':''"

definition readSingleQuote :: "unicode_tables \<Rightarrow> int \<Rightarrow> int \<Rightarrow> Lexer \<Rightarrow> lex_result" where
  "readSingleQuote U ln cl l0 =
     (let l = skip l0 in
      if \<not> hasMore l then Inr (mkToken ILLEGAL [CHR 0x27] ln cl, l)
      else if peek l = rune_of CHR 0x5C then
        let (esc, l1) = advance (skip l) in
        (case charEscape esc l1 of
           Inl e \<Rightarrow> Inl e
         | Inr (b, l2) \<Rightarrow> Inr (mkToken CHAR_LIT [b] ln cl, closeQuote l2))
      else if peek l = rune_of CHR 0x22 then
        let (rs, l1) = scanWhile (\<lambda>r. r \<noteq> rune_of CHR 0x22 \<and> r \<noteq> 10) (skip l);
            l2 = (if hasMore l1 \<and> peek l1 = rune_of CHR 0x22 then skip l1 else l1);
            name = (if list_all (isSimpleAtomRune U) rs then utf8s rs
                    else [CHR 0x22] @ utf8s rs @ [CHR 0x22]) in
        Inr (mkToken ATOM_LIT name ln cl, l2)
      else if isLetter U (peek l) \<or> peek l = rune_of CHR ''_'' then
        if peekAt 1 l = rune_of CHR 0x27 then
          let (c, l1) = advance l in Inr (mkToken CHAR_LIT (utf8 c) ln cl, skip l1)
        else
          let (rs, l1) = scanWhile (isIdentRune U) l in Inr (mkToken ATOM_LIT (utf8s rs) ln cl, l1)
      else
        let (c, l1) = advance l in Inr (mkToken CHAR_LIT (utf8 c) ln cl, closeQuote l1))"

definition readControlTag :: "unicode_tables \<Rightarrow> int \<Rightarrow> int \<Rightarrow> Lexer \<Rightarrow> lex_result" where
  "readControlTag U ln cl l =
     (let (rs, l1) = scanWhile (isIdentRune U) (skip l) in
      if rs = [] then Inr (mkToken HASH ''#'' ln cl, l1)
      else Inr (mkToken CONTROL_TAG (utf8s rs) ln cl, l1))"

text \<open>
  The loop of \<open>readBacktick\<close>; \<open>depth\<close> starts at 1 and only ever decreases.
\<close>

function backtickLoop :: "int \<Rightarrow> Lexer \<Rightarrow> rune list \<times> Lexer" where
  "backtickLoop depth l =
     (if \<not> hasMore l then ([], l)
      else let (ch, l1) = advance l in
        if ch = rune_of CHR 0x60 \<and> depth - 1 = 0 then ([], l1)
        else let depth1 = (if ch = rune_of CHR 0x60 then depth - 1 else depth);
                 (cs, l2) = backtickLoop depth1 l1 in (ch # cs, l2))"
  by pat_completeness auto
termination
  by (relation "measure (\<lambda>(d, l). remaining l)")
     (auto dest: skip_remaining simp: prod_eq_iff split: prod.splits)

declare backtickLoop.simps [simp del]

definition readBacktick :: "int \<Rightarrow> int \<Rightarrow> Lexer \<Rightarrow> lex_result" where
  "readBacktick ln cl l =
     (let (rs, l1) = backtickLoop 1 (skip l) in Inr (mkToken BACKTICK_LIT (utf8s rs) ln cl, l1))"

section \<open>Numbers, identifiers and operators\<close>

function consumeDigits :: "(rune \<Rightarrow> bool) \<Rightarrow> bool \<Rightarrow> Lexer \<Rightarrow> rune list \<times> Lexer" where
  "consumeDigits isOK sawDigit l =
     (if \<not> hasMore l then ([], l)
      else if isOK (peek l) then
        let (c, l1) = advance l; (cs, l2) = consumeDigits isOK True l1 in (c # cs, l2)
      else if sawDigit \<and> peek l = rune_of CHR ''_'' \<and> pos l + 1 < length (src l) \<and> isOK (peekAt 1 l)
      then consumeDigits isOK sawDigit (skip l)
      else ([], l))"
  by pat_completeness auto
termination
  by (relation "measure (\<lambda>(f, s, l). remaining l)")
     (auto dest: skip_remaining simp: prod_eq_iff split: prod.splits)

declare consumeDigits.simps [simp del]

definition isHexDigit :: "unicode_tables \<Rightarrow> rune \<Rightarrow> bool" where
  "isHexDigit U ch \<longleftrightarrow>
     isDigit U ch \<or> (rune_of CHR ''a'' \<le> ch \<and> ch \<le> rune_of CHR ''f'') \<or>
     (rune_of CHR ''A'' \<le> ch \<and> ch \<le> rune_of CHR ''F'')"

text \<open>The three prefixed radices share one shape: \<open>0\<close>, the radix letter, the digits.\<close>

definition readRadix :: "(rune \<Rightarrow> bool) \<Rightarrow> int \<Rightarrow> int \<Rightarrow> Lexer \<Rightarrow> lex_result" where
  "readRadix isOK ln cl l =
     (let (a, l1) = advance l; (b, l2) = advance l1; (cs, l3) = consumeDigits isOK False l2 in
      Inr (mkToken INT_LIT (utf8s (a # b # cs)) ln cl, l3))"

definition readFraction :: "unicode_tables \<Rightarrow> Lexer \<Rightarrow> bool \<times> rune list \<times> Lexer" where
  "readFraction U l =
     (if hasMore l \<and> peek l = rune_of CHR ''.'' \<and> peekAt 1 l \<noteq> rune_of CHR ''.''
      then let (c, l1) = advance l; (cs, l2) = consumeDigits (isDigit U) False l1 in (True, c # cs, l2)
      else (False, [], l))"

definition readExponent :: "unicode_tables \<Rightarrow> Lexer \<Rightarrow> bool \<times> rune list \<times> Lexer" where
  "readExponent U l =
     (if hasMore l \<and> (peek l = rune_of CHR ''e'' \<or> peek l = rune_of CHR ''E'')
      then let (e, l1) = advance l;
               (sg, l2) = (if hasMore l1 \<and> (peek l1 = rune_of CHR ''+'' \<or> peek l1 = rune_of CHR ''-'')
                           then let (c, l2) = advance l1 in ([c], l2) else ([], l1));
               (cs, l3) = consumeDigits (isDigit U) False l2 in (True, e # sg @ cs, l3)
      else (False, [], l))"

definition readNumber :: "unicode_tables \<Rightarrow> int \<Rightarrow> int \<Rightarrow> Lexer \<Rightarrow> lex_result" where
  "readNumber U ln cl l =
     (let zero = (peek l = rune_of CHR ''0''); nx = peekAt 1 l in
      if zero \<and> (nx = rune_of CHR ''x'' \<or> nx = rune_of CHR ''X'') then readRadix (isHexDigit U) ln cl l
      else if zero \<and> (nx = rune_of CHR ''b'' \<or> nx = rune_of CHR ''B'') then
        readRadix (\<lambda>ch. ch = rune_of CHR ''0'' \<or> ch = rune_of CHR ''1'') ln cl l
      else if zero \<and> (nx = rune_of CHR ''o'' \<or> nx = rune_of CHR ''O'') then
        readRadix (\<lambda>ch. rune_of CHR ''0'' \<le> ch \<and> ch \<le> rune_of CHR ''7'') ln cl l
      else
        let (ds, l1) = consumeDigits (isDigit U) False l;
            (f1, fs, l2) = readFraction U l1;
            (f2, es, l3) = readExponent U l2 in
        Inr (mkToken (if f1 \<or> f2 then FLOAT_LIT else INT_LIT) (utf8s (ds @ fs @ es)) ln cl, l3))"

definition hasPrefix :: "string \<Rightarrow> string \<Rightarrow> bool" where
  "hasPrefix s p \<longleftrightarrow> take (length p) s = p"

text \<open>
  \<open>readIdentOrKeyword\<close> rewinds by \<open>len(word) - split\<close>, a number of bytes, in a slice of
  runes.  A rewind past the start of the source leaves a negative index, on which the
  \<open>l.peek()\<close> that follows in \<open>Tokenize\<close> panics; the model raises that panic here.
\<close>

definition boolSplit :: "string \<Rightarrow> nat" where
  "boolSplit word = (if hasPrefix word ''f'' then 5 else 4)"

definition readIdentOrKeyword :: "unicode_tables \<Rightarrow> int \<Rightarrow> int \<Rightarrow> Lexer \<Rightarrow> lex_result" where
  "readIdentOrKeyword U ln cl l =
     (let (rs, l1) = scanWhile (isIdentRune U) l;
          word = utf8s rs;
          split = boolSplit word;
          rewind = length word - split in
      if (hasPrefix word ''true_'' \<or> hasPrefix word ''false_'') \<and>
         length word > split + 1 \<and> isSuffixStart U (of_char (word ! (split + 1)))
      then if rewind > pos l1 then Inl IndexOutOfRange
           else Inr (mkToken BOOL_LIT (take split word) ln cl,
                     l1\<lparr>pos := pos l1 - rewind, col := col l1 - int rewind\<rparr>)
      else case map_of keywordTable word of
             Some tt \<Rightarrow> Inr (mkToken tt word ln cl, l1)
           | None \<Rightarrow> Inr (mkToken IDENT word ln cl, l1))"

definition readOperatorOrDelim :: "int \<Rightarrow> int \<Rightarrow> Lexer \<Rightarrow> lex_result" where
  "readOperatorOrDelim ln cl l0 =
     (let (ch, l) = advance l0; p = peek l; l1 = skip l;
          ret = (\<lambda>tt lit l'. Inr (mkToken tt lit ln cl, l')) in
      if ch = rune_of CHR ''+'' then
        (if p = rune_of CHR ''+'' then
           (if peek l1 = rune_of CHR ''='' then ret APPENDEQ ''++='' (skip l1) else ret INC ''++'' l1)
         else if p = rune_of CHR ''='' then ret PLUSEQ ''+='' l1
         else ret PLUS ''+'' l)
      else if ch = rune_of CHR ''-'' then
        (if p = rune_of CHR ''>'' then ret ARROW ''->'' l1
         else if p = rune_of CHR ''-'' then ret INC ''--'' l1
         else if p = rune_of CHR ''='' then ret MINUSEQ ''-='' l1
         else ret MINUS ''-'' l)
      else if ch = rune_of CHR ''*'' then
        (if p = rune_of CHR ''='' then ret STAREQ ''*='' l1
         else ret STAR ''*'' l)
      else if ch = rune_of CHR ''/'' then
        (if p = rune_of CHR ''='' then ret SLASHEQ ''/='' l1
         else ret SLASH ''/'' l)
      else if ch = rune_of CHR ''%'' then
        (if p = rune_of CHR ''='' then ret PERCENTEQ ''%='' l1
         else ret PERCENT ''%'' l)
      else if ch = rune_of CHR ''='' then
        (if p = rune_of CHR ''='' then ret EQEQ ''=='' l1
         else ret ASSIGN ''='' l)
      else if ch = rune_of CHR ''!'' then
        (if p = rune_of CHR ''='' then ret NEQ ''!='' l1
         else ret NOT ''!'' l)
      else if ch = rune_of CHR ''<'' then
        (if p = rune_of CHR ''='' then ret LTEQ ''<='' l1
         else if p = rune_of CHR ''<'' then ret SHL ''<<'' l1
         else ret LT ''<'' l)
      else if ch = rune_of CHR ''>'' then
        (if p = rune_of CHR ''='' then ret GTEQ ''>='' l1
         else if p = rune_of CHR ''>'' then ret SHR ''>>'' l1
         else ret GT ''>'' l)
      else if ch = rune_of CHR ''&'' then
        (if p = rune_of CHR ''&'' then ret AND ''&&'' l1
         else ret AMP ''&'' l)
      else if ch = rune_of CHR ''|'' then
        (if p = rune_of CHR ''|'' then ret OR ''||'' l1
         else if p = rune_of CHR ''>'' then ret PIPE ''|>'' l1
         else ret BITOR ''|'' l)
      else if ch = rune_of CHR ''^'' then ret XOR ''^'' l
      else if ch = rune_of CHR ''~'' then ret TILDE ''~'' l
      else if ch = rune_of CHR ''?'' then ret QUESTION ''?'' l
      else if ch = rune_of CHR ''@'' then ret AT ''@'' l
      else if ch = rune_of CHR ''.'' then
        (if p = rune_of CHR ''.'' then
           (if peek l1 = rune_of CHR ''.'' then ret DOTDOTDOT ''...'' (skip l1) else ret RANGE ''..'' l1)
         else ret DOT ''.'' l)
      else if ch = rune_of CHR '':'' then
        (if p = rune_of CHR '':'' then ret DCOLON ''::'' l1
         else ret COLON '':'' l)
      else if ch = rune_of CHR ''('' then ret LPAREN ''('' l
      else if ch = rune_of CHR '')'' then ret RPAREN '')'' l
      else if ch = rune_of CHR ''{'' then ret LBRACE ''{'' l
      else if ch = rune_of CHR ''}'' then ret RBRACE ''}'' l
      else if ch = rune_of CHR ''['' then ret LBRACKET ''['' l
      else if ch = rune_of CHR '']'' then ret RBRACKET '']'' l
      else if ch = rune_of CHR '';'' then ret SEMI '';'' l
      else if ch = rune_of CHR '','' then ret COMMA '','' l
      else Inl (UnexpectedChar ch ln cl))"

section \<open>Layout and the driver\<close>

definition handleEOF :: "Lexer \<Rightarrow> lex_result" where
  "handleEOF l =
     (if length (indentStack l) > 1
      then let l1 = l\<lparr>indentStack := butlast (indentStack l)\<rparr> in
        Inr (mkToken DEDENT [] (line l1) (col l1), l1)
      else Inr (mkToken EOF [] (line l) (col l), l))"

text \<open>
  The loop that counts the leading white space of a line; it moves \<open>pos\<close> and \<open>col\<close> by hand.
\<close>

function countIndent :: "nat \<Rightarrow> Lexer \<Rightarrow> nat \<times> Lexer" where
  "countIndent indent l =
     (if hasMore l \<and> (src l ! pos l = rune_of CHR '' '' \<or> src l ! pos l = 9)
      then countIndent (if src l ! pos l = 9 then indent + 4 else indent + 1)
             (l\<lparr>pos := pos l + 1, col := col l + 1\<rparr>)
      else (indent, l))"
  by pat_completeness auto
termination
  by (relation "measure (\<lambda>(i, l). remaining l)") (auto simp: hasMore_def remaining_def)

declare countIndent.simps [simp del]

text \<open>The loop over a block comment, from the rune after its opening.\<close>

function skipBlockComment :: "Lexer \<Rightarrow> Lexer" where
  "skipBlockComment l =
     (if \<not> hasMore l then l
      else if peek l = rune_of CHR ''*'' \<and> peekAt 1 l = rune_of CHR ''/'' then skip (skip l)
      else skipBlockComment (skip (if peek l = 10 then l\<lparr>line := line l + 1, col := 0\<rparr> else l)))"
  by pat_completeness auto
termination
  by (relation "measure remaining") (auto simp: hasMore_def remaining_def advance_def Let_def)

declare skipBlockComment.simps [simp del]

datatype lex_step = Done lex_result | Again Lexer

text \<open>The updates \<open>handleLineStart\<close> makes once it knows that the line holds code.\<close>

definition enterLine :: "nat \<Rightarrow> Lexer \<Rightarrow> Lexer" where
  "enterLine indent l =
     l\<lparr>atLineStart := False, dedenting := False,
       lineIndent := (if dedenting l then lineIndent l else indent)\<rparr>"

definition handleLineStart :: "Lexer \<Rightarrow> lex_step" where
  "handleLineStart l0 =
     (let (indent, l) = (if dedenting l0 then (lineIndent l0, l0) else countIndent 0 l0) in
      if \<not> hasMore l then Done (handleEOF l)
      else if src l ! pos l = 10 then Again (skip l)
      else if src l ! pos l = rune_of CHR ''/'' \<and> pos l + 1 < length (src l) \<and>
              src l ! (pos l + 1) = rune_of CHR ''/'' then
        let l1 = skipWhile (\<lambda>r. r \<noteq> 10) l in Again (if hasMore l1 then skip l1 else l1)
      else if src l ! pos l = rune_of CHR ''/'' \<and> pos l + 1 < length (src l) \<and>
              src l ! (pos l + 1) = rune_of CHR ''*'' then
        Again (l\<lparr>atLineStart := False\<rparr>)
      else
        let l1 = enterLine indent l in
        if indentStack l1 = [] then Done (Inl IndexOutOfRange)
        else if indent > last (indentStack l1) then
          Done (Inr (mkToken INDENT [] (line l1) 1, l1\<lparr>indentStack := indentStack l1 @ [indent]\<rparr>))
        else if indent < last (indentStack l1) then
          let st = butlast (indentStack l1);
              l2 = l1\<lparr>indentStack := st\<rparr>;
              l3 = (if st = [] \<or> indent \<noteq> last st
                    then l2\<lparr>atLineStart := True, dedenting := True\<rparr> else l2) in
          Done (Inr (mkToken DEDENT [] (line l3) 1, l3))
        else Again l1)"

definition inlineToken :: "unicode_tables \<Rightarrow> Lexer \<Rightarrow> lex_step" where
  "inlineToken U l0 =
     (let l = skipWhile (\<lambda>r. r = rune_of CHR '' '' \<or> r = 9) l0; ch = peek l; ln = line l; cl = col l in
      if \<not> hasMore l then Done (handleEOF l)
      else if ch = 10 then
        let l1 = (skip l)\<lparr>atLineStart := True, lineIndent := 0\<rparr> in
        Done (Inr (mkToken NEWLINE [CHR 0x0A] (line l1 - 1) (col l1), l1))
      else if ch = rune_of CHR ''/'' \<and> peekAt 1 l = rune_of CHR ''/'' then Again (skipWhile (\<lambda>r. r \<noteq> 10) l)
      else if ch = rune_of CHR ''/'' \<and> peekAt 1 l = rune_of CHR ''*'' then
        Again (skipBlockComment (skip (skip l)))
      else if ch = rune_of CHR 0x22 then Done (readString ln cl l)
      else if ch = rune_of CHR 0x27 then Done (readSingleQuote U ln cl l)
      else if ch = rune_of CHR ''#'' then Done (readControlTag U ln cl l)
      else if ch = rune_of CHR 0x60 then Done (readBacktick ln cl l)
      else if ch = rune_of CHR ''.'' \<and> peekAt 1 l = rune_of CHR ''.'' \<and> peekAt 2 l = rune_of CHR ''.'' then
        Done (Inr (mkToken DOTDOTDOT ''...'' ln cl, skip (skip (skip l))))
      else if ch = rune_of CHR ''.'' \<and> peekAt 1 l = rune_of CHR ''.'' then
        Done (Inr (mkToken RANGE ''..'' ln cl, skip (skip l)))
      else if isDigit U ch \<or>
              (ch = rune_of CHR ''0'' \<and> (peekAt 1 l = rune_of CHR ''x'' \<or> peekAt 1 l = rune_of CHR ''X'')) then
        Done (readNumber U ln cl l)
      else if isLetter U ch \<or> ch = rune_of CHR ''_'' then Done (readIdentOrKeyword U ln cl l)
      else Done (readOperatorOrDelim ln cl l))"

definition tokenStep :: "unicode_tables \<Rightarrow> Lexer \<Rightarrow> lex_step" where
  "tokenStep U l = (if atLineStart l then handleLineStart l else inlineToken U l)"

section \<open>Forward motion\<close>

text \<open>
  Every scanning method leaves a state that some number of calls of \<open>advance\<close> reaches.  The
  facts the proofs need about motion (what \<open>advance\<close> cannot change, that \<open>pos\<close> only
  grows, how \<open>line\<close> counts newlines) are stated once, for \<open>reaches\<close>.
\<close>

definition reaches :: "Lexer \<Rightarrow> Lexer \<Rightarrow> bool" where
  "reaches l l' \<longleftrightarrow> (\<exists>k. l' = (skip ^^ k) l)"

definition frame :: "Lexer \<Rightarrow> Lexer \<Rightarrow> bool" where
  "frame l l' \<longleftrightarrow> src l' = src l \<and> indentStack l' = indentStack l \<and> tokens l' = tokens l \<and>
     atLineStart l' = atLineStart l \<and> dedenting l' = dedenting l \<and> lineIndent l' = lineIndent l"

lemma frame_refl [simp]: "frame l l"
  by (simp add: frame_def)

lemma frame_trans [trans]: "frame a b \<Longrightarrow> frame b c \<Longrightarrow> frame a c"
  by (simp add: frame_def)

lemma frame_skip [simp]: "frame l (skip l)"
  by (simp add: frame_def advance_def Let_def)

lemma reaches_refl [simp, intro]: "reaches l l"
  by (auto simp: reaches_def intro: exI [of _ 0])

lemma reaches_skip [simp, intro]: "reaches l l' \<Longrightarrow> reaches l (skip l')"
  by (auto simp: reaches_def intro: exI [of _ "Suc _"])

lemma reaches_trans: "reaches a b \<Longrightarrow> reaches b c \<Longrightarrow> reaches a c"
  by (auto simp: reaches_def) (metis comp_apply funpow_add)

lemma reaches_skip_start: "reaches (skip l) l' \<Longrightarrow> reaches l l'"
  by (rule reaches_trans [OF reaches_skip [OF reaches_refl]])

lemma reaches_frame: "reaches l l' \<Longrightarrow> frame l l'"
proof (clarsimp simp: reaches_def)
  fix k
  show "frame l ((skip ^^ k) l)"
    by (induction k) (auto intro: frame_trans)
qed

lemma reaches_remaining: "reaches l l' \<Longrightarrow> remaining l' \<le> remaining l"
proof (clarsimp simp: reaches_def)
  fix k
  show "remaining ((skip ^^ k) l) \<le> remaining l"
    by (induction k) (auto intro: order_trans [OF skip_remaining_le])
qed

lemma reaches_progress: "hasMore l \<Longrightarrow> reaches (skip l) l' \<Longrightarrow> remaining l' < remaining l"
  using reaches_remaining skip_remaining by fastforce

lemma advance_reaches: "advance l = (c, l') \<Longrightarrow> reaches l0 l \<Longrightarrow> reaches l0 l'"
  using reaches_skip [of l0 l] by simp

lemma scanWhile_unfold:
  "scanWhile P l =
     (if hasMore l \<and> P (peek l)
      then (fst (advance l) # fst (scanWhile P (skip l)), skipWhile P (skip l)) else ([], l))"
  by (subst scanWhile.simps) (simp add: split_beta Let_def)

lemma scanWhile_reaches [intro]: "reaches l0 l \<Longrightarrow> reaches l0 (skipWhile P l)"
proof (induction P l rule: scanWhile.induct)
  case (1 P l)
  note IH = "1.IH" [OF _ refl, of "fst (advance l)" "skip l"]
  show ?case
    using IH "1.prems" by (subst scanWhile_unfold) auto
qed

lemma scanWhile_reaches_eq: "scanWhile P l = (cs, l') \<Longrightarrow> reaches l0 l \<Longrightarrow> reaches l0 l'"
  using scanWhile_reaches [of l0 l P] by simp

lemma scanWhile_progress: "hasMore l \<Longrightarrow> P (peek l) \<Longrightarrow> reaches (skip l) (skipWhile P l)"
  by (subst scanWhile_unfold) auto

lemma nestedString_reaches: "reaches l0 l \<Longrightarrow> reaches l0 (snd (nestedString l))"
proof (induction l rule: nestedString.induct)
  case (1 l)
  note IH = "1.IH"(1) [OF _ _ _ refl _ _ refl, of "fst (advance l)" "skip l" "fst (advance (skip l))" "skip (skip l)"]
    "1.IH"(2) [OF _ _ _ refl, of "fst (advance l)" "skip l"]
    "1.IH"(3) [OF _ _ _ refl, of "fst (advance l)" "skip l"]
  show ?case
    using IH "1.prems" by (subst nestedString.simps) (auto simp: split_beta Let_def)
qed

lemma hexLoop_reaches: "reaches l0 l \<Longrightarrow> reaches l0 (snd (hexLoop n v l))"
  by (induction n v l rule: hexLoop.induct) (auto split: option.splits)

lemma readHexDigits_reaches: "readHexDigits n l = (r, l') \<Longrightarrow> reaches l0 l \<Longrightarrow> reaches l0 l'"
  using hexLoop_reaches [of l0 l n 0] by (simp add: readHexDigits_def)

lemma stringEscape_reaches: "stringEscape esc l = Inr (bs, l') \<Longrightarrow> reaches l0 l \<Longrightarrow> reaches l0 l'"
  by (auto simp: stringEscape_def readUnicodeEscape_def dest: readHexDigits_reaches
           split: option.splits if_splits prod.splits)

lemma charEscape_reaches: "charEscape esc l = Inr (b, l') \<Longrightarrow> reaches l0 l \<Longrightarrow> reaches l0 l'"
  by (auto simp: charEscape_def dest: readHexDigits_reaches split: option.splits if_splits prod.splits)

lemma stringLoop_reaches:
  "stringLoop d j sb l = Inr (bs, l') \<Longrightarrow> reaches l0 l \<Longrightarrow> reaches l0 l'"
proof (induction d j sb l rule: stringLoop.induct)
  case (1 d j sb l)
  note IH = 1(1-3) and eq = 1(4) and r = 1(5)
  have n: "reaches l0 (snd (nestedString (skip l)))"
    using r by (intro nestedString_reaches) auto
  have e: "stringEscape (fst (advance (skip l))) (skip (skip l)) = Inr (b, l3) \<Longrightarrow> reaches l0 l3" for b l3
    using r by (auto dest: stringEscape_reaches [where ?l0.0 = l0])
  note IH' = IH(1) [OF _ refl _ _ refl _ refl, of "fst (advance l)" "skip l" "fst (nestedString (skip l))"
      "snd (nestedString (skip l))"]
    IH(2) [OF _ refl _ _ _ refl refl _ refl, of "fst (advance (skip l))" "skip (skip l)"]
    IH(3) [OF _ refl _ _ _ refl refl _ refl, of "fst (advance l)" "skip l"]
  show ?case
    using eq r n e IH'
    by (subst (asm) stringLoop.simps) (auto simp: Let_def split_beta split: if_splits sum.splits)
qed

lemma backtickLoop_reaches: "reaches l0 l \<Longrightarrow> reaches l0 (snd (backtickLoop d l))"
proof (induction d l rule: backtickLoop.induct)
  case (1 d l)
  note IH = "1.IH" [OF _ refl _ _ refl, of "fst (advance l)" "skip l"]
  show ?case
    using IH "1.prems" by (subst backtickLoop.simps) (auto simp: split_beta Let_def)
qed

lemma consumeDigits_reaches: "reaches l0 l \<Longrightarrow> reaches l0 (snd (consumeDigits f s l))"
proof (induction f s l rule: consumeDigits.induct)
  case (1 f s l)
  note IH = "1.IH"(1) [OF _ _ refl, of "fst (advance l)" "skip l"] "1.IH"(2)
  show ?case
    using IH "1.prems" by (subst consumeDigits.simps, cases "f (peek l)") (auto simp: split_beta Let_def)
qed

lemma consumeDigits_progress:
  "hasMore l \<Longrightarrow> f (peek l) \<Longrightarrow> reaches (skip l) (snd (consumeDigits f s l))"
  by (subst consumeDigits.simps) (auto simp: split_beta Let_def intro: consumeDigits_reaches)

lemma suffixSegments_reaches:
  "suffixSegments U ln cl sb l = Inr (r, l') \<Longrightarrow> reaches l0 l \<Longrightarrow> reaches l0 l'"
proof (induction U ln cl sb l rule: suffixSegments.induct)
  case (1 U ln cl sb l)
  note IH = "1.IH" [OF _ refl _ _ refl _ refl, of "fst (scanWhile (isIdentRune U) l)" "skipWhile (isIdentRune U) l"
      "fst (advance (skipWhile (isIdentRune U) l))" "skip (skipWhile (isIdentRune U) l)"
      "fst (advance (skip (skipWhile (isIdentRune U) l)))" "skip (skip (skipWhile (isIdentRune U) l))"]
  show ?case
    using IH "1.prems"
    by (subst (asm) (2) suffixSegments.simps) (auto simp: Let_def split_beta split: if_splits)
qed

lemma countIndent_reaches: "reaches l0 l \<Longrightarrow> reaches l0 (snd (countIndent i l))"
proof (induction i l rule: countIndent.induct)
  case (1 i l)
  have eq: "l\<lparr>pos := pos l + 1, col := col l + 1\<rparr> = skip l"
    if "hasMore l" "src l ! pos l = rune_of CHR '' '' \<or> src l ! pos l = 9"
    using that by (auto simp: advance_def hasMore_def)
  show ?case
    using 1 eq by (subst countIndent.simps) auto
qed

lemma skipBlockComment_remaining: "remaining (skipBlockComment l) \<le> remaining l"
proof (induction l rule: skipBlockComment.induct)
  case (1 l)
  let ?l1 = "if peek l = 10 then l\<lparr>line := line l + 1, col := 0\<rparr> else l"
  have a: "remaining (skip ?l1) \<le> remaining l"
    by (rule order_trans [OF skip_remaining_le]) (simp add: remaining_def)
  have b: "remaining (skip (skip l)) \<le> remaining l"
    by (rule order_trans [OF skip_remaining_le skip_remaining_le])
  show ?case
    using 1 a b by (subst skipBlockComment.simps) (auto intro: order_trans)
qed

lemma skipBlockComment_frame: "frame l (skipBlockComment l)"
proof (induction l rule: skipBlockComment.induct)
  case (1 l)
  let ?l1 = "if peek l = 10 then l\<lparr>line := line l + 1, col := 0\<rparr> else l"
  have a: "frame l (skip ?l1)"
    by (rule frame_trans [OF _ frame_skip]) (simp add: frame_def)
  have b: "frame l (skip (skip l))"
    by (rule frame_trans [OF frame_skip frame_skip])
  show ?case
    using 1 a b by (subst skipBlockComment.simps) (auto intro: frame_trans)
qed

lemma peek_eq_nth: "hasMore l \<Longrightarrow> peek l = src l ! pos l"
  by (simp add: peek_def hasMore_def)

lemma tokenStep_Again:
  assumes "tokenStep U l = Again l'"
  shows "remaining l' < remaining l \<or> (remaining l' \<le> remaining l \<and> atLineStart l \<and> \<not> atLineStart l')"
proof (cases "atLineStart l")
  case True
  define m where "m = snd (if dedenting l then (lineIndent l, l) else countIndent 0 l)"
  have m: "reaches l m"
    using countIndent_reaches [of l l 0] by (auto simp: m_def)
  have le: "remaining m \<le> remaining l"
    using m by (rule reaches_remaining)
  have c: "hasMore m \<Longrightarrow> src m ! pos m \<noteq> 10 \<Longrightarrow> remaining (skipWhile (\<lambda>r. r \<noteq> 10) m) < remaining m"
    using reaches_progress [OF _ scanWhile_progress [of m "\<lambda>r. r \<noteq> 10"]] by (simp add: peek_eq_nth)
  have d: "remaining (skip (skipWhile (\<lambda>r. r \<noteq> 10) m)) \<le> remaining (skipWhile (\<lambda>r. r \<noteq> 10) m)"
    by (rule skip_remaining_le)
  have e: "remaining (enterLine i m) = remaining m" "\<not> atLineStart (enterLine i m)" for i
    by (simp_all add: enterLine_def)
  have "handleLineStart l = Again l'"
    using assms True by (simp add: tokenStep_def)
  then have "remaining l' < remaining m \<or> (remaining l' = remaining m \<and> \<not> atLineStart l')"
    using c d e skip_remaining [of m]
    by (simp add: handleLineStart_def Let_def split_beta m_def [symmetric] split: if_split_asm) force+
  with le True show ?thesis by auto
next
  case False
  define m where "m = skipWhile (\<lambda>r. r = 32 \<or> r = 9) l"
  have le: "remaining m \<le> remaining l"
    unfolding m_def by (rule scanWhile_remaining_le)
  have c: "hasMore m \<Longrightarrow> peek m \<noteq> 10 \<Longrightarrow> remaining (skipWhile (\<lambda>r. r \<noteq> 10) m) < remaining m"
    using reaches_progress [OF _ scanWhile_progress [of m "\<lambda>r. r \<noteq> 10"]] by simp
  have d: "hasMore m \<Longrightarrow> remaining (skipBlockComment (skip (skip m))) < remaining m"
    using skipBlockComment_remaining [of "skip (skip m)"] skip_remaining_le [of "skip m"]
      skip_remaining [of m] by linarith
  have "inlineToken U l = Again l'"
    using assms False by (simp add: tokenStep_def)
  then have "remaining l' < remaining m"
    using c d by (auto simp: inlineToken_def Let_def m_def [symmetric] split: if_splits)
  with le show ?thesis by simp
qed

text \<open>\<open>nextToken\<close>: run the step until it finishes.\<close>

function nextToken :: "unicode_tables \<Rightarrow> Lexer \<Rightarrow> lex_result" where
  "nextToken U l = (case tokenStep U l of Done r \<Rightarrow> r | Again l' \<Rightarrow> nextToken U l')"
  by pat_completeness auto
termination
proof (relation "measures [\<lambda>(U, l). remaining l, \<lambda>(U, l). if atLineStart l then 1 else 0]", simp)
  fix U l l'
  assume "tokenStep U l = Again l'"
  from tokenStep_Again [OF this]
  show "((U, l'), (U, l)) \<in> measures [\<lambda>(U, l). remaining l, \<lambda>(U, l). if atLineStart l then 1 else 0]"
    by auto
qed

declare nextToken.simps [simp del]

text \<open>
  The body of the \<open>Tokenize\<close> loop after \<open>nextToken\<close>: append the token, then pick up a suffix
  macro that follows a literal.
\<close>

definition emitToken :: "unicode_tables \<Rightarrow> Token \<Rightarrow> Lexer \<Rightarrow> lex_error + Lexer" where
  "emitToken U tok l0 =
     (let l = l0\<lparr>tokens := tokens l0 @ [tok]\<rparr> in
      if suffixCarrier (tok_Type tok) \<and> \<not> isDegenerateNumericLit tok \<and>
         peek l = rune_of CHR ''_'' \<and> isSuffixStart U (peekAt 1 l)
      then case readSuffixIdent U (line l) (col l) l of
             Inl e \<Rightarrow> Inl e
           | Inr (sufTok, l1) \<Rightarrow> Inr (l1\<lparr>tokens := tokens l1 @ [sufTok]\<rparr>)
      else Inr l)"

partial_function (option) tokenizeLoop ::
    "unicode_tables \<Rightarrow> Lexer \<Rightarrow> (lex_error + Token list) option" where
  "tokenizeLoop U l =
     (case nextToken U l of
        Inl e \<Rightarrow> Some (Inl e)
      | Inr (tok, l1) \<Rightarrow>
          (case emitToken U tok l1 of
             Inl e \<Rightarrow> Some (Inl e)
           | Inr l2 \<Rightarrow> if tok_Type tok = EOF then Some (Inr (tokens l2)) else tokenizeLoop U l2))"

definition Tokenize :: "unicode_tables \<Rightarrow> rune list \<Rightarrow> (lex_error + Token list) option" where
  "Tokenize U s = tokenizeLoop U (New s)"
end
