(* ===== verification/TinLexerCorrect.thy ===== *)
theory TinLexerCorrect
  imports TinLexer
begin

text \<open>
  Correctness of the lexer's driver.

  \<^item> \<open>scans\<close> is the contract of a scanning method; every one of them satisfies it.
  \<^item> \<open>inline_outcome\<close> and \<open>line_start_outcome\<close> list what one step of \<open>nextToken\<close> can do; the
    proofs about the driver go by cases on them.
  \<^item> The locale \<open>lexer_invariant\<close> says what a property of the scanner state has to satisfy to be
    kept by every operation; it is interpreted for the indentation stack and for the source text.
  \<^item> The theorems are about \<open>Tokenize\<close>: the token stream is well nested, the lexer returns on ASCII
    text, and it does not on some other text.
\<close>

section \<open>What a scanning method returns\<close>

text \<open>
  A scanning method entered at a rune of the source returns a token that is not a layout
  token and leaves a state that \<open>advance\<close> reaches after at least one rune, or it returns an
  error value; it does not panic.
\<close>

definition layout_type :: "TokenType \<Rightarrow> bool" where
  "layout_type tt \<longleftrightarrow> tt = NEWLINE \<or> tt = INDENT \<or> tt = DEDENT \<or> tt = EOF"

definition scans :: "Lexer \<Rightarrow> lex_result \<Rightarrow> bool" where
  "scans l r \<longleftrightarrow> r \<noteq> Inl IndexOutOfRange \<and>
     (\<forall>t l'. r = Inr (t, l') \<longrightarrow> \<not> layout_type (tok_Type t) \<and> reaches (skip l) l')"

named_theorems scans_intros \<open>the scanning methods satisfy \<open>scans\<close>\<close>

lemma scansI: "\<not> layout_type (tok_Type t) \<Longrightarrow> reaches (skip l) l' \<Longrightarrow> scans l (Inr (t, l'))"
  by (simp add: scans_def)

lemma scans_Inl: "e \<noteq> IndexOutOfRange \<Longrightarrow> scans l (Inl e)"
  by (simp add: scans_def)

lemma stringEscape_error: "stringEscape esc l = Inl e \<Longrightarrow> e \<noteq> IndexOutOfRange"
  by (auto simp: stringEscape_def readUnicodeEscape_def split: option.splits if_splits prod.splits)

lemma charEscape_error: "charEscape esc l = Inl e \<Longrightarrow> e \<noteq> IndexOutOfRange"
  by (auto simp: charEscape_def split: option.splits if_splits prod.splits)

lemma stringLoop_no_panic: "stringLoop d j sb l \<noteq> Inl IndexOutOfRange"
proof (induction d j sb l rule: stringLoop.induct)
  case (1 d j sb l)
  note IH = "1.IH"(1) [OF _ refl _ _ refl _ refl, of "fst (advance l)" "skip l" "fst (nestedString (skip l))"
      "snd (nestedString (skip l))"]
    "1.IH"(3) [OF _ refl _ _ _ refl refl _ refl, of "fst (advance l)" "skip l"]
  note esc = "1.IH"(2) [OF _ refl _ _ _ refl refl _ refl _ _ refl, of "fst (advance (skip l))" "skip (skip l)"]
  show ?case
    using IH esc stringEscape_error
    by (subst stringLoop.simps) (auto simp: Let_def split_beta split: sum.splits prod.splits)
qed

lemma stringLoop_error: "stringLoop d j sb l = Inl e \<Longrightarrow> e \<noteq> IndexOutOfRange"
  using stringLoop_no_panic by metis

lemma readString_scans [scans_intros]: "scans l (readString ln cl l)"
  by (auto simp: scans_def readString_def layout_type_def
           dest: stringLoop_reaches [OF _ reaches_refl] stringLoop_error split: sum.splits prod.splits)

lemma closeQuote_reaches: "reaches l0 l \<Longrightarrow> reaches l0 (closeQuote l)"
  by (simp add: closeQuote_def)

lemma readSingleQuote_scans [scans_intros]: "scans l (readSingleQuote U ln cl l)"
proof -
  let ?l = "skip l"
  have esc: "reaches ?l (closeQuote l2)" if "charEscape e (skip (skip ?l)) = Inr (b, l2)" for e b l2
    using that by (intro closeQuote_reaches) (auto elim: charEscape_reaches)
  show ?thesis
    by (auto simp: scans_def readSingleQuote_def Let_def split_beta layout_type_def
             intro: closeQuote_reaches esc dest: charEscape_error split: if_splits sum.splits)
qed

lemma readControlTag_scans [scans_intros]: "scans l (readControlTag U ln cl l)"
  by (auto simp: scans_def readControlTag_def Let_def split_beta layout_type_def split: if_splits)

lemma readBacktick_scans [scans_intros]: "scans l (readBacktick ln cl l)"
  by (auto simp: scans_def readBacktick_def Let_def split_beta layout_type_def
           intro: backtickLoop_reaches split: if_splits)

lemma readRadix_scans: "scans l (readRadix f ln cl l)"
  by (auto simp: scans_def readRadix_def Let_def split_beta layout_type_def intro: consumeDigits_reaches)

lemma readFraction_reaches: "reaches l0 l \<Longrightarrow> reaches l0 (snd (snd (readFraction U l)))"
  by (auto simp: readFraction_def Let_def split_beta intro: consumeDigits_reaches)

lemma readExponent_reaches: "reaches l0 l \<Longrightarrow> reaches l0 (snd (snd (readExponent U l)))"
  by (auto simp: readExponent_def Let_def split_beta intro: consumeDigits_reaches)

lemma readNumber_scans [scans_intros]:
  assumes "hasMore l" and "isDigit U (peek l)"
  shows "scans l (readNumber U ln cl l)"
proof -
  have "reaches (skip l) (snd (snd (readExponent U (snd (snd (readFraction U
          (snd (consumeDigits (isDigit U) False l))))))))"
    by (intro readExponent_reaches readFraction_reaches consumeDigits_progress assms)
  then show ?thesis
    using readRadix_scans by (auto simp: readNumber_def Let_def split_beta layout_type_def intro: scansI)
qed

lemma scans_if:
  "(b \<Longrightarrow> scans l x) \<Longrightarrow> (\<not> b \<Longrightarrow> scans l y) \<Longrightarrow> scans l (if b then x else y)"
  by simp

lemma readOperatorOrDelim_scans [scans_intros]: "scans l (readOperatorOrDelim ln cl l)"
  unfolding readOperatorOrDelim_def Let_def split_beta
  by (intro scans_if scansI scans_Inl reaches_refl reaches_skip) (simp_all add: layout_type_def)

subsection \<open>Identifiers and the rewind\<close>

lemma fst_advance: "hasMore l \<Longrightarrow> fst (advance l) = peek l"
  by (auto simp: hasMore_def advance_def peek_def Let_def)

lemma skip_not_newline:
  "hasMore l \<Longrightarrow> peek l \<noteq> 10 \<Longrightarrow> skip l = l\<lparr>pos := Suc (pos l), col := col l + 1\<rparr>"
  by (auto simp: hasMore_def advance_def peek_def Let_def)

lemma drop_peek: "hasMore l \<Longrightarrow> drop (pos l) (src l) = peek l # drop (Suc (pos l)) (src l)"
  by (simp add: hasMore_def peek_def Cons_nth_drop_Suc)

lemma src_skip [simp]: "src (skip l) = src l"
  by (simp add: advance_def Let_def)

lemma pos_skip: "pos (skip l) = (if hasMore l then Suc (pos l) else pos l)"
  by (simp add: advance_def hasMore_def Let_def)

text \<open>\<open>scanWhile\<close> reads the longest prefix of the remaining input that satisfies the predicate.\<close>

lemma scan_induct [case_names step]:
  assumes "\<And>l. (hasMore l \<Longrightarrow> Q (skip l)) \<Longrightarrow> Q l"
  shows "Q l"
proof (induction l rule: measure_induct_rule [of remaining])
  case (less l)
  show ?case by (rule assms) (rule less.IH, rule skip_remaining)
qed

lemma scanWhile_runes: "fst (scanWhile P l) = takeWhile P (drop (pos l) (src l))"
proof (induction l rule: scan_induct)
  case (step l)
  show ?case
  proof (cases "hasMore l")
    case True
    with step have IH: "fst (scanWhile P (skip l)) = takeWhile P (drop (Suc (pos l)) (src l))"
      by (simp add: pos_skip)
    show ?thesis
      using True IH by (subst scanWhile_unfold) (simp add: drop_peek fst_advance)
  next
    case False
    then show ?thesis
      by (subst scanWhile_unfold) (simp add: hasMore_def)
  qed
qed

lemma scanWhile_line:
  assumes "\<not> P 10"
  shows "skipWhile P l = l\<lparr>pos := pos l + length (fst (scanWhile P l)),
                           col := col l + int (length (fst (scanWhile P l)))\<rparr>"
proof (induction l rule: scan_induct)
  case (step l)
  show ?case
  proof (cases "hasMore l \<and> P (peek l)")
    case True
    then have "peek l \<noteq> 10" using assms by auto
    with True have sk: "skip l = l\<lparr>pos := Suc (pos l), col := col l + 1\<rparr>"
      by (intro skip_not_newline) auto
    from step True have IH: "skipWhile P (skip l) = (skip l)\<lparr>pos := pos (skip l) + length (fst (scanWhile P (skip l))),
                           col := col (skip l) + int (length (fst (scanWhile P (skip l))))\<rparr>"
      by blast
    have a: "fst (scanWhile P l) = fst (advance l) # fst (scanWhile P (skip l))"
      and b: "skipWhile P l = skipWhile P (skip l)"
      using True by (subst scanWhile_unfold; simp)+
    show ?thesis
      unfolding a b IH by (simp add: sk)
  next
    case False
    then show ?thesis
      by (subst (1 2 3) scanWhile_unfold) auto
  qed
qed

lemma funpow_skip_line:
  "k \<le> length (fst (scanWhile P l)) \<Longrightarrow> \<not> P 10 \<Longrightarrow>
   (skip ^^ k) l = l\<lparr>pos := pos l + k, col := col l + int k\<rparr>"
proof (induction k arbitrary: l)
  case 0
  then show ?case by simp
next
  case (Suc k)
  then have c: "hasMore l \<and> P (peek l)"
    by (subst (asm) scanWhile_unfold) (auto split: if_splits)
  then have n: "peek l \<noteq> 10" using Suc.prems by auto
  have "k \<le> length (fst (scanWhile P (skip l)))"
    using Suc.prems c by (subst (asm) scanWhile_unfold) auto
  from Suc.IH [OF this Suc.prems(2)] show ?case
    using skip_not_newline [OF _ n] c by (simp del: funpow.simps add: funpow_Suc_right)
qed

lemma hasPrefix_length: "hasPrefix w p \<Longrightarrow> length p \<le> length w"
  by (metis hasPrefix_def length_take min.cobounded1)

lemma keywordTable_types: "map_of keywordTable w = Some tt \<Longrightarrow> \<not> layout_type tt"
proof -
  have "list_all (\<lambda>(w, tt). tt < 62) keywordTable"
    by (simp add: keywordTable_def)
  then show "map_of keywordTable w = Some tt \<Longrightarrow> \<not> layout_type tt"
    by (auto dest!: map_of_SomeD simp: list_all_iff layout_type_def)
qed

text \<open>The frame of an identifier needs no hypothesis; that it makes progress needs ASCII text.\<close>

lemma readIdentOrKeyword_frame:
  assumes "readIdentOrKeyword U ln cl l = Inr (t, l')"
  shows "\<not> layout_type (tok_Type t) \<and> frame l l'"
proof -
  have "frame l (skipWhile (isIdentRune U) l)"
    by (intro reaches_frame scanWhile_reaches reaches_refl)
  with assms show ?thesis
    by (auto simp: readIdentOrKeyword_def Let_def split_beta frame_def layout_type_def
             dest: keywordTable_types split: if_splits option.splits)
qed

lemma scanWhile_ascii: "list_all ascii (src l) \<Longrightarrow> list_all ascii (fst (scanWhile P l))"
  unfolding scanWhile_runes
  by (auto simp: list_all_iff dest: set_takeWhileD in_set_dropD)

lemma reaches_skip_funpow: "0 < k \<Longrightarrow> reaches (skip l) ((skip ^^ k) l)"
proof -
  assume "0 < k"
  then obtain j where "k = Suc j" by (cases k) auto
  then have "(skip ^^ k) l = (skip ^^ j) (skip l)" by (simp only: funpow_Suc_right o_apply)
  then show ?thesis unfolding reaches_def by blast
qed

lemma readIdentOrKeyword_scans [scans_intros]:
  assumes ascii: "list_all ascii (src l)" and more: "hasMore l" and start: "isIdentRune U (peek l)"
  shows "scans l (readIdentOrKeyword U ln cl l)"
proof -
  define rs where "rs = fst (scanWhile (isIdentRune U) l)"
  define l1 where "l1 = skipWhile (isIdentRune U) l"
  define w where "w = utf8s rs"
  define sp where "sp = boolSplit w"
  have len: "length w = length rs"
    using scanWhile_ascii [OF ascii] by (simp add: w_def rs_def utf8s_ascii)
  have l1: "l1 = l\<lparr>pos := pos l + length rs, col := col l + int (length rs)\<rparr>"
    unfolding l1_def rs_def by (rule scanWhile_line) simp
  have plain: "reaches (skip l) l1"
    unfolding l1_def using more start by (rule scanWhile_progress)
  have rewound: "l1\<lparr>pos := pos l1 - (length w - sp), col := col l1 - int (length w - sp)\<rparr> = (skip ^^ sp) l"
    if "sp \<le> length w"
    using that len funpow_skip_line [of sp "isIdentRune U" l] by (simp add: l1 rs_def)
  have safe: "length w - sp \<le> pos l1"
    using len by (simp add: l1)
  have "readIdentOrKeyword U ln cl l \<noteq> Inl IndexOutOfRange"
    using safe by (auto simp: readIdentOrKeyword_def Let_def split_beta sp_def w_def rs_def l1_def
                        split: if_splits option.splits)
  moreover have "\<not> layout_type (tok_Type t) \<and> reaches (skip l) l'"
    if eq: "readIdentOrKeyword U ln cl l = Inr (t, l')" for t l'
  proof -
    have "l' = l1 \<or> (sp \<le> length w \<and> l' = l1\<lparr>pos := pos l1 - (length w - sp), col := col l1 - int (length w - sp)\<rparr>)"
      using eq by (auto simp: readIdentOrKeyword_def Let_def split_beta sp_def w_def rs_def l1_def
                        split: if_splits option.splits)
    then have "reaches (skip l) l'"
      using plain rewound reaches_skip_funpow [of sp l] by (auto simp: sp_def boolSplit_def)
    with readIdentOrKeyword_frame [OF eq] show ?thesis
      by simp
  qed
  ultimately show ?thesis by (simp add: scans_def)
qed

section \<open>The outcomes of one step\<close>

text \<open>
  What the two step functions can do, as inductive predicates: the proofs about layout,
  progress and invariants are case analyses over them.  In \<open>inline_outcome\<close>, \<open>m\<close> is the
  state after the leading white space; in \<open>line_start_outcome\<close>, \<open>l\<close> is the state at the
  start of the line and \<open>m\<close> one that \<open>advance\<close> reaches from it.
\<close>

definition at_block_comment :: "Lexer \<Rightarrow> bool" where
  "at_block_comment m \<longleftrightarrow> peek m = rune_of CHR ''/'' \<and> peekAt 1 m = rune_of CHR ''*''"

inductive inline_outcome :: "unicode_tables \<Rightarrow> Lexer \<Rightarrow> lex_step \<Rightarrow> bool" for U m where
  eof: "\<not> hasMore m \<Longrightarrow> inline_outcome U m (Done (handleEOF m))"
| newline: "hasMore m \<Longrightarrow> tok_Type t = NEWLINE \<Longrightarrow>
    inline_outcome U m (Done (Inr (t, (skip m)\<lparr>atLineStart := True, lineIndent := 0\<rparr>)))"
| scan: "hasMore m \<Longrightarrow> scans m r \<Longrightarrow> inline_outcome U m (Done r)"
| ident: "hasMore m \<Longrightarrow> isIdentRune U (peek m) \<Longrightarrow>
    inline_outcome U m (Done (readIdentOrKeyword U ln cl m))"
| again: "frame m l' \<Longrightarrow> remaining l' \<le> remaining m \<Longrightarrow> reaches m l' \<or> at_block_comment m \<Longrightarrow>
    inline_outcome U m (Again l')"

inductive line_start_outcome :: "Lexer \<Rightarrow> lex_step \<Rightarrow> bool" for l where
  eof: "reaches l m \<Longrightarrow> \<not> hasMore m \<Longrightarrow> line_start_outcome l (Done (handleEOF m))"
| panic: "indentStack l = [] \<Longrightarrow> line_start_outcome l (Done (Inl IndexOutOfRange))"
| indent: "reaches l m \<Longrightarrow> tok_Type t = INDENT \<Longrightarrow> last (indentStack l) < i \<Longrightarrow>
    line_start_outcome l (Done (Inr (t, (enterLine n m)\<lparr>indentStack := indentStack l @ [i]\<rparr>)))"
| dedent: "reaches l m \<Longrightarrow> tok_Type t = DEDENT \<Longrightarrow> i < last (indentStack l) \<Longrightarrow>
    line_start_outcome l (Done (Inr (t, (enterLine n m)\<lparr>indentStack := butlast (indentStack l)\<rparr>)))"
| dedent_more: "reaches l m \<Longrightarrow> tok_Type t = DEDENT \<Longrightarrow> i < last (indentStack l) \<Longrightarrow>
    line_start_outcome l (Done (Inr (t, (enterLine n m)\<lparr>indentStack := butlast (indentStack l),
                                            atLineStart := True, dedenting := True\<rparr>)))"
| moved: "reaches l l' \<Longrightarrow> line_start_outcome l (Again l')"
| comment: "reaches l m \<Longrightarrow> line_start_outcome l (Again (m\<lparr>atLineStart := False\<rparr>))"
| code: "reaches l m \<Longrightarrow> line_start_outcome l (Again (enterLine n m))"

lemma inline_outcome_if:
  "(b \<Longrightarrow> inline_outcome U m x) \<Longrightarrow> (\<not> b \<Longrightarrow> inline_outcome U m y) \<Longrightarrow>
   inline_outcome U m (if b then x else y)"
  by simp

lemma line_start_outcome_if:
  "(b \<Longrightarrow> line_start_outcome m x) \<Longrightarrow> (\<not> b \<Longrightarrow> line_start_outcome m y) \<Longrightarrow>
   line_start_outcome m (if b then x else y)"
  by simp

lemma enterLine_simps [simp]:
  "indentStack (enterLine n l) = indentStack l" "line (enterLine n l) = line l" "src (enterLine n l) = src l"
  "pos (enterLine n l) = pos l" "tokens (enterLine n l) = tokens l" "\<not> atLineStart (enterLine n l)"
  "remaining (enterLine n l) = remaining l"
  by (simp_all add: enterLine_def)

lemma inlineToken_outcome: "\<exists>m. reaches l m \<and> inline_outcome U m (inlineToken U l)"
proof -
  define m where "m = skipWhile (\<lambda>r. r = rune_of CHR '' '' \<or> r = 9) l"
  have m: "reaches l m" by (auto simp: m_def)
  have r2: "reaches m (skip (skip m))" by auto
  have comment: "frame m (skipBlockComment (skip (skip m)))"
    by (rule frame_trans [OF reaches_frame [OF r2] skipBlockComment_frame])
  have comment': "remaining (skipBlockComment (skip (skip m))) \<le> remaining m"
    by (rule order_trans [OF skipBlockComment_remaining reaches_remaining [OF r2]])
  have line_comment: "frame m (skipWhile (\<lambda>r. r \<noteq> 10) m)"
    "remaining (skipWhile (\<lambda>r. r \<noteq> 10) m) \<le> remaining m"
    "reaches m (skipWhile (\<lambda>r. r \<noteq> 10) m) \<or> at_block_comment m"
    by (auto intro: reaches_frame reaches_remaining)
  have block: "reaches m l' \<or> at_block_comment m"
    if "peek m = rune_of CHR ''/'' \<and> peekAt 1 m = rune_of CHR ''*''" for l'
    using that by (simp add: at_block_comment_def)
  have digit: "isDigit U (peek m)" if "isDigit U (peek m) \<or> (peek m = rune_of CHR ''0'' \<and> Q)" for Q
    using that by (auto simp: isDigit_def)
  have id: "isIdentRune U (peek m)" if "isLetter U (peek m) \<or> peek m = rune_of CHR ''_''"
    using that by (auto simp: isIdentRune_def)
  have "inline_outcome U m (inlineToken U l)"
    unfolding inlineToken_def Let_def m_def [symmetric]
    by (intro inline_outcome_if inline_outcome.newline inline_outcome.eof comment comment' line_comment block
        inline_outcome.again inline_outcome.ident id inline_outcome.scan scans_intros digit scansI reaches_refl reaches_skip)
       (simp_all add: layout_type_def)
  with m show ?thesis by blast
qed

lemma handleLineStart_outcome: "line_start_outcome l (handleLineStart l)"
proof -
  define m where "m = snd (if dedenting l then (lineIndent l, l) else countIndent 0 l)"
  define i where "i = fst (if dedenting l then (lineIndent l, l) else countIndent 0 l)"
  have m: "reaches l m"
    using countIndent_reaches [of l l 0] by (auto simp: m_def)
  have st: "indentStack (enterLine i m) = indentStack l"
    using reaches_frame [OF m] by (simp add: frame_def)
  have dedent: "line_start_outcome l (Done (Inr (mkToken DEDENT [] ln 1,
      if c then (enterLine i m)\<lparr>indentStack := butlast (indentStack l), atLineStart := True, dedenting := True\<rparr>
      else (enterLine i m)\<lparr>indentStack := butlast (indentStack l)\<rparr>)))" if "i < last (indentStack l)" for c ln
    using line_start_outcome.dedent [OF m _ that] line_start_outcome.dedent_more [OF m _ that] by simp
  have comment: "line_start_outcome l (Again (if c then skip (skipWhile P m) else skipWhile P m))" for c P
    using m by (auto intro: line_start_outcome.moved)
  show ?thesis
    unfolding handleLineStart_def Let_def split_beta m_def [symmetric] i_def [symmetric] st
    by (intro line_start_outcome_if dedent comment line_start_outcome.eof line_start_outcome.panic
        line_start_outcome.indent line_start_outcome.comment line_start_outcome.code
        line_start_outcome.moved reaches_skip m)
       (assumption | simp)+
qed

section \<open>Invariants of the scanner state\<close>

text \<open>
  What a property of the scanner state must satisfy to survive every operation of the
  lexer: motion inside the source (anything that keeps the \<open>frame\<close>), the layout flags, a push
  of a deeper indentation, a pop of a stack with more than one entry, and a change of the
  token list.  The lexer itself needs the stack to be non-empty with 0 at its bottom.
\<close>

locale lexer_invariant =
  fixes I :: "Lexer \<Rightarrow> bool"
  assumes I_frame: "frame l l' \<Longrightarrow> I l \<Longrightarrow> I l'"
    and I_flags: "I l \<Longrightarrow> I (l\<lparr>atLineStart := a, dedenting := d, lineIndent := n\<rparr>)"
    and I_push: "I l \<Longrightarrow> last (indentStack l) < n \<Longrightarrow> I (l\<lparr>indentStack := indentStack l @ [n]\<rparr>)"
    and I_pop: "I l \<Longrightarrow> 1 < length (indentStack l) \<Longrightarrow> I (l\<lparr>indentStack := butlast (indentStack l)\<rparr>)"
    and I_tokens: "I l \<Longrightarrow> I (l\<lparr>tokens := ts\<rparr>)"
    and I_bottom: "I l \<Longrightarrow> indentStack l \<noteq> [] \<and> hd (indentStack l) = 0"
begin

lemma I_reaches: "reaches l l' \<Longrightarrow> I l \<Longrightarrow> I l'"
  by (rule I_frame [OF reaches_frame])

lemma I_atLineStart: "I l \<Longrightarrow> I (l\<lparr>atLineStart := a\<rparr>)"
  using I_flags [where l = l and a = a and d = "dedenting l" and n = "lineIndent l"] by simp

lemma I_newline: "I l \<Longrightarrow> I (l\<lparr>atLineStart := a, lineIndent := n\<rparr>)"
  using I_flags [where l = l and a = a and d = "dedenting l" and n = n] by simp

lemma I_dedenting: "I l \<Longrightarrow> I (l\<lparr>atLineStart := a, dedenting := d\<rparr>)"
  using I_flags [where l = l and a = a and d = d and n = "lineIndent l"] by simp

lemma pop_length: "I l \<Longrightarrow> n < last (indentStack l) \<Longrightarrow> 1 < length (indentStack l)"
  using I_bottom [of l] by (cases "indentStack l" rule: rev_cases) (auto simp: Suc_lessI hd_append split: if_splits)

lemma handleEOF_I: "I l \<Longrightarrow> handleEOF l = Inr (t, l') \<Longrightarrow> I l'"
  by (auto simp: handleEOF_def Let_def I_pop split: if_splits)

lemma I_enterLine: "I l \<Longrightarrow> I (enterLine n l)"
  unfolding enterLine_def by (rule I_flags)

lemma handleLineStart_I:
  assumes "I l"
  shows "line_start_outcome l (Done (Inr (t, l'))) \<Longrightarrow> I l'"
    and "line_start_outcome l (Again l') \<Longrightarrow> I l'"
proof -
  have m: "I m" "indentStack m = indentStack l" if "reaches l m" for m
    using that assms I_reaches reaches_frame [OF that] by (auto simp: frame_def)
  have pop: "I ((enterLine n m)\<lparr>indentStack := butlast (indentStack l)\<rparr>)"
    if "reaches l m" "i < last (indentStack l)" for m n i
    using I_pop [OF I_enterLine [OF m(1) [OF that(1)]]] pop_length [OF assms that(2)] m(2) [OF that(1)] by simp
  show "line_start_outcome l (Done (Inr (t, l'))) \<Longrightarrow> I l'"
  proof (induction "Done (Inr (t, l'))" rule: line_start_outcome.induct)
    case (eof m)
    then show ?case by (metis handleEOF_I m(1))
  next
    case (indent m i n)
    then show ?case
      using I_push [OF I_enterLine [OF m(1) [OF indent(1)]], where n = i] m(2) [OF indent(1)] by auto
  next
    case (dedent m i n)
    then show ?case using pop by blast
  next
    case (dedent_more m i n)
    then show ?case using I_dedenting [OF pop [of m i n]] by auto
  qed
  show "line_start_outcome l (Again l') \<Longrightarrow> I l'"
    by (induction "Again l'" rule: line_start_outcome.induct) (auto simp: m I_atLineStart I_enterLine)
qed

lemma inlineToken_I:
  assumes "I m"
  shows "inline_outcome U m (Done (Inr (t, l'))) \<Longrightarrow> I l'"
    and "inline_outcome U m (Again l') \<Longrightarrow> I l'"
proof -
  show "inline_outcome U m (Done (Inr (t, l'))) \<Longrightarrow> I l'"
  proof (induction "Done (Inr (t, l'))" rule: inline_outcome.induct)
    case eof
    then show ?case by (metis handleEOF_I assms)
  next
    case newline
    then show ?case using I_newline [OF I_frame [OF frame_skip assms]] by auto
  next
    case scan
    then show ?case using I_reaches [OF reaches_skip_start assms] by (auto simp: scans_def)
  next
    case ident
    then show ?case using I_frame [OF _ assms] readIdentOrKeyword_frame by metis
  qed
  show "inline_outcome U m (Again l') \<Longrightarrow> I l'"
    by (induction "Again l'" rule: inline_outcome.induct) (rule I_frame [OF _ assms])
qed

lemma tokenStep_I:
  assumes "I l"
  shows "tokenStep U l = Done (Inr (t, l')) \<Longrightarrow> I l'"
    and "tokenStep U l = Again l' \<Longrightarrow> I l'"
proof -
  obtain m where m: "reaches l m" "inline_outcome U m (inlineToken U l)"
    using inlineToken_outcome by blast
  have "I m" using m(1) assms by (rule I_reaches)
  note inl = inlineToken_I [OF this, of U]
  show "tokenStep U l = Done (Inr (t, l')) \<Longrightarrow> I l'" "tokenStep U l = Again l' \<Longrightarrow> I l'"
    using inl m(2) handleLineStart_I [OF assms] handleLineStart_outcome [of l]
    by (auto simp: tokenStep_def split: if_splits)
qed

lemma nextToken_I: "I l \<Longrightarrow> nextToken U l = Inr (t, l') \<Longrightarrow> I l'"
proof (induction U l rule: nextToken.induct)
  case (1 U l)
  show ?case
  proof (cases "tokenStep U l")
    case (Done r)
    then have "tokenStep U l = Done (Inr (t, l'))"
      using "1.prems"(2) by (subst (asm) nextToken.simps) simp
    then show ?thesis by (rule tokenStep_I(1) [OF "1.prems"(1)])
  next
    case (Again l1)
    moreover from Again have "nextToken U l1 = Inr (t, l')"
      using "1.prems"(2) by (subst (asm) nextToken.simps) simp
    ultimately show ?thesis
      using "1.IH" tokenStep_I(2) [OF "1.prems"(1)] by blast
  qed
qed

lemma emitToken_I: "I l \<Longrightarrow> emitToken U t l = Inr l' \<Longrightarrow> I l'"
proof -
  assume l: "I l" and eq: "emitToken U t l = Inr l'"
  let ?l = "l\<lparr>tokens := tokens l @ [t]\<rparr>"
  have l1: "I ?l" using l by (rule I_tokens)
  have "I l2" if "readSuffixIdent U ln cl ?l = Inr (s, l2)" for s l2 ln cl
  proof -
    have "reaches ?l l2"
      using that suffixSegments_reaches [of U ln cl "[]" "skip ?l" _ _ ?l]
      by (auto simp: readSuffixIdent_def Let_def split_beta split: sum.splits if_splits)
    then show ?thesis using l1 by (rule I_reaches)
  qed
  with l1 eq show "I l'"
    by (auto simp: emitToken_def Let_def intro: I_tokens split: if_splits sum.splits)
qed

end

section \<open>The indentation stack\<close>

text \<open>The stack is never empty, has 0 at its bottom and grows strictly towards its top.\<close>

definition stack_ok :: "Lexer \<Rightarrow> bool" where
  "stack_ok l \<longleftrightarrow> indentStack l \<noteq> [] \<and> hd (indentStack l) = 0 \<and> sorted_wrt (<) (indentStack l)"

lemma sorted_wrt_snoc_last: "sorted_wrt (<) xs \<Longrightarrow> xs \<noteq> [] \<Longrightarrow> last xs < (n :: nat) \<Longrightarrow> sorted_wrt (<) (xs @ [n])"
proof (induction xs)
  case (Cons x xs)
  then show ?case by (cases xs) (auto dest: last_in_set)
qed simp

lemma sorted_wrt_butlast: "sorted_wrt P xs \<Longrightarrow> sorted_wrt P (butlast xs)"
  by (induction xs) (auto dest: in_set_butlastD)

interpretation stack: lexer_invariant stack_ok
proof
  fix l :: Lexer
  assume ok: "stack_ok l"
  show "stack_ok (l\<lparr>indentStack := butlast (indentStack l)\<rparr>)" if "1 < length (indentStack l)"
    using ok that by (cases "indentStack l") (auto simp: stack_ok_def dest: sorted_wrt_butlast in_set_butlastD)
qed (auto simp: stack_ok_def frame_def intro: sorted_wrt_snoc_last)

lemma stack_ok_New [simp]: "stack_ok (New s)"
  by (simp add: stack_ok_def New_def)

text \<open>Nothing but \<open>New\<close> writes the source, and nothing but the driver the token list.\<close>

interpretation source: lexer_invariant "\<lambda>l. stack_ok l \<and> src l = s"
proof
  show "stack_ok l' \<and> src l' = s" if "frame l l'" "stack_ok l \<and> src l = s" for l l'
    using that stack.I_frame [OF that(1)] by (simp add: frame_def)
qed (auto intro: stack.I_flags stack.I_push stack.I_pop stack.I_tokens simp: stack.I_bottom)

text \<open>How the type of a token tells what it did to the stack.\<close>

definition layout_effect :: "Token \<Rightarrow> nat list \<Rightarrow> nat list \<Rightarrow> bool" where
  "layout_effect t st st' \<longleftrightarrow>
     (if tok_Type t = INDENT then \<exists>i. st' = st @ [i] \<and> last st < i
      else if tok_Type t = DEDENT then 1 < length st \<and> st' = butlast st
      else st' = st \<and> (tok_Type t = EOF \<longrightarrow> length st = 1))"

lemma handleEOF_effect:
  "stack_ok l \<Longrightarrow> handleEOF l = Inr (t, l') \<Longrightarrow>
   layout_effect t (indentStack l) (indentStack l') \<and> tokens l' = tokens l"
  by (cases "indentStack l") (auto simp: handleEOF_def layout_effect_def stack_ok_def Let_def split: if_splits)

lemma line_start_effect:
  assumes "stack_ok l" and "line_start_outcome l (Done (Inr (t, l')))"
  shows "layout_effect t (indentStack l) (indentStack l') \<and> tokens l' = tokens l"
  using assms(2)
proof (induction "Done (Inr (t, l'))" rule: line_start_outcome.induct)
  case (eof m)
  then have "frame l m" "stack_ok m"
    using assms(1) by (auto intro: reaches_frame stack.I_reaches)
  with eof show ?case using handleEOF_effect [of m t l'] by (simp add: frame_def)
qed (use stack.pop_length [OF assms(1)] in \<open>auto simp: layout_effect_def frame_def dest!: reaches_frame\<close>)

lemma inline_effect:
  assumes "stack_ok m" and "inline_outcome U m (Done (Inr (t, l')))"
  shows "layout_effect t (indentStack m) (indentStack l') \<and> tokens l' = tokens m"
  using assms(2)
proof (induction "Done (Inr (t, l'))" rule: inline_outcome.induct)
  case eof
  then show ?case using handleEOF_effect [OF assms(1)] by metis
next
  case newline
  then show ?case using frame_skip [of m] by (auto simp: layout_effect_def frame_def)
next
  case scan
  then have "frame m l'" "\<not> layout_type (tok_Type t)"
    by (auto simp: scans_def intro: reaches_frame reaches_skip_start)
  then show ?case by (auto simp: layout_effect_def frame_def layout_type_def)
next
  case ident
  then have "frame m l'" "\<not> layout_type (tok_Type t)"
    using readIdentOrKeyword_frame by metis+
  then show ?case by (auto simp: layout_effect_def frame_def layout_type_def)
qed

lemma Again_effect:
  "line_start_outcome l (Again l') \<Longrightarrow> indentStack l' = indentStack l \<and> tokens l' = tokens l"
  by (induction "Again l'" rule: line_start_outcome.induct) (auto simp: frame_def dest: reaches_frame)

lemma tokenStep_effect:
  assumes "stack_ok l"
  shows "tokenStep U l = Done (Inr (t, l')) \<Longrightarrow>
           layout_effect t (indentStack l) (indentStack l') \<and> tokens l' = tokens l"
    and "tokenStep U l = Again l' \<Longrightarrow> indentStack l' = indentStack l \<and> tokens l' = tokens l"
proof -
  obtain m where m: "reaches l m" "inline_outcome U m (inlineToken U l)"
    using inlineToken_outcome by blast
  have fr: "indentStack m = indentStack l" "tokens m = tokens l" and ok: "stack_ok m"
    using m(1) assms reaches_frame [OF m(1)] by (auto simp: frame_def stack_ok_def)
  show "tokenStep U l = Done (Inr (t, l')) \<Longrightarrow>
           layout_effect t (indentStack l) (indentStack l') \<and> tokens l' = tokens l"
    using inline_effect [OF ok, of U t l'] line_start_effect [OF assms, of t l'] m(2)
      handleLineStart_outcome [of l] fr
    by (auto simp: tokenStep_def split: if_splits)
  have "inline_outcome U m (Again l') \<Longrightarrow> indentStack l' = indentStack l \<and> tokens l' = tokens l"
    by (erule inline_outcome.cases) (auto simp: frame_def fr)
  then show "tokenStep U l = Again l' \<Longrightarrow> indentStack l' = indentStack l \<and> tokens l' = tokens l"
    using Again_effect [of l l'] m(2) handleLineStart_outcome [of l]
    by (auto simp: tokenStep_def split: if_splits)
qed

lemma nextToken_cases:
  assumes "nextToken U l = r"
  obtains (Done) "tokenStep U l = Done r" | (Again) l1 where "tokenStep U l = Again l1" "nextToken U l1 = r"
  using assms by (subst (asm) nextToken.simps) (auto split: lex_step.splits)

lemma nextToken_effect:
  "stack_ok l \<Longrightarrow> nextToken U l = Inr (t, l') \<Longrightarrow>
   layout_effect t (indentStack l) (indentStack l') \<and> tokens l' = tokens l"
proof (induction U l rule: nextToken.induct)
  case (1 U l)
  from "1.prems"(2) show ?case
  proof (cases rule: nextToken_cases)
    case Done
    then show ?thesis by (rule tokenStep_effect(1) [OF "1.prems"(1)])
  next
    case (Again l1)
    then have "layout_effect t (indentStack l1) (indentStack l') \<and> tokens l' = tokens l1"
      using "1.IH" stack.tokenStep_I(2) [OF "1.prems"(1)] by blast
    then show ?thesis
      using tokenStep_effect(2) [OF "1.prems"(1) Again(1)] by simp
  qed
qed

section \<open>The token stream is well nested\<close>

text \<open>
  The nesting depth of a token sequence; \<open>None\<close> when a \<open>DEDENT\<close> has no \<open>INDENT\<close> to close.
\<close>

fun layout_depth :: "nat \<Rightarrow> Token list \<Rightarrow> nat option" where
  "layout_depth d [] = Some d"
| "layout_depth d (t # ts) =
     (if tok_Type t = INDENT then layout_depth (Suc d) ts
      else if tok_Type t = DEDENT then (if d = 0 then None else layout_depth (d - 1) ts)
      else layout_depth d ts)"

lemma layout_depth_append:
  "layout_depth d (ts @ us) = (case layout_depth d ts of None \<Rightarrow> None | Some e \<Rightarrow> layout_depth e us)"
  by (induction d ts rule: layout_depth.induct) auto

definition well_nested :: "Token list \<Rightarrow> bool" where
  "well_nested ts \<longleftrightarrow>
     ts \<noteq> [] \<and> tok_Type (last ts) = EOF \<and> (\<forall>t \<in> set (butlast ts). tok_Type t \<noteq> EOF) \<and>
     layout_depth 0 ts = Some 0"

definition emitted_ok :: "Lexer \<Rightarrow> bool" where
  "emitted_ok l \<longleftrightarrow> (\<forall>t \<in> set (tokens l). tok_Type t \<noteq> EOF) \<and>
     layout_depth 0 (tokens l) = Some (length (indentStack l) - 1)"

lemma readSuffixIdent_reaches:
  "readSuffixIdent U ln cl l = Inr (t, l') \<Longrightarrow> tok_Type t = SUFFIX_IDENT \<and> reaches l l'"
  using suffixSegments_reaches [of U ln cl "[]" "skip l" _ _ l]
  by (auto simp: readSuffixIdent_def Let_def split_beta split: sum.splits if_splits)

lemma emitToken_cases:
  assumes "emitToken U t l = Inr l'"
  obtains (plain) "l' = l\<lparr>tokens := tokens l @ [t]\<rparr>"
  | (suffix) s l1 where "suffixCarrier (tok_Type t)" "tok_Type s = SUFFIX_IDENT"
      "reaches (l\<lparr>tokens := tokens l @ [t]\<rparr>) l1" "l' = l1\<lparr>tokens := tokens l @ [t, s]\<rparr>"
proof (cases "l' = l\<lparr>tokens := tokens l @ [t]\<rparr>")
  case True
  then show ?thesis by (rule plain)
next
  case False
  then obtain s l1 where c: "suffixCarrier (tok_Type t)" and l': "l' = l1\<lparr>tokens := tokens l1 @ [s]\<rparr>"
    and r: "readSuffixIdent U (line l) (col l) (l\<lparr>tokens := tokens l @ [t]\<rparr>) = Inr (s, l1)"
    using assms by (auto simp: emitToken_def Let_def split: if_splits sum.splits)
  from readSuffixIdent_reaches [OF r] have s: "tok_Type s = SUFFIX_IDENT"
    and r1: "reaches (l\<lparr>tokens := tokens l @ [t]\<rparr>) l1" by auto
  from reaches_frame [OF r1] have "tokens l1 = tokens l @ [t]" by (simp add: frame_def)
  with l' have "l' = l1\<lparr>tokens := tokens l @ [t, s]\<rparr>" by simp
  with c s r1 show ?thesis by (rule suffix)
qed

text \<open>One round of the driver: the depth of what it emitted follows the stack.\<close>

lemma emit_layout:
  assumes eff: "layout_effect t st (indentStack l)" and em: "emitToken U t l = Inr l'"
    and st: "st \<noteq> []" and depth: "layout_depth 0 (tokens l) = Some (length st - 1)"
  shows "layout_depth 0 (tokens l') = Some (length (indentStack l') - 1)" and "tokens l' \<noteq> []"
    and "tok_Type t \<noteq> EOF \<Longrightarrow> \<forall>t \<in> set (tokens l). tok_Type t \<noteq> EOF \<Longrightarrow> \<forall>t \<in> set (tokens l'). tok_Type t \<noteq> EOF"
    and "tok_Type t = EOF \<Longrightarrow> tokens l' = tokens l @ [t] \<and> length (indentStack l') = 1"
proof -
  have d: "layout_depth 0 (tokens l @ [t]) = Some (length (indentStack l) - 1)"
    using eff st depth
    by (cases st) (auto simp: layout_depth_append layout_effect_def split: if_splits)
  from em show "layout_depth 0 (tokens l') = Some (length (indentStack l') - 1)"
  proof (cases rule: emitToken_cases)
    case (suffix s l1)
    then show ?thesis
      using d reaches_frame [OF suffix(3)] layout_depth_append [of 0 "tokens l @ [t]" "[s]"]
      by (simp add: frame_def)
  qed (use d in simp)
  from em show "tokens l' \<noteq> []"
    by (cases rule: emitToken_cases) auto
  from em show "tok_Type t \<noteq> EOF \<Longrightarrow> \<forall>t \<in> set (tokens l). tok_Type t \<noteq> EOF \<Longrightarrow> \<forall>t \<in> set (tokens l'). tok_Type t \<noteq> EOF"
    by (cases rule: emitToken_cases) auto
  from em show "tok_Type t = EOF \<Longrightarrow> tokens l' = tokens l @ [t] \<and> length (indentStack l') = 1"
    by (cases rule: emitToken_cases) (use eff in \<open>auto simp: suffixCarrier_def layout_effect_def\<close>)
qed

lemma tokenizeLoop_well_nested:
  assumes "tokenizeLoop U l = Some r"
  shows "stack_ok l \<Longrightarrow> emitted_ok l \<Longrightarrow> r = Inr ts \<Longrightarrow> well_nested ts"
proof (induction arbitrary: ts rule: tokenizeLoop.raw_induct [OF _ assms])
  case (1 tl U l r)
  note IH = 1(1) and eq = 1(2) and ok = 1(3) and em = 1(4) and r = 1(5)
  from eq r obtain t l1 where n: "nextToken U l = Inr (t, l1)"
    by (auto split: sum.splits)
  with eq r obtain l2 where e: "emitToken U t l1 = Inr l2"
    by (auto split: sum.splits)
  have eff: "layout_effect t (indentStack l) (indentStack l1)" and tk: "tokens l1 = tokens l"
    using nextToken_effect [OF ok n] by auto
  have st: "indentStack l \<noteq> []" using ok by (simp add: stack_ok_def)
  have d: "layout_depth 0 (tokens l1) = Some (length (indentStack l) - 1)"
    using em tk by (simp add: emitted_ok_def)
  note out = emit_layout [OF eff e st d]
  show ?case
  proof (cases "tok_Type t = EOF")
    case True
    then have "ts = tokens l1 @ [t]" "length (indentStack l2) = 1"
      using eq n e r out(4) by auto
    then show ?thesis
      using out(1) out(4) [OF True] em tk True by (auto simp: well_nested_def emitted_ok_def)
  next
    case False
    have "stack_ok l2"
      using stack.emitToken_I [OF stack.nextToken_I [OF ok n] e] .
    moreover have "emitted_ok l2"
      using out(1,3) False em tk by (simp add: emitted_ok_def)
    moreover have "tl U l2 = Some r"
      using eq n e False by simp
    ultimately show ?thesis using IH r by blast
  qed
qed

text \<open>
  C1: whenever \<open>Tokenize\<close> returns a token list, the list ends with \<open>EOF\<close>, has no other \<open>EOF\<close>,
  and its \<open>INDENT\<close> and \<open>DEDENT\<close> tokens are balanced like parentheses (no \<open>DEDENT\<close> without
  an open \<open>INDENT\<close>, and every \<open>INDENT\<close> closed at the end).
\<close>

theorem Tokenize_well_nested: "Tokenize U s = Some (Inr ts) \<Longrightarrow> well_nested ts"
  unfolding Tokenize_def
  by (erule tokenizeLoop_well_nested [OF _ stack_ok_New]) (simp_all add: emitted_ok_def New_def)

section \<open>Termination of the driver\<close>

text \<open>
  Each round consumes a rune, or leaves the start of a line, or pops the stack: the
  lexicographic order of these three decreases.
\<close>

definition scan_order :: "(Lexer \<times> Lexer) set" where
  "scan_order = measures [remaining, \<lambda>l. if atLineStart l then 1 else 0, \<lambda>l. length (indentStack l)]"

lemma wf_scan_order: "wf scan_order"
  by (simp add: scan_order_def)

lemma scan_order_less: "remaining l' < remaining l \<Longrightarrow> (l', l) \<in> scan_order"
  by (simp add: scan_order_def)

lemma scan_order_le_trans:
  "(l', m) \<in> scan_order \<Longrightarrow> remaining m \<le> remaining l \<Longrightarrow> atLineStart m = atLineStart l \<Longrightarrow>
   indentStack m = indentStack l \<Longrightarrow> (l', l) \<in> scan_order"
  by (auto simp: scan_order_def)

lemma scan_order_trans: "(a, b) \<in> scan_order \<Longrightarrow> (b, c) \<in> scan_order \<Longrightarrow> (a, c) \<in> scan_order"
  by (auto simp: scan_order_def)

lemma handleEOF_progress:
  "handleEOF l = Inr (t, l') \<Longrightarrow> tok_Type t \<noteq> EOF \<Longrightarrow> (l', l) \<in> scan_order"
  by (auto simp: handleEOF_def scan_order_def Let_def split: if_splits)

lemma line_start_progress:
  assumes "stack_ok l" and "atLineStart l" and "tok_Type t \<noteq> EOF"
    and "line_start_outcome l (Done (Inr (t, l')))"
  shows "(l', l) \<in> scan_order"
  using assms(4)
proof (induction "Done (Inr (t, l'))" rule: line_start_outcome.induct)
  case (eof m)
  then have "(l', m) \<in> scan_order" using handleEOF_progress assms(3) by metis
  then show ?case
    using reaches_remaining [OF eof(1)] reaches_frame [OF eof(1)]
    by (auto elim!: scan_order_le_trans simp: frame_def)
next
  case (indent m i n)
  then show ?case
    using assms(2) reaches_remaining [OF indent(1)] by (auto simp: scan_order_def)
next
  case (dedent m i n)
  then show ?case
    using assms(2) reaches_remaining [OF dedent(1)] by (auto simp: scan_order_def)
next
  case (dedent_more m i n)
  then show ?case
    using assms(1,2) reaches_remaining [OF dedent_more(1)] by (auto simp: scan_order_def stack_ok_def)
qed

lemma inline_progress:
  assumes "list_all ascii (src m)" and "tok_Type t \<noteq> EOF" and "inline_outcome U m (Done (Inr (t, l')))"
  shows "(l', m) \<in> scan_order"
  using assms(3)
proof (induction "Done (Inr (t, l'))" rule: inline_outcome.induct)
  case eof
  then show ?case using handleEOF_progress assms(2) by metis
next
  case newline
  then show ?case using skip_remaining [of m] by (auto intro: scan_order_less)
next
  case scan
  then show ?case by (auto simp: scans_def intro!: scan_order_less reaches_progress)
next
  case (ident ln cl)
  then have "scans m (Inr (t, l'))"
    using readIdentOrKeyword_scans [OF assms(1) ident(1,2), of ln cl] by simp
  then show ?case using ident(1) by (auto simp: scans_def intro!: scan_order_less reaches_progress)
qed

lemma tokenStep_progress:
  assumes "stack_ok l" and "list_all ascii (src l)" and "tok_Type t \<noteq> EOF"
    and "tokenStep U l = Done (Inr (t, l'))"
  shows "(l', l) \<in> scan_order"
proof (cases "atLineStart l")
  case True
  then show ?thesis
    using assms handleLineStart_outcome [of l] line_start_progress [of l t l'] by (simp add: tokenStep_def)
next
  case False
  obtain m where m: "reaches l m" "inline_outcome U m (inlineToken U l)"
    using inlineToken_outcome by blast
  have fr: "frame l m" using m(1) by (rule reaches_frame)
  then have "(l', m) \<in> scan_order"
    using assms False m(2) inline_progress [of m t U l'] by (simp add: tokenStep_def frame_def)
  then show ?thesis
    using fr reaches_remaining [OF m(1)] by (auto elim!: scan_order_le_trans simp: frame_def)
qed

lemma nextToken_progress:
  "stack_ok l \<Longrightarrow> list_all ascii (src l) \<Longrightarrow> tok_Type t \<noteq> EOF \<Longrightarrow> nextToken U l = Inr (t, l') \<Longrightarrow>
   (l', l) \<in> scan_order"
proof (induction U l rule: nextToken.induct)
  case (1 U l)
  from "1.prems"(4) show ?case
  proof (cases rule: nextToken_cases)
    case Done
    then show ?thesis by (rule tokenStep_progress [OF "1.prems"(1-3)])
  next
    case (Again l1)
    have ok: "stack_ok l1 \<and> src l1 = src l"
      using source.tokenStep_I(2) [OF _ Again(1)] "1.prems"(1) by blast
    then have "(l', l1) \<in> scan_order"
      using "1.IH" [OF Again(1)] "1.prems" Again(2) by simp
    moreover have "(l1, l) \<in> scan_order"
      using tokenStep_Again [OF Again(1)] by (auto simp: scan_order_def)
    ultimately show ?thesis by (rule scan_order_trans)
  qed
qed

lemma emitToken_progress:
  assumes "(l, l0) \<in> scan_order" and "emitToken U t l = Inr l'"
  shows "(l', l0) \<in> scan_order"
  using assms(2)
proof (cases rule: emitToken_cases)
  case plain
  then show ?thesis using assms(1) by (auto simp: scan_order_def)
next
  case (suffix s l1)
  then show ?thesis
    using assms(1) reaches_remaining [OF suffix(3)] reaches_frame [OF suffix(3)]
    by (auto simp: scan_order_def frame_def)
qed

subsection \<open>No panic\<close>

lemma handleEOF_no_panic: "handleEOF l \<noteq> Inl e"
  by (simp add: handleEOF_def Let_def)

lemma tokenStep_no_panic:
  assumes "stack_ok l" and "list_all ascii (src l)"
  shows "tokenStep U l \<noteq> Done (Inl IndexOutOfRange)"
proof (cases "atLineStart l")
  case True
  have "\<not> line_start_outcome l (Done (Inl IndexOutOfRange))"
    using assms(1) handleEOF_no_panic by (auto simp: stack_ok_def elim!: line_start_outcome.cases dest: sym)
  then show ?thesis
    using True handleLineStart_outcome [of l] by (auto simp: tokenStep_def)
next
  case False
  obtain m where m: "reaches l m" "inline_outcome U m (inlineToken U l)"
    using inlineToken_outcome by blast
  have src: "list_all ascii (src m)"
    using reaches_frame [OF m(1)] assms(2) by (simp add: frame_def)
  have "inlineToken U l \<noteq> Done (Inl IndexOutOfRange)"
    using m(2)
  proof (cases rule: inline_outcome.cases)
    case (ident ln cl)
    then show ?thesis
      using readIdentOrKeyword_scans [OF src ident(2,3), of ln cl] by (simp add: scans_def)
  qed (auto simp: handleEOF_no_panic scans_def)
  then show ?thesis using False by (simp add: tokenStep_def)
qed

lemma nextToken_no_panic:
  "stack_ok l \<Longrightarrow> list_all ascii (src l) \<Longrightarrow> nextToken U l \<noteq> Inl IndexOutOfRange"
proof (induction U l rule: nextToken.induct)
  case (1 U l)
  have "nextToken U l = nextToken U l" ..
  then show ?case
  proof (cases rule: nextToken_cases)
    case Done
    then show ?thesis using tokenStep_no_panic [OF "1.prems", of U] by auto
  next
    case (Again l1)
    have "stack_ok l1 \<and> src l1 = src l"
      using source.tokenStep_I(2) [OF _ Again(1)] "1.prems"(1) by blast
    then show ?thesis using "1.IH" [OF Again(1)] "1.prems" Again(2) by simp
  qed
qed

lemma suffixSegments_error: "suffixSegments U ln cl sb l = Inl e \<Longrightarrow> e \<noteq> IndexOutOfRange"
proof (induction U ln cl sb l rule: suffixSegments.induct)
  case (1 U ln cl sb l)
  note IH = "1.IH" [OF _ refl _ _ refl _ refl, of "fst (scanWhile (isIdentRune U) l)" "skipWhile (isIdentRune U) l"
      "fst (advance (skipWhile (isIdentRune U) l))" "skip (skipWhile (isIdentRune U) l)"
      "fst (advance (skip (skipWhile (isIdentRune U) l)))" "skip (skip (skipWhile (isIdentRune U) l))"]
  show ?case
    using IH "1.prems"
    by (subst (asm) (2) suffixSegments.simps) (auto simp: Let_def split_beta split: if_splits)
qed

lemma emitToken_no_panic: "emitToken U t l \<noteq> Inl IndexOutOfRange"
  by (auto simp: emitToken_def readSuffixIdent_def Let_def split_beta dest: suffixSegments_error
           split: sum.splits if_splits)

lemma tokenizeLoop_total:
  "stack_ok l \<Longrightarrow> list_all ascii (src l) \<Longrightarrow> \<exists>r. tokenizeLoop U l = Some r \<and> r \<noteq> Inl IndexOutOfRange"
proof (induction l rule: wf_induct_rule [OF wf_scan_order])
  case (1 l)
  show ?case
  proof (cases "nextToken U l")
    case (Inl e)
    then show ?thesis
      using nextToken_no_panic [OF 1(2,3), of U] by (subst tokenizeLoop.simps) auto
  next
    case (Inr p)
    obtain t l1 where p: "p = (t, l1)" by (cases p)
    have n: "nextToken U l = Inr (t, l1)" using Inr p by simp
    show ?thesis
    proof (cases "emitToken U t l1")
      case (Inl e)
      then show ?thesis
        using n emitToken_no_panic [of U t l1] by (subst tokenizeLoop.simps) auto
    next
      case (Inr l2)
      show ?thesis
      proof (cases "tok_Type t = EOF")
        case True
        then show ?thesis using n Inr by (subst tokenizeLoop.simps) simp
      next
        case False
        have "(l2, l) \<in> scan_order"
          using emitToken_progress [OF nextToken_progress [OF 1(2,3) False n] Inr] .
        moreover have "stack_ok l2 \<and> src l2 = src l"
          using source.emitToken_I [OF source.nextToken_I [OF _ n] Inr] 1(2) by blast
        ultimately show ?thesis
          using 1 n Inr False by (subst tokenizeLoop.simps) simp
      qed
    qed
  qed
qed

text \<open>
  C2: on ASCII source text \<open>Tokenize\<close> returns, with a token list or with an error value; it neither
  loops nor panics.  (The hypothesis cannot be dropped: see \<open>Tokenize_diverges\<close>.)
\<close>

theorem Tokenize_terminates: "list_all ascii s \<Longrightarrow> \<exists>r. Tokenize U s = Some r \<and> r \<noteq> Inl IndexOutOfRange"
  unfolding Tokenize_def by (rule tokenizeLoop_total [OF stack_ok_New]) (simp add: New_def)

section \<open>The theorems at concrete sources\<close>

text \<open>The range tables play no part below \<open>0x100\<close>; the empty ones serve for ASCII text.\<close>

definition empty_tables :: unicode_tables where
  "empty_tables = \<lparr>letter_table = (\<lambda>_. False), digit_table = (\<lambda>_. False)\<rparr>"

definition runes :: "string \<Rightarrow> rune list" where
  "runes s = map of_char s"

lemmas lexer_eval =
  Tokenize_def tokenizeLoop.simps emitToken_def suffixCarrier_def nextToken.simps tokenStep_def
  handleLineStart_def countIndent.simps enterLine_def inlineToken_def handleEOF_def
  New_def advance_def peek_def peekAt_def hasMore_def scanWhile.simps readIdentOrKeyword_def
  readOperatorOrDelim_def boolSplit_def hasPrefix_def isSuffixStart_def keywordTable_def
  isIdentRune_def isLetter_def isDigit_def latin1_letter_def utf8s_Cons utf8_def byte_of_def
  empty_tables_def runes_def Let_def char_of_def bit_0

text \<open>An indented block: \<open>INDENT\<close> before \<open>b\<close> and \<open>DEDENT\<close> at the end of the text.\<close>

definition block_source :: "rune list" where
  "block_source = runes (''a'' @ [CHR 0x0A] @ '' b'')"

lemma Tokenize_block:
  "Tokenize empty_tables block_source =
     Some (Inr [mkToken IDENT ''a'' 1 1, mkToken NEWLINE [CHR 0x0A] 1 1, mkToken INDENT [] 2 1,
                mkToken IDENT ''b'' 2 2, mkToken DEDENT [] 2 3, mkToken EOF [] 2 3])"
  by (simp add: lexer_eval block_source_def)

theorem Tokenize_well_nested_witness:
  "\<exists>ts. Tokenize empty_tables block_source = Some (Inr ts) \<and> well_nested ts"
  using Tokenize_block Tokenize_well_nested by blast

theorem Tokenize_terminates_witness:
  "\<exists>r. Tokenize empty_tables (runes ''true_x'') = Some r \<and> r \<noteq> Inl IndexOutOfRange"
  by (rule Tokenize_terminates) (simp add: runes_def ascii_def)

section \<open>A source on which the lexer does not return\<close>

text \<open>
  \<open>true_\<close> followed by four letters of two bytes each: the word is 13 bytes long, the rewind is 9
  positions, and 9 is the number of runes of the word.  The next token starts where this one did.
\<close>

definition true_suffix_source :: "rune list" where
  "true_suffix_source = runes ''true_'' @ [0xE9, 0xE9, 0xE9, 0xE9]"

definition rewound :: "Lexer \<Rightarrow> bool" where
  "rewound l \<longleftrightarrow> src l = true_suffix_source \<and> pos l = 0 \<and> \<not> atLineStart l"

lemma rewound_scan:
  assumes "rewound l"
  shows "fst (scanWhile (isIdentRune U) l) = true_suffix_source"
    and "skipWhile (isIdentRune U) l = l\<lparr>pos := 9, col := col l + 9\<rparr>"
proof -
  show 1: "fst (scanWhile (isIdentRune U) l) = true_suffix_source"
    using assms
    by (simp add: scanWhile_runes rewound_def true_suffix_source_def runes_def isIdentRune_def isLetter_def
        latin1_letter_def)
  show "skipWhile (isIdentRune U) l = l\<lparr>pos := 9, col := col l + 9\<rparr>"
    using assms by (simp add: scanWhile_line 1 rewound_def) (simp add: true_suffix_source_def runes_def)
qed


lemma rewound_word:
  "utf8s true_suffix_source = ''true_'' @ [CHR 0xC3, CHR 0xA9, CHR 0xC3, CHR 0xA9, CHR 0xC3, CHR 0xA9, CHR 0xC3, CHR 0xA9]"
  by (simp add: true_suffix_source_def runes_def utf8s_Cons utf8_def byte_of_def char_of_def bit_0)

lemma rewound_step:
  assumes "rewound l"
  shows "nextToken U l = Inr (mkToken BOOL_LIT ''true'' (line l) (col l), l)"
proof -
  have sr: "src l = 116 # tl true_suffix_source" "pos l = 0"
    using assms by (simp_all add: rewound_def true_suffix_source_def runes_def)
  have len: "length true_suffix_source = 9" by (simp add: true_suffix_source_def runes_def)
  have pk: "hasMore l" "peek l = 116" using sr by (simp_all add: hasMore_def peek_def)
  have sp: "skipWhile (\<lambda>r. r = 32 \<or> r = 9) l = l"
    using pk by (subst scanWhile_unfold) simp
  have "readIdentOrKeyword U (line l) (col l) l = Inr (mkToken BOOL_LIT ''true'' (line l) (col l), l)"
    using rewound_scan [OF assms, of U] sr
    by (simp add: readIdentOrKeyword_def split_beta Let_def rewound_word boolSplit_def hasPrefix_def isSuffixStart_def
        isLetter_def latin1_letter_def)
  then have "inlineToken U l = Done (Inr (mkToken BOOL_LIT ''true'' (line l) (col l), l))"
    using pk by (simp add: inlineToken_def Let_def sp isDigit_def isLetter_def latin1_letter_def)
  then show ?thesis
    using assms by (subst nextToken.simps) (simp add: tokenStep_def rewound_def)
qed

lemma rewound_emit:
  "rewound l \<Longrightarrow> emitToken U (mkToken BOOL_LIT lit ln cl) l = Inr (l\<lparr>tokens := tokens l @ [mkToken BOOL_LIT lit ln cl]\<rparr>)"
  by (simp add: emitToken_def rewound_def suffixCarrier_def peek_def true_suffix_source_def runes_def)

lemma rewound_loop:
  assumes "tokenizeLoop U l = Some r"
  shows "rewound l \<Longrightarrow> False"
proof (induction rule: tokenizeLoop.raw_induct [OF _ assms])
  case (1 tl U l r)
  have "rewound (l\<lparr>tokens := tokens l @ [mkToken BOOL_LIT ''true'' (line l) (col l)]\<rparr>)"
    using 1(3) by (simp add: rewound_def)
  then show ?case
    using 1 by (simp add: rewound_step rewound_emit)
qed

lemma New_rewound: "nextToken U (New true_suffix_source) =
   nextToken U ((New true_suffix_source)\<lparr>atLineStart := False\<rparr>)"
proof -
  have "tokenStep U (New true_suffix_source) = Again ((New true_suffix_source)\<lparr>atLineStart := False\<rparr>)"
    by (simp add: tokenStep_def handleLineStart_def New_def countIndent.simps hasMore_def true_suffix_source_def
        runes_def enterLine_def Let_def)
  then show ?thesis
    by (subst nextToken.simps) simp
qed

text \<open>
  C3: the rewind of \<open>readIdentOrKeyword\<close> counts bytes where the source is indexed by runes.  On the
  nine runes \<open>true_\<close>, \<open>0xE9\<close>, \<open>0xE9\<close>, \<open>0xE9\<close>, \<open>0xE9\<close> the scanner goes back to where it started,
  and \<open>Tokenize\<close> emits \<open>true\<close> forever.
\<close>

theorem Tokenize_diverges: "Tokenize U (runes ''true_'' @ [0xE9, 0xE9, 0xE9, 0xE9]) = None"
proof -
  let ?l = "(New true_suffix_source)\<lparr>atLineStart := False\<rparr>"
  have "rewound ?l" by (simp add: rewound_def New_def)
  then have "tokenizeLoop U ?l = None"
    using rewound_loop by (cases "tokenizeLoop U ?l") auto
  moreover have "tokenizeLoop U (New true_suffix_source) = tokenizeLoop U ?l"
    by (subst (1 2) tokenizeLoop.simps) (simp add: New_rewound)
  ultimately show ?thesis by (simp add: Tokenize_def true_suffix_source_def)
qed


end
