(* ===== verification/TinLexerText.thy ===== *)
theory TinLexerText
  imports TinLexerCorrect
begin

text \<open>
  What the tokens say about the text: operators are read by maximal munch against a table, the
  scanner's line and column are those of its position in the text (block comments apart), and string
  literals round-trip through a printer.
\<close>


section \<open>Maximal munch\<close>

text \<open>The operators and delimiters, as a table; the lexer has no such table, only nested tests.\<close>

definition operatorTable :: "(string \<times> TokenType) list" where
  "operatorTable = [
     (''+'', PLUS), (''++'', INC), (''++='', APPENDEQ), (''+='', PLUSEQ), (''-'', MINUS),
     (''->'', ARROW), (''--'', INC), (''-='', MINUSEQ), (''*'', STAR), (''*='', STAREQ),
     (''/'', SLASH), (''/='', SLASHEQ), (''%'', PERCENT), (''%='', PERCENTEQ), (''='', ASSIGN),
     (''=='', EQEQ), (''!'', NOT), (''!='', NEQ), (''<'', LT), (''<='', LTEQ), (''<<'', SHL),
     (''>'', GT), (''>='', GTEQ), (''>>'', SHR), (''&'', AMP), (''&&'', AND), (''|'', BITOR),
     (''||'', OR), (''|>'', PIPE), (''^'', XOR), (''~'', TILDE), (''?'', QUESTION), (''@'', AT),
     (''.'', DOT), (''..'', RANGE), (''...'', DOTDOTDOT), ('':'', COLON), (''::'', DCOLON),
     (''('', LPAREN), ('')'', RPAREN), (''{'', LBRACE), (''}'', RBRACE), (''['', LBRACKET),
     ('']'', RBRACKET), ('';'', SEMI), ('','', COMMA)]"

definition starts_with :: "rune list \<Rightarrow> string \<Rightarrow> bool" where
  "starts_with rs op \<longleftrightarrow> take (length op) rs = runes op"

text \<open>What the table says the lexer should return on the remaining runes \<open>rs\<close>.\<close>

definition longest_operator :: "rune list \<Rightarrow> (string \<times> TokenType) option \<Rightarrow> bool" where
  "longest_operator rs r \<longleftrightarrow>
     (case r of
        None \<Rightarrow> list_all (\<lambda>(op, tt). \<not> starts_with rs op) operatorTable
      | Some (lit, ty) \<Rightarrow> (lit, ty) \<in> set operatorTable \<and> starts_with rs lit \<and>
          list_all (\<lambda>(op, tt). starts_with rs op \<longrightarrow> length op \<le> length lit) operatorTable)"

definition munches :: "int \<Rightarrow> int \<Rightarrow> Lexer \<Rightarrow> lex_result \<Rightarrow> bool" where
  "munches ln cl l r \<longleftrightarrow>
     (case r of
        Inl e \<Rightarrow> e = UnexpectedChar (peek l) ln cl \<and> longest_operator (drop (pos l) (src l)) None
      | Inr (t, l') \<Rightarrow> longest_operator (drop (pos l) (src l)) (Some (tok_Literal t, tok_Type t)) \<and>
          l' = (skip ^^ length (tok_Literal t)) l \<and> tok_Line t = ln \<and> tok_Col t = cl)"

lemma munches_if: "(b \<Longrightarrow> munches ln cl l x) \<Longrightarrow> (\<not> b \<Longrightarrow> munches ln cl l y) \<Longrightarrow> munches ln cl l (if b then x else y)"
  by simp

lemma funpow_few: "(f ^^ Suc 0) x = f x" "(f ^^ 2) x = f (f x)" "(f ^^ 3) x = f (f (f x))"
  by (simp_all add: numeral_2_eq_2 numeral_3_eq_3)

lemma starts_with_Nil [simp]: "starts_with rs []"
  by (simp add: starts_with_def runes_def)

lemma starts_with_peek [simp]:
  "of_char a \<noteq> (0 :: nat) \<Longrightarrow>
   starts_with (drop (pos l) (src l)) (a # op) \<longleftrightarrow> peek l = of_char a \<and> starts_with (drop (pos (skip l)) (src l)) op"
  by (cases "hasMore l") (auto simp: starts_with_def runes_def drop_peek pos_skip peek_def hasMore_def)

lemma starts_with_peek_skip [simp]:
  "of_char a \<noteq> (0 :: nat) \<Longrightarrow>
   starts_with (drop (pos (skip l)) (src l)) (a # op) \<longleftrightarrow>
     peek (skip l) = of_char a \<and> starts_with (drop (pos (skip (skip l))) (src l)) op"
  "of_char a \<noteq> (0 :: nat) \<Longrightarrow>
   starts_with (drop (pos (skip (skip l))) (src l)) (a # op) \<longleftrightarrow>
     peek (skip (skip l)) = of_char a \<and> starts_with (drop (pos (skip (skip (skip l)))) (src l)) op"
  using starts_with_peek [of a "skip l" op] starts_with_peek [of a "skip (skip l)" op] by simp_all

text \<open>
  C4: the operator scanner is maximal munch: at any rune of the source it returns the longest
  operator or delimiter of the table that starts there, with the table's token type and the given
  position, having consumed exactly its runes; and it reports the rune as unexpected when and only
  when no entry of the table starts there.
\<close>

theorem readOperatorOrDelim_maximal_munch:
  assumes "hasMore l"
  shows "munches ln cl l (readOperatorOrDelim ln cl l)"
  unfolding readOperatorOrDelim_def Let_def split_beta fst_advance [OF assms]
  by (intro munches_if)
     (simp_all add: munches_def longest_operator_def operatorTable_def funpow_few)

theorem readOperatorOrDelim_maximal_munch_witness:
  "munches 1 1 (New (runes ''++x'')) (readOperatorOrDelim 1 1 (New (runes ''++x'')))"
  by (rule readOperatorOrDelim_maximal_munch) (simp add: New_def runes_def hasMore_def)


section \<open>Source positions\<close>

text \<open>
  The line and column of a position of the text: one more than the newlines before it, and one more
  than the runes since the last newline.
\<close>

definition line_of :: "rune list \<Rightarrow> nat \<Rightarrow> int" where
  "line_of s p = 1 + int (length (filter (\<lambda>r. r = 10) (take p s)))"

definition col_of :: "rune list \<Rightarrow> nat \<Rightarrow> int" where
  "col_of s p = 1 + int (length (takeWhile (\<lambda>r. r \<noteq> 10) (rev (take p s))))"

definition position_ok :: "Lexer \<Rightarrow> bool" where
  "position_ok l \<longleftrightarrow> pos l \<le> length (src l) \<and> line l = line_of (src l) (pos l) \<and> col l = col_of (src l) (pos l)"

fun no_block_comment :: "rune list \<Rightarrow> bool" where
  "no_block_comment (a # b # rs) \<longleftrightarrow> \<not> (a = rune_of CHR ''/'' \<and> b = rune_of CHR ''*'') \<and> no_block_comment (b # rs)"
| "no_block_comment _ \<longleftrightarrow> True"

lemma no_block_comment_drop: "no_block_comment s \<Longrightarrow> no_block_comment (drop n s)"
  by (induction s arbitrary: n rule: no_block_comment.induct) (auto simp: drop_Cons split: nat.splits)

lemma not_at_block_comment:
  assumes "no_block_comment (src m)"
  shows "\<not> at_block_comment m"
proof
  assume b: "at_block_comment m"
  then have "pos m + 1 < length (src m)"
    by (auto simp: at_block_comment_def peekAt_def split: if_splits)
  then have "drop (pos m) (src m) = peek m # peekAt 1 m # drop (pos m + 2) (src m)"
    by (simp add: peek_def peekAt_def Cons_nth_drop_Suc)
  then show False
    using no_block_comment_drop [OF assms, of "pos m"] b by (simp add: at_block_comment_def)
qed

lemma position_ok_skip: "position_ok l \<Longrightarrow> position_ok (skip l)"
  by (auto simp: position_ok_def advance_def Let_def line_of_def col_of_def take_Suc_conv_app_nth)

lemma position_ok_reaches: "reaches l l' \<Longrightarrow> position_ok l \<Longrightarrow> position_ok l'"
proof (clarsimp simp: reaches_def)
  fix k assume "position_ok l"
  then show "position_ok ((skip ^^ k) l)"
    by (induction k) (simp_all add: position_ok_skip)
qed

lemma position_ok_update [simp]:
  "position_ok (l\<lparr>atLineStart := a\<rparr>) = position_ok l"
  "position_ok (l\<lparr>dedenting := a\<rparr>) = position_ok l"
  "position_ok (l\<lparr>lineIndent := n\<rparr>) = position_ok l"
  "position_ok (l\<lparr>indentStack := st\<rparr>) = position_ok l"
  "position_ok (l\<lparr>tokens := ts\<rparr>) = position_ok l"
  "position_ok (enterLine n l) = position_ok l"
  by (simp_all add: position_ok_def enterLine_def)

lemma handleEOF_position: "handleEOF l = Inr (t, l') \<Longrightarrow> position_ok l \<Longrightarrow> position_ok l'"
  by (auto simp: handleEOF_def Let_def split: if_splits)

lemma line_start_position:
  "line_start_outcome l r \<Longrightarrow> position_ok l \<Longrightarrow>
   (\<forall>t l'. r = Done (Inr (t, l')) \<longrightarrow> position_ok l') \<and> (\<forall>l'. r = Again l' \<longrightarrow> position_ok l')"
  by (induction rule: line_start_outcome.induct) (auto dest: position_ok_reaches handleEOF_position)

lemma inline_position:
  assumes "inline_outcome U m r" and "position_ok m" and "list_all ascii (src m)" and "no_block_comment (src m)"
  shows "(\<forall>t l'. r = Done (Inr (t, l')) \<longrightarrow> position_ok l') \<and> (\<forall>l'. r = Again l' \<longrightarrow> position_ok l')"
  using assms(1)
proof cases
  case (ident ln cl)
  then show ?thesis
    using readIdentOrKeyword_scans [OF assms(3) ident(2,3), of ln cl] assms(2)
    by (auto simp: scans_def dest: position_ok_reaches [OF _ position_ok_skip])
qed (use assms(2) not_at_block_comment [OF assms(4)] in
      \<open>auto simp: scans_def position_ok_skip dest: position_ok_reaches [OF _ position_ok_skip] position_ok_reaches handleEOF_position\<close>)

lemma tokenStep_position:
  assumes "position_ok l" and "list_all ascii (src l)" and "no_block_comment (src l)"
  shows "tokenStep U l = Done (Inr (t, l')) \<Longrightarrow> position_ok l'" "tokenStep U l = Again l' \<Longrightarrow> position_ok l'"
proof -
  obtain m where m: "reaches l m" "inline_outcome U m (inlineToken U l)"
    using inlineToken_outcome by blast
  have "src m = src l" using reaches_frame [OF m(1)] by (simp add: frame_def)
  then have "(\<forall>t l'. inlineToken U l = Done (Inr (t, l')) \<longrightarrow> position_ok l') \<and>
      (\<forall>l'. inlineToken U l = Again l' \<longrightarrow> position_ok l')"
    using inline_position [OF m(2) position_ok_reaches [OF m(1) assms(1)]] assms by simp
  then show "tokenStep U l = Done (Inr (t, l')) \<Longrightarrow> position_ok l'" "tokenStep U l = Again l' \<Longrightarrow> position_ok l'"
    using line_start_position [OF handleLineStart_outcome assms(1)]
    by (auto simp: tokenStep_def split: if_splits)
qed

lemma nextToken_position:
  "stack_ok l \<Longrightarrow> position_ok l \<Longrightarrow> list_all ascii (src l) \<Longrightarrow> no_block_comment (src l) \<Longrightarrow>
   nextToken U l = Inr (t, l') \<Longrightarrow> position_ok l'"
proof (induction U l rule: nextToken.induct)
  case (1 U l)
  from "1.prems"(5) show ?case
  proof (cases rule: nextToken_cases)
    case Done
    then show ?thesis by (rule tokenStep_position(1) [OF "1.prems"(2-4)])
  next
    case (Again l1)
    have "stack_ok l1 \<and> src l1 = src l"
      using source.tokenStep_I(2) [OF _ Again(1)] "1.prems"(1) by blast
    then show ?thesis
      using "1.IH" [OF Again(1)] tokenStep_position(2) [OF "1.prems"(2-4) Again(1)] "1.prems" Again(2) by simp
  qed
qed

lemma emitToken_position: "emitToken U t l = Inr l' \<Longrightarrow> position_ok l \<Longrightarrow> position_ok l'"
  by (erule emitToken_cases) (auto dest: position_ok_reaches)

definition at_end :: "Token \<Rightarrow> Lexer \<Rightarrow> bool" where
  "at_end t l \<longleftrightarrow> \<not> hasMore l \<and> t = mkToken EOF [] (line l) (col l)"

lemma handleEOF_at_end: "handleEOF m = Inr (t, l') \<Longrightarrow> \<not> hasMore m \<Longrightarrow> tok_Type t = EOF \<Longrightarrow> at_end t l'"
  by (auto simp: handleEOF_def Let_def at_end_def split: if_splits)

lemma tokenStep_at_end:
  assumes "list_all ascii (src l)" and "tokenStep U l = Done (Inr (t, l'))" and "tok_Type t = EOF"
  shows "at_end t l'"
proof (cases "atLineStart l")
  case True
  have "line_start_outcome l r \<Longrightarrow> r = Done (Inr (t, l')) \<Longrightarrow> at_end t l'" for r
    by (induction rule: line_start_outcome.induct) (use assms(3) in \<open>auto dest: handleEOF_at_end\<close>)
  then show ?thesis using True assms(2) handleLineStart_outcome [of l] by (simp add: tokenStep_def)
next
  case False
  obtain m where m: "reaches l m" "inline_outcome U m (inlineToken U l)"
    using inlineToken_outcome by blast
  have src: "list_all ascii (src m)"
    using reaches_frame [OF m(1)] assms(1) by (simp add: frame_def)
  have eq: "inlineToken U l = Done (Inr (t, l'))"
    using assms(2) False by (simp add: tokenStep_def)
  from m(2) show ?thesis
    unfolding eq
  proof cases
    case (ident ln cl)
    then show ?thesis
      using readIdentOrKeyword_scans [OF src ident(2,3), of ln cl] assms(3) ident(1) [symmetric]
      by (simp add: scans_def layout_type_def)
  qed (use assms(3) in \<open>auto simp: scans_def layout_type_def dest: handleEOF_at_end [OF sym]\<close>)
qed

lemma nextToken_at_end:
  "stack_ok l \<Longrightarrow> list_all ascii (src l) \<Longrightarrow> nextToken U l = Inr (t, l') \<Longrightarrow> tok_Type t = EOF \<Longrightarrow> at_end t l'"
proof (induction U l rule: nextToken.induct)
  case (1 U l)
  from "1.prems"(3) show ?case
  proof (cases rule: nextToken_cases)
    case Done
    then show ?thesis using tokenStep_at_end "1.prems" by blast
  next
    case (Again l1)
    have "stack_ok l1 \<and> src l1 = src l"
      using source.tokenStep_I(2) [OF _ Again(1)] "1.prems"(1) by blast
    then show ?thesis using "1.IH" [OF Again(1)] "1.prems" Again(2) by simp
  qed
qed

lemma at_end_position:
  "at_end t l \<Longrightarrow> position_ok l \<Longrightarrow> t = mkToken EOF [] (line_of (src l) (length (src l))) (col_of (src l) (length (src l)))"
  by (auto simp: at_end_def position_ok_def hasMore_def not_less dest: order_antisym)

lemma tokenizeLoop_position:
  assumes "tokenizeLoop U l = Some r"
  shows "stack_ok l \<Longrightarrow> position_ok l \<Longrightarrow> src l = s \<Longrightarrow> list_all ascii s \<Longrightarrow> no_block_comment s \<Longrightarrow> r = Inr ts \<Longrightarrow>
    last ts = mkToken EOF [] (line_of s (length s)) (col_of s (length s))"
proof (induction rule: tokenizeLoop.raw_induct [OF _ assms])
  case (1 tl U l r)
  note IH = 1(1) and eq = 1(2) and ok = 1(3) and p = 1(4) and s = 1(5-7) and r = 1(8)
  from eq r obtain t l1 where n: "nextToken U l = Inr (t, l1)"
    by (auto split: sum.splits)
  with eq r obtain l2 where e: "emitToken U t l1 = Inr l2"
    by (auto split: sum.splits)
  have p1: "position_ok l1" using nextToken_position [OF ok p _ _ n] s by simp
  have st1: "stack_ok l1 \<and> src l1 = s" using source.nextToken_I [OF _ n] ok s by blast
  show ?case
  proof (cases "tok_Type t = EOF")
    case True
    then have "t = mkToken EOF [] (line_of s (length s)) (col_of s (length s))"
      using at_end_position [OF nextToken_at_end [OF ok _ n True] p1] s st1 by simp
    moreover have "last (tokens l2) = t"
      using e by (cases rule: emitToken_cases) (auto simp: suffixCarrier_def True)
    ultimately show ?thesis using eq n e r True by auto
  next
    case False
    have "stack_ok l2 \<and> src l2 = s" using source.emitToken_I [OF st1 e] .
    moreover have "position_ok l2" using emitToken_position [OF e p1] .
    moreover have "tl U l2 = Some r" using eq n e False by simp
    ultimately show ?thesis using IH r s by blast
  qed
qed

text \<open>
  C5: in ASCII text without block comments the scanner's line and column are those of its position:
  the \<open>EOF\<close> token that ends the stream stands at the line and the column of the end of the text.
\<close>

theorem Tokenize_end_position:
  "Tokenize U s = Some (Inr ts) \<Longrightarrow> list_all ascii s \<Longrightarrow> no_block_comment s \<Longrightarrow>
   last ts = mkToken EOF [] (line_of s (length s)) (col_of s (length s))"
  unfolding Tokenize_def
  by (erule tokenizeLoop_position [OF _ stack_ok_New]) (simp_all add: New_def position_ok_def line_of_def col_of_def)

theorem Tokenize_end_position_witness:
  "\<exists>ts. Tokenize empty_tables block_source = Some (Inr ts) \<and>
        last ts = mkToken EOF [] (line_of block_source (length block_source)) (col_of block_source (length block_source))"
proof -
  have "list_all ascii block_source" "no_block_comment block_source"
    by (simp_all add: block_source_def runes_def ascii_def)
  then show ?thesis using Tokenize_end_position [OF Tokenize_block] Tokenize_block by blast
qed

text \<open>
  A newline inside a block comment is counted twice, once by the comment loop and once by
  \<open>advance\<close>: after a two-line comment the scanner is at line 3 of a text whose end is on line 2.
\<close>

lemma Tokenize_block_comment_lines:
  "Tokenize U (runes (''/*'' @ [CHR 0x0A] @ ''*/'')) = Some (Inr [mkToken EOF [] 3 3]) \<and>
   line_of (runes (''/*'' @ [CHR 0x0A] @ ''*/'')) 5 = 2"
  by (simp add: lexer_eval skipBlockComment.simps line_of_def)


section \<open>String literals\<close>

text \<open>
  A printer of byte strings as string literals: a printable character stands for itself, every
  other byte, the quote, the backslash and the braces are written as \<open>\xHH\<close>.
\<close>

definition hexRune :: "nat \<Rightarrow> rune" where
  "hexRune d = (if d < 10 then rune_of CHR ''0'' + d else rune_of CHR ''a'' + (d - 10))"

definition plainByte :: "char \<Rightarrow> bool" where
  "plainByte c \<longleftrightarrow> 0x20 \<le> rune_of c \<and> rune_of c < 0x7F \<and> rune_of c \<notin> {0x22, 0x5C, 0x7B, 0x7D}"

definition quoteByte :: "char \<Rightarrow> rune list" where
  "quoteByte c = (if plainByte c then [rune_of c]
     else [rune_of CHR 0x5C, rune_of CHR ''x'', hexRune (rune_of c div 16), hexRune (rune_of c mod 16)])"

definition quoteString :: "string \<Rightarrow> rune list" where
  "quoteString bs = rune_of CHR 0x22 # concat (map quoteByte bs) @ [rune_of CHR 0x22]"

definition rest_of :: "Lexer \<Rightarrow> rune list" where
  "rest_of l = drop (pos l) (src l)"

lemma rest_of_Cons:
  assumes "rest_of l = r # rs"
  shows "hasMore l" "peek l = r" "fst (advance l) = r" "rest_of (skip l) = rs"
proof -
  show m: "hasMore l" using assms by (cases "hasMore l") (auto simp: rest_of_def hasMore_def)
  show "peek l = r" "fst (advance l) = r" "rest_of (skip l) = rs"
    using assms by (simp_all add: rest_of_def drop_peek m pos_skip fst_advance)
qed

lemma hexDigitVal_hexRune: "d < 16 \<Longrightarrow> hexDigitVal (hexRune d) = Some d"
  by (auto simp: hexDigitVal_def hexRune_def)

lemma hexLoop_byte:
  assumes "rest_of l = hexRune (n div 16) # hexRune (n mod 16) # rs" and "n < 256"
  shows "hexLoop 2 0 l = (Some n, skip (skip l))"
proof -
  note r1 = rest_of_Cons [OF assms(1)]
  note r2 = rest_of_Cons [OF r1(4)]
  have "n div 16 < 16" using assms(2) by simp
  then show ?thesis
    using r1 r2 by (simp add: numeral_2_eq_2 hexDigitVal_hexRune)
qed

lemma of_char_less: "(of_char c :: nat) < 256"
  using of_char_mod_256 [of c] by (metis mod_less_divisor zero_less_numeral)

lemma stringLoop_quoteByte:
  assumes "rest_of l = quoteByte c @ rs"
  obtains l' where "rest_of l' = rs" "stringLoop 0 False sb l = stringLoop 0 False (sb @ [c]) l'"
proof (cases "plainByte c")
  case True
  then have "rest_of l = rune_of c # rs" using assms by (simp add: quoteByte_def)
  note r = rest_of_Cons [OF this]
  have "utf8 (of_char c) = [c]"
    using True by (simp add: plainByte_def utf8_ascii ascii_def)
  then have "stringLoop 0 False sb l = stringLoop 0 False (sb @ [c]) (skip l)"
    using r True by (subst stringLoop.simps) (auto simp: plainByte_def split_beta Let_def)
  with r(4) show thesis by (rule that)
next
  case False
  then have "rest_of l = 92 # 120 # hexRune (of_char c div 16) # hexRune (of_char c mod 16) # rs"
    using assms by (simp add: quoteByte_def)
  note r1 = rest_of_Cons [OF this]
  note r2 = rest_of_Cons [OF r1(4)]
  note r3 = rest_of_Cons [OF r2(4)]
  note r4 = rest_of_Cons [OF r3(4)]
  have "stringEscape 120 (skip (skip l)) = Inr ([c], skip (skip (skip (skip l))))"
    using hexLoop_byte [OF r2(4) of_char_less]
    by (simp add: stringEscape_def simpleEscape_def readHexDigits_def byte_of_def)
  then have "stringLoop 0 False sb l = stringLoop 0 False (sb @ [c]) (skip (skip (skip (skip l))))"
    using r1 r2 by (subst stringLoop.simps) (simp add: split_beta Let_def)
  with r4(4) show thesis by (rule that)
qed

lemma stringLoop_quoteString:
  "rest_of l = concat (map quoteByte bs) @ rune_of CHR 0x22 # rs \<Longrightarrow>
   \<exists>l'. stringLoop 0 False sb l = Inr (sb @ bs, l') \<and> rest_of l' = rs"
proof (induction bs arbitrary: l sb)
  case Nil
  then have "rest_of l = 34 # rs" by simp
  note r = rest_of_Cons [OF this]
  then show ?case by (subst stringLoop.simps) simp
next
  case (Cons c bs)
  from Cons.prems have "rest_of l = quoteByte c @ concat (map quoteByte bs) @ rune_of CHR 0x22 # rs" by simp
  then obtain l' where "rest_of l' = concat (map quoteByte bs) @ rune_of CHR 0x22 # rs"
    and "stringLoop 0 False sb l = stringLoop 0 False (sb @ [c]) l'"
    by (rule stringLoop_quoteByte)
  then show ?case using Cons.IH [of l' "sb @ [c]"] by simp
qed

text \<open>
  C6: string literals round-trip: when the remaining text starts with the literal the printer writes
  for a byte string, \<open>readString\<close> returns those bytes and stops right after the closing quote.
\<close>

theorem readString_quoteString:
  assumes "rest_of l = quoteString bs @ rs"
  shows "\<exists>l'. readString ln cl l = Inr (mkToken STRING_LIT bs ln cl, l') \<and> rest_of l' = rs"
proof -
  from assms have "rest_of l = 34 # concat (map quoteByte bs) @ rune_of CHR 0x22 # rs"
    by (simp add: quoteString_def)
  from stringLoop_quoteString [OF rest_of_Cons(4) [OF this], of "[]"] show ?thesis
    by (auto simp: readString_def)
qed

theorem readString_quoteString_witness:
  "\<exists>l'. readString 1 1 (New (quoteString [CHR ''a'', CHR 0x0A])) = Inr (mkToken STRING_LIT [CHR ''a'', CHR 0x0A] 1 1, l') \<and> rest_of l' = []"
  by (rule readString_quoteString) (simp add: New_def rest_of_def)


end
