(* ===== verification/TinAst.thy ===== *)
theory TinAst
  imports TinPrelude
begin

text \<open>
  The syntax tree (\<^verbatim>\<open>src/ast/ast.go\<close>).

  Every struct of the file is a constructor, or a record when nothing of the tree is below it.  The
  structs that hold nodes are datatypes over the type \<open>'n\<close> of nodes, and \<open>Node\<close> ties the knot.  A field
  of type \<open>Node\<close> or \<open>TypeExpr\<close> that may be \<open>nil\<close> is an option; an \<open>int64\<close> is an \<open>int\<close>, a \<open>float64\<close> its bits,
  a \<open>*big.Int\<close> an \<open>int option\<close>.  The declarations, statements and expressions keep the order of the fields in
  the source.
\<close>

record Pos =
  Line :: int
  Col :: int

datatype TypeExpr =
    SimpleType string
  | GenericType string "TypeExpr list"
  | ArrayType TypeExpr int
  | PointerType TypeExpr bool bool
  | FuncType "TypeExpr list" "TypeExpr option" bool bool
  | UnionTypeExpr "TypeExpr list"
  | VoidType
  | WildcardType string
  | TupleArrayType "TypeExpr list"

datatype TypeBound =
    TBAtom Pos TypeExpr bool
  | TBAnd Pos TypeBound TypeBound
  | TBOr Pos TypeBound TypeBound

record TypeConstraint =
  tc_Pos :: Pos
  tc_TypeParam :: string
  tc_Bound :: TypeBound

record Param =
  p_Name :: string
  p_Type :: "TypeExpr option"
  p_IsConst :: bool
  p_IsVarArgs :: bool

record StructField =
  sf_Pos :: Pos
  sf_Name :: string
  sf_Type :: "TypeExpr option"
  sf_Tags :: "string list"
  sf_IsForward :: bool
  sf_IsWeak :: bool
  sf_IsOwn :: bool
  sf_IsConst :: bool
  sf_IsVar :: bool

record ScopedTag =
  st_Name :: string
  st_Scope :: string

record DataVariant =
  dv_Pos :: Pos
  dv_Name :: string
  dv_Fields :: "StructField list"

record UnionMember =
  um_FieldName :: string
  um_Type :: "TypeExpr option"

record UseImport =
  ui_ExternName :: string
  ui_LocalName :: string
  ui_Type :: "TypeExpr option"

record ArrayPatternElement =
  ape_Name :: string
  ape_IsRest :: bool
  ape_IsWild :: bool

datatype ForKind = ForCStyle | ForIn | ForWhile


datatype (plugins only: code size) Leaf =
    UnionDecl string "UnionMember list" bool
  | UseDecl string bool "UseImport list" bool "string list" bool
  | ExportDecl "string list" string
  | BreakStmt
  | YieldStmt
  | ScopeAccess "string list"
  | TypeRefNode TypeExpr
  | SizeofExpr TypeExpr
  | IsRCExpr TypeExpr
  | Identifier string
  | IntLit int "int option"
  | FloatLit float64
  | StringLit string
  | BacktickLit string
  | CharLit "8 word"
  | BoolLit bool
  | AtomLit string
  | NilLit
  | WildcardExpr
  | ArrayPattern "ArrayPatternElement list"
  | MoveExpr string
  | RefExpr string

datatype (plugins only: code size) 'n Block = Block Pos "'n list" bool
datatype (plugins only: code size) 'n FuncDecl = FuncDecl Pos string string "string list" "TypeConstraint list" "Param list" "TypeExpr option" "'n option" "string list" bool string bool bool
datatype (plugins only: code size) 'n EnumMember = EnumMember string "'n option" bool
datatype (plugins only: code size) 'n ElseIfClause = ElseIfClause 'n "'n Block"
datatype (plugins only: code size) 'n MatchCase = MatchCase Pos "'n option" string "TypeExpr option" "'n option" "'n Block"
datatype (plugins only: code size) 'n WhereClause = WhereClause Pos "'n option" "'n option" "'n option" 'n
datatype (plugins only: code size) 'n AwaitMatchCase = AwaitMatchCase Pos int string "'n option" "'n Block"
datatype (plugins only: code size) 'n StructLitField = StructLitField string 'n
datatype (plugins only: code size) 'n StringPart = StringPart bool string "'n option" string
datatype (plugins only: code size) 'n StructPatternField = StructPatternField string "'n option" bool string

datatype (plugins only: code size) 'n Decl =
    VarDecl bool string "TypeExpr option" "'n option"
  | StructDecl string "string list" "string list" "TypeConstraint list" "StructField list" "'n FuncDecl list" "TypeExpr list" "string list" "ScopedTag list"
  | TraitDecl string "string list" "'n FuncDecl list" "StructField list" bool bool "TypeExpr option"
  | TypeDecl string "string list" "TypeConstraint list" "TypeExpr option" "'n FuncDecl list"
  | EnumDecl "TypeExpr option" bool string "'n EnumMember list"
  | DataDecl string "string list" "string list" "TypeConstraint list" "DataVariant list" "TypeExpr list" "'n FuncDecl list"
  | ArrayDestructDecl "string list" "TypeExpr list" bool "TypeExpr option" 'n
  | StructDestructDecl "string list" "string list" "TypeExpr option" 'n
  | TestDecl string 'n
  | MacroDecl string "string list" "string list" "string list" 'n
  | TopLevelVar string "TypeExpr option" "'n option" bool
  | TupleDestructDecl bool "string list" 'n

datatype (plugins only: code size) 'n Stmt =
    ReturnStmt "'n option"
  | DeferStmt 'n
  | IfStmt 'n "'n Block" "'n ElseIfClause list" "'n Block option"
  | ForStmt ForKind string "TypeExpr option" bool "'n option" "'n option" "'n option" "'n option" "'n Block option"
  | MatchStmt 'n bool "'n MatchCase list" "'n Block option"
  | WhereList "'n WhereClause list"
  | AssignStmt 'n 'n
  | AugAssignStmt 'n string 'n
  | PostfixStmt 'n string
  | ExprStmt 'n
  | EchoStmt 'n
  | TaggedBlock "string list" "'n Block"
  | AwaitMatchStmt "'n list" "'n AwaitMatchCase list" "'n Block option"

datatype (plugins only: code size) 'n Expr =
    BinExpr 'n string 'n
  | UnaryExpr string 'n bool
  | CallExpr 'n "TypeExpr list" "'n list" bool
  | SuffixCallExpr string 'n "'n list"
  | IndexExpr 'n 'n
  | FieldAccess 'n string bool
  | PipeExpr 'n 'n
  | StructLit string "TypeExpr list" "'n StructLitField list" "'n list"
  | ArrayLit "'n list"
  | ArrayFillLit 'n int
  | RangeExpr 'n 'n
  | LambdaExpr "string list" "Param list" "TypeExpr option" 'n "string list"
  | IsExpr 'n string "TypeExpr option" "'n option"
  | TypeAssertExpr 'n "TypeExpr option" bool
  | AsExpr 'n TypeExpr
  | TypeofExpr 'n
  | TraitofExpr 'n
  | FieldnamesExpr 'n
  | FieldtypesExpr 'n
  | FieldtagExpr 'n 'n
  | GetfieldExpr 'n 'n
  | SetfieldExpr 'n 'n 'n
  | AddrExpr 'n
  | DerefExpr 'n
  | AddressOfExpr 'n
  | TernaryExpr 'n 'n 'n
  | InterpolatedString "'n StringPart list"
  | TupleLit "'n list"
  | SliceExpr 'n "'n option" "'n option"
  | DefaultExpr "TypeExpr option" "'n option"
  | StructPattern string "'n StructPatternField list"
  | TuplePattern "'n list"
  | SpawnExpr "'n option" "'n Block option"
  | AwaitExpr 'n
  | TryExpr 'n

text \<open>A node of the tree with the position its \<open>base\<close> holds; \<open>FuncDecl\<close> and \<open>Block\<close> carry theirs.\<close>

datatype (plugins only: code size) Node =
    NLeaf Pos Leaf
  | NDecl Pos "Node Decl"
  | NStmt Pos "Node Stmt"
  | NExpr Pos "Node Expr"
  | NFunc "Node FuncDecl"
  | NBlock "Node Block"

section \<open>Positions and views\<close>

definition noPos :: Pos where
  "noPos = \<lparr>Line = 0, Col = 0\<rparr>"

fun node_Pos :: "Node \<Rightarrow> Pos" where
  "node_Pos (NLeaf p _) = p"
| "node_Pos (NDecl p _) = p"
| "node_Pos (NStmt p _) = p"
| "node_Pos (NExpr p _) = p"
| "node_Pos (NFunc (FuncDecl p _ _ _ _ _ _ _ _ _ _ _ _)) = p"
| "node_Pos (NBlock (Block p _ _)) = p"

text \<open>The type switches of the passes: the fields of a node when it has the given dynamic type.\<close>

fun asIdent :: "Node \<Rightarrow> string option" where
  "asIdent (NLeaf _ (Identifier n)) = Some n"
| "asIdent _ = None"

fun asBin :: "Node \<Rightarrow> (Node \<times> string \<times> Node) option" where
  "asBin (NExpr _ (BinExpr l op r)) = Some (l, op, r)"
| "asBin _ = None"

fun asUnary :: "Node \<Rightarrow> (string \<times> Node) option" where
  "asUnary (NExpr _ (UnaryExpr op e _)) = Some (op, e)"
| "asUnary _ = None"

fun asCall :: "Node \<Rightarrow> (Node \<times> Node list) option" where
  "asCall (NExpr _ (CallExpr f _ as _)) = Some (f, as)"
| "asCall _ = None"

fun asIndex :: "Node \<Rightarrow> (Node \<times> Node) option" where
  "asIndex (NExpr _ (IndexExpr e i)) = Some (e, i)"
| "asIndex _ = None"

fun asScope :: "Node \<Rightarrow> string list option" where
  "asScope (NLeaf _ (ScopeAccess path)) = Some path"
| "asScope _ = None"

fun asIntLit :: "Node \<Rightarrow> int option" where
  "asIntLit (NLeaf _ (IntLit v _)) = Some v"
| "asIntLit _ = None"

fun asBoolLit :: "Node \<Rightarrow> bool option" where
  "asBoolLit (NLeaf _ (BoolLit b)) = Some b"
| "asBoolLit _ = None"

fun isNilLit :: "Node \<Rightarrow> bool" where
  "isNilLit (NLeaf _ NilLit) = True"
| "isNilLit _ = False"

text \<open>Each view gives strictly smaller nodes.\<close>

lemma asBin_size: "asBin n = Some (l, op, r) \<Longrightarrow> size l < size n \<and> size r < size n"
  by (cases n rule: asBin.cases) auto

lemma asUnary_size: "asUnary n = Some (op, e) \<Longrightarrow> size e < size n"
  by (cases n rule: asUnary.cases) auto

lemma asIndex_size: "asIndex n = Some (e, i) \<Longrightarrow> size e < size n \<and> size i < size n"
  by (cases n rule: asIndex.cases) auto

section \<open>Printing of types\<close>

text \<open>The methods \<open>String\<close> of the type expressions.\<close>

fun commaJoin :: "string \<Rightarrow> string list \<Rightarrow> string" where
  "commaJoin sep [] = []"
| "commaJoin sep [s] = s"
| "commaJoin sep (s # t # ss) = s @ sep @ commaJoin sep (t # ss)"

fun TypeExpr_String :: "TypeExpr \<Rightarrow> string" where
  "TypeExpr_String (SimpleType n) = n"
| "TypeExpr_String (GenericType n ps) = n @ ''['' @ commaJoin '', '' (map TypeExpr_String ps) @ '']''"
| "TypeExpr_String (ArrayType e n) =
     (if n < 0 then ''['' @ TypeExpr_String e @ '']'' else ''['' @ TypeExpr_String e @ ''; '' @ sprintf_d n @ '']'')"
| "TypeExpr_String (PointerType e c v) =
     (if v then ''volatile '' else []) @ (if c then ''const *'' else ''*'') @ TypeExpr_String e"
| "TypeExpr_String (FuncType _ _ _ _) = ''fn(...)''"
| "TypeExpr_String (UnionTypeExpr ts) = commaJoin '' | '' (map TypeExpr_String ts)"
| "TypeExpr_String VoidType = ''void''"
| "TypeExpr_String (WildcardType n) = (if n = [] then ''_'' else ''_: '' @ n)"
| "TypeExpr_String (TupleArrayType ts) = ''@['' @ commaJoin '', '' (map TypeExpr_String ts) @ '']''"

end
