(* ===== verification/TinFold.thy ===== *)
theory TinFold
  imports TinAst "HOL-Library.Monad_Syntax"
begin

text \<open>
  Constant folding and the generic tree walk (\<^verbatim>\<open>src/codegen/fold.go\<close>, the scopes of
  \<^verbatim>\<open>src/codegen/scope.go\<close> and \<open>isFoldableInitExpr\<close> of \<^verbatim>\<open>src/codegen/stmts_vardecl.go\<close>).

  \<^item> \<open>walkAST n\<close> is the list of the nodes on which the Go function calls its visitor, in order.
  \<^item> A scope is the list of its frames, the innermost first.  Of a scope entry the folder reads the captured
    initializer and the LLVM type of the value; the LLVM type is what the folder asks of it: its displayed name,
    whether it is \<open>any\<close>, whether it is a float.
  \<^item> \<open>tryFoldExpr\<close> follows identifiers to their initializers, so it need not end; it has a fuel argument, and
    \<open>None\<close> says that the fuel ran out.  The compile-time evaluator behind \<open>tryFoldPureCall\<close> is a parameter.
\<close>

section \<open>The tree walk\<close>

primrec optList :: "'a option \<Rightarrow> 'a list" where
  "optList None = []"
| "optList (Some x) = [x]"

lemma set_optList [simp]: "x \<in> set (optList v) \<longleftrightarrow> v = Some x"
  by (cases v) auto

abbreviation optBlock :: "Node Block option \<Rightarrow> Node list" where
  "optBlock b \<equiv> map NBlock (optList b)"

fun declChildren :: "Node Decl \<Rightarrow> Node list" where
  "declChildren (VarDecl _ _ _ v) = optList v"
| "declChildren (StructDecl _ _ _ _ _ ms _ _ _) = map NFunc ms"
| "declChildren (ArrayDestructDecl _ _ _ _ v) = [v]"
| "declChildren (StructDestructDecl _ _ _ v) = [v]"
| "declChildren (TestDecl _ b) = [b]"
| "declChildren (MacroDecl _ _ _ _ b) = [b]"
| "declChildren (TopLevelVar _ _ v _) = optList v"
| "declChildren (TupleDestructDecl _ _ v) = [v]"
| "declChildren _ = []"

fun elseIfChildren :: "Node ElseIfClause \<Rightarrow> Node list" where
  "elseIfChildren (ElseIfClause c b) = [c, NBlock b]"

fun matchCaseChildren :: "Node MatchCase \<Rightarrow> Node list" where
  "matchCaseChildren (MatchCase _ pat _ _ g b) = optList pat @ optList g @ [NBlock b]"

fun whereChildren :: "Node WhereClause \<Rightarrow> Node list" where
  "whereChildren (WhereClause _ c pat g b) = optList c @ optList pat @ optList g @ [b]"

fun awaitCaseChildren :: "Node AwaitMatchCase \<Rightarrow> Node list" where
  "awaitCaseChildren (AwaitMatchCase _ _ _ g b) = optList g @ [NBlock b]"

fun stmtChildren :: "Node Stmt \<Rightarrow> Node list" where
  "stmtChildren (ReturnStmt v) = optList v"
| "stmtChildren (DeferStmt c) = [c]"
| "stmtChildren (IfStmt c t eis e) = [c, NBlock t] @ concat (map elseIfChildren eis) @ optBlock e"
| "stmtChildren (ForStmt _ _ _ _ init cond post _ body) = optList init @ optList cond @ optList post @ optBlock body"
| "stmtChildren (MatchStmt e _ cs d) = [e] @ concat (map matchCaseChildren cs) @ optBlock d"
| "stmtChildren (WhereList cs) = concat (map whereChildren cs)"
| "stmtChildren (AssignStmt t v) = [t, v]"
| "stmtChildren (AugAssignStmt t _ v) = [t, v]"
| "stmtChildren (PostfixStmt e _) = [e]"
| "stmtChildren (ExprStmt e) = [e]"
| "stmtChildren (EchoStmt v) = [v]"
| "stmtChildren (TaggedBlock _ b) = [NBlock b]"
| "stmtChildren (AwaitMatchStmt fs cs d) = fs @ concat (map awaitCaseChildren cs) @ optBlock d"

fun structLitValue :: "Node StructLitField \<Rightarrow> Node" where
  "structLitValue (StructLitField _ v) = v"

fun stringPartChildren :: "Node StringPart \<Rightarrow> Node list" where
  "stringPartChildren (StringPart isExpr _ e _) = (if isExpr then optList e else [])"

fun exprChildren :: "Node Expr \<Rightarrow> Node list" where
  "exprChildren (BinExpr l _ r) = [l, r]"
| "exprChildren (UnaryExpr _ e _) = [e]"
| "exprChildren (CallExpr f _ as _) = f # as"
| "exprChildren (SuffixCallExpr _ l as) = l # as"
| "exprChildren (IndexExpr e i) = [e, i]"
| "exprChildren (FieldAccess e _ _) = [e]"
| "exprChildren (PipeExpr l r) = [l, r]"
| "exprChildren (StructLit _ _ fs ps) = map structLitValue fs @ ps"
| "exprChildren (ArrayLit es) = es"
| "exprChildren (ArrayFillLit v _) = [v]"
| "exprChildren (RangeExpr s e) = [s, e]"
| "exprChildren (LambdaExpr _ _ _ b _) = [b]"
| "exprChildren (IsExpr e _ _ pat) = e # optList pat"
| "exprChildren (TypeAssertExpr e _ _) = [e]"
| "exprChildren (AsExpr e _) = [e]"
| "exprChildren (TypeofExpr e) = [e]"
| "exprChildren (TraitofExpr e) = [e]"
| "exprChildren (FieldnamesExpr e) = [e]"
| "exprChildren (FieldtypesExpr e) = [e]"
| "exprChildren (FieldtagExpr e f) = [e, f]"
| "exprChildren (GetfieldExpr e f) = [e, f]"
| "exprChildren (SetfieldExpr e f v) = [e, f, v]"
| "exprChildren (AddrExpr v) = [v]"
| "exprChildren (DerefExpr e) = [e]"
| "exprChildren (AddressOfExpr e) = [e]"
| "exprChildren (TernaryExpr c t e) = [c, t, e]"
| "exprChildren (InterpolatedString ps) = concat (map stringPartChildren ps)"
| "exprChildren (TupleLit es) = es"
| "exprChildren (SliceExpr e s t) = e # optList s @ optList t"
| "exprChildren (SpawnExpr c b) = optList c @ optBlock b"
| "exprChildren (AwaitExpr f) = [f]"
| "exprChildren (TryExpr e) = [e]"
| "exprChildren (DefaultExpr _ _) = []"
| "exprChildren (StructPattern _ _) = []"
| "exprChildren (TuplePattern _) = []"

fun walkChildren :: "Node \<Rightarrow> Node list" where
  "walkChildren (NLeaf _ _) = []"
| "walkChildren (NDecl _ d) = declChildren d"
| "walkChildren (NStmt _ s) = stmtChildren s"
| "walkChildren (NExpr _ e) = exprChildren e"
| "walkChildren (NFunc (FuncDecl _ _ _ _ _ _ _ b _ _ _ _ _)) = optList b"
| "walkChildren (NBlock (Block _ ss _)) = ss"

text \<open>A child is smaller than its node.\<close>

lemma size_list_mem: "x \<in> set xs \<Longrightarrow> f x < size_list f xs" for f :: "'a \<Rightarrow> nat"
  by (induction xs) auto

lemma size_list_children:
  fixes f :: "'a \<Rightarrow> Node list"
  assumes "\<And>n c. n \<in> set (f c) \<Longrightarrow> size n \<le> g c" and "n \<in> set (concat (map f cs))"
  shows "size n < size_list g cs"
proof -
  from assms(2) obtain c where "c \<in> set cs" "n \<in> set (f c)" by auto
  with assms(1) [of n c] size_list_mem [of c cs g] show ?thesis by simp
qed

lemma elseIf_size: "n \<in> set (elseIfChildren c) \<Longrightarrow> size n \<le> size_ElseIfClause size c"
  by (cases c) auto

lemma matchCase_size: "n \<in> set (matchCaseChildren c) \<Longrightarrow> size n \<le> size_MatchCase size c"
  by (cases c) auto

lemma where_size: "n \<in> set (whereChildren c) \<Longrightarrow> size n \<le> size_WhereClause size c"
  by (cases c) auto

lemma awaitCase_size: "n \<in> set (awaitCaseChildren c) \<Longrightarrow> size n \<le> size_AwaitMatchCase size c"
  by (cases c) auto

lemma structLit_size: "size (structLitValue f) \<le> size_StructLitField size f"
  by (cases f) auto

lemma stringPart_size: "n \<in> set (stringPartChildren c) \<Longrightarrow> size n \<le> size_StringPart size c"
  by (cases c) (auto split: if_splits)

lemma declChildren_size: "n \<in> set (declChildren d) \<Longrightarrow> size n \<le> size_Decl size d"
  by (cases d) (auto dest: size_list_mem [of _ _ "size_FuncDecl size"])

lemma elseIf_sizes: "n \<in> set (concat (map elseIfChildren cs)) \<Longrightarrow> size n < size_list (size_ElseIfClause size) cs"
  by (rule size_list_children) (rule elseIf_size)

lemma matchCase_sizes: "n \<in> set (concat (map matchCaseChildren cs)) \<Longrightarrow> size n < size_list (size_MatchCase size) cs"
  by (rule size_list_children) (rule matchCase_size)

lemma where_sizes: "n \<in> set (concat (map whereChildren cs)) \<Longrightarrow> size n < size_list (size_WhereClause size) cs"
  by (rule size_list_children) (rule where_size)

lemma awaitCase_sizes: "n \<in> set (concat (map awaitCaseChildren cs)) \<Longrightarrow> size n < size_list (size_AwaitMatchCase size) cs"
  by (rule size_list_children) (rule awaitCase_size)

lemma stringPart_sizes: "n \<in> set (concat (map stringPartChildren cs)) \<Longrightarrow> size n < size_list (size_StringPart size) cs"
  by (rule size_list_children) (rule stringPart_size)

lemmas clause_sizes = elseIf_sizes matchCase_sizes where_sizes awaitCase_sizes stringPart_sizes

lemma node_list_mem: "n \<in> set ns \<Longrightarrow> size n < size_list size ns" for n :: Node
  by (rule size_list_mem)

lemma stmtChildren_size: "n \<in> set (stmtChildren s) \<Longrightarrow> size n \<le> size_Stmt size s"
  by (cases s) (auto simp del: set_concat dest!: clause_sizes dest: node_list_mem)

lemma structLit_sizes: "f \<in> set fs \<Longrightarrow> size (structLitValue f) < size_list (size_StructLitField size) fs"
  using size_list_mem [of f fs "size_StructLitField size"] structLit_size [of f] by simp

lemma exprChildren_size: "n \<in> set (exprChildren e) \<Longrightarrow> size n \<le> size_Expr size e"
  by (cases e) (auto simp del: set_concat dest!: clause_sizes structLit_sizes dest: node_list_mem)

lemma walkChildren_size: "c \<in> set (walkChildren n) \<Longrightarrow> size c < size n"
  by (cases n rule: walkChildren.cases)
    (auto simp: less_Suc_eq_le declChildren_size stmtChildren_size exprChildren_size dest: size_list_mem [of _ _ size])

function walkAST :: "Node \<Rightarrow> Node list" where
  "walkAST n = n # concat (map walkAST (walkChildren n))"
  by pat_completeness auto
termination
  by (relation "measure size") (auto simp: walkChildren_size)

declare walkAST.simps [simp del]

section \<open>Assigned names\<close>

fun mutatedBy :: "Node \<Rightarrow> string list" where
  "mutatedBy (NStmt _ (AssignStmt t _)) = optList (asIdent t)"
| "mutatedBy (NStmt _ (AugAssignStmt t _ _)) = optList (asIdent t)"
| "mutatedBy (NStmt _ (PostfixStmt e _)) = optList (asIdent e)"
| "mutatedBy (NExpr _ (AddressOfExpr e)) = optList (asIdent e)"
| "mutatedBy (NExpr _ (AddrExpr v)) = optList (asIdent v)"
| "mutatedBy _ = []"

definition collectMutatedNamesInto :: "Node \<Rightarrow> string set \<Rightarrow> string set" where
  "collectMutatedNamesInto root out = foldl (\<lambda>o' n. o' \<union> set (mutatedBy n)) out (walkAST root)"

definition collectMutatedNames :: "Node \<Rightarrow> string set" where
  "collectMutatedNames root = collectMutatedNamesInto root {}"

definition collectMutatedNamesFromStmts :: "Node list \<Rightarrow> string set" where
  "collectMutatedNamesFromStmts stmts = foldl (\<lambda>out s. collectMutatedNamesInto s out) {} stmts"

section \<open>Scopes\<close>

record staticType =
  displayName :: string
  isAny :: bool
  isFloat :: bool

record scopeEntry =
  constInitExpr :: "Node option"
  staticTy :: "staticType option"

type_synonym scope = "(string \<times> scopeEntry) list list"

fun lookup :: "scope \<Rightarrow> string \<Rightarrow> scopeEntry option" where
  "lookup [] name = None"
| "lookup (vars # parent) name = (case map_of vars name of Some e \<Rightarrow> Some e | None \<Rightarrow> lookup parent name)"

fun scope_set :: "scope \<Rightarrow> string \<Rightarrow> scopeEntry \<Rightarrow> scope" where
  "scope_set [] name e = [[(name, e)]]"
| "scope_set (vars # parent) name e =
     (if map_of vars name = None then vars @ [(name, e)]
      else map (\<lambda>(n, old). (n, if n = name then e else old)) vars) # parent"

text \<open>The part of \<open>genVarDecl\<close> that captures an initializer.\<close>

fun foldableAtom :: "Node \<Rightarrow> bool" where
  "foldableAtom (NLeaf _ (BoolLit _)) = True"
| "foldableAtom (NLeaf _ (AtomLit _)) = True"
| "foldableAtom (NLeaf _ (IntLit _ _)) = True"
| "foldableAtom (NExpr _ (TypeofExpr _)) = True"
| "foldableAtom (NLeaf _ (Identifier _)) = True"
| "foldableAtom _ = False"

function isFoldableInitExpr :: "Node \<Rightarrow> bool" where
  "isFoldableInitExpr n =
     (if foldableAtom n then True
      else case asBin n of
        Some (l, _, r) \<Rightarrow> isFoldableInitExpr l \<and> isFoldableInitExpr r
      | None \<Rightarrow> (case asUnary n of Some (_, e) \<Rightarrow> isFoldableInitExpr e | None \<Rightarrow> False))"
  by pat_completeness auto
termination
  by (relation "measure size") (auto dest: asBin_size asUnary_size)

declare isFoldableInitExpr.simps [simp del]

definition captureInit :: "scope \<Rightarrow> string \<Rightarrow> Node option \<Rightarrow> staticType option \<Rightarrow> scope" where
  "captureInit sc name v ty =
     scope_set sc name \<lparr>constInitExpr = (case v of Some e \<Rightarrow> if isFoldableInitExpr e then Some e else None | None \<Rightarrow> None),
       staticTy = ty\<rparr>"

section \<open>Folding\<close>

datatype foldedValue = foldUnknown | foldBool bool | foldInt int | foldAtom string

datatype ctfeVal = CtfeInt int | CtfeBool bool | CtfeOther

record foldEnv =
  mutatedNames :: "string set option"
  curScope :: scope
  tryEvalPureCall :: "Node \<Rightarrow> ctfeVal option"

fun foldEq :: "foldedValue \<Rightarrow> foldedValue \<Rightarrow> foldedValue" where
  "foldEq foldUnknown _ = foldUnknown"
| "foldEq _ foldUnknown = foldUnknown"
| "foldEq (foldAtom a) (foldAtom b) = foldBool (a = b)"
| "foldEq (foldBool a) (foldBool b) = foldBool (a = b)"
| "foldEq (foldInt a) (foldInt b) = foldBool (a = b)"
| "foldEq _ _ = foldBool False"

fun foldNeq :: "foldedValue \<Rightarrow> foldedValue \<Rightarrow> foldedValue" where
  "foldNeq foldUnknown _ = foldUnknown"
| "foldNeq _ foldUnknown = foldUnknown"
| "foldNeq (foldAtom a) (foldAtom b) = foldBool (a \<noteq> b)"
| "foldNeq (foldBool a) (foldBool b) = foldBool (a \<noteq> b)"
| "foldNeq (foldInt a) (foldInt b) = foldBool (a \<noteq> b)"
| "foldNeq _ _ = foldBool True"

text \<open>The recursive calls of the helpers go through the argument \<open>rec\<close>, which is \<open>tryFoldExpr\<close> with less fuel.\<close>

definition tryFoldBinExpr :: "(Node \<Rightarrow> foldedValue option) \<Rightarrow> Node \<Rightarrow> string \<Rightarrow> Node \<Rightarrow> foldedValue option" where
  "tryFoldBinExpr rec lhs op rhs =
     (if op = ''=='' then do { l \<leftarrow> rec lhs; r \<leftarrow> rec rhs; Some (foldEq l r) }
      else if op = ''!='' then do { l \<leftarrow> rec lhs; r \<leftarrow> rec rhs; Some (foldNeq l r) }
      else if op = ''&&'' \<or> op = ''and'' then do {
        l \<leftarrow> rec lhs;
        if l = foldBool False then Some (foldBool False)
        else do {
          r \<leftarrow> rec rhs;
          Some (case (l, r) of (foldBool a, foldBool b) \<Rightarrow> foldBool (a \<and> b) | _ \<Rightarrow> foldUnknown)
        }
      }
      else if op = ''||'' \<or> op = ''or'' then do {
        l \<leftarrow> rec lhs;
        if l = foldBool True then Some (foldBool True)
        else do {
          r \<leftarrow> rec rhs;
          Some (case (l, r) of (foldBool a, foldBool b) \<Rightarrow> foldBool (a \<or> b) | _ \<Rightarrow> foldUnknown)
        }
      }
      else Some foldUnknown)"

definition tryFoldUnaryExpr :: "(Node \<Rightarrow> foldedValue option) \<Rightarrow> string \<Rightarrow> Node \<Rightarrow> foldedValue option" where
  "tryFoldUnaryExpr rec op e =
     (if op \<noteq> ''!'' \<and> op \<noteq> ''not'' then Some foldUnknown
      else do { v \<leftarrow> rec e; Some (case v of foldBool b \<Rightarrow> foldBool (\<not> b) | _ \<Rightarrow> foldUnknown) })"

definition tryFoldIdent :: "(Node \<Rightarrow> foldedValue option) \<Rightarrow> foldEnv \<Rightarrow> string \<Rightarrow> foldedValue option" where
  "tryFoldIdent rec cg name =
     (if (case mutatedNames cg of Some m \<Rightarrow> name \<in> m | None \<Rightarrow> False) then Some foldUnknown
      else case lookup (curScope cg) name of
        None \<Rightarrow> Some foldUnknown
      | Some entry \<Rightarrow> (case constInitExpr entry of None \<Rightarrow> Some foldUnknown | Some e \<Rightarrow> rec e))"

definition staticTypeOf :: "foldEnv \<Rightarrow> Node \<Rightarrow> staticType option" where
  "staticTypeOf cg n =
     (case asIdent n of
        Some name \<Rightarrow> (case lookup (curScope cg) name of Some entry \<Rightarrow> staticTy entry | None \<Rightarrow> None)
      | None \<Rightarrow> None)"

definition tryFoldTypeof :: "foldEnv \<Rightarrow> Node \<Rightarrow> foldedValue" where
  "tryFoldTypeof cg e =
     (case staticTypeOf cg e of
        None \<Rightarrow> foldUnknown
      | Some t \<Rightarrow> if isAny t then foldUnknown else foldAtom (displayName t))"

definition tryFoldPureCall :: "foldEnv \<Rightarrow> Node \<Rightarrow> foldedValue" where
  "tryFoldPureCall cg call =
     (case tryEvalPureCall cg call of
        Some (CtfeInt i) \<Rightarrow> foldInt i
      | Some (CtfeBool b) \<Rightarrow> foldBool b
      | _ \<Rightarrow> foldUnknown)"

fun tryFoldExpr :: "nat \<Rightarrow> foldEnv \<Rightarrow> Node \<Rightarrow> foldedValue option" where
  "tryFoldExpr 0 cg n = None"
| "tryFoldExpr (Suc k) cg n =
     (case n of
        NLeaf _ (BoolLit b) \<Rightarrow> Some (foldBool b)
      | NLeaf _ (AtomLit a) \<Rightarrow> Some (foldAtom a)
      | NLeaf _ (IntLit v big) \<Rightarrow> Some (if big \<noteq> None then foldUnknown else foldInt v)
      | NExpr _ (TypeofExpr e) \<Rightarrow> Some (tryFoldTypeof cg e)
      | NLeaf _ (Identifier name) \<Rightarrow> tryFoldIdent (tryFoldExpr k cg) cg name
      | NExpr _ (BinExpr l op r) \<Rightarrow> tryFoldBinExpr (tryFoldExpr k cg) l op r
      | NExpr _ (UnaryExpr op e _) \<Rightarrow> tryFoldUnaryExpr (tryFoldExpr k cg) op e
      | NExpr _ (CallExpr _ _ _ _) \<Rightarrow> Some (tryFoldPureCall cg n)
      | _ \<Rightarrow> Some foldUnknown)"

definition foldedBoolCondition :: "nat \<Rightarrow> foldEnv \<Rightarrow> Node \<Rightarrow> (bool \<times> bool) option" where
  "foldedBoolCondition k cg e =
     do { v \<leftarrow> tryFoldExpr k cg e; Some (case v of foldBool b \<Rightarrow> (b, True) | _ \<Rightarrow> (False, False)) }"

text \<open>Of the two folded operands, for a warning; the right one is folded only when the left one does not decide.\<close>

definition warnAnd :: "foldedValue \<Rightarrow> foldedValue option \<Rightarrow> foldedValue option" where
  "warnAnd l ro =
     (if l = foldBool False then Some (foldBool False)
      else do {
        r \<leftarrow> ro;
        Some (if r = foldBool False then foldBool False
              else case (l, r) of (foldBool a, foldBool b) \<Rightarrow> foldBool (a \<and> b) | _ \<Rightarrow> foldUnknown)
      })"

definition warnOr :: "foldedValue \<Rightarrow> foldedValue option \<Rightarrow> foldedValue option" where
  "warnOr l ro =
     (if l = foldBool True then Some (foldBool True)
      else do {
        r \<leftarrow> ro;
        Some (if r = foldBool True then foldBool True
              else case (l, r) of (foldBool a, foldBool b) \<Rightarrow> foldBool (a \<or> b) | _ \<Rightarrow> foldUnknown)
      })"

function tryFoldExprForWarning :: "nat \<Rightarrow> foldEnv \<Rightarrow> Node \<Rightarrow> foldedValue option" where
  "tryFoldExprForWarning k cg n =
     do {
       v \<leftarrow> tryFoldExpr k cg n;
       if v \<noteq> foldUnknown then Some v
       else case asBin n of
         Some (lhs, op, rhs) \<Rightarrow>
           if op = ''&&'' \<or> op = ''and'' then do {
             l \<leftarrow> tryFoldExprForWarning k cg lhs; warnAnd l (tryFoldExprForWarning k cg rhs) }
           else if op = ''||'' \<or> op = ''or'' then do {
             l \<leftarrow> tryFoldExprForWarning k cg lhs; warnOr l (tryFoldExprForWarning k cg rhs) }
           else Some foldUnknown
       | None \<Rightarrow>
           (case asUnary n of
              Some (op, e) \<Rightarrow>
                if op = ''!'' \<or> op = ''not'' then do {
                  w \<leftarrow> tryFoldExprForWarning k cg e;
                  Some (case w of foldBool b \<Rightarrow> foldBool (\<not> b) | _ \<Rightarrow> foldUnknown) }
                else Some foldUnknown
            | None \<Rightarrow> Some foldUnknown)
     }"
  by pat_completeness auto
termination
  by (relation "measure (\<lambda>(k, cg, n). size n)") (auto dest: asBin_size asUnary_size)

declare tryFoldExprForWarning.simps [simp del]

definition boolCondConstResult :: "nat \<Rightarrow> foldEnv \<Rightarrow> Node \<Rightarrow> (bool \<times> bool) option" where
  "boolCondConstResult k cg e =
     do { v \<leftarrow> tryFoldExprForWarning k cg e; Some (case v of foldBool b \<Rightarrow> (b, True) | _ \<Rightarrow> (False, False)) }"

section \<open>What the walk does not visit\<close>

lemma collectMutatedNamesInto_eq: "collectMutatedNamesInto n out = out \<union> (\<Union>m \<in> set (walkAST n). set (mutatedBy m))"
proof -
  have "foldl (\<lambda>o' n. o' \<union> set (mutatedBy n)) out ns = out \<union> (\<Union>m \<in> set ns. set (mutatedBy m))" for ns
    by (induction ns arbitrary: out) auto
  then show ?thesis by (simp add: collectMutatedNamesInto_def)
qed

lemma collectMutatedNames_eq: "collectMutatedNames n = (\<Union>m \<in> set (walkAST n). set (mutatedBy m))"
  by (simp add: collectMutatedNames_def collectMutatedNamesInto_eq)

text \<open>The walk goes through every node below a node it visits.\<close>

lemma walkAST_self [simp]: "n \<in> set (walkAST n)"
  by (subst walkAST.simps) simp

lemma walkAST_child: "c \<in> set (walkChildren n) \<Longrightarrow> set (walkAST c) \<subseteq> set (walkAST n)"
  by (subst (2) walkAST.simps) auto

inductive below :: "Node \<Rightarrow> Node \<Rightarrow> bool" where
  below_refl: "below n n"
| below_step: "below m c \<Longrightarrow> c \<in> set (walkChildren n) \<Longrightarrow> below m n"

lemma walkAST_below: "m \<in> set (walkAST n) \<longleftrightarrow> below m n"
proof
  show "m \<in> set (walkAST n) \<Longrightarrow> below m n"
  proof (induction n rule: walkAST.induct)
    case (1 n)
    from 1(2) have "m = n \<or> (\<exists>c \<in> set (walkChildren n). m \<in> set (walkAST c))"
      by (subst (asm) walkAST.simps) auto
    then show ?case using 1(1) by (auto intro: below.intros)
  qed
  show "below m n \<Longrightarrow> m \<in> set (walkAST n)"
    by (induction rule: below.induct) (use walkAST_child in auto)
qed

section \<open>Termination\<close>

text \<open>More fuel does not change a result.\<close>

definition extends :: "(Node \<Rightarrow> foldedValue option) \<Rightarrow> (Node \<Rightarrow> foldedValue option) \<Rightarrow> bool" where
  "extends f g \<longleftrightarrow> (\<forall>n v. f n = Some v \<longrightarrow> g n = Some v)"

lemma bin_extends:
  assumes "extends f g" and "tryFoldBinExpr f l op r = Some v"
  shows "tryFoldBinExpr g l op r = Some v"
proof -
  have e: "f n = None \<or> g n = f n" for n using assms(1) by (cases "f n") (auto simp: extends_def)
  show ?thesis
  proof (cases "f l")
    case None
    then show ?thesis using assms(2) by (simp add: tryFoldBinExpr_def split: if_split_asm)
  next
    case (Some a)
    then have g: "g l = Some a" using e [of l] by simp
    show ?thesis
    proof (cases "f r")
      case None
      then show ?thesis using assms(2) Some g by (auto simp: tryFoldBinExpr_def split: if_split_asm)
    next
      case b: (Some b)
      then have "g r = f r" "g l = f l" using e [of r] e [of l] Some by simp_all
      then have "tryFoldBinExpr g l op r = tryFoldBinExpr f l op r" by (simp only: tryFoldBinExpr_def)
      then show ?thesis using assms(2) by simp
    qed
  qed
qed

lemma unary_extends: "extends f g \<Longrightarrow> tryFoldUnaryExpr f op e = Some v \<Longrightarrow> tryFoldUnaryExpr g op e = Some v"
  by (auto simp: tryFoldUnaryExpr_def extends_def bind_eq_Some_conv split: if_splits)

lemma ident_extends: "extends f g \<Longrightarrow> tryFoldIdent f cg x = Some v \<Longrightarrow> tryFoldIdent g cg x = Some v"
  by (auto simp: tryFoldIdent_def extends_def split: if_splits option.splits)

text \<open>The equations of \<open>tryFoldExpr\<close>, one for each recursive shape.\<close>

fun recursiveShape :: "Node \<Rightarrow> bool" where
  "recursiveShape (NLeaf _ (Identifier _)) = True"
| "recursiveShape (NExpr _ (BinExpr _ _ _)) = True"
| "recursiveShape (NExpr _ (UnaryExpr _ _ _)) = True"
| "recursiveShape _ = False"

lemma tryFold_flat: "\<not> recursiveShape n \<Longrightarrow> \<exists>v. \<forall>k. tryFoldExpr (Suc k) cg n = Some v"
  by (cases n rule: recursiveShape.cases) (auto split: Leaf.splits Expr.splits)

lemma tryFold_shapes:
  "tryFoldExpr (Suc k) cg (NLeaf p (Identifier x)) = tryFoldIdent (tryFoldExpr k cg) cg x"
  "tryFoldExpr (Suc k) cg (NExpr p (BinExpr l op r)) = tryFoldBinExpr (tryFoldExpr k cg) l op r"
  "tryFoldExpr (Suc k) cg (NExpr p (UnaryExpr op e b)) = tryFoldUnaryExpr (tryFoldExpr k cg) op e"
  by simp_all

declare tryFoldExpr.simps(2) [simp del]

lemma tryFold_mono_Suc: "extends (tryFoldExpr k cg) (tryFoldExpr (Suc k) cg)"
proof (induction k)
  case 0
  show ?case by (simp add: extends_def)
next
  case (Suc k)
  show ?case unfolding extends_def
  proof (intro allI impI)
    fix n v assume a: "tryFoldExpr (Suc k) cg n = Some v"
    show "tryFoldExpr (Suc (Suc k)) cg n = Some v"
    proof (cases "recursiveShape n")
      case True
      then show ?thesis using a bin_extends [OF Suc] unary_extends [OF Suc] ident_extends [OF Suc]
        by (cases n rule: recursiveShape.cases) (simp_all add: tryFold_shapes)
    next
      case False
      from tryFold_flat [OF False, of cg] a show ?thesis by auto
    qed
  qed
qed

lemma tryFold_mono:
  assumes "k \<le> m" and "tryFoldExpr k cg n = Some v"
  shows "tryFoldExpr m cg n = Some v"
  using assms
proof (induction m rule: dec_induct)
  case base
  then show ?case by simp
next
  case (step m)
  then show ?case using tryFold_mono_Suc [of m cg] by (auto simp: extends_def)
qed

text \<open>The names the folder can reach from an expression.\<close>

function foldNames :: "Node \<Rightarrow> string set" where
  "foldNames n =
     (case asBin n of Some (l, _, r) \<Rightarrow> foldNames l \<union> foldNames r
      | None \<Rightarrow> (case asUnary n of Some (_, e) \<Rightarrow> foldNames e
      | None \<Rightarrow> (case asIdent n of Some x \<Rightarrow> {x} | None \<Rightarrow> {})))"
  by pat_completeness auto
termination
  by (relation "measure size") (auto dest: asBin_size asUnary_size)

declare foldNames.simps [simp del]

lemma foldNames_simps [simp]:
  "foldNames (NExpr p (BinExpr l op r)) = foldNames l \<union> foldNames r"
  "foldNames (NExpr p (UnaryExpr op e b)) = foldNames e"
  "foldNames (NLeaf p (Identifier x)) = {x}"
  by (subst foldNames.simps, simp)+

definition initOf :: "foldEnv \<Rightarrow> string \<Rightarrow> Node option" where
  "initOf cg x = (case lookup (curScope cg) x of Some entry \<Rightarrow> constInitExpr entry | None \<Rightarrow> None)"

text \<open>A scope in which captured initializers refer only to names of smaller rank.\<close>

definition ranked :: "(string \<Rightarrow> nat) \<Rightarrow> foldEnv \<Rightarrow> bool" where
  "ranked r cg \<longleftrightarrow> (\<forall>x e. initOf cg x = Some e \<longrightarrow> (\<forall>y \<in> foldNames e. r y < r x))"

definition returns :: "foldEnv \<Rightarrow> Node \<Rightarrow> bool" where
  "returns cg n \<longleftrightarrow> (\<exists>k v. tryFoldExpr k cg n = Some v)"

lemma returns_bin:
  assumes "returns cg l" and "returns cg r"
  shows "returns cg (NExpr p (BinExpr l op r))"
proof -
  from assms obtain k v m w where kv: "tryFoldExpr k cg l = Some v" and mw: "tryFoldExpr m cg r = Some w"
    by (auto simp: returns_def)
  let ?k = "max k m"
  have f: "tryFoldExpr ?k cg l = Some v" "tryFoldExpr ?k cg r = Some w"
    using tryFold_mono [OF _ kv, of ?k] tryFold_mono [OF _ mw, of ?k] by auto
  then have "\<exists>u. tryFoldBinExpr (tryFoldExpr ?k cg) l op r = Some u"
    by (auto simp: tryFoldBinExpr_def)
  then show ?thesis unfolding returns_def using tryFold_shapes(2) by metis
qed

lemma returns_unary:
  assumes "returns cg e"
  shows "returns cg (NExpr p (UnaryExpr op e b))"
proof -
  from assms obtain k v where "tryFoldExpr k cg e = Some v" by (auto simp: returns_def)
  then have "\<exists>u. tryFoldUnaryExpr (tryFoldExpr k cg) op e = Some u" by (auto simp: tryFoldUnaryExpr_def)
  then show ?thesis unfolding returns_def using tryFold_shapes(3) by metis
qed

lemma returns_ident:
  assumes "\<And>e. initOf cg x = Some e \<Longrightarrow> returns cg e"
  shows "returns cg (NLeaf p (Identifier x))"
proof (cases "initOf cg x")
  case None
  then have "tryFoldIdent (tryFoldExpr 0 cg) cg x = Some foldUnknown"
    by (auto simp: tryFoldIdent_def initOf_def split: option.splits)
  then show ?thesis unfolding returns_def using tryFold_shapes(1) by metis
next
  case (Some e)
  from assms [OF Some] obtain k v where "tryFoldExpr k cg e = Some v" by (auto simp: returns_def)
  then have "\<exists>u. tryFoldIdent (tryFoldExpr k cg) cg x = Some u"
    using Some by (auto simp: tryFoldIdent_def initOf_def split: option.splits)
  then show ?thesis unfolding returns_def using tryFold_shapes(1) by metis
qed

lemma returns_ranked:
  assumes "ranked r cg" and "\<And>x. x \<in> foldNames n \<Longrightarrow> r x < m"
  shows "returns cg n"
  using assms(2)
proof (induction m arbitrary: n rule: less_induct)
  case (less m)
  show ?case using less.prems
  proof (induction "size n" arbitrary: n rule: less_induct)
    case IH: less
    show ?case
    proof (cases "recursiveShape n")
      case False
      from tryFold_flat [OF this, of cg] show ?thesis by (auto simp: returns_def)
    next
      case True
      then show ?thesis
      proof (cases n rule: recursiveShape.cases)
        case (1 p x)
        have "r x < m" using IH.prems 1 by auto
        have "returns cg e" if "initOf cg x = Some e" for e
          using less.IH [OF \<open>r x < m\<close>, of e] assms(1) that by (auto simp: ranked_def)
        then show ?thesis using 1 returns_ident by blast
      next
        case (2 p l op r)
        then show ?thesis using IH by (auto intro!: returns_bin)
      next
        case (3 p op e b)
        then show ?thesis using IH by (auto intro!: returns_unary)
      qed auto
    qed
  qed
qed

section \<open>Properties\<close>

text \<open>C15.  Folding ends: when the captured initializers of a scope are not circular (each refers only to
  names of smaller rank), enough fuel gives a result for every expression, and more fuel gives the same one.\<close>

theorem tryFoldExpr_terminates:
  assumes "ranked r cg"
  shows "\<exists>k v. \<forall>m \<ge> k. tryFoldExpr m cg n = Some v"
proof -
  have fin: "finite (foldNames e)" for e
    by (induction e rule: foldNames.induct) (subst foldNames.simps, auto split: option.splits)
  have "r x < Suc (Max (insert 0 (r ` foldNames n)))" if "x \<in> foldNames n" for x
    using that fin by (simp add: less_Suc_eq_le)
  from returns_ranked [OF assms this, of n] obtain k v where "tryFoldExpr k cg n = Some v"
    by (auto simp: returns_def)
  then show ?thesis using tryFold_mono by blast
qed

text \<open>Two bindings, \<open>let a = true\<close> and \<open>let b = a\<close>.\<close>

definition twoLets :: foldEnv where
  "twoLets = \<lparr>mutatedNames = Some {}, curScope = captureInit (captureInit [[]] ''a'' (Some (NLeaf noPos (BoolLit True))) None)
       ''b'' (Some (NLeaf noPos (Identifier ''a''))) None, tryEvalPureCall = (\<lambda>_. None)\<rparr>"

theorem tryFoldExpr_terminates_witness:
  "\<exists>k v. \<forall>m \<ge> k. tryFoldExpr m twoLets (NLeaf noPos (Identifier ''b'')) = Some v"
proof -
  have f: "isFoldableInitExpr (NLeaf noPos (BoolLit True))" "isFoldableInitExpr (NLeaf noPos (Identifier ''a''))"
    by (subst isFoldableInitExpr.simps, simp)+
  have i: "initOf twoLets x = (if x = ''a'' then Some (NLeaf noPos (BoolLit True))
      else if x = ''b'' then Some (NLeaf noPos (Identifier ''a'')) else None)" for x
    by (simp add: initOf_def twoLets_def captureInit_def f)
  have "foldNames (NLeaf noPos (BoolLit True)) = {}" by (subst foldNames.simps) simp
  then have "ranked (\<lambda>x. if x = ''b'' then 1 else 0) twoLets"
    by (simp add: ranked_def i)
  then show ?thesis by (rule tryFoldExpr_terminates)
qed

text \<open>C16.  Folding does not end on a binding that shadows the name its initializer reads: after
  \<open>let x = x\<close> in an inner scope, the captured initializer of \<open>x\<close> is the identifier \<open>x\<close>, which is looked up in
  the inner scope again.  No fuel is enough.\<close>

theorem tryFoldExpr_shadow_diverges:
  "tryFoldExpr k \<lparr>mutatedNames = Some {}, curScope = captureInit ([] # outer) ''x'' (Some (NLeaf p (Identifier ''x''))) ty,
      tryEvalPureCall = ev\<rparr> (NLeaf q (Identifier ''x'')) = None"
proof -
  have f: "isFoldableInitExpr (NLeaf p (Identifier ''x''))"
    by (subst isFoldableInitExpr.simps) simp
  show ?thesis
    by (induction k arbitrary: q) (simp_all add: tryFold_shapes tryFoldIdent_def captureInit_def f)
qed


text \<open>The loop \<open>for x in f(&flag): pass\<close>.\<close>

definition escapeLoop :: Node where
  "escapeLoop = NStmt noPos (ForStmt ForIn ''x'' None False None None None
     (Some (NExpr noPos (CallExpr (NLeaf noPos (Identifier ''f'')) []
       [NExpr noPos (AddressOfExpr (NLeaf noPos (Identifier ''flag'')))] False)))
     (Some (Block noPos [] True)))"

text \<open>The walk leaves out the iterable of a \<open>for ... in\<close> loop, so an address taken there is not seen, and a
  binding whose address escaped is folded to its initial value: with \<open>let flag = false\<close> and the body
  \<open>for x in f(&flag): pass\<close>, the condition \<open>flag\<close> folds to false.\<close>

lemma for_in_iterable_not_walked:
  "collectMutatedNames escapeLoop = {} \<and>
   foldedBoolCondition 2 \<lparr>mutatedNames = Some (collectMutatedNames escapeLoop),
       curScope = captureInit [[]] ''flag'' (Some (NLeaf noPos (BoolLit False))) None, tryEvalPureCall = (\<lambda>_. None)\<rparr>
     (NLeaf noPos (Identifier ''flag'')) = Some (False, True)"
proof -
  let ?b = "NBlock (Block noPos [] True)"
  have "walkAST ?b = [?b]" by (simp add: walkAST.simps [of ?b])
  then have w: "walkAST escapeLoop = [escapeLoop, ?b]"
    unfolding walkAST.simps [of escapeLoop] by (simp add: escapeLoop_def)
  then have "collectMutatedNames escapeLoop = {}"
    by (simp add: collectMutatedNames_eq escapeLoop_def)
  moreover have "isFoldableInitExpr (NLeaf noPos (BoolLit False))" by (subst isFoldableInitExpr.simps) simp
  ultimately show ?thesis
    by (simp add: foldedBoolCondition_def numeral_2_eq_2 tryFold_shapes tryFoldIdent_def captureInit_def
        tryFoldExpr.simps(2))
qed

end
