(* ===== verification/TinPrint.thy ===== *)
theory TinPrint
  imports TinFold
begin

text \<open>
  The printer of the syntax tree (\<^verbatim>\<open>src/ast/print.go\<close>).  It renders macro arguments, the tags of opaque
  patterns and dumps.

  A Go method call on a \<open>nil\<close> type is a panic, so printing is partial: \<open>None\<close> is the panic.  What is printed for a node depends
  on the texts of its children at some depths only, so one function per struct takes the printers of the children, and
  \<open>printNode\<close> applies them along the tree.
\<close>

section \<open>Texts that may panic\<close>

definition cat :: "string option list \<Rightarrow> string option" where
  "cat ts = map_option concat (those ts)"

definition joinO :: "string \<Rightarrow> string option list \<Rightarrow> string option" where
  "joinO sep ts = map_option (commaJoin sep) (those ts)"

definition ind :: "nat \<Rightarrow> string" where
  "ind n = concat (replicate n ''  '')"

type_synonym printer = "nat \<Rightarrow> string option"

definition nilable :: "printer option \<Rightarrow> printer" where
  "nilable p depth = (case p of None \<Rightarrow> Some [] | Some f \<Rightarrow> f depth)"

definition typeString :: "TypeExpr option \<Rightarrow> string option" where
  "typeString t = map_option TypeExpr_String t"

definition escapeBraces :: "string \<Rightarrow> string" where
  "escapeBraces s = concat (map (\<lambda>c. if c = CHR ''{'' \<or> c = CHR ''}'' then [CHR 0x5C, c] else [c]) s)"

definition unhandled :: "string \<Rightarrow> string option" where
  "unhandled t = Some (''/* unhandled: *ast.'' @ t @ '' */'')"

section \<open>Leaves\<close>

definition arrayPatternElem :: "ArrayPatternElement \<Rightarrow> string" where
  "arrayPatternElem e =
     (if ape_IsRest e \<and> (ape_Name e = [] \<or> ape_IsWild e) then ''...''
      else if ape_IsRest e then ''...'' @ ape_Name e
      else if ape_IsWild e then ''_''
      else ape_Name e)"

fun printLeaf :: "go_fmt \<Rightarrow> Leaf \<Rightarrow> printer" where
  "printLeaf F (IntLit v _) _ = Some (sprintf_d v)"
| "printLeaf F (FloatLit v) _ = Some (sprintf_g F v)"
| "printLeaf F (StringLit v) _ = Some (escapeBraces (sprintf_q F v))"
| "printLeaf F (BacktickLit c) _ = Some (''`'' @ c @ ''`'')"
| "printLeaf F (BoolLit b) _ = Some (if b then ''true'' else ''false'')"
| "printLeaf F (AtomLit n) _ = Some (CHR 0x27 # n)"
| "printLeaf F (CharLit v) _ = Some (sprintf_d (uint v))"
| "printLeaf F (Identifier n) _ = Some n"
| "printLeaf F NilLit _ = Some ''nil''"
| "printLeaf F WildcardExpr _ = Some ''_''"
| "printLeaf F (ScopeAccess path) _ = Some (commaJoin ''::'' path)"
| "printLeaf F (SizeofExpr t) _ = Some (''sizeof('' @ TypeExpr_String t @ '')'')"
| "printLeaf F (UseDecl path _ _ _ names fromSyntax) depth =
     Some (if fromSyntax then ind depth @ ''use { '' @ commaJoin '', '' names @ '' } from '' @ path
           else ind depth @ ''use '' @ path)"
| "printLeaf F (ExportDecl names asName) depth = Some (ind depth @ ''export { '' @ commaJoin '', '' names @ '' } as '' @ asName)"
| "printLeaf F BreakStmt _ = Some ''break''"
| "printLeaf F YieldStmt _ = Some ''yield''"
| "printLeaf F (ArrayPattern elems) _ = Some (''['' @ commaJoin '', '' (map arrayPatternElem elems) @ '']'')"
| "printLeaf F (UnionDecl _ _ _) _ = unhandled ''UnionDecl''"
| "printLeaf F (TypeRefNode _) _ = unhandled ''TypeRefNode''"
| "printLeaf F (IsRCExpr _) _ = unhandled ''IsRCExpr''"
| "printLeaf F (MoveExpr _) _ = unhandled ''MoveExpr''"
| "printLeaf F (RefExpr _) _ = unhandled ''RefExpr''"

section \<open>Blocks\<close>

definition blockLines :: "printer list \<Rightarrow> printer" where
  "blockLines stmts depth = joinO [CHR 0x0A] (map (\<lambda>s. cat [Some (ind depth), s depth]) stmts)"

fun printBlockInline :: "printer Block \<Rightarrow> printer" where
  "printBlockInline (Block _ stmts _) depth = (if stmts = [] then Some [] else blockLines stmts depth)"

fun printBlockBody :: "printer Block \<Rightarrow> printer" where
  "printBlockBody (Block _ stmts _) depth = (if stmts = [] then Some (ind depth @ ''pass'') else blockLines stmts depth)"

definition optBlockBody :: "printer Block option \<Rightarrow> printer" where
  "optBlockBody b depth = (case b of None \<Rightarrow> Some (ind depth @ ''pass'') | Some b' \<Rightarrow> printBlockBody b' depth)"

section \<open>Expressions\<close>

definition printParam :: "Param \<Rightarrow> string" where
  "printParam p = (if p_IsVarArgs p then ''...''
     else case p_Type p of Some t \<Rightarrow> p_Name p @ '' '' @ TypeExpr_String t | None \<Rightarrow> p_Name p)"

definition printRet :: "TypeExpr option \<Rightarrow> string" where
  "printRet r = (case r of Some t \<Rightarrow> '' '' @ TypeExpr_String t | None \<Rightarrow> [])"

fun printStringPart :: "printer StringPart \<Rightarrow> string option" where
  "printStringPart (StringPart isExpr str e fmt) =
     (if \<not> isExpr then Some str
      else if fmt \<noteq> [] then cat [Some ''{'', nilable e 0, Some '':'', Some fmt, Some ''}'']
      else cat [Some ''{'', nilable e 0, Some ''}''])"

fun printPatternField :: "nat \<Rightarrow> printer StructPatternField \<Rightarrow> string option" where
  "printPatternField depth (StructPatternField name lit isWild bindTo) =
     (if isWild \<and> name = [] then Some ''_''
      else if isWild then Some (name @ '': _'')
      else case lit of
        Some l \<Rightarrow> if bindTo \<noteq> [] then Some (name @ '': '' @ bindTo) else cat [Some (name @ '': ''), l depth]
      | None \<Rightarrow> Some name)"

fun printExpr :: "printer Expr \<Rightarrow> printer" where
  "printExpr (BinExpr l op r) depth = cat [Some ''('', l depth, Some '' '', Some op, Some '' '', r depth, Some '')'']"
| "printExpr (UnaryExpr op e post) depth =
     (if post then cat [Some ''('', e depth, Some op, Some '')''] else cat [Some ''('', Some op, e depth, Some '')''])"
| "printExpr (CallExpr f _ args _) depth = cat [f depth, Some ''('', joinO '', '' (map (\<lambda>a. a depth) args), Some '')'']"
| "printExpr (FieldAccess e field isPtr) depth = cat [e depth, Some (if isPtr then ''->'' else ''.''), Some field]"
| "printExpr (IndexExpr e i) depth = cat [e depth, Some ''['', i depth, Some '']'']"
| "printExpr (SliceExpr e s t) depth = cat [e depth, Some ''['', nilable s depth, Some '':'', nilable t depth, Some '']'']"
| "printExpr (TupleLit es) depth = cat [Some ''('', joinO '', '' (map (\<lambda>a. a depth) es), Some '')'']"
| "printExpr (TernaryExpr c t e) depth = cat [Some ''('', c depth, Some '' ? '', t depth, Some '' : '', e depth, Some '')'']"
| "printExpr (AsExpr e t) depth = cat [Some ''('', e depth, Some '' as '', Some (TypeExpr_String t), Some '')'']"
| "printExpr (AddrExpr v) depth = cat [Some ''(&'', v depth, Some '')'']"
| "printExpr (AddressOfExpr e) depth = cat [Some ''(&'', e depth, Some '')'']"
| "printExpr (DerefExpr e) depth = cat [Some ''(*'', e depth, Some '')'']"
| "printExpr (PipeExpr l r) depth = cat [Some ''('', l depth, Some '' |> '', r depth, Some '')'']"
| "printExpr (RangeExpr s e) depth = cat [Some ''('', s depth, Some ''..'', e depth, Some '')'']"
| "printExpr (IsExpr e var t _) depth =
     (if var \<noteq> [] then cat [Some ''('', e depth, Some '' is '', Some var, Some '' '', typeString t, Some '')'']
      else cat [Some ''('', e depth, Some '' is '', typeString t, Some '')''])"
| "printExpr (TypeAssertExpr e t isType) depth =
     (if isType then cat [e depth, Some ''.(type)''] else cat [e depth, Some ''.('', typeString t, Some '')''])"
| "printExpr (TypeofExpr e) depth = cat [Some ''typeof('', e depth, Some '')'']"
| "printExpr (InterpolatedString parts) depth = cat [Some [CHR 0x22], cat (map printStringPart parts), Some [CHR 0x22]]"
| "printExpr (ArrayLit es) depth = cat [Some ''['', joinO '', '' (map (\<lambda>a. a depth) es), Some '']'']"
| "printExpr (ArrayFillLit v n) depth = cat [Some ''['', v depth, Some ''; '', Some (sprintf_d n), Some '']'']"
| "printExpr (LambdaExpr _ params ret body _) depth =
     cat [Some (''fn('' @ commaJoin '', '' (map printParam params) @ '')'' @ printRet ret), Some '' => '', body 0]"
| "printExpr (SpawnExpr call doBlock) depth =
     (case doBlock of
        Some b \<Rightarrow> cat [Some (''spawn do:'' @ [CHR 0x0A]), printBlockInline b (depth + 1)]
      | None \<Rightarrow> cat [Some ''spawn '', nilable call depth])"
| "printExpr (AwaitExpr f) depth = cat [Some ''await '', f depth]"
| "printExpr (TuplePattern es) depth = cat [Some ''('', joinO '', '' (map (\<lambda>a. a depth) es), Some '')'']"
| "printExpr (StructPattern name flds) depth =
     cat [Some name, Some ''{'', joinO '', '' (map (printPatternField depth) flds), Some ''}'']"
| "printExpr (SuffixCallExpr _ _ _) depth = unhandled ''SuffixCallExpr''"
| "printExpr (StructLit _ _ _ _) depth = unhandled ''StructLit''"
| "printExpr (TraitofExpr _) depth = unhandled ''TraitofExpr''"
| "printExpr (FieldnamesExpr _) depth = unhandled ''FieldnamesExpr''"
| "printExpr (FieldtypesExpr _) depth = unhandled ''FieldtypesExpr''"
| "printExpr (FieldtagExpr _ _) depth = unhandled ''FieldtagExpr''"
| "printExpr (GetfieldExpr _ _) depth = unhandled ''GetfieldExpr''"
| "printExpr (SetfieldExpr _ _ _) depth = unhandled ''SetfieldExpr''"
| "printExpr (DefaultExpr _ _) depth = unhandled ''DefaultExpr''"
| "printExpr (TryExpr _) depth = unhandled ''TryExpr''"

section \<open>Declarations\<close>

fun printFuncDecl :: "printer FuncDecl \<Rightarrow> printer" where
  "printFuncDecl (FuncDecl _ name _ _ _ params ret body tags _ isExtern _ _) depth =
     (let tagStr = (if tags = [] then [] else ''{'' @ commaJoin '' '' (map (\<lambda>t. ''#'' @ t) tags) @ ''}'');
          sig = ind depth @ ''fn'' @ tagStr @ '' '' @ name @ ''('' @ commaJoin '', '' (map printParam params) @ '')'' @ printRet ret
      in if isExtern \<noteq> [] then Some (sig @ '' = extern('' @ [CHR 0x22] @ isExtern @ [CHR 0x22] @ '')'')
         else case body of Some b \<Rightarrow> cat [Some (sig @ '' ='' @ [CHR 0x0A]), b (depth + 1)] | None \<Rightarrow> Some sig)"

fun enumMemberName :: "'n EnumMember \<Rightarrow> string" where
  "enumMemberName (EnumMember name _ _) = name"

definition printStructField :: "nat \<Rightarrow> StructField \<Rightarrow> string" where
  "printStructField depth f = ind (depth + 1) @ sf_Name f @
     (case sf_Type f of Some t \<Rightarrow> '' '' @ TypeExpr_String t | None \<Rightarrow> [])"

definition printVariantField :: "StructField \<Rightarrow> string option" where
  "printVariantField f = (if sf_Name f \<noteq> [] then cat [Some (sf_Name f @ '' ''), typeString (sf_Type f)] else typeString (sf_Type f))"

definition printVariant :: "nat \<Rightarrow> DataVariant \<Rightarrow> string option" where
  "printVariant depth v =
     (if dv_Fields v = [] then Some (ind (depth + 1) @ dv_Name v)
      else cat [Some (ind (depth + 1) @ dv_Name v @ ''(''), joinO '', '' (map printVariantField (dv_Fields v)), Some '')''])"

definition hasSuffix :: "string \<Rightarrow> string \<Rightarrow> bool" where
  "hasSuffix s suf \<longleftrightarrow> length suf \<le> length s \<and> drop (length s - length suf) s = suf"

definition macroParam :: "string list \<Rightarrow> string list \<Rightarrow> nat \<Rightarrow> string" where
  "macroParam params paramTypes i =
     (if i < length paramTypes \<and> paramTypes ! i \<noteq> [] then params ! i @ '' '' @ paramTypes ! i else params ! i)"

fun printDecl :: "go_fmt \<Rightarrow> printer Decl \<Rightarrow> printer" where
  "printDecl F (VarDecl _ name t v) depth =
     (case (t, v) of
        (Some t', Some v') \<Rightarrow> cat [Some (''let '' @ name @ '' '' @ TypeExpr_String t' @ '' = ''), v' depth]
      | (Some t', None) \<Rightarrow> Some (''let '' @ name @ '' '' @ TypeExpr_String t')
      | (None, Some v') \<Rightarrow> cat [Some (''let '' @ name @ '' = ''), v' depth]
      | (None, None) \<Rightarrow> Some (''let '' @ name))"
| "printDecl F (StructDecl name _ _ _ flds methods _ _ _) depth =
     joinO [CHR 0x0A] (Some (ind depth @ ''struct '' @ name @ '' ='') #
       map (\<lambda>f. Some (printStructField depth f)) flds @ map (\<lambda>m. printFuncDecl m (depth + 1)) methods)"
| "printDecl F (EnumDecl _ _ name members) depth =
     joinO [CHR 0x0A] (Some (ind depth @ ''enum '' @ name @ '' ='') #
       map (\<lambda>m. Some (ind (depth + 1) @ enumMemberName m)) members)"
| "printDecl F (DataDecl name typeParams _ _ variants _ _) depth =
     joinO [CHR 0x0A] (Some (ind depth @ ''data '' @ name @
         (if typeParams \<noteq> [] then ''['' @ commaJoin '', '' typeParams @ '']'' else []) @ '' ='') #
       map (printVariant depth) variants)"
| "printDecl F (TypeDecl name _ _ t _) depth = cat [Some (ind depth @ ''type '' @ name @ '' = ''), typeString t]"
| "printDecl F (TestDecl desc body) depth = cat [Some (ind depth @ ''test '' @ sprintf_q F desc @ '' ='' @ [CHR 0x0A]), body (depth + 1)]"
| "printDecl F (MacroDecl name _ params paramTypes body) depth =
     (let macroName = (if hasSuffix name ''!'' then name else name @ ''!'')
      in cat [Some (ind depth @ ''macro '' @ macroName @ ''('' @
                commaJoin '', '' (map (macroParam params paramTypes) [0..<length params]) @ '') ='' @ [CHR 0x0A]),
              body (depth + 1)])"
| "printDecl F (TopLevelVar name t v _) depth =
     (case v of
        Some v' \<Rightarrow> cat [Some (''var '' @ name @ '' ''), typeString t, Some '' = '', v' depth]
      | None \<Rightarrow> cat [Some (''var '' @ name @ '' ''), typeString t])"
| "printDecl F (TupleDestructDecl _ names v) depth = cat [Some (''let ('' @ commaJoin '', '' names @ '') = ''), v depth]"
| "printDecl F (TraitDecl _ _ _ _ _ _ _) depth = unhandled ''TraitDecl''"
| "printDecl F (ArrayDestructDecl _ _ _ _ _) depth = unhandled ''ArrayDestructDecl''"
| "printDecl F (StructDestructDecl _ _ _ _) depth = unhandled ''StructDestructDecl''"

section \<open>Statements\<close>

fun printElseIf :: "nat \<Rightarrow> printer ElseIfClause \<Rightarrow> string option" where
  "printElseIf depth (ElseIfClause c b) =
     cat [Some ([CHR 0x0A] @ ind depth @ ''elif ''), c depth, Some ('':'' @ [CHR 0x0A]), printBlockBody b (depth + 1)]"

definition printIfStmt :: "printer \<Rightarrow> printer Block \<Rightarrow> printer ElseIfClause list \<Rightarrow> printer Block option \<Rightarrow> printer" where
  "printIfStmt cond thn elseIfs els depth =
     cat [Some ''if '', cond depth, Some ('':'' @ [CHR 0x0A]), printBlockBody thn (depth + 1),
          cat (map (printElseIf depth) elseIfs),
          case els of
            Some b \<Rightarrow> cat [Some ([CHR 0x0A] @ ind depth @ ''else:'' @ [CHR 0x0A]), printBlockBody b (depth + 1)]
          | None \<Rightarrow> Some []]"

definition printForStmt ::
  "ForKind \<Rightarrow> string \<Rightarrow> TypeExpr option \<Rightarrow> printer option \<Rightarrow> printer option \<Rightarrow> printer option \<Rightarrow> printer option \<Rightarrow>
   printer Block option \<Rightarrow> printer" where
  "printForStmt kind varName varType init cond post iter body depth =
     cat [case kind of
            ForCStyle \<Rightarrow>
              if init \<noteq> None then cat [Some ''for '', nilable init depth, Some ''; '', nilable cond depth, Some ''; '', nilable post depth]
              else if varName \<noteq> [] then
                cat [Some (''for let '' @ varName @ printRet varType), Some ''; '', nilable cond depth, Some ''; '', nilable post depth]
              else cat [Some ''for '', nilable cond depth]
          | ForIn \<Rightarrow> cat [Some (''for let '' @ varName @ printRet varType @ '' in ''), nilable iter depth]
          | ForWhile \<Rightarrow> cat [Some ''for '', nilable cond depth],
          Some ('':'' @ [CHR 0x0A]), optBlockBody body (depth + 1)]"

fun printMatchCase :: "nat \<Rightarrow> printer MatchCase \<Rightarrow> string option" where
  "printMatchCase depth (MatchCase _ pat varName varType guard body) =
     cat [Some (ind (depth + 1) @ ''case ''),
          case pat of
            None \<Rightarrow> if varName \<noteq> [] then Some (varName @ printRet varType) else Some ''_''
          | Some p \<Rightarrow> p (depth + 1),
          case guard of Some g \<Rightarrow> cat [Some '' if '', g (depth + 1)] | None \<Rightarrow> Some [],
          Some ('':'' @ [CHR 0x0A]), printBlockBody body (depth + 2)]"

definition printMatchStmt :: "printer \<Rightarrow> bool \<Rightarrow> printer MatchCase list \<Rightarrow> printer Block option \<Rightarrow> printer" where
  "printMatchStmt e isType cases dflt depth =
     (if isType then Some ''/* unhandled: type-match *ast.MatchStmt */''
      else cat [Some ''match '', e depth, Some ('':'' @ [CHR 0x0A]), joinO [CHR 0x0A] (map (printMatchCase depth) cases),
                case dflt of
                  Some b \<Rightarrow> cat [Some ([CHR 0x0A] @ ind (depth + 1) @ ''default:'' @ [CHR 0x0A]), printBlockBody b (depth + 2)]
                | None \<Rightarrow> Some []])"

fun printAwaitCase :: "nat \<Rightarrow> nat \<Rightarrow> printer AwaitMatchCase \<Rightarrow> string option" where
  "printAwaitCase futures depth (AwaitMatchCase _ slotIdx bindName guard body) =
     (if 0 \<le> slotIdx \<and> slotIdx < int futures then
        cat [Some (ind (depth + 1) @ ''case ['' @ commaJoin '', '' ((replicate futures ''_'')[nat slotIdx := bindName]) @ '']''),
             case guard of Some g \<Rightarrow> cat [Some '' if '', g 0] | None \<Rightarrow> Some [],
             Some ('':'' @ [CHR 0x0A]), printBlockBody body (depth + 2), Some [CHR 0x0A]]
      else None)"

fun printStmt :: "printer Stmt \<Rightarrow> printer" where
  "printStmt (ReturnStmt v) depth = (case v of None \<Rightarrow> Some ''return'' | Some v' \<Rightarrow> cat [Some ''return '', v' depth])"
| "printStmt (DeferStmt c) depth = cat [Some ''defer '', c depth]"
| "printStmt (IfStmt c t eis e) depth = printIfStmt c t eis e depth"
| "printStmt (ForStmt k x t _ init cond post iter body) depth = printForStmt k x t init cond post iter body depth"
| "printStmt (MatchStmt e isType cases dflt) depth = printMatchStmt e isType cases dflt depth"
| "printStmt (AssignStmt t v) depth = cat [t depth, Some '' = '', v depth]"
| "printStmt (AugAssignStmt t op v) depth = cat [t depth, Some '' '', Some op, Some '' '', v depth]"
| "printStmt (PostfixStmt e op) depth = cat [e depth, Some op]"
| "printStmt (ExprStmt e) depth = e depth"
| "printStmt (EchoStmt v) depth = cat [Some ''echo '', v depth]"
| "printStmt (AwaitMatchStmt futures cases dflt) depth =
     cat [Some ''await match ['', joinO '', '' (map (\<lambda>f. f 0) futures), Some ('']:'' @ [CHR 0x0A]),
          cat (map (printAwaitCase (length futures) depth) cases),
          case dflt of
            Some b \<Rightarrow> cat [Some (ind (depth + 1) @ ''default:'' @ [CHR 0x0A]), printBlockBody b (depth + 2)]
          | None \<Rightarrow> Some []]"
| "printStmt (WhereList _) depth = unhandled ''WhereList''"
| "printStmt (TaggedBlock _ _) depth = unhandled ''TaggedBlock''"

primrec printNode :: "go_fmt \<Rightarrow> Node \<Rightarrow> printer" where
  "printNode F (NLeaf _ l) = printLeaf F l"
| "printNode F (NDecl _ d) = printDecl F (map_Decl (printNode F) d)"
| "printNode F (NStmt _ s) = printStmt (map_Stmt (printNode F) s)"
| "printNode F (NExpr _ e) = printExpr (map_Expr (printNode F) e)"
| "printNode F (NFunc f) = printFuncDecl (map_FuncDecl (printNode F) f)"
| "printNode F (NBlock b) = printBlockInline (map_Block (printNode F) b)"

definition PrintExpr :: "go_fmt \<Rightarrow> Node \<Rightarrow> string option" where
  "PrintExpr F n = printNode F n 0"

definition PrintStmt :: "go_fmt \<Rightarrow> Node \<Rightarrow> nat \<Rightarrow> string option" where
  "PrintStmt F n indent = printNode F n indent"

section \<open>When the printer panics\<close>

text \<open>The nodes whose own printing calls a method of a \<open>nil\<close> type or indexes out of range, and the children that are
  printed with a node (not those of a struct that the printer does not handle).\<close>

fun exprLacksType :: "'n Expr \<Rightarrow> bool" where
  "exprLacksType (IsExpr _ _ t _) \<longleftrightarrow> t = None"
| "exprLacksType (TypeAssertExpr _ t isType) \<longleftrightarrow> \<not> isType \<and> t = None"
| "exprLacksType _ \<longleftrightarrow> False"

fun declLacksType :: "'n Decl \<Rightarrow> bool" where
  "declLacksType (DataDecl _ _ _ _ vs _ _) \<longleftrightarrow> (\<exists>v \<in> set vs. \<exists>f \<in> set (dv_Fields v). sf_Type f = None)"
| "declLacksType (TypeDecl _ _ _ t _) \<longleftrightarrow> t = None"
| "declLacksType (TopLevelVar _ t _ _) \<longleftrightarrow> t = None"
| "declLacksType _ \<longleftrightarrow> False"

fun slotOf :: "'n AwaitMatchCase \<Rightarrow> int" where
  "slotOf (AwaitMatchCase _ slotIdx _ _ _) = slotIdx"

fun stmtBadSlot :: "'n Stmt \<Rightarrow> bool" where
  "stmtBadSlot (AwaitMatchStmt fs cs _) \<longleftrightarrow> (\<exists>c \<in> set cs. slotOf c < 0 \<or> int (length fs) \<le> slotOf c)"
| "stmtBadSlot _ \<longleftrightarrow> False"

fun blockNodes :: "'n Block \<Rightarrow> 'n list" where
  "blockNodes (Block _ ss _) = ss"

fun funcBody :: "'n FuncDecl \<Rightarrow> 'n list" where
  "funcBody (FuncDecl _ _ _ _ _ _ _ body _ _ isExtern _ _) = (if isExtern \<noteq> [] then [] else optList body)"

fun partExpr :: "'n StringPart \<Rightarrow> 'n list" where
  "partExpr (StringPart isExpr _ e _) = (if isExpr then optList e else [])"

fun fieldLiteral :: "'n StructPatternField \<Rightarrow> 'n list" where
  "fieldLiteral (StructPatternField name lit isWild bindTo) = (if isWild \<or> bindTo \<noteq> [] then [] else optList lit)"

fun exprPrinted :: "'n Expr \<Rightarrow> 'n list" where
  "exprPrinted (BinExpr l _ r) = [l, r]"
| "exprPrinted (UnaryExpr _ e _) = [e]"
| "exprPrinted (CallExpr f _ as _) = f # as"
| "exprPrinted (FieldAccess e _ _) = [e]"
| "exprPrinted (IndexExpr e i) = [e, i]"
| "exprPrinted (SliceExpr e s t) = e # optList s @ optList t"
| "exprPrinted (TupleLit es) = es"
| "exprPrinted (TernaryExpr c t e) = [c, t, e]"
| "exprPrinted (AsExpr e _) = [e]"
| "exprPrinted (AddrExpr v) = [v]"
| "exprPrinted (AddressOfExpr e) = [e]"
| "exprPrinted (DerefExpr e) = [e]"
| "exprPrinted (PipeExpr l r) = [l, r]"
| "exprPrinted (RangeExpr s e) = [s, e]"
| "exprPrinted (IsExpr e _ _ _) = [e]"
| "exprPrinted (TypeAssertExpr e _ _) = [e]"
| "exprPrinted (TypeofExpr e) = [e]"
| "exprPrinted (InterpolatedString ps) = concat (map partExpr ps)"
| "exprPrinted (ArrayLit es) = es"
| "exprPrinted (ArrayFillLit v _) = [v]"
| "exprPrinted (LambdaExpr _ _ _ b _) = [b]"
| "exprPrinted (SpawnExpr c b) = (case b of Some b' \<Rightarrow> blockNodes b' | None \<Rightarrow> optList c)"
| "exprPrinted (AwaitExpr f) = [f]"
| "exprPrinted (TuplePattern es) = es"
| "exprPrinted (StructPattern _ fs) = concat (map fieldLiteral fs)"
| "exprPrinted _ = []"

fun declPrinted :: "'n Decl \<Rightarrow> 'n list" where
  "declPrinted (VarDecl _ _ _ v) = optList v"
| "declPrinted (StructDecl _ _ _ _ _ ms _ _ _) = concat (map funcBody ms)"
| "declPrinted (TestDecl _ b) = [b]"
| "declPrinted (MacroDecl _ _ _ _ b) = [b]"
| "declPrinted (TopLevelVar _ _ v _) = optList v"
| "declPrinted (TupleDestructDecl _ _ v) = [v]"
| "declPrinted _ = []"

fun elseIfPrinted :: "'n ElseIfClause \<Rightarrow> 'n list" where
  "elseIfPrinted (ElseIfClause c b) = c # blockNodes b"

fun casePrinted :: "'n MatchCase \<Rightarrow> 'n list" where
  "casePrinted (MatchCase _ pat _ _ g b) = optList pat @ optList g @ blockNodes b"

fun awaitCasePrinted :: "'n AwaitMatchCase \<Rightarrow> 'n list" where
  "awaitCasePrinted (AwaitMatchCase _ _ _ g b) = optList g @ blockNodes b"

definition optStmts :: "'n Block option \<Rightarrow> 'n list" where
  "optStmts b = concat (map blockNodes (optList b))"

definition forHeader :: "ForKind \<Rightarrow> string \<Rightarrow> 'n option \<Rightarrow> 'n option \<Rightarrow> 'n option \<Rightarrow> 'n option \<Rightarrow> 'n list" where
  "forHeader kind varName init cond post iter =
     (case kind of
        ForCStyle \<Rightarrow> if init \<noteq> None \<or> varName \<noteq> [] then optList init @ optList cond @ optList post else optList cond
      | ForIn \<Rightarrow> optList iter
      | ForWhile \<Rightarrow> optList cond)"

fun stmtPrinted :: "'n Stmt \<Rightarrow> 'n list" where
  "stmtPrinted (ReturnStmt v) = optList v"
| "stmtPrinted (DeferStmt c) = [c]"
| "stmtPrinted (IfStmt c t eis e) = c # blockNodes t @ concat (map elseIfPrinted eis) @ optStmts e"
| "stmtPrinted (ForStmt k x _ _ init cond post iter body) = forHeader k x init cond post iter @ optStmts body"
| "stmtPrinted (MatchStmt e isType cs d) = (if isType then [] else e # concat (map casePrinted cs) @ optStmts d)"
| "stmtPrinted (AssignStmt t v) = [t, v]"
| "stmtPrinted (AugAssignStmt t _ v) = [t, v]"
| "stmtPrinted (PostfixStmt e _) = [e]"
| "stmtPrinted (ExprStmt e) = [e]"
| "stmtPrinted (EchoStmt v) = [v]"
| "stmtPrinted (AwaitMatchStmt fs cs d) = fs @ concat (map awaitCasePrinted cs) @ optStmts d"
| "stmtPrinted _ = []"

inductive printPanics :: "Node \<Rightarrow> bool" where
  expr: "exprLacksType e \<Longrightarrow> printPanics (NExpr p e)"
| decl: "declLacksType d \<Longrightarrow> printPanics (NDecl p d)"
| stmt: "stmtBadSlot s \<Longrightarrow> printPanics (NStmt p s)"
| in_expr: "m \<in> set (exprPrinted e) \<Longrightarrow> printPanics m \<Longrightarrow> printPanics (NExpr p e)"
| in_decl: "m \<in> set (declPrinted d) \<Longrightarrow> printPanics m \<Longrightarrow> printPanics (NDecl p d)"
| in_stmt: "m \<in> set (stmtPrinted s) \<Longrightarrow> printPanics m \<Longrightarrow> printPanics (NStmt p s)"
| in_func: "m \<in> set (funcBody f) \<Longrightarrow> printPanics m \<Longrightarrow> printPanics (NFunc f)"
| in_block: "m \<in> set (blockNodes b) \<Longrightarrow> printPanics m \<Longrightarrow> printPanics (NBlock b)"

inductive_simps printPanics_simps:
  "printPanics (NLeaf p l)" "printPanics (NExpr p e)" "printPanics (NDecl p d)" "printPanics (NStmt p s)"
  "printPanics (NFunc f)" "printPanics (NBlock b)"

lemma those_None: "those xs = None \<longleftrightarrow> None \<in> set xs"
  by (induction xs) (auto split: option.splits)

lemma cat_None [simp]: "cat ts = None \<longleftrightarrow> None \<in> set ts"
  by (simp add: cat_def those_None)

lemma joinO_None [simp]: "joinO sep ts = None \<longleftrightarrow> None \<in> set ts"
  by (simp add: joinO_def those_None)

lemma typeString_None [simp]: "typeString t = None \<longleftrightarrow> t = None"
  by (simp add: typeString_def)

lemma nilable_None [simp]: "nilable p depth = None \<longleftrightarrow> (\<exists>f \<in> set (optList p). f depth = None)"
  by (cases p) (simp_all add: nilable_def)

lemma set_optList_option [simp]: "set (optList v) = set_option v"
  by (cases v) simp_all

lemma printLeaf_Some: "printLeaf F l depth \<noteq> None"
  by (cases l) (simp_all add: unhandled_def)

lemma unhandled_Some [simp]: "unhandled t \<noteq> None"
  by (simp add: unhandled_def)

lemma set_blockNodes [simp]: "set (blockNodes b) = set_Block b"
  by (cases b) simp

lemma set_optStmts [simp]: "set (optStmts b) = (\<Union>c \<in> set_option b. set_Block c)"
  by (cases b) (simp_all add: optStmts_def)

text \<open>The printers of the children panic as \<open>P\<close> says, at every depth.\<close>

lemma None_image [simp]: "None \<in> f ` A \<longleftrightarrow> (\<exists>x \<in> A. f x = None)"
  by (metis imageE image_eqI)

lemma None_eq [simp]: "None = t \<longleftrightarrow> t = None"
  by (rule eq_commute)

lemma blockLines_None [simp]: "blockLines stmts depth = None \<longleftrightarrow> (\<exists>s \<in> set stmts. s depth = None)"
  by (simp add: blockLines_def)

lemma printBlockInline_None [simp]: "printBlockInline b depth = None \<longleftrightarrow> (\<exists>s \<in> set (blockNodes b). s depth = None)"
  by (cases b) simp

lemma printBlockBody_None [simp]: "printBlockBody b depth = None \<longleftrightarrow> (\<exists>s \<in> set (blockNodes b). s depth = None)"
  by (cases b) simp

lemma optBlockBody_None [simp]: "optBlockBody b depth = None \<longleftrightarrow> (\<exists>s \<in> set (optStmts b). s depth = None)"
  by (cases b) (simp_all add: optBlockBody_def optStmts_def)

lemma blockNodes_map [simp]: "blockNodes (map_Block g b) = map g (blockNodes b)"
  by (cases b) simp

lemma optStmts_map [simp]: "optStmts (map_option (map_Block g) b) = map g (optStmts b)"
  by (cases b) (simp_all add: optStmts_def)

text \<open>The printers of the children panic as \<open>P\<close> says, at every depth.\<close>

definition panicAs :: "('n \<Rightarrow> bool) \<Rightarrow> ('n \<Rightarrow> printer) \<Rightarrow> 'n set \<Rightarrow> bool" where
  "panicAs P g A \<longleftrightarrow> (\<forall>m \<in> A. \<forall>depth. g m depth = None \<longleftrightarrow> P m)"

lemma panicAsD: "panicAs P g A \<Longrightarrow> m \<in> A \<Longrightarrow> g m depth = None \<longleftrightarrow> P m"
  by (simp add: panicAs_def)

lemma printFuncDecl_None:
  assumes "panicAs P g (set_FuncDecl f)"
  shows "printFuncDecl (map_FuncDecl g f) depth = None \<longleftrightarrow> (\<exists>m \<in> set (funcBody f). P m)"
  using assms by (cases f) (auto simp: panicAs_def Let_def split: option.splits)

lemma printStringPart_None:
  assumes "panicAs P g (set_StringPart f)"
  shows "printStringPart (map_StringPart g f) = None \<longleftrightarrow> (\<exists>m \<in> set (partExpr f). P m)"
  using assms by (cases f) (auto simp: panicAs_def)

lemma printPatternField_None:
  assumes "panicAs P g (set_StructPatternField f)"
  shows "printPatternField depth (map_StructPatternField g f) = None \<longleftrightarrow> (\<exists>m \<in> set (fieldLiteral f). P m)"
  using assms by (cases f) (auto simp: panicAs_def split: option.splits)

lemma printExpr_None:
  assumes "panicAs P g (set_Expr e)"
  shows "printExpr (map_Expr g e) depth = None \<longleftrightarrow> exprLacksType e \<or> (\<exists>m \<in> set (exprPrinted e). P m)"
proof (cases e)
  case (InterpolatedString ps)
  have "printStringPart (map_StringPart g p) = None \<longleftrightarrow> (\<exists>m \<in> set (partExpr p). P m)" if "p \<in> set ps" for p
    by (rule printStringPart_None) (use assms that InterpolatedString in \<open>auto simp: panicAs_def\<close>)
  then show ?thesis using InterpolatedString by simp
next
  case (StructPattern x fs)
  have "printPatternField depth (map_StructPatternField g p) = None \<longleftrightarrow> (\<exists>m \<in> set (fieldLiteral p). P m)" if "p \<in> set fs" for p
    by (rule printPatternField_None) (use assms that StructPattern in \<open>auto simp: panicAs_def\<close>)
  then show ?thesis using StructPattern by simp
next
  case (SpawnExpr c b)
  then show ?thesis using assms by (cases b) (auto simp: panicAs_def Block.set_map)
qed (use assms in \<open>auto simp: panicAs_def\<close>)

lemma printVariant_None: "printVariant depth v = None \<longleftrightarrow> (\<exists>f \<in> set (dv_Fields v). sf_Type f = None)"
  by (auto simp: printVariant_def printVariantField_def)

lemma printDecl_None:
  assumes "panicAs P g (set_Decl d)"
  shows "printDecl F (map_Decl g d) depth = None \<longleftrightarrow> declLacksType d \<or> (\<exists>m \<in> set (declPrinted d). P m)"
proof (cases d)
  case (StructDecl n a b c fs ms e f h)
  have "printFuncDecl (map_FuncDecl g m) (Suc depth) = None \<longleftrightarrow> (\<exists>n \<in> set (funcBody m). P n)" if "m \<in> set ms" for m
    by (rule printFuncDecl_None) (use assms that StructDecl in \<open>auto simp: panicAs_def\<close>)
  then show ?thesis using StructDecl by auto
qed (use assms in \<open>auto simp: panicAs_def printVariant_None Let_def split: option.splits\<close>)

lemma printElseIf_None:
  assumes "panicAs P g (set_ElseIfClause c)"
  shows "printElseIf depth (map_ElseIfClause g c) = None \<longleftrightarrow> (\<exists>m \<in> set (elseIfPrinted c). P m)"
  using assms by (cases c) (auto simp: panicAs_def Block.set_map)

lemma printMatchCase_None:
  assumes "panicAs P g (set_MatchCase c)"
  shows "printMatchCase depth (map_MatchCase g c) = None \<longleftrightarrow> (\<exists>m \<in> set (casePrinted c). P m)"
  using assms by (cases c) (auto simp: panicAs_def Block.set_map split: option.splits)

lemma printAwaitCase_None:
  assumes "panicAs P g (set_AwaitMatchCase c)"
  shows "printAwaitCase n depth (map_AwaitMatchCase g c) = None \<longleftrightarrow>
    slotOf c < 0 \<or> int n \<le> slotOf c \<or> (\<exists>m \<in> set (awaitCasePrinted c). P m)"
  using assms by (cases c) (auto simp: panicAs_def Block.set_map split: option.splits)

lemma printForStmt_None:
  assumes "panicAs P g (set_option init \<union> set_option cond \<union> set_option post \<union> set_option iter \<union> set (optStmts body))"
  shows "printForStmt k x t (map_option g init) (map_option g cond) (map_option g post) (map_option g iter)
      (map_option (map_Block g) body) depth = None \<longleftrightarrow>
    (\<exists>m \<in> set (forHeader k x init cond post iter @ optStmts body). P m)"
  using assms by (cases k) (auto simp: printForStmt_def forHeader_def panicAs_def Block.set_map option.set_map)

lemma printStmt_None:
  assumes "panicAs P g (set_Stmt s)"
  shows "printStmt (map_Stmt g s) depth = None \<longleftrightarrow> stmtBadSlot s \<or> (\<exists>m \<in> set (stmtPrinted s). P m)"
proof (cases s)
  case (IfStmt c t eis e)
  have "printElseIf depth (map_ElseIfClause g p) = None \<longleftrightarrow> (\<exists>m \<in> set (elseIfPrinted p). P m)" if "p \<in> set eis" for p
    by (rule printElseIf_None) (use assms that IfStmt in \<open>auto simp: panicAs_def\<close>)
  then show ?thesis using IfStmt assms by (auto simp: printIfStmt_def panicAs_def Block.set_map split: option.splits)
next
  case (ForStmt k x t r init cond post iter body)
  then show ?thesis using assms printForStmt_None [of P g init cond post iter body k x t depth] by simp
next
  case (MatchStmt e isType cs d)
  have "printMatchCase depth (map_MatchCase g p) = None \<longleftrightarrow> (\<exists>m \<in> set (casePrinted p). P m)" if "p \<in> set cs" for p
    by (rule printMatchCase_None) (use assms that MatchStmt in \<open>auto simp: panicAs_def\<close>)
  then show ?thesis using MatchStmt assms by (auto simp: printMatchStmt_def panicAs_def Block.set_map split: option.splits)
next
  case (AwaitMatchStmt fs cs d)
  have "printAwaitCase n depth (map_AwaitMatchCase g p) = None \<longleftrightarrow>
      slotOf p < 0 \<or> int n \<le> slotOf p \<or> (\<exists>m \<in> set (awaitCasePrinted p). P m)" if "p \<in> set cs" for p n
    by (rule printAwaitCase_None) (use assms that AwaitMatchStmt in \<open>auto simp: panicAs_def\<close>)
  then show ?thesis using AwaitMatchStmt assms by (auto simp: panicAs_def Block.set_map split: option.splits)
qed (use assms in \<open>auto simp: panicAs_def split: option.splits\<close>)

lemma printNode_None: "printNode F n depth = None \<longleftrightarrow> printPanics n"
proof (induction n arbitrary: depth)
  case (NLeaf p l)
  then show ?case by (simp add: printPanics_simps printLeaf_Some)
next
  case (NDecl p d)
  then show ?case by (simp add: printPanics_simps printDecl_None [of printPanics] panicAs_def Bex_def)
next
  case (NStmt p s)
  then show ?case by (simp add: printPanics_simps printStmt_None [of printPanics] panicAs_def Bex_def)
next
  case (NExpr p e)
  then show ?case by (simp add: printPanics_simps printExpr_None [of printPanics] panicAs_def Bex_def)
next
  case (NFunc f)
  then show ?case by (simp add: printPanics_simps printFuncDecl_None [of printPanics] panicAs_def Bex_def)
next
  case (NBlock b)
  then show ?case by (simp add: printPanics_simps Block.set_map Bex_def)
qed

text \<open>C30: the printer panics exactly on the trees in which a node that is printed lacks a type that the printer asks for (\<open>is\<close> with a
  constructor pattern, a type assertion, a type or variable declaration, a field of a variant) or has a slot out of range; in
  particular \<open>x is Ok(v)\<close>, which the parser builds without a type, cannot be printed.\<close>

theorem PrintStmt_panics:
  "(PrintStmt F n depth = None \<longleftrightarrow> printPanics n) \<and>
   PrintExpr F (NExpr p (IsExpr x [] None (Some (NExpr q (CallExpr f [] [v] False))))) = None"
  by (simp add: PrintStmt_def PrintExpr_def printNode_None printPanics_simps)

end
