(* ===== verification/TinMaranget.thy ===== *)
theory TinMaranget
  imports TinPrelude "HOL-Library.Multiset" "HOL-Library.List_Lexorder" "HOL-Library.Char_ord"
begin

text \<open>
  The usefulness and exhaustiveness analysis of \<^verbatim>\<open>src/codegen/maranget.go\<close>: patterns,
  constructors, column signatures, \<open>specialize\<close> and \<open>defaultMatrix\<close>, \<open>useful\<close> with its witness, and
  the printers of patterns and witnesses.

  \<^item> The Go interface \<open>mPat\<close> and the tagged struct \<open>mCtor\<close> are datatypes.  A Go map is an
    association list (the first entry of a key counts); the order of its entries stands for the
    order in which \<open>range\<close> visits them.
  \<^item> A \<open>float64\<close> is its 64 bits, compared as Go compares floats.  Addition and the verbs \<open>%g\<close> and
    \<open>%q\<close> of \<open>fmt\<close> are fields of the parameter \<open>go_fmt\<close>; only witnesses use them.
  \<^item> A nil \<open>*CodeGen\<close> is \<open>None\<close>.
\<close>

section \<open>Patterns and constructors\<close>

datatype mLit = LInt int | LFloat float64 | LString string | LBool bool | LAtom string

datatype mPat =
    mWild
  | mLit mLit
  | mOpaque string
  | mArr "mPat list" bool
  | mStruct string "(string \<times> mPat) list"
  | mData string string "mPat list"

datatype mCtor =
    mcLit mLit
  | mcArrExact nat
  | mcArrRest nat
  | mcStruct string "string list"
  | mcOpaque string
  | mcData string string nat

type_synonym row = "mPat list"
type_synonym matrix = "row list"

text \<open>The ADT registry of \<open>CodeGen\<close>: the variants of an ADT with their field counts, and the ADTs
  that declare a variant.\<close>

record adt_registry =
  dataVariants :: "(string \<times> (string \<times> nat) list) list"
  dataVariantLookup :: "(string \<times> string list) list"

definition wildRow :: "nat \<Rightarrow> row" where
  "wildRow n = replicate n mWild"

definition mCtor_arity :: "mCtor \<Rightarrow> nat" where
  "mCtor_arity c =
     (case c of mcLit _ \<Rightarrow> 0 | mcArrExact n \<Rightarrow> n | mcArrRest n \<Rightarrow> n | mcStruct _ fs \<Rightarrow> length fs
      | mcOpaque _ \<Rightarrow> 0 | mcData _ _ a \<Rightarrow> a)"

fun mLit_eq :: "mLit \<Rightarrow> mLit \<Rightarrow> bool" where
  "mLit_eq (LInt a) (LInt b) = (a = b)"
| "mLit_eq (LFloat a) (LFloat b) = f64_eq a b"
| "mLit_eq (LString a) (LString b) = (a = b)"
| "mLit_eq (LBool a) (LBool b) = (a = b)"
| "mLit_eq (LAtom a) (LAtom b) = (a = b)"
| "mLit_eq _ _ = False"

fun mCtor_eq :: "mCtor \<Rightarrow> mCtor \<Rightarrow> bool" where
  "mCtor_eq (mcLit a) (mcLit b) = mLit_eq a b"
| "mCtor_eq (mcArrExact m) (mcArrExact n) = (m = n)"
| "mCtor_eq (mcArrRest m) (mcArrRest n) = (m = n)"
| "mCtor_eq (mcStruct s fs) (mcStruct t gs) = (s = t)"
| "mCtor_eq (mcOpaque s) (mcOpaque t) = (s = t)"
| "mCtor_eq (mcData a v m) (mcData b w n) = (a = b \<and> v = w)"
| "mCtor_eq _ _ = False"

text \<open>\<open>sortStrings\<close>: insertion sort by swaps, the outer loop over \<open>i\<close> and the inner over \<open>j\<close>.\<close>

fun sinkString :: "nat \<Rightarrow> string list \<Rightarrow> string list" where
  "sinkString 0 s = s"
| "sinkString (Suc j) s =
     (if s ! j > s ! Suc j then sinkString j (s[j := s ! Suc j, Suc j := s ! j]) else s)"

definition sortStrings :: "string list \<Rightarrow> string list" where
  "sortStrings s = fold sinkString [1..<length s] s"

definition mapKeys :: "(string \<times> 'a) list \<Rightarrow> string list" where
  "mapKeys m = remdups (map fst m)"

fun headCtor :: "mPat \<Rightarrow> mCtor option" where
  "headCtor mWild = None"
| "headCtor (mLit l) = Some (mcLit l)"
| "headCtor (mArr elems hasRest) =
     (if hasRest then Some (mcArrRest (length elems)) else Some (mcArrExact (length elems)))"
| "headCtor (mStruct typeName flds) = Some (mcStruct typeName (sortStrings (mapKeys flds)))"
| "headCtor (mOpaque tag) = Some (mcOpaque tag)"
| "headCtor (mData adtName variant args) = Some (mcData adtName variant (length args))"

text \<open>\<open>useful\<close> calls \<open>columnCtors\<close>, \<open>specialize\<close> and \<open>defaultMatrix\<close> on matrices without empty rows;
  on an empty row, where Go would panic, the definitions skip the row.\<close>

fun addCtor :: "mCtor list \<Rightarrow> row \<Rightarrow> mCtor list" where
  "addCtor out [] = out"
| "addCtor out (p # ps) =
     (case headCtor p of
        None \<Rightarrow> out
      | Some c \<Rightarrow> if list_ex (\<lambda>d. mCtor_eq d c) out then out else out @ [c])"

definition columnCtors :: "matrix \<Rightarrow> mCtor list" where
  "columnCtors M = foldl addCtor [] M"

section \<open>Signatures\<close>

definition missingFor :: "go_fmt \<Rightarrow> mCtor \<Rightarrow> mCtor" where
  "missingFor F c =
     (case c of
        mcLit (LInt i) \<Rightarrow> mcLit (LInt (wrap64 (i + 1)))
      | mcLit (LFloat x) \<Rightarrow> mcLit (LFloat (f64_add F x 0x3FF0000000000000))
      | mcLit (LString _) \<Rightarrow> mcLit (LString ''<other-string>'')
      | mcLit (LAtom _) \<Rightarrow> mcLit (LAtom ''<other-atom>'')
      | mcLit (LBool b) \<Rightarrow> mcLit (LBool (\<not> b))
      | mcArrExact n \<Rightarrow> mcArrExact (n + 1)
      | mcArrRest _ \<Rightarrow> mcArrExact 0
      | mcStruct s fs \<Rightarrow> mcStruct s fs
      | mcOpaque t \<Rightarrow> mcOpaque (''<other-'' @ t @ ''>'')
      | mcData a v _ \<Rightarrow> mcData a (''<other-'' @ v @ ''>'') 0)"

text \<open>\<open>for n := n0; ; n++\<close> over a finite set of lengths: the first length from \<open>n0\<close> on not in it.\<close>

function firstUncovered :: "nat list \<Rightarrow> nat \<Rightarrow> nat" where
  "firstUncovered exact n = (if n \<in> set exact then firstUncovered exact (n + 1) else n)"
  by pat_completeness simp_all
termination
proof (relation "measure (\<lambda>(exact, n). card {m \<in> set exact. n \<le> m})", simp, goal_cases)
  case (1 exact n)
  let ?above = "\<lambda>n. {m \<in> set exact. n \<le> m}"
  have "?above (n + 1) \<subseteq> ?above n" by (rule Collect_mono) simp
  moreover have "n \<in> ?above n" "n \<notin> ?above (n + 1)" using 1 by simp_all
  ultimately have "?above (n + 1) \<subset> ?above n" by blast
  then show ?case by (simp add: psubset_card_mono)
qed

declare firstUncovered.simps [simp del]

fun uncoveredBelow :: "nat list \<Rightarrow> nat list \<Rightarrow> nat option" where
  "uncoveredBelow exact [] = None"
| "uncoveredBelow exact (n # ns) = (if n \<in> set exact then uncoveredBelow exact ns else Some n)"

definition arrayDomainExhaustedWithWitness :: "nat list \<Rightarrow> nat list \<Rightarrow> bool \<times> nat" where
  "arrayDomainExhaustedWithWitness exact restMins =
     (case restMins of
        [] \<Rightarrow> (False, firstUncovered exact 0)
      | m # ms \<Rightarrow>
          (case uncoveredBelow exact [0..<foldl min m ms] of
             Some n \<Rightarrow> (False, n)
           | None \<Rightarrow> (True, 0)))"

datatype family = FLit | FArr | FStruct | FOpaque | FData

definition ctorFamily :: "mCtor \<Rightarrow> family" where
  "ctorFamily c =
     (case c of mcLit _ \<Rightarrow> FLit | mcArrExact _ \<Rightarrow> FArr | mcArrRest _ \<Rightarrow> FArr | mcStruct _ _ \<Rightarrow> FStruct
      | mcOpaque _ \<Rightarrow> FOpaque | mcData _ _ _ \<Rightarrow> FData)"

fun exactLength :: "mCtor \<Rightarrow> nat list" where
  "exactLength (mcArrExact n) = [n]"
| "exactLength _ = []"

fun restMin :: "mCtor \<Rightarrow> nat list" where
  "restMin (mcArrRest n) = [n + 1]"
| "restMin _ = []"

fun isBoolCtor :: "mCtor \<Rightarrow> bool" where
  "isBoolCtor (mcLit (LBool _)) = True"
| "isBoolCtor _ = False"

fun isVariantOf :: "string \<Rightarrow> mCtor \<Rightarrow> bool" where
  "isVariantOf adt (mcData a _ _) = (a = adt)"
| "isVariantOf adt _ = False"

fun variantName :: "mCtor \<Rightarrow> string list" where
  "variantName (mcData _ v _) = [v]"
| "variantName _ = []"

text \<open>The zero value of \<open>mCtor\<close>, which Go returns beside \<open>complete = true\<close>.\<close>

definition zeroCtor :: mCtor where
  "zeroCtor = mcLit (LInt 0)"

definition completeBool :: "go_fmt \<Rightarrow> mCtor \<Rightarrow> mCtor list \<Rightarrow> bool \<times> mCtor" where
  "completeBool F first ctors =
     (if \<not> list_all isBoolCtor ctors then (False, missingFor F first)
      else let seenT = (mcLit (LBool True) \<in> set ctors); seenF = (mcLit (LBool False) \<in> set ctors) in
        if seenT \<and> seenF then (True, zeroCtor) else (False, mcLit (LBool (\<not> seenT))))"

definition completeArray :: "mCtor list \<Rightarrow> bool \<times> mCtor" where
  "completeArray ctors =
     (case arrayDomainExhaustedWithWitness (concat (map exactLength ctors)) (concat (map restMin ctors)) of
        (True, _) \<Rightarrow> (True, zeroCtor)
      | (False, n) \<Rightarrow> (False, mcArrExact n))"

definition completeData :: "go_fmt \<Rightarrow> adt_registry option \<Rightarrow> mCtor \<Rightarrow> string \<Rightarrow> mCtor list \<Rightarrow> bool \<times> mCtor" where
  "completeData F cg first adtName ctors =
     (if \<not> list_all (isVariantOf adtName) ctors then (False, missingFor F first)
      else let seen = concat (map variantName ctors) in
        case cg of
          None \<Rightarrow> (False, missingFor F first)
        | Some reg \<Rightarrow>
            (case map_of (dataVariants reg) adtName of
               None \<Rightarrow> (False, missingFor F first)
             | Some variants \<Rightarrow>
                 (case find (\<lambda>(v, _). v \<notin> set seen) variants of
                    Some (v, a) \<Rightarrow> (False, mcData adtName v a)
                  | None \<Rightarrow> (True, zeroCtor))))"

definition completeSignature :: "go_fmt \<Rightarrow> adt_registry option \<Rightarrow> mCtor list \<Rightarrow> bool \<times> mCtor" where
  "completeSignature F cg ctors =
     (case ctors of
        [] \<Rightarrow> (False, mcLit (LInt 0))
      | first # others \<Rightarrow>
          if list_ex (\<lambda>c. ctorFamily c \<noteq> ctorFamily first) others then (False, missingFor F first)
          else case first of
            mcLit l \<Rightarrow>
              (case l of LBool _ \<Rightarrow> completeBool F first ctors | _ \<Rightarrow> (False, missingFor F first))
          | mcArrExact _ \<Rightarrow> completeArray ctors
          | mcArrRest _ \<Rightarrow> completeArray ctors
          | mcStruct _ _ \<Rightarrow> (True, zeroCtor)
          | mcOpaque _ \<Rightarrow> (False, missingFor F first)
          | mcData adtName _ _ \<Rightarrow> completeData F cg first adtName ctors)"

section \<open>Specialisation\<close>

definition padTo :: "nat \<Rightarrow> row \<Rightarrow> row" where
  "padTo n ps = ps @ wildRow (n - length ps)"

definition fieldColumns :: "(string \<times> mPat) list \<Rightarrow> string list \<Rightarrow> row" where
  "fieldColumns flds names = map (\<lambda>n. case map_of flds n of Some p \<Rightarrow> p | None \<Rightarrow> mWild) names"

text \<open>What \<open>specialize\<close> appends for one row: \<open>None\<close> is \<open>continue\<close>.\<close>

fun specializeRow :: "mCtor \<Rightarrow> row \<Rightarrow> row option" where
  "specializeRow c [] = None"
| "specializeRow c (mWild # rest) = Some (wildRow (mCtor_arity c) @ rest)"
| "specializeRow c (mLit l # rest) =
     (case c of mcLit m \<Rightarrow> if mLit_eq m l then Some rest else None | _ \<Rightarrow> None)"
| "specializeRow c (mArr elems hasRest # rest) =
     (case c of
        mcArrExact n \<Rightarrow>
          if \<not> hasRest then if length elems \<noteq> n then None else Some (elems @ rest)
          else if n < length elems + 1 then None else Some (padTo n elems @ rest)
      | mcArrRest n \<Rightarrow>
          if \<not> hasRest then None
          else if length elems > n then None
          else Some (padTo n elems @ rest)
      | _ \<Rightarrow> None)"
| "specializeRow c (mStruct typeName flds # rest) =
     (case c of
        mcStruct s names \<Rightarrow>
          if s \<noteq> typeName then None
          else Some (fieldColumns flds names @ rest)
      | _ \<Rightarrow> None)"
| "specializeRow c (mOpaque tag # rest) =
     (case c of mcOpaque t \<Rightarrow> if t \<noteq> tag then None else Some rest | _ \<Rightarrow> None)"
| "specializeRow c (mData adtName variant args # rest) =
     (case c of
        mcData a v n \<Rightarrow>
          if a \<noteq> adtName \<or> v \<noteq> variant then None else Some (padTo n (take n args) @ rest)
      | _ \<Rightarrow> None)"

definition specialize :: "matrix \<Rightarrow> mCtor \<Rightarrow> matrix" where
  "specialize M c = List.map_filter (specializeRow c) M"

fun defaultRow :: "row \<Rightarrow> row option" where
  "defaultRow (mWild # rest) = Some rest"
| "defaultRow _ = None"

definition defaultMatrix :: "matrix \<Rightarrow> matrix" where
  "defaultMatrix M = List.map_filter defaultRow M"

section \<open>Usefulness\<close>

datatype witnessVal = Witness (w_ctor: mCtor) (w_args: "witnessVal list")

text \<open>The zero value \<open>&witnessVal{}\<close>, printed as \<open>_\<close>.\<close>

definition zeroWitness :: witnessVal where
  "zeroWitness = Witness zeroCtor []"

definition prependWitness :: "mCtor \<Rightarrow> witnessVal option \<Rightarrow> witnessVal" where
  "prependWitness c w =
     (let a = mCtor_arity c in
      case w of
        None \<Rightarrow> Witness c (replicate a zeroWitness)
      | Some (Witness _ args) \<Rightarrow>
          if length args \<ge> a then Witness c (take a args) else Witness c (replicate a zeroWitness))"

text \<open>\<open>prependChildren\<close> has the same body.\<close>

definition prependChildren :: "mCtor \<Rightarrow> witnessVal option \<Rightarrow> witnessVal" where
  "prependChildren c w =
     (let a = mCtor_arity c in
      case w of
        None \<Rightarrow> Witness c (replicate a zeroWitness)
      | Some (Witness _ args) \<Rightarrow>
          if length args \<ge> a then Witness c (take a args) else Witness c (replicate a zeroWitness))"

text \<open>The loop over the constructors of a complete signature: the first useful one decides.\<close>

fun firstUseful :: "(mCtor \<times> bool \<times> witnessVal option) list \<Rightarrow> bool \<times> witnessVal option" where
  "firstUseful [] = (False, None)"
| "firstUseful ((c, ok, w) # rs) = (if ok then (True, Some (prependChildren c w)) else firstUseful rs)"

text \<open>The common end of the constructor-headed cases.\<close>

fun withHead :: "mCtor \<Rightarrow> bool \<times> witnessVal option \<Rightarrow> bool \<times> witnessVal option" where
  "withHead c (ok, w) = (if \<not> ok then (False, None) else (True, Some (prependWitness c w)))"

text \<open>Constructors in a pattern, a row, a matrix: the measure of the recursion.\<close>

fun patWeight :: "mPat \<Rightarrow> nat" where
  "patWeight mWild = 0"
| "patWeight (mLit _) = 1"
| "patWeight (mOpaque _) = 1"
| "patWeight (mArr ps _) = Suc (sum_list (map patWeight ps))"
| "patWeight (mStruct _ fs) = Suc (sum_list (map (\<lambda>(k, p). patWeight p) fs))"
| "patWeight (mData _ _ ps) = Suc (sum_list (map patWeight ps))"

abbreviation rowWeight :: "row \<Rightarrow> nat" where
  "rowWeight ps \<equiv> sum_list (map patWeight ps)"

abbreviation matrixWeight :: "matrix \<Rightarrow> nat" where
  "matrixWeight M \<equiv> sum_list (map rowWeight M)"

lemma rowWeight_wildRow [simp]: "rowWeight (wildRow n) = 0"
  by (simp add: wildRow_def sum_list_replicate)

lemma rowWeight_padTo [simp]: "rowWeight (padTo n ps) = rowWeight ps"
  by (simp add: padTo_def)

lemma rowWeight_take: "rowWeight (take n ps) \<le> rowWeight ps"
proof -
  have "rowWeight ps = rowWeight (take n ps) + rowWeight (drop n ps)"
    by (metis append_take_drop_id map_append sum_list_append)
  then show ?thesis by simp
qed

lemma rowWeight_fields:
  "distinct names \<Longrightarrow> rowWeight (fieldColumns flds names) \<le> sum_list (map (\<lambda>(k, p). patWeight p) flds)"
proof (induction flds arbitrary: names)
  case Nil
  then show ?case by (induction names) (auto simp: fieldColumns_def)
next
  case (Cons f flds)
  obtain k p where f: "f = (k, p)" by (cases f)
  have less: "rowWeight (fieldColumns ((k, p) # flds) ns) = rowWeight (fieldColumns flds ns)" if "k \<notin> set ns" for ns
    using that by (induction ns) (auto simp: fieldColumns_def)
  show ?case
  proof (cases "k \<in> set names")
    case True
    then obtain xs ys where n: "names = xs @ k # ys" by (meson split_list)
    with Cons.prems have k: "k \<notin> set xs" "k \<notin> set ys" "distinct (xs @ ys)" by auto
    have "rowWeight (fieldColumns (f # flds) names) = patWeight p + rowWeight (fieldColumns flds (xs @ ys))"
      using less [OF k(1)] less [OF k(2)] by (simp add: n f fieldColumns_def)
    also have "\<dots> \<le> patWeight p + sum_list (map (\<lambda>(k, p). patWeight p) flds)"
      using Cons.IH [OF k(3)] by simp
    finally show ?thesis by (simp add: f)
  next
    case False
    then show ?thesis using less [OF False] Cons.IH [OF Cons.prems] by (simp add: f)
  qed
qed

subsection \<open>Sorting the field names\<close>

lemma sinkString_length [simp]: "length (sinkString j s) = length s"
  by (induction j s rule: sinkString.induct) auto

lemma sinkString_mset: "j < length s \<Longrightarrow> mset (sinkString j s) = mset s"
  by (induction j s rule: sinkString.induct) (auto simp: mset_swap)

lemma sortStrings_loop:
  "list_all (\<lambda>i. i < length s) is \<Longrightarrow> length (fold sinkString is s) = length s \<and> mset (fold sinkString is s) = mset s"
  by (induction "is" arbitrary: s) (auto simp: sinkString_mset)

lemma sortStrings_mset: "mset (sortStrings s) = mset s"
  unfolding sortStrings_def using sortStrings_loop [of s "[1..<length s]"] by (simp add: list_all_iff)

lemma distinct_sortStrings [simp]: "distinct (sortStrings s) = distinct s"
  by (metis sortStrings_mset mset_eq_imp_distinct_iff)

lemma set_sortStrings [simp]: "set (sortStrings s) = set s"
  by (metis sortStrings_mset mset_eq_setD)

subsection \<open>The recursion gets smaller\<close>

definition ctor_ok :: "mCtor \<Rightarrow> bool" where
  "ctor_ok c \<longleftrightarrow> (case c of mcStruct _ names \<Rightarrow> distinct names | _ \<Rightarrow> True)"

lemma headCtor_ok: "headCtor p = Some c \<Longrightarrow> ctor_ok c"
  by (cases p) (auto simp: ctor_ok_def mapKeys_def split: if_splits)

lemma specializeRow_weight:
  assumes "ctor_ok c" and "specializeRow c (p # ps) = Some r"
  shows "rowWeight r \<le> rowWeight (p # ps)" and "headCtor p \<noteq> None \<Longrightarrow> rowWeight r < rowWeight (p # ps)"
proof -
  have st: "rowWeight (fieldColumns flds names) \<le> patWeight p"
    and st': "rowWeight (fieldColumns flds names) < patWeight p"
    if "p = mStruct s flds" "c = mcStruct t names" for s t flds names
    using that assms(1) rowWeight_fields [of names flds] by (auto simp: ctor_ok_def)
  have da: "rowWeight (take n args) \<le> patWeight p" "rowWeight (take n args) < patWeight p"
    if "p = mData a v args" for a v n args
    using that rowWeight_take [of n args] by auto
  show "rowWeight r \<le> rowWeight (p # ps)" "headCtor p \<noteq> None \<Longrightarrow> rowWeight r < rowWeight (p # ps)"
    using assms(2) st st' da
    by (cases p; cases c; force split: if_splits)+
qed

lemma specialize_weight: "ctor_ok c \<Longrightarrow> matrixWeight (specialize M c) \<le> matrixWeight M"
proof (induction M)
  case (Cons r M)
  then show ?case
    using specializeRow_weight(1) [of c "hd r" "tl r"]
    by (cases r) (auto simp: specialize_def List.map_filter_simps split: option.splits intro: add_le_mono)
qed (simp add: specialize_def List.map_filter_simps)

lemma specialize_weight_less:
  assumes "ctor_ok c" and "p # ps \<in> set M" and "headCtor p = Some c"
  shows "matrixWeight (specialize M c) < matrixWeight M"
  using assms(2)
proof (induction M)
  case (Cons r M)
  have le: "matrixWeight (specialize M c) \<le> matrixWeight M" by (rule specialize_weight [OF assms(1)])
  show ?case
  proof (cases "r = p # ps")
    case True
    have "specializeRow c r = Some r' \<Longrightarrow> rowWeight r' < rowWeight r" for r'
      using True specializeRow_weight(2) [OF assms(1), of p ps r'] assms(3) by simp
    moreover have "rowWeight r > 0" using True assms(3) by (cases p) auto
    ultimately show ?thesis
      using le by (auto simp: specialize_def List.map_filter_simps split: option.splits intro: add_less_le_mono)
  next
    case False
    then have "matrixWeight (specialize M c) < matrixWeight M" using Cons by auto
    moreover have "specializeRow c r = Some r' \<Longrightarrow> rowWeight r' \<le> rowWeight r" for r'
      using specializeRow_weight(1) [OF assms(1), of "hd r" "tl r" r'] by (cases r) auto
    ultimately show ?thesis
      by (auto simp: specialize_def List.map_filter_simps split: option.splits intro: add_le_less_mono)
  qed
qed simp

lemma defaultRow_weight: "defaultRow r = Some r' \<Longrightarrow> rowWeight r' \<le> rowWeight r"
  by (induction r rule: defaultRow.induct) auto

lemma defaultMatrix_weight: "matrixWeight (defaultMatrix M) \<le> matrixWeight M"
  by (induction M)
     (auto simp: defaultMatrix_def List.map_filter_simps dest: defaultRow_weight split: option.splits)

lemma addCtor_mem:
  "c \<in> set (addCtor out r) \<Longrightarrow> c \<in> set out \<or> (\<exists>p ps. r = p # ps \<and> headCtor p = Some c)"
  by (cases r) (auto split: option.splits if_splits)

lemma foldl_addCtor_mem:
  "c \<in> set (foldl addCtor out M) \<Longrightarrow> c \<in> set out \<or> (\<exists>p ps. p # ps \<in> set M \<and> headCtor p = Some c)"
  by (induction M arbitrary: out) (fastforce dest: addCtor_mem)+

lemma columnCtors_mem: "c \<in> set (columnCtors M) \<Longrightarrow> \<exists>p ps. p # ps \<in> set M \<and> headCtor p = Some c"
  unfolding columnCtors_def by (drule foldl_addCtor_mem) simp

lemma columnCtors_weight: "c \<in> set (columnCtors M) \<Longrightarrow> matrixWeight (specialize M c) < matrixWeight M"
  using columnCtors_mem [of c M] specialize_weight_less headCtor_ok by blast


subsection \<open>The recursive procedure\<close>

function useful :: "go_fmt \<Rightarrow> adt_registry option \<Rightarrow> matrix \<Rightarrow> row \<Rightarrow> bool \<times> witnessVal option" where
  "useful F cg M [] = (M = [], Some zeroWitness)"
| "useful F cg M (head # rest) =
     (if [] \<in> set M then (False, None)
      else case head of
        mWild \<Rightarrow>
          (let ctors = columnCtors M; (complete, missing) = completeSignature F cg ctors in
           if complete then
             firstUseful (map (\<lambda>c. (c, useful F cg (specialize M c) (wildRow (mCtor_arity c) @ rest))) ctors)
           else
             let (ok, w) = useful F cg (defaultMatrix M) rest in
             if \<not> ok then (False, None)
             else (True, Some (prependWitness missing
                     (Some (Witness missing (replicate (mCtor_arity missing) zeroWitness))))))
      | mLit l \<Rightarrow> withHead (mcLit l) (useful F cg (specialize M (mcLit l)) rest)
      | mArr elems hasRest \<Rightarrow>
          (let c = (if hasRest then mcArrRest (length elems) else mcArrExact (length elems)) in
           withHead c (useful F cg (specialize M c) (elems @ rest)))
      | mStruct typeName flds \<Rightarrow>
          (let names = sortStrings (mapKeys flds); c = mcStruct typeName names in
           withHead c (useful F cg (specialize M c) (fieldColumns flds names @ rest)))
      | mOpaque tag \<Rightarrow> withHead (mcOpaque tag) (useful F cg (specialize M (mcOpaque tag)) rest)
      | mData adtName variant args \<Rightarrow>
          (let c = mcData adtName variant (length args) in
           withHead c (useful F cg (specialize M c) (args @ rest))))"
  by pat_completeness auto

lemma ctor_ok_plain [simp]:
  "ctor_ok (mcLit l)" "ctor_ok (mcArrRest n)" "ctor_ok (mcArrExact n)" "ctor_ok (mcOpaque t)" "ctor_ok (mcData a v k)"
  "ctor_ok (mcStruct s (sortStrings (mapKeys flds)))"
  by (simp_all add: ctor_ok_def mapKeys_def)

termination useful
proof (relation "measures [\<lambda>(F, cg, M, q). matrixWeight M + rowWeight q, \<lambda>(F, cg, M, q). length q]", goal_cases)
  case 1
  show ?case by simp
next
  case (2 F cg M head rest x xa xb y c)
  then show ?case by (simp add: columnCtors_weight)
next
  case (3 F cg M head rest x xa xb y)
  then show ?case using defaultMatrix_weight [of M] by (auto simp: le_less)
next
  case (4 F cg M head rest l)
  then show ?case using specialize_weight [of "mcLit l" M] by simp
next
  case (5 F cg M head rest tag)
  then show ?case using specialize_weight [of "mcOpaque tag" M] by simp
next
  case (6 F cg M head rest elems hasRest c)
  then have "ctor_ok c" by simp
  from specialize_weight [OF this, of M] 6 show ?case by simp
next
  case (7 F cg M head rest s flds names c)
  then have "ctor_ok c" and d: "distinct names" by (simp_all add: ctor_ok_def mapKeys_def)
  from specialize_weight [OF this(1), of M] rowWeight_fields [OF d, of flds] 7 show ?case by simp
next
  case (8 F cg M head rest a v args c)
  then have "ctor_ok c" by simp
  from specialize_weight [OF this, of M] 8 show ?case by simp
qed

section \<open>Printing\<close>

fun joinStrings :: "string list \<Rightarrow> string \<Rightarrow> string" where
  "joinStrings [] sep = []"
| "joinStrings [s] sep = s"
| "joinStrings (s # t # ss) sep = s @ sep @ joinStrings (t # ss) sep"

definition litString :: "go_fmt \<Rightarrow> mLit \<Rightarrow> string" where
  "litString F l =
     (case l of
        LInt i \<Rightarrow> sprintf_d i
      | LFloat x \<Rightarrow> sprintf_g F x
      | LString s \<Rightarrow> sprintf_q F s
      | LBool b \<Rightarrow> if b then ''true'' else ''false''
      | LAtom a \<Rightarrow> CHR 0x27 # a)"

fun witnessVal_String :: "go_fmt \<Rightarrow> witnessVal \<Rightarrow> string" where
  "witnessVal_String F (Witness c args) =
     (if c = mcLit (LInt 0) \<and> args = [] then ''_''
      else let parts = map (witnessVal_String F) args in
        case c of
          mcLit l \<Rightarrow> litString F l
        | mcArrExact _ \<Rightarrow> ''['' @ joinStrings parts '', '' @ '']''
        | mcArrRest _ \<Rightarrow> ''['' @ joinStrings (parts @ [''...'']) '', '' @ '']''
        | mcStruct s names \<Rightarrow>
            s @ ''{'' @ joinStrings
              (map (\<lambda>i. names ! i @ '': '' @ (if i < length parts then parts ! i else ''_'')) [0..<length names])
              '', '' @ ''}''
        | mcOpaque t \<Rightarrow> t
        | mcData _ v _ \<Rightarrow> if args = [] then v else v @ ''('' @ joinStrings parts '', '' @ '')'')"

definition witnessString :: "go_fmt \<Rightarrow> witnessVal option \<Rightarrow> string" where
  "witnessString F w = (case w of None \<Rightarrow> ''_'' | Some v \<Rightarrow> witnessVal_String F v)"

definition witnessRowString :: "go_fmt \<Rightarrow> witnessVal option \<Rightarrow> nat \<Rightarrow> string" where
  "witnessRowString F w arity =
     (if arity \<le> 1 then witnessString F w else ''('' @ witnessString F w @ '', ...)'')"

fun patStr :: "go_fmt \<Rightarrow> mPat \<Rightarrow> string" where
  "patStr F mWild = ''_''"
| "patStr F (mLit l) = litString F l"
| "patStr F (mArr elems hasRest) =
     ''['' @ joinStrings (map (\<lambda>_. ''_'') elems @ (if hasRest then [''...''] else [])) '', '' @ '']''"
| "patStr F (mStruct s flds) =
     (let strs = map (\<lambda>(k, p). (k, patStr F p)) flds in
      s @ ''{'' @ joinStrings
        (map (\<lambda>n. n @ '': '' @ (case map_of strs n of Some t \<Rightarrow> t | None \<Rightarrow> []))
             (sortStrings (mapKeys flds))) '', '' @ ''}'')"
| "patStr F (mData _ v args) =
     (if args = [] then v else v @ ''('' @ joinStrings (map (patStr F) args) '', '' @ '')'')"
| "patStr F (mOpaque _) = ''?''"

definition rowStr :: "go_fmt \<Rightarrow> row \<Rightarrow> string" where
  "rowStr F row = ''['' @ joinStrings (map (patStr F) row) '', '' @ '']''"

end
