(* ===== verification/TinMarangetCorrect.thy ===== *)
theory TinMarangetCorrect
  imports TinMaranget
begin

text \<open>
  What \<open>useful\<close> decides, against a semantics of patterns: values and their types, which patterns a
  value matches, and the two directions of the verdict.

  \<^item> Soundness: when \<open>useful M q\<close> is false, every well-typed row of values that \<open>q\<close> matches is matched by
    a row of \<open>M\<close>.  With \<open>q\<close> a row of wildcards this is the exhaustiveness verdict, with \<open>q\<close> an arm
    it is the warning that the arm is unreachable.
  \<^item> Completeness: for patterns without \<open>...rest\<close> and without opaque parts, when \<open>useful M q\<close> is true
    there is a well-typed row of values that \<open>q\<close> matches and no row of \<open>M\<close> does.
\<close>

section \<open>Values, types and matching\<close>

datatype mVal =
    VInt int
  | VFloat float64
  | VString string
  | VBool bool
  | VAtom string
  | VArr "mVal list"
  | VData string string "mVal list"
  | VStruct string "(string \<times> mVal) list"

datatype mTy = TInt | TFloat | TString | TBool | TAtom | TArr mTy | TData string | TStruct string

text \<open>The declared ADTs: the variants of each with the types of their fields.\<close>

type_synonym adt_decls = "(string \<times> (string \<times> mTy list) list) list"

definition registry_of :: "adt_decls \<Rightarrow> adt_registry" where
  "registry_of D = \<lparr>dataVariants = map (\<lambda>(a, vs). (a, map (\<lambda>(v, ts). (v, length ts)) vs)) D,
                    dataVariantLookup = []\<rparr>"

definition variantTypes :: "adt_decls \<Rightarrow> string \<Rightarrow> string \<Rightarrow> mTy list option" where
  "variantTypes D a v = (case map_of D a of None \<Rightarrow> None | Some vs \<Rightarrow> map_of vs v)"

fun has_type :: "adt_decls \<Rightarrow> mVal \<Rightarrow> mTy \<Rightarrow> bool"
and have_types :: "adt_decls \<Rightarrow> mVal list \<Rightarrow> mTy list \<Rightarrow> bool"
and all_have_type :: "adt_decls \<Rightarrow> mVal list \<Rightarrow> mTy \<Rightarrow> bool" where
  "has_type D (VInt i) t = (t = TInt \<and> int64 i)"
| "has_type D (VFloat x) t = (t = TFloat)"
| "has_type D (VString s) t = (t = TString)"
| "has_type D (VBool b) t = (t = TBool)"
| "has_type D (VAtom a) t = (t = TAtom)"
| "has_type D (VArr vs) t = (case t of TArr e \<Rightarrow> all_have_type D vs e | _ \<Rightarrow> False)"
| "has_type D (VData a v vs) t =
     (t = TData a \<and> (case variantTypes D a v of Some ts \<Rightarrow> have_types D vs ts | None \<Rightarrow> False))"
| "has_type D (VStruct s fs) t = (t = TStruct s)"
| "have_types D [] ts = (ts = [])"
| "have_types D (v # vs) ts = (case ts of t # ts' \<Rightarrow> has_type D v t \<and> have_types D vs ts' | [] \<Rightarrow> False)"
| "all_have_type D [] e = True"
| "all_have_type D (v # vs) e = (has_type D v e \<and> all_have_type D vs e)"

fun litMatches :: "mLit \<Rightarrow> mVal \<Rightarrow> bool" where
  "litMatches (LInt i) (VInt j) = (i = j)"
| "litMatches (LFloat x) (VFloat y) = f64_eq y x"
| "litMatches (LString s) (VString t) = (s = t)"
| "litMatches (LBool b) (VBool c) = (b = c)"
| "litMatches (LAtom a) (VAtom b) = (a = b)"
| "litMatches _ _ = False"

text \<open>\<open>Opq\<close> says which values an opaque pattern matches; nothing is assumed about it.\<close>

fun matches :: "(string \<Rightarrow> mVal \<Rightarrow> bool) \<Rightarrow> mPat \<Rightarrow> mVal \<Rightarrow> bool"
and rowMatches :: "(string \<Rightarrow> mVal \<Rightarrow> bool) \<Rightarrow> mPat list \<Rightarrow> mVal list \<Rightarrow> bool"
and fieldsMatch :: "(string \<Rightarrow> mVal \<Rightarrow> bool) \<Rightarrow> (string \<times> mPat) list \<Rightarrow> (string \<times> mVal) list \<Rightarrow> bool" where
  "matches Opq mWild v = True"
| "matches Opq (mLit l) v = litMatches l v"
| "matches Opq (mOpaque t) v = Opq t v"
| "matches Opq (mArr ps hasRest) v =
     (case v of
        VArr vs \<Rightarrow> if hasRest then length ps < length vs \<and> rowMatches Opq ps (take (length ps) vs) else rowMatches Opq ps vs
      | _ \<Rightarrow> False)"
| "matches Opq (mStruct s ps) v = (case v of VStruct t fs \<Rightarrow> s = t \<and> fieldsMatch Opq ps fs | _ \<Rightarrow> False)"
| "matches Opq (mData a x ps) v = (case v of VData b y vs \<Rightarrow> a = b \<and> x = y \<and> rowMatches Opq ps vs | _ \<Rightarrow> False)"
| "rowMatches Opq [] vs = (vs = [])"
| "rowMatches Opq (p # ps) vs = (case vs of v # vs' \<Rightarrow> matches Opq p v \<and> rowMatches Opq ps vs' | [] \<Rightarrow> False)"
| "fieldsMatch Opq [] fs = True"
| "fieldsMatch Opq ((k, p) # ps) fs =
     ((case map_of fs k of Some v \<Rightarrow> matches Opq p v | None \<Rightarrow> False) \<and> fieldsMatch Opq ps fs)"

fun litType :: "mLit \<Rightarrow> mTy" where
  "litType (LInt _) = TInt"
| "litType (LFloat _) = TFloat"
| "litType (LString _) = TString"
| "litType (LBool _) = TBool"
| "litType (LAtom _) = TAtom"

text \<open>Well-typed patterns.  Opaque patterns have every type; \<open>nodeToMPat\<close> never builds an \<open>mStruct\<close>.\<close>

fun pat_type :: "adt_decls \<Rightarrow> mPat \<Rightarrow> mTy \<Rightarrow> bool"
and row_type :: "adt_decls \<Rightarrow> mPat list \<Rightarrow> mTy list \<Rightarrow> bool"
and all_pat_type :: "adt_decls \<Rightarrow> mPat list \<Rightarrow> mTy \<Rightarrow> bool" where
  "pat_type D mWild t = True"
| "pat_type D (mLit l) t = (t = litType l)"
| "pat_type D (mOpaque _) t = True"
| "pat_type D (mArr ps _) t = (case t of TArr e \<Rightarrow> all_pat_type D ps e | _ \<Rightarrow> False)"
| "pat_type D (mStruct _ _) t = False"
| "pat_type D (mData a v ps) t =
     (t = TData a \<and> (case variantTypes D a v of Some ts \<Rightarrow> row_type D ps ts | None \<Rightarrow> False))"
| "row_type D [] ts = (ts = [])"
| "row_type D (p # ps) ts = (case ts of t # ts' \<Rightarrow> pat_type D p t \<and> row_type D ps ts' | [] \<Rightarrow> False)"
| "all_pat_type D [] e = True"
| "all_pat_type D (p # ps) e = (pat_type D p e \<and> all_pat_type D ps e)"

definition matrix_type :: "adt_decls \<Rightarrow> matrix \<Rightarrow> mTy list \<Rightarrow> bool" where
  "matrix_type D M ts \<longleftrightarrow> list_all (\<lambda>r. row_type D r ts) M"

lemma row_matches_list_all2: "rowMatches Opq ps vs \<longleftrightarrow> list_all2 (matches Opq) ps vs"
  by (induction ps arbitrary: vs) (auto split: list.splits simp: list_all2_Cons1)

lemma row_type_list_all2: "row_type D ps ts \<longleftrightarrow> list_all2 (pat_type D) ps ts"
  by (induction ps arbitrary: ts) (auto split: list.splits simp: list_all2_Cons1)

lemma have_types_list_all2: "have_types D vs ts \<longleftrightarrow> list_all2 (has_type D) vs ts"
  by (induction vs arbitrary: ts) (auto split: list.splits simp: list_all2_Cons1)

lemma all_pat_type_list_all: "all_pat_type D ps e \<longleftrightarrow> list_all (\<lambda>p. pat_type D p e) ps"
  by (induction ps) auto

lemma all_have_type_list_all: "all_have_type D vs e \<longleftrightarrow> list_all (\<lambda>v. has_type D v e) vs"
  by (induction vs) auto

lemmas rows_as_lists = row_matches_list_all2 row_type_list_all2 have_types_list_all2
  all_pat_type_list_all all_have_type_list_all

section \<open>The constructor of a value\<close>

text \<open>\<open>v\<close> is built by constructor \<open>c\<close> from the column values \<open>vs\<close>.\<close>

fun head_args :: "(string \<Rightarrow> mVal \<Rightarrow> bool) \<Rightarrow> mCtor \<Rightarrow> mVal \<Rightarrow> mVal list \<Rightarrow> bool" where
  "head_args Opq (mcLit l) v vs = (litMatches l v \<and> vs = [])"
| "head_args Opq (mcOpaque t) v vs = (Opq t v \<and> vs = [])"
| "head_args Opq (mcArrExact n) v vs = (v = VArr vs \<and> length vs = n)"
| "head_args Opq (mcArrRest n) v vs = (\<exists>ws. v = VArr ws \<and> n < length ws \<and> vs = take n ws)"
| "head_args Opq (mcData a x n) v vs = (v = VData a x vs \<and> length vs = n)"
| "head_args Opq (mcStruct _ _) v vs = False"

text \<open>The types of the columns a constructor of type \<open>t\<close> expands into.\<close>

fun ctor_types :: "adt_decls \<Rightarrow> mTy \<Rightarrow> mCtor \<Rightarrow> mTy list \<Rightarrow> bool" where
  "ctor_types D t (mcLit l) ts = (t = litType l \<and> ts = [])"
| "ctor_types D t (mcOpaque _) ts = (ts = [])"
| "ctor_types D t (mcArrExact n) ts = (\<exists>e. t = TArr e \<and> ts = replicate n e)"
| "ctor_types D t (mcArrRest n) ts = (\<exists>e. t = TArr e \<and> ts = replicate n e)"
| "ctor_types D t (mcData a v n) ts = (t = TData a \<and> variantTypes D a v = Some ts \<and> length ts = n)"
| "ctor_types D t (mcStruct _ _) ts = False"

lemma mLit_eq_matches: "mLit_eq m l \<Longrightarrow> litMatches m v \<Longrightarrow> litMatches l v"
  by (induction m l rule: mLit_eq.induct; cases v) (auto simp: f64_eq_def)

lemma wildRow_matches: "list_all2 (matches Opq) (wildRow n) vs \<longleftrightarrow> length vs = n"
  by (auto simp: wildRow_def list_all2_conv_all_nth)

lemma list_all2_append_take:
  "list_all2 P (xs @ ys) zs \<longleftrightarrow> list_all2 P xs (take (length xs) zs) \<and> list_all2 P ys (drop (length xs) zs)"
proof
  assume "list_all2 P (xs @ ys) zs"
  then show "list_all2 P xs (take (length xs) zs) \<and> list_all2 P ys (drop (length xs) zs)"
    using list_all2_takeI [of P "xs @ ys" zs "length xs"] list_all2_dropI [of P "xs @ ys" zs "length xs"] by simp
next
  assume "list_all2 P xs (take (length xs) zs) \<and> list_all2 P ys (drop (length xs) zs)"
  then have "list_all2 P (xs @ ys) (take (length xs) zs @ drop (length xs) zs)"
    by (intro list_all2_appendI) auto
  then show "list_all2 P (xs @ ys) zs" by simp
qed

lemma padTo_matches:
  "length ps \<le> n \<Longrightarrow> list_all2 (matches Opq) (padTo n ps) vs \<longleftrightarrow>
   length vs = n \<and> list_all2 (matches Opq) ps (take (length ps) vs)"
  by (auto simp: padTo_def list_all2_append_take wildRow_matches dest: list_all2_lengthD)

lemma wildRow_type: "list_all2 (pat_type D) (wildRow n) ts \<longleftrightarrow> length ts = n"
  by (auto simp: wildRow_def list_all2_conv_all_nth)

lemma ctor_types_arity: "ctor_types D t c ts \<Longrightarrow> length ts = mCtor_arity c"
  by (cases c) (auto simp: mCtor_arity_def)

lemma head_args_arity: "head_args Opq c v vs \<Longrightarrow> length vs = mCtor_arity c"
  by (cases c) (auto simp: mCtor_arity_def)

lemma headCtor_types:
  "pat_type D p t \<Longrightarrow> headCtor p = Some c \<Longrightarrow> \<exists>ts. ctor_types D t c ts"
  by (cases p) (auto simp: rows_as_lists split: if_splits mTy.splits option.splits dest: list_all2_lengthD)


lemma length_wildRow [simp]: "length (wildRow n) = n"
  by (simp add: wildRow_def)

lemma length_padTo [simp]: "length ps \<le> n \<Longrightarrow> length (padTo n ps) = n"
  by (simp add: padTo_def)

lemma padTo_exact: "length ps = n \<Longrightarrow> padTo n (take n ps) = ps"
  by (simp add: padTo_def wildRow_def)

lemma pat_type_mData:
  "pat_type D (mData a v args) t \<Longrightarrow> ctor_types D t (mcData a v n) ts \<Longrightarrow>
   list_all2 (pat_type D) args ts \<and> padTo n (take n args) = args"
  by (auto simp: rows_as_lists split: option.splits dest: list_all2_lengthD intro!: padTo_exact)

lemma padTo_type:
  "list_all (\<lambda>p. pat_type D p e) ps \<Longrightarrow> length ps \<le> n \<Longrightarrow> list_all2 (pat_type D) (padTo n ps) (replicate n e)"
  by (auto simp: padTo_def wildRow_def list_all2_conv_all_nth list_all_length nth_append)

lemma specializeRow_type:
  assumes "specializeRow c (p # ps) = Some r" and "pat_type D p t" and "list_all2 (pat_type D) ps us"
    and "ctor_types D t c ts"
  shows "list_all2 (pat_type D) r (ts @ us)"
proof (cases p)
  case mWild
  then show ?thesis
    using assms by (auto simp: wildRow_type ctor_types_arity intro!: list_all2_appendI)
next
  case (mArr elems hasRest)
  then obtain e where e: "t = TArr e" "list_all (\<lambda>p. pat_type D p e) elems"
    using assms(2) by (auto simp: rows_as_lists split: mTy.splits)
  then have "list_all2 (pat_type D) elems (replicate (length elems) e)"
    by (simp add: list_all2_conv_all_nth list_all_length)
  with mArr assms e show ?thesis
    by (auto intro!: list_all2_appendI padTo_type split: mCtor.splits if_splits)
next
  case (mData a v args)
  then show ?thesis
    using assms pat_type_mData [of D a v args t _ ts]
    by (auto split: mCtor.splits if_splits intro!: list_all2_appendI)
qed (use assms in \<open>auto split: mCtor.splits if_splits\<close>)

text \<open>A specialised row that matches the column values comes from a row that matches the value.\<close>

lemma specializeRow_sound:
  assumes "specializeRow c (p # ps) = Some r" and "pat_type D p t" and "ctor_types D t c ts"
    and "head_args Opq c v vs" and "list_all2 (matches Opq) r (vs @ ws)"
  shows "matches Opq p v \<and> list_all2 (matches Opq) ps ws"
proof (cases p)
  case mWild
  then show ?thesis
    using assms head_args_arity [OF assms(4)] by (auto simp: list_all2_append_take wildRow_def)
next
  case (mLit l)
  then show ?thesis
    using assms by (auto split: mCtor.splits if_splits intro: mLit_eq_matches)
next
  case (mOpaque tag)
  then show ?thesis
    using assms by (auto split: mCtor.splits if_splits)
next
  case (mStruct s fs)
  then show ?thesis using assms(2) by simp
next
  case (mArr elems hasRest)
  show ?thesis
  proof (cases c)
    case (mcArrExact n)
    then show ?thesis
      using assms mArr
      by (auto simp: list_all2_append padTo_matches rows_as_lists split: if_splits)
  next
    case (mcArrRest n)
    then show ?thesis
      using assms mArr
      by (auto simp: list_all2_append padTo_matches rows_as_lists min_def split: if_splits)
  qed (use assms mArr in auto)
next
  case (mData a x args)
  then show ?thesis
    using assms pat_type_mData [of D a x args t _ ts]
    by (auto simp: rows_as_lists list_all2_append split: mCtor.splits if_splits dest: list_all2_lengthD)
qed


section \<open>Complete signatures\<close>

lemma uncoveredBelow_None: "uncoveredBelow exact ns = None \<longleftrightarrow> set ns \<subseteq> set exact"
  by (induction ns) auto

lemma uncoveredBelow_Some: "uncoveredBelow exact ns = Some n \<Longrightarrow> n \<in> set ns \<and> n \<notin> set exact"
  by (induction ns) (auto split: if_splits)

lemma foldl_min_mem: "foldl min m ms \<in> set (m # ms)" for m :: nat
  by (induction ms arbitrary: m) (auto simp: min_def split: if_splits)

lemma set_exactLength: "n \<in> set (concat (map exactLength ctors)) \<longleftrightarrow> mcArrExact n \<in> set ctors"
proof -
  have "n \<in> set (exactLength c) \<longleftrightarrow> c = mcArrExact n" for c by (cases c) auto
  then show ?thesis by auto
qed

lemma set_restMin: "n \<in> set (concat (map restMin ctors)) \<longleftrightarrow> (\<exists>k. n = k + 1 \<and> mcArrRest k \<in> set ctors)"
proof -
  have "n \<in> set (restMin c) \<longleftrightarrow> (\<exists>k. n = k + 1 \<and> c = mcArrRest k)" for c by (cases c) auto
  then show ?thesis by auto
qed

lemma set_variantName: "v \<in> set (concat (map variantName ctors)) \<longleftrightarrow> (\<exists>a n. mcData a v n \<in> set ctors)"
proof -
  have "v \<in> set (variantName c) \<longleftrightarrow> (\<exists>a n. c = mcData a v n)" for c by (cases c) auto
  then show ?thesis by auto
qed

lemma registry_variants:
  "map_of (dataVariants (registry_of D)) a = map_option (map (\<lambda>(v, ts). (v, length ts))) (map_of D a)"
  by (induction D) (auto simp: registry_of_def)

lemma completeArray_covers:
  assumes "completeArray ctors = (True, m)"
  shows "mcArrExact n \<in> set ctors \<or> (\<exists>k. k < n \<and> mcArrRest k \<in> set ctors)"
proof -
  let ?exact = "concat (map exactLength ctors)"
  obtain r rs where r: "concat (map restMin ctors) = r # rs" "uncoveredBelow ?exact [0..<foldl min r rs] = None"
    using assms by (auto simp: completeArray_def arrayDomainExhaustedWithWitness_def
        split: list.splits prod.splits option.splits bool.splits)
  obtain k where k: "foldl min r rs = k + 1" "mcArrRest k \<in> set ctors"
    using foldl_min_mem [of r rs] r(1) set_restMin by metis
  show ?thesis
  proof (cases "n < foldl min r rs")
    case True
    then have "n \<in> set ?exact" using r(2) by (auto simp: uncoveredBelow_None)
    then show ?thesis unfolding set_exactLength ..
  next
    case False
    then show ?thesis using k by auto
  qed
qed

lemma completeData_covers:
  assumes "completeData F (Some (registry_of D)) first a ctors = (True, m)" and "variantTypes D a v \<noteq> None"
  shows "\<exists>n. mcData a v n \<in> set ctors"
proof -
  obtain vs where vs: "map_of D a = Some vs" "map_of vs v \<noteq> None"
    using assms(2) by (auto simp: variantTypes_def split: option.splits)
  have all: "list_all (isVariantOf a) ctors"
    and fnd: "find (\<lambda>(w, _). w \<notin> set (concat (map variantName ctors))) (map (\<lambda>(w, ts). (w, length ts)) vs) = None"
    using assms(1) vs(1) by (auto simp: completeData_def registry_variants Let_def split: if_splits option.splits)
  obtain ts where "(v, ts) \<in> set vs" using vs(2) map_of_SomeD by fastforce
  then have "v \<in> set (concat (map variantName ctors))"
    using fnd unfolding find_None_iff by force
  then obtain b n where b: "mcData b v n \<in> set ctors" unfolding set_variantName by blast
  with all have "b = a" by (auto simp: list_all_iff)
  with b show ?thesis by blast
qed

text \<open>When the signature is complete, every value of the column's type has a constructor in it.\<close>

lemma complete_covers:
  assumes complete: "completeSignature F (Some (registry_of D)) ctors = (True, m)"
    and typed: "\<And>c. c \<in> set ctors \<Longrightarrow> \<exists>us. ctor_types D t c us"
    and v: "has_type D v t"
  shows "\<exists>c vs. c \<in> set ctors \<and> head_args Opq c v vs"
proof -
  obtain first others where f: "ctors = first # others"
    using complete by (cases ctors) (auto simp: completeSignature_def)
  with typed obtain us where us: "ctor_types D t first us" by auto
  show ?thesis
  proof (cases first)
    case (mcLit l)
    then obtain b where l: "l = LBool b" "completeBool F first ctors = (True, m)"
      using complete f by (auto simp: completeSignature_def split: if_splits mLit.splits)
    then have "mcLit (LBool True) \<in> set ctors" "mcLit (LBool False) \<in> set ctors"
      by (auto simp: completeBool_def Let_def split: if_splits)
    moreover obtain c where "v = VBool c" using v us mcLit l by (cases v) (auto split: mTy.splits)
    ultimately show ?thesis by (cases c) force+
  next
    case (mcArrExact n)
    with us obtain e where "t = TArr e" by auto
    with v obtain vs where vs: "v = VArr vs" by (cases v) auto
    have "completeArray ctors = (True, m)"
      using complete f mcArrExact by (auto simp: completeSignature_def split: if_splits)
    from completeArray_covers [OF this, of "length vs"] show ?thesis using vs by force
  next
    case (mcArrRest n)
    with us obtain e where "t = TArr e" by auto
    with v obtain vs where vs: "v = VArr vs" by (cases v) auto
    have "completeArray ctors = (True, m)"
      using complete f mcArrRest by (auto simp: completeSignature_def split: if_splits)
    from completeArray_covers [OF this, of "length vs"] show ?thesis using vs by force
  next
    case (mcData a x n)
    with us have t: "t = TData a" by auto
    with v obtain y vs ts where y: "v = VData a y vs" "variantTypes D a y = Some ts" "list_all2 (has_type D) vs ts"
      by (cases v) (auto simp: rows_as_lists split: mTy.splits option.splits)
    have "completeData F (Some (registry_of D)) first a ctors = (True, m)"
      using complete f mcData by (auto simp: completeSignature_def split: if_splits)
    from completeData_covers [OF this, of y] y(2) obtain k where k: "mcData a y k \<in> set ctors" by auto
    with typed y(2) have "k = length ts" by fastforce
    with k y show ?thesis by (auto dest: list_all2_lengthD intro!: exI [of _ "mcData a y k"])
  next
    case (mcStruct s fs)
    then show ?thesis using us by simp
  next
    case (mcOpaque s)
    then show ?thesis using complete f by (auto simp: completeSignature_def split: if_splits)
  qed
qed


section \<open>The shape of the recursion\<close>

text \<open>The columns that the head of the row \<open>q\<close> expands into, and \<open>useful\<close> on a constructor-headed row.\<close>

fun headColumns :: "mPat \<Rightarrow> row" where
  "headColumns (mArr elems _) = elems"
| "headColumns (mStruct _ flds) = fieldColumns flds (sortStrings (mapKeys flds))"
| "headColumns (mData _ _ args) = args"
| "headColumns _ = []"

lemma useful_head:
  "[] \<notin> set M \<Longrightarrow> headCtor p = Some c \<Longrightarrow>
   useful F cg M (p # rest) = withHead c (useful F cg (specialize M c) (headColumns p @ rest))"
  by (cases p) auto

lemma useful_complete:
  "[] \<notin> set M \<Longrightarrow> completeSignature F cg (columnCtors M) = (True, m) \<Longrightarrow>
   useful F cg M (mWild # rest) = firstUseful
     (map (\<lambda>c. (c, useful F cg (specialize M c) (wildRow (mCtor_arity c) @ rest))) (columnCtors M))"
  by (simp add: Let_def)

lemma useful_default:
  "[] \<notin> set M \<Longrightarrow> completeSignature F cg (columnCtors M) = (False, m) \<Longrightarrow>
   fst (useful F cg M (mWild # rest)) = fst (useful F cg (defaultMatrix M) rest)"
  by (simp add: Let_def split_beta)

declare useful.simps(2) [simp del]

lemma fst_firstUseful: "fst (firstUseful rs) \<longleftrightarrow> (\<exists>(c, ok, w) \<in> set rs. ok)"
  by (induction rs rule: firstUseful.induct) auto

lemma fst_withHead [simp]: "fst (withHead c r) = fst r"
  by (cases r) auto

lemma rowWeight_headColumns: "headCtor p \<noteq> None \<Longrightarrow> rowWeight (headColumns p) < patWeight p"
proof (cases p)
  case (mStruct s flds)
  have "distinct (sortStrings (mapKeys flds))" by (simp add: mapKeys_def)
  from rowWeight_fields [OF this] mStruct show ?thesis by (simp add: le_imp_less_Suc)
qed auto

lemma useful_induct [case_names nil ragged complete default head]:
  assumes nil: "\<And>M. P M []"
    and ragged: "\<And>M p rest. [] \<in> set M \<Longrightarrow> P M (p # rest)"
    and complete: "\<And>M m rest. [] \<notin> set M \<Longrightarrow> completeSignature F cg (columnCtors M) = (True, m) \<Longrightarrow>
      (\<And>c. c \<in> set (columnCtors M) \<Longrightarrow> P (specialize M c) (wildRow (mCtor_arity c) @ rest)) \<Longrightarrow> P M (mWild # rest)"
    and default: "\<And>M m rest. [] \<notin> set M \<Longrightarrow> completeSignature F cg (columnCtors M) = (False, m) \<Longrightarrow>
      P (defaultMatrix M) rest \<Longrightarrow> P M (mWild # rest)"
    and head: "\<And>M p c rest. [] \<notin> set M \<Longrightarrow> headCtor p = Some c \<Longrightarrow>
      P (specialize M c) (headColumns p @ rest) \<Longrightarrow> P M (p # rest)"
  shows "P M q"
proof -
  define R where "R = measures [\<lambda>(M, q). matrixWeight M + rowWeight q, \<lambda>(M, q). length q]"
  have wf_R: "wf R" by (simp add: R_def)
  have "case Mq of (M, q) \<Rightarrow> P M q" for Mq
  proof (induction Mq rule: wf_induct_rule [OF wf_R])
    case (1 Mq)
    obtain M q where Mq: "Mq = (M, q)" by (cases Mq)
    have IH: "P M' q'" if "((M', q'), (M, q)) \<in> R" for M' q'
      using 1 [of "(M', q')"] that by (simp add: Mq)
    have "P M q"
    proof (cases q)
      case Nil
      then show ?thesis by (simp add: nil)
    next
      case (Cons p rest)
      show ?thesis
      proof (cases "[] \<in> set M")
        case True
        then show ?thesis using Cons ragged by simp
      next
        case ne: False
        show ?thesis
        proof (cases "headCtor p")
          case None
          then have p: "p = mWild" by (cases p) (auto split: if_splits)
          obtain b m where cs: "completeSignature F cg (columnCtors M) = (b, m)" by fastforce
          have "P (specialize M c) (wildRow (mCtor_arity c) @ rest)" if "c \<in> set (columnCtors M)" for c
            using columnCtors_weight [OF that] by (intro IH) (simp add: R_def Cons)
          moreover have "P (defaultMatrix M) rest"
            using defaultMatrix_weight [of M] by (intro IH) (auto simp: R_def Cons p le_less)
          ultimately show ?thesis
            using complete [OF ne, of m rest] default [OF ne, of m rest] cs by (cases b) (simp_all add: Cons p)
        next
          case (Some c)
          have "P (specialize M c) (headColumns p @ rest)"
            using specialize_weight [OF headCtor_ok [OF Some], of M] rowWeight_headColumns [of p] Some
            by (intro IH) (simp add: R_def Cons)
          from head [OF ne Some this] show ?thesis by (simp add: Cons)
        qed
      qed
    qed
    then show ?case by (simp add: Mq)
  qed
  from this [of "(M, q)"] show ?thesis by simp
qed

section \<open>Soundness\<close>

lemma matrix_type_row: "matrix_type D M ts \<Longrightarrow> r \<in> set M \<Longrightarrow> list_all2 (pat_type D) r ts"
  by (auto simp: matrix_type_def list_all_iff rows_as_lists)

lemma matrix_typeI: "(\<And>r. r \<in> set M \<Longrightarrow> list_all2 (pat_type D) r ts) \<Longrightarrow> matrix_type D M ts"
  by (auto simp: matrix_type_def list_all_iff rows_as_lists)

lemma specialize_mem: "r \<in> set (specialize M c) \<longleftrightarrow> (\<exists>row \<in> set M. specializeRow c row = Some r)"
  by (induction M) (auto simp: specialize_def List.map_filter_simps split: option.splits)

lemma defaultRow_Some: "defaultRow row = Some r \<longleftrightarrow> row = mWild # r"
  by (induction row rule: defaultRow.induct) auto

lemma defaultMatrix_mem: "r \<in> set (defaultMatrix M) \<longleftrightarrow> mWild # r \<in> set M"
proof (induction M)
  case (Cons row M)
  then show ?case
    using defaultRow_Some [of row r]
    by (cases "defaultRow row") (auto simp: defaultMatrix_def List.map_filter_simps)
qed (simp add: defaultMatrix_def List.map_filter_simps)

lemma specialize_type:
  assumes "matrix_type D M (t # ts)" and "ctor_types D t c us"
  shows "matrix_type D (specialize M c) (us @ ts)"
proof (rule matrix_typeI)
  fix r assume "r \<in> set (specialize M c)"
  then obtain row where row: "row \<in> set M" "specializeRow c row = Some r" by (auto simp: specialize_mem)
  from row(2) obtain p ps where p: "row = p # ps" by (cases row) auto
  then have "pat_type D p t" "list_all2 (pat_type D) ps ts" using matrix_type_row [OF assms(1) row(1)] by auto
  from specializeRow_type [OF row(2) [unfolded p] this assms(2)] show "list_all2 (pat_type D) r (us @ ts)" .
qed

lemma default_type: "matrix_type D M (t # ts) \<Longrightarrow> matrix_type D (defaultMatrix M) ts"
  by (rule matrix_typeI) (auto simp: defaultMatrix_mem dest!: matrix_type_row)

lemma specialize_covers:
  assumes "matrix_type D M (t # ts)" and "ctor_types D t c us" and "head_args Opq c v vs"
    and "r \<in> set (specialize M c)" and "list_all2 (matches Opq) r (vs @ ws)"
  shows "\<exists>r \<in> set M. list_all2 (matches Opq) r (v # ws)"
proof -
  obtain row where row: "row \<in> set M" "specializeRow c row = Some r"
    using assms(4) by (auto simp: specialize_mem)
  from row(2) obtain p ps where p: "row = p # ps" by (cases row) auto
  then have "pat_type D p t" using matrix_type_row [OF assms(1) row(1)] by simp
  from specializeRow_sound [OF row(2) [unfolded p] this assms(2,3,5)] show ?thesis
    using row(1) p by auto
qed

lemma columnCtors_types:
  assumes "matrix_type D M (t # ts)" and "c \<in> set (columnCtors M)"
  shows "\<exists>us. ctor_types D t c us"
proof -
  obtain p ps where p: "p # ps \<in> set M" "headCtor p = Some c" using columnCtors_mem [OF assms(2)] by blast
  have "pat_type D p t" using matrix_type_row [OF assms(1) p(1)] by simp
  then show ?thesis using p(2) by (rule headCtor_types)
qed

lemma all_pat_type_replicate: "all_pat_type D ps e \<longleftrightarrow> list_all2 (pat_type D) ps (replicate (length ps) e)"
  by (induction ps) auto

lemma headColumns_type:
  assumes "pat_type D p t" and "headCtor p = Some c" and "ctor_types D t c us"
  shows "list_all2 (pat_type D) (headColumns p) us"
proof (cases p)
  case (mArr ps hasRest)
  then show ?thesis using assms by (auto simp: all_pat_type_replicate split: if_splits mTy.splits)
next
  case (mData a v ps)
  then show ?thesis using assms by (auto simp: row_type_list_all2)
qed (use assms in auto)

lemma headColumns_matches:
  "pat_type D p t \<Longrightarrow> headCtor p = Some c \<Longrightarrow> matches Opq p v \<Longrightarrow>
   \<exists>vs. head_args Opq c v vs \<and> list_all2 (matches Opq) (headColumns p) vs"
  by (cases p) (auto simp: rows_as_lists split: if_splits mVal.splits intro: list_all2_lengthD [symmetric])

lemma head_args_type:
  "head_args Opq c v vs \<Longrightarrow> has_type D v t \<Longrightarrow> ctor_types D t c us \<Longrightarrow> list_all2 (has_type D) vs us"
  by (cases c) (auto simp: rows_as_lists list_all2_conv_all_nth list_all_length)

lemma useful_sound:
  assumes "\<not> fst (useful F (Some (registry_of D)) M q)" and "matrix_type D M ts" and "list_all2 (pat_type D) q ts"
    and "list_all2 (has_type D) vs ts" and "list_all2 (matches Opq) q vs"
  shows "\<exists>r \<in> set M. list_all2 (matches Opq) r vs"
  using assms
proof (induction M q arbitrary: ts vs rule: useful_induct [where F = F and cg = "Some (registry_of D)"])
  case (nil M)
  then obtain r where "r \<in> set M" by (cases M) auto
  then show ?case using nil matrix_type_row [of D M ts r] by auto
next
  case (ragged M p rest)
  then show ?case using matrix_type_row [of D M ts "[]"] by auto
next
  case (complete M m rest)
  then obtain t us v ws where ts: "ts = t # us" and vs: "vs = v # ws"
    and ty: "list_all2 (pat_type D) rest us" "has_type D v t" "list_all2 (has_type D) ws us"
    and ma: "list_all2 (matches Opq) rest ws"
    by (auto simp: list_all2_Cons1)
  note M = complete.prems(2) [unfolded ts]
  obtain c as where c: "c \<in> set (columnCtors M)" "head_args Opq c v as"
    using complete_covers [OF complete.hyps(2) columnCtors_types [OF M] ty(2)] by blast
  obtain cs where cs: "ctor_types D t c cs" using columnCtors_types [OF M c(1)] by blast
  have "\<not> fst (useful F (Some (registry_of D)) (specialize M c) (wildRow (mCtor_arity c) @ rest))"
    using complete.prems(1) c(1) by (auto simp: useful_complete [OF complete.hyps(1,2)] fst_firstUseful split_beta)
  then have "\<exists>r \<in> set (specialize M c). list_all2 (matches Opq) r (as @ ws)"
  proof (rule complete.IH [OF c(1)])
    show "matrix_type D (specialize M c) (cs @ us)" by (rule specialize_type [OF M cs])
    show "list_all2 (pat_type D) (wildRow (mCtor_arity c) @ rest) (cs @ us)"
      using ty(1) ctor_types_arity [OF cs] by (auto simp: wildRow_type intro!: list_all2_appendI)
    show "list_all2 (has_type D) (as @ ws) (cs @ us)"
      using head_args_type [OF c(2) ty(2) cs] ty(3) by (rule list_all2_appendI)
    show "list_all2 (matches Opq) (wildRow (mCtor_arity c) @ rest) (as @ ws)"
      using ma head_args_arity [OF c(2)] by (auto simp: wildRow_matches intro!: list_all2_appendI)
  qed
  then show ?case using specialize_covers [OF M cs c(2)] vs by blast
next
  case (default M m rest)
  then obtain t us v ws where ts: "ts = t # us" and vs: "vs = v # ws"
    and ty: "list_all2 (pat_type D) rest us" "list_all2 (has_type D) ws us" "list_all2 (matches Opq) rest ws"
    by (auto simp: list_all2_Cons1)
  have "\<not> fst (useful F (Some (registry_of D)) (defaultMatrix M) rest)"
    using default.prems(1) by (simp add: useful_default [OF default.hyps])
  then obtain r where "r \<in> set (defaultMatrix M)" "list_all2 (matches Opq) r ws"
    using default.IH [OF _ default_type ty] default.prems(2) ts by blast
  then show ?case using vs by (auto simp: defaultMatrix_mem intro!: bexI [of _ "mWild # r"])
next
  case (head M p c rest)
  then obtain t us v ws where ts: "ts = t # us" and vs: "vs = v # ws"
    and ty: "pat_type D p t" "list_all2 (pat_type D) rest us" "has_type D v t" "list_all2 (has_type D) ws us"
    and ma: "matches Opq p v" "list_all2 (matches Opq) rest ws"
    by (auto simp: list_all2_Cons1)
  note M = head.prems(2) [unfolded ts]
  obtain cs where cs: "ctor_types D t c cs" using headCtor_types [OF ty(1) head.hyps(2)] by blast
  obtain as where as: "head_args Opq c v as" "list_all2 (matches Opq) (headColumns p) as"
    using headColumns_matches [OF ty(1) head.hyps(2) ma(1)] by blast
  have "\<not> fst (useful F (Some (registry_of D)) (specialize M c) (headColumns p @ rest))"
    using head.prems(1) by (simp add: useful_head [OF head.hyps])
  then have "\<exists>r \<in> set (specialize M c). list_all2 (matches Opq) r (as @ ws)"
    using specialize_type [OF M cs] headColumns_type [OF ty(1) head.hyps(2) cs] ty ma as
      head_args_type [OF as(1) ty(3) cs]
    by (intro head.IH [where ts = "cs @ us"]) (auto intro: list_all2_appendI)
  then show ?case using specialize_covers [OF M cs as(1)] vs by blast
qed


section \<open>Completeness\<close>

text \<open>The fragment: no \<open>...rest\<close>, no opaque pattern, literals that are values (in range, not NaN).\<close>

fun lit_ok :: "mLit \<Rightarrow> bool" where
  "lit_ok (LInt i) = int64 i"
| "lit_ok (LFloat x) = (\<not> f64_isNaN x)"
| "lit_ok _ = True"

fun simple_pat :: "mPat \<Rightarrow> bool" where
  "simple_pat mWild = True"
| "simple_pat (mLit l) = lit_ok l"
| "simple_pat (mOpaque _) = False"
| "simple_pat (mArr ps hasRest) = (\<not> hasRest \<and> list_all simple_pat ps)"
| "simple_pat (mStruct _ _) = False"
| "simple_pat (mData _ _ ps) = list_all simple_pat ps"

abbreviation simple_matrix :: "matrix \<Rightarrow> bool" where
  "simple_matrix M \<equiv> list_all (list_all simple_pat) M"

fun simple_ctor :: "mCtor \<Rightarrow> bool" where
  "simple_ctor (mcLit l) = lit_ok l"
| "simple_ctor (mcArrExact _) = True"
| "simple_ctor (mcData _ _ _) = True"
| "simple_ctor _ = False"

lemma simple_headCtor: "simple_pat p \<Longrightarrow> headCtor p = Some c \<Longrightarrow> simple_ctor c"
  by (cases p) auto

lemma simple_headColumns: "simple_pat p \<Longrightarrow> headCtor p = Some c \<Longrightarrow> list_all simple_pat (headColumns p)"
  by (cases p) auto

lemma simple_wildRow [simp]: "list_all simple_pat (wildRow n)"
  by (simp add: wildRow_def list_all_iff)

lemma simple_take: "list_all simple_pat ps \<Longrightarrow> list_all simple_pat (take n ps)"
  by (auto simp: list_all_iff dest: in_set_takeD)

lemma simple_padTo [simp]: "list_all simple_pat (padTo n ps) = list_all simple_pat ps"
  by (simp add: padTo_def)

lemma simple_specializeRow:
  "list_all simple_pat row \<Longrightarrow> specializeRow c row = Some r \<Longrightarrow> list_all simple_pat r"
  by (induction c row rule: specializeRow.induct)
     (auto simp: simple_take split: mCtor.splits if_splits)

lemma simple_specialize: "simple_matrix M \<Longrightarrow> simple_matrix (specialize M c)"
  unfolding list_all_iff [of "list_all simple_pat"] Ball_def specialize_mem using simple_specializeRow by blast

lemma simple_default: "simple_matrix M \<Longrightarrow> simple_matrix (defaultMatrix M)"
  unfolding list_all_iff [of "list_all simple_pat"] Ball_def defaultMatrix_mem by fastforce

lemma length_specialize: "length (specialize M c) \<le> length M"
  by (induction M) (auto simp: specialize_def List.map_filter_simps split: option.splits)

lemma length_default: "length (defaultMatrix M) \<le> length M"
  by (induction M) (auto simp: defaultMatrix_def List.map_filter_simps split: option.splits)

text \<open>A value of the constructor \<open>c\<close> that matches the head of a row matches it through the columns.\<close>

lemma litMatches_eq: "litMatches m v \<Longrightarrow> litMatches l v \<Longrightarrow> mLit_eq m l"
  by (cases m; cases l; cases v) (auto simp: f64_eq_def)

lemma specializeRow_complete:
  assumes "simple_ctor c" and "simple_pat p" and "pat_type D p t" and "ctor_types D t c us"
    and "head_args Opq c v vs" and "matches Opq p v" and "list_all2 (matches Opq) ps ws"
  shows "\<exists>r. specializeRow c (p # ps) = Some r \<and> list_all2 (matches Opq) r (vs @ ws)"
proof (cases p)
  case mWild
  then show ?thesis
    using assms head_args_arity [OF assms(5)] by (auto simp: wildRow_matches intro!: list_all2_appendI)
next
  case (mLit l)
  then show ?thesis
    using assms by (cases c) (auto dest: litMatches_eq)
next
  case (mArr elems hasRest)
  then show ?thesis
    using assms
    by (cases c) (auto simp: rows_as_lists split: mVal.splits intro: list_all2_appendI dest: list_all2_lengthD)
next
  case (mData a x args)
  then show ?thesis
    using assms pat_type_mData [of D a x args t _ us]
    by (cases c) (auto simp: rows_as_lists split: mVal.splits intro: list_all2_appendI)
qed (use assms in auto)

lemma headColumns_matches_conv:
  "simple_pat p \<Longrightarrow> headCtor p = Some c \<Longrightarrow> head_args Opq c v vs \<Longrightarrow>
   list_all2 (matches Opq) (headColumns p) vs \<Longrightarrow> matches Opq p v"
  by (cases p) (auto simp: rows_as_lists)

lemma headCtor_head_args:
  "simple_pat p \<Longrightarrow> pat_type D p t \<Longrightarrow> headCtor p = Some c \<Longrightarrow> matches Opq p v \<Longrightarrow> \<exists>vs. head_args Opq c v vs"
  using headColumns_matches by blast

subsection \<open>Values to build witnesses from\<close>

fun ty_wf :: "adt_decls \<Rightarrow> mTy \<Rightarrow> bool" where
  "ty_wf D (TArr e) = ty_wf D e"
| "ty_wf D (TData a) = (map_of D a \<noteq> None)"
| "ty_wf D _ = True"

text \<open>Every field type is declared, and every ADT has a value.\<close>

definition decls_ok :: "adt_decls \<Rightarrow> bool" where
  "decls_ok D \<longleftrightarrow> list_all (\<lambda>(a, vs). list_all (\<lambda>(v, ts). list_all (ty_wf D) ts) vs) D \<and>
     (\<forall>a \<in> fst ` set D. \<exists>v. has_type D v (TData a))"

lemma ty_inhabited: "decls_ok D \<Longrightarrow> ty_wf D t \<Longrightarrow> \<exists>v. has_type D v t"
proof (cases t)
  case (TData a)
  assume "decls_ok D" "ty_wf D t"
  moreover from this(2) TData have "a \<in> fst ` set D"
    by (force dest: map_of_SomeD)
  ultimately show ?thesis using TData by (auto simp: decls_ok_def)
next
  case TInt
  then show ?thesis by (intro exI [of _ "VInt 0"]) (simp add: int64_def)
next
  case (TArr e)
  then show ?thesis by (intro exI [of _ "VArr []"]) simp
qed (auto intro: exI [of _ "VFloat 0"] exI [of _ "VString []"] exI [of _ "VBool True"] exI [of _ "VAtom []"]
        exI [of _ "VStruct s []" for s])

lemma tys_inhabited: "decls_ok D \<Longrightarrow> list_all (ty_wf D) ts \<Longrightarrow> \<exists>vs. list_all2 (has_type D) vs ts"
proof (induction ts)
  case (Cons t ts)
  then obtain v vs where "has_type D v t" "list_all2 (has_type D) vs ts" using ty_inhabited by fastforce
  then show ?case by (intro exI [of _ "v # vs"]) simp
qed simp

lemma variant_wf: "decls_ok D \<Longrightarrow> variantTypes D a v = Some ts \<Longrightarrow> list_all (ty_wf D) ts"
proof -
  assume ok: "decls_ok D" and v: "variantTypes D a v = Some ts"
  obtain vs where "(a, vs) \<in> set D" "(v, ts) \<in> set vs"
    using v by (auto simp: variantTypes_def split: option.splits dest: map_of_SomeD)
  then show ?thesis using ok by (fastforce simp: decls_ok_def list_all_iff)
qed

lemma ctor_types_wf:
  assumes "decls_ok D" and "ty_wf D t" and "ctor_types D t c us"
  shows "list_all (ty_wf D) us"
proof (cases c)
  case (mcData a v n)
  then show ?thesis using variant_wf [OF assms(1), of a v us] assms(3) by simp
qed (use assms in \<open>auto simp: list_all_iff\<close>)

subsection \<open>A value outside an incomplete signature\<close>

lemma litType_scalar [simp]:
  "litType l \<noteq> TArr e" "TArr e \<noteq> litType l" "litType l \<noteq> TData a" "TData a \<noteq> litType l"
  by (cases l; simp)+

lemma litMatches_value:
  "litMatches l (VInt i) \<longleftrightarrow> l = LInt i"
  "litMatches l (VFloat y) \<longleftrightarrow> (\<exists>x. l = LFloat x \<and> f64_eq y x)"
  "litMatches l (VString s) \<longleftrightarrow> l = LString s"
  "litMatches l (VBool b) \<longleftrightarrow> l = LBool b"
  "litMatches l (VAtom s) \<longleftrightarrow> l = LAtom s"
  "\<not> litMatches l (VArr vs)" "\<not> litMatches l (VData a v vs)"
  by (cases l; auto)+

lemma same_family:
  "simple_ctor c \<Longrightarrow> simple_ctor d \<Longrightarrow> ctor_types D t c us \<Longrightarrow> ctor_types D t d us' \<Longrightarrow> ctorFamily c = ctorFamily d"
  by (cases c; cases d) (auto simp: ctorFamily_def)

lemma fresh_int64:
  assumes "length xs < 2 ^ 64"
  shows "\<exists>i. int64 i \<and> i \<notin> set (xs :: int list)"
proof -
  have "card (set xs) < card {- (2 ^ 63) ..< 2 ^ 63 :: int}"
    using assms card_length [of xs] by simp
  then have "\<not> {- (2 ^ 63) ..< 2 ^ 63} \<subseteq> set xs"
    using card_mono [of "set xs"] by (meson List.finite_set leD)
  then show ?thesis by (auto simp: int64_def)
qed

definition quietNaN :: float64 where
  "quietNaN = 0x7FF8000000000000"

lemma quietNaN_eq [simp]: "\<not> f64_eq quietNaN x"
  by (simp add: f64_eq_def f64_isNaN_def quietNaN_def drop_bit_eq_div)

fun litInt :: "mCtor \<Rightarrow> int" where
  "litInt (mcLit (LInt i)) = i"
| "litInt _ = 0"

fun litString_of :: "mCtor \<Rightarrow> string" where
  "litString_of (mcLit (LString s)) = s"
| "litString_of (mcLit (LAtom s)) = s"
| "litString_of _ = []"

lemma fresh_string: "\<exists>s. s \<notin> litString_of ` set ctors"
  using ex_new_if_finite [OF infinite_UNIV_listI] by (metis List.finite_set finite_imageI)

lemma find_SomeD: "find P xs = Some x \<Longrightarrow> x \<in> set xs \<and> P x"
  by (induction xs) (auto split: if_splits)

lemma missing_value:
  assumes incomplete: "completeSignature F (Some (registry_of D)) ctors = (False, m)"
    and ctors: "\<And>c. c \<in> set ctors \<Longrightarrow> simple_ctor c \<and> (\<exists>us. ctor_types D t c us)"
    and D: "decls_ok D" "ty_wf D t" and len: "length ctors < 2 ^ 64"
  shows "\<exists>v. has_type D v t \<and> (\<forall>c \<in> set ctors. \<forall>vs. \<not> head_args Opq c v vs)"
proof (cases ctors)
  case Nil
  then show ?thesis using ty_inhabited [OF D] by simp
next
  case (Cons first others)
  then obtain us where f: "simple_ctor first" "ctor_types D t first us" using ctors by force
  have "\<forall>c \<in> set others. ctorFamily c = ctorFamily first"
    using ctors f same_family Cons by (metis list.set_intros(2))
  then have mixed: "\<not> list_ex (\<lambda>c. ctorFamily c \<noteq> ctorFamily first) others"
    by (simp add: list_ex_iff)
  have typed: "\<And>c. c \<in> set ctors \<Longrightarrow> \<exists>us. ctor_types D t c us" using ctors by blast
  show ?thesis
  proof (cases first)
    case (mcLit l)
    then have t: "t = litType l" using f by simp
    show ?thesis
    proof (cases l)
      case (LInt i)
      obtain j where j: "int64 j" "j \<notin> set (map litInt ctors)" using fresh_int64 [of "map litInt ctors"] len by auto
      have "\<not> head_args Opq c (VInt j) vs" if "c \<in> set ctors" for c vs
        using ctors [OF that] that j(2) by (cases c) (force simp: litMatches_value)+
      then show ?thesis using t LInt j by (intro exI [of _ "VInt j"]) auto
    next
      case (LFloat x)
      have "\<not> head_args Opq c (VFloat quietNaN) vs" if "c \<in> set ctors" for c vs
        using ctors [OF that] by (cases c) (auto simp: litMatches_value)
      then show ?thesis using t LFloat by (intro exI [of _ "VFloat quietNaN"]) auto
    next
      case (LString s)
      obtain s' where "s' \<notin> litString_of ` set ctors" using fresh_string by blast
      then have "\<not> head_args Opq c (VString s') vs" if "c \<in> set ctors" for c vs
        using ctors [OF that] that by (cases c) (force simp: litMatches_value)+
      then show ?thesis using t LString by (intro exI [of _ "VString s'"]) auto
    next
      case (LAtom s)
      obtain s' where "s' \<notin> litString_of ` set ctors" using fresh_string by blast
      then have "\<not> head_args Opq c (VAtom s') vs" if "c \<in> set ctors" for c vs
        using ctors [OF that] that by (cases c) (force simp: litMatches_value)+
      then show ?thesis using t LAtom by (intro exI [of _ "VAtom s'"]) auto
    next
      case (LBool b)
      have "isBoolCtor c" if "c \<in> set ctors" for c
        using ctors [OF that] t LBool by (cases c) (auto elim: litType.elims [OF sym])
      then have "completeBool F first ctors = (False, m)" "list_all isBoolCtor ctors"
        using incomplete mixed Cons mcLit LBool by (auto simp: completeSignature_def list_all_iff)
      then obtain b' where b': "mcLit (LBool b') \<notin> set ctors"
        by (auto simp: completeBool_def Let_def split: if_splits)
      then have "\<not> head_args Opq c (VBool b') vs" if "c \<in> set ctors" for c vs
        using ctors [OF that] that by (cases c) (auto simp: litMatches_value)
      then show ?thesis using t LBool by (intro exI [of _ "VBool b'"]) auto
    qed
  next
    case (mcArrExact n)
    then obtain e where e: "t = TArr e" using f by auto
    then obtain v0 where v0: "has_type D v0 e" using ty_inhabited [OF D(1)] D(2) by auto
    obtain k where k: "k \<notin> set (concat (map exactLength ctors))"
      using ex_new_if_finite [OF infinite_UNIV_nat] by (metis List.finite_set)
    then have "\<not> head_args Opq c (VArr (replicate k v0)) vs" if "c \<in> set ctors" for c vs
      using ctors [OF that] that unfolding set_exactLength by (cases c) (auto simp: litMatches_value)
    moreover have "has_type D (VArr (replicate k v0)) t" using v0 e by (simp add: rows_as_lists list_all_iff)
    ultimately show ?thesis by blast
  next
    case (mcData a x n)
    then have t: "t = TData a" "variantTypes D a x \<noteq> None" using f by auto
    then obtain vs where vs: "map_of D a = Some vs" by (auto simp: variantTypes_def split: option.splits)
    have "isVariantOf a c" if "c \<in> set ctors" for c
      using ctors [OF that] t by (cases c) auto
    then have all: "list_all (isVariantOf a) ctors" by (simp add: list_all_iff)
    have "completeData F (Some (registry_of D)) first a ctors = (False, m)"
      using incomplete mixed Cons mcData by (auto simp: completeSignature_def)
    with all vs obtain y k where "find (\<lambda>(w, _). w \<notin> set (concat (map variantName ctors)))
        (map (\<lambda>(w, ts). (w, length ts)) vs) = Some (y, k)"
      by (auto simp: completeData_def registry_variants Let_def split: option.splits)
    then have y: "(y, k) \<in> set (map (\<lambda>(w, ts). (w, length ts)) vs)" "y \<notin> set (concat (map variantName ctors))"
      by (auto dest: find_SomeD)
    then obtain ts where ts: "map_of vs y = Some ts" by (force dest: weak_map_of_SomeI)
    with vs have vt: "variantTypes D a y = Some ts" by (simp add: variantTypes_def)
    obtain ws where ws: "list_all2 (has_type D) ws ts" using tys_inhabited [OF D(1) variant_wf [OF D(1) vt]] by blast
    have "\<not> head_args Opq c (VData a y ws) us'" if "c \<in> set ctors" for c us'
      using ctors [OF that] that y(2) unfolding set_variantName by (cases c) (auto simp: litMatches_value)
    moreover have "has_type D (VData a y ws) t" using t vt ws by (simp add: rows_as_lists)
    ultimately show ?thesis by blast
  qed (use f in auto)
qed


subsection \<open>The witness the recursion finds\<close>

lemma build_value:
  assumes "simple_ctor c" and "ctor_types D t c us" and "list_all2 (has_type D) vs us"
  shows "\<exists>v. has_type D v t \<and> head_args Opq c v vs"
proof (cases c)
  case (mcLit l)
  define v where "v = (case l of LInt i \<Rightarrow> VInt i | LFloat x \<Rightarrow> VFloat x | LString s \<Rightarrow> VString s | LBool b \<Rightarrow> VBool b | LAtom a \<Rightarrow> VAtom a)"
  have "has_type D v t" "litMatches l v"
    using assms mcLit by (auto simp: v_def f64_eq_def split: mLit.splits)
  then show ?thesis using mcLit assms by auto
next
  case (mcArrExact n)
  then show ?thesis
    using assms by (auto simp: rows_as_lists list_all2_conv_all_nth list_all_length intro!: exI [of _ "VArr vs"])
next
  case (mcData a x n)
  then show ?thesis
    using assms by (auto simp: rows_as_lists intro!: exI [of _ "VData a x vs"] dest: list_all2_lengthD)
qed (use assms in auto)

lemma addCtor_covers:
  "headCtor p = Some d \<Longrightarrow> \<exists>c \<in> set (addCtor out (p # ps)). c = d \<or> mCtor_eq c d"
  by (auto simp: list_ex_iff)

lemma addCtor_mono: "set out \<subseteq> set (addCtor out r)"
  by (cases r) (auto split: option.splits)

lemma foldl_addCtor_mono: "set out \<subseteq> set (foldl addCtor out M)"
proof (induction M arbitrary: out)
  case (Cons r M)
  then show ?case using addCtor_mono [of out r] Cons [of "addCtor out r"] by auto
qed simp

lemma foldl_addCtor_covers:
  "p # ps \<in> set M \<Longrightarrow> headCtor p = Some d \<Longrightarrow> \<exists>c \<in> set (foldl addCtor out M). c = d \<or> mCtor_eq c d"
proof (induction M arbitrary: out)
  case (Cons r M)
  show ?case
  proof (cases "r = p # ps")
    case True
    then show ?thesis
      using addCtor_covers [OF Cons.prems(2), of out ps] foldl_addCtor_mono [of "addCtor out r" M] by auto
  next
    case False
    then show ?thesis using Cons by simp
  qed
qed simp

lemma columnCtors_covers:
  "p # ps \<in> set M \<Longrightarrow> headCtor p = Some d \<Longrightarrow> \<exists>c \<in> set (columnCtors M). c = d \<or> mCtor_eq c d"
  unfolding columnCtors_def by (rule foldl_addCtor_covers)

lemma mCtor_eq_head_args:
  assumes "mCtor_eq c d" and "ctor_types D t c us" and "ctor_types D t d us'" and "head_args Opq d v vs"
  shows "\<exists>vs. head_args Opq c v vs"
proof (cases d)
  case (mcLit l)
  then obtain m where m: "c = mcLit m" "mLit_eq m l" using assms(1) by (cases c) auto
  then have "litMatches m v"
    using assms(4) mcLit by (cases m; cases l; cases v) (auto simp: f64_eq_def)
  then show ?thesis using m by auto
qed (use assms in \<open>cases c; auto\<close>)+

lemma length_columnCtors: "length (columnCtors M) \<le> length M"
proof -
  have "length (foldl addCtor out M) \<le> length out + length M" for out
  proof (induction M arbitrary: out)
    case (Cons r M)
    have "length (addCtor out r) \<le> Suc (length out)"
      by (cases r) (auto split: option.splits)
    then show ?case using Cons [of "addCtor out r"] by simp
  qed simp
  from this [of "[]"] show ?thesis by (simp add: columnCtors_def)
qed

lemma columnCtors_simple:
  assumes "simple_matrix M" and "c \<in> set (columnCtors M)"
  shows "simple_ctor c"
proof -
  obtain p ps where p: "p # ps \<in> set M" "headCtor p = Some c" using columnCtors_mem [OF assms(2)] by blast
  then have "simple_pat p" using assms(1) by (auto simp: list_all_iff [of "list_all simple_pat"])
  then show ?thesis using p(2) by (rule simple_headCtor)
qed

text \<open>A row of \<open>M\<close> that matches gives a row of the specialised matrix that matches the columns.\<close>

lemma specialize_complete:
  assumes "matrix_type D M (t # ts)" and "simple_matrix M" and "simple_ctor c" and "ctor_types D t c us"
    and "head_args Opq c v vs" and "r \<in> set M" and "list_all2 (matches Opq) r (v # ws)"
  shows "\<exists>r \<in> set (specialize M c). list_all2 (matches Opq) r (vs @ ws)"
proof -
  obtain p ps where r: "r = p # ps" "matches Opq p v" "list_all2 (matches Opq) ps ws"
    using assms(7) by (auto simp: list_all2_Cons2)
  have "pat_type D p t" using matrix_type_row [OF assms(1,6)] r(1) by simp
  moreover have "simple_pat p" using assms(2,6) r(1) by (auto simp: list_all_iff [of "list_all simple_pat"])
  ultimately obtain r' where "specializeRow c r = Some r'" "list_all2 (matches Opq) r' (vs @ ws)"
    using specializeRow_complete [OF assms(3) _ _ assms(4,5) r(2,3)] r(1) by blast
  then show ?thesis using assms(6) specialize_mem by blast
qed

text \<open>The rows of \<open>M\<close> that match a value outside the column's constructors are rows of \<open>defaultMatrix M\<close>.\<close>

lemma default_complete:
  assumes "matrix_type D M (t # ts)" and "simple_matrix M"
    and "\<forall>c \<in> set (columnCtors M). \<forall>vs. \<not> head_args Opq c v vs"
    and "r \<in> set M" and "list_all2 (matches Opq) r (v # ws)"
  shows "\<exists>r \<in> set (defaultMatrix M). list_all2 (matches Opq) r ws"
proof -
  obtain p ps where r: "r = p # ps" "matches Opq p v" "list_all2 (matches Opq) ps ws"
    using assms(5) by (auto simp: list_all2_Cons2)
  have p: "pat_type D p t" "simple_pat p"
    using matrix_type_row [OF assms(1,4)] r(1) assms(2,4) by (auto simp: list_all_iff [of "list_all simple_pat"])
  have "headCtor p = None"
  proof (rule ccontr)
    assume "headCtor p \<noteq> None"
    then obtain d where d: "headCtor p = Some d" by blast
    obtain us' where us': "ctor_types D t d us'" using headCtor_types [OF p(1) d] by blast
    obtain vs where vs: "head_args Opq d v vs" using headCtor_head_args [OF p(2,1) d r(2)] by blast
    obtain c where c: "c \<in> set (columnCtors M)" "c = d \<or> mCtor_eq c d"
      using columnCtors_covers [OF _ d, of ps M] assms(4) r(1) by blast
    obtain us where "ctor_types D t c us" using columnCtors_types [OF assms(1) c(1)] by blast
    then have "\<exists>vs. head_args Opq c v vs" using c(2) mCtor_eq_head_args [OF _ _ us' vs] vs by blast
    then show False using assms(3) c(1) by blast
  qed
  then have "p = mWild" by (cases p) (auto split: if_splits)
  then show ?thesis using r assms(4) by (auto simp: defaultMatrix_mem)
qed

lemma useful_complete_value:
  assumes "fst (useful F (Some (registry_of D)) M q)" and "matrix_type D M ts" and "list_all2 (pat_type D) q ts"
    and "simple_matrix M" and "list_all simple_pat q" and "decls_ok D" and "list_all (ty_wf D) ts"
    and "length M < 2 ^ 64"
  shows "\<exists>vs. list_all2 (has_type D) vs ts \<and> list_all2 (matches Opq) q vs \<and> (\<forall>r \<in> set M. \<not> list_all2 (matches Opq) r vs)"
  using assms
proof (induction M q arbitrary: ts rule: useful_induct [where F = F and cg = "Some (registry_of D)"])
  case (nil M)
  then show ?case by simp
next
  case (ragged M p rest)
  then show ?case by (simp add: useful.simps(2))
next
  case (complete M m rest)
  then obtain t us where ts: "ts = t # us" and ty: "list_all2 (pat_type D) rest us" "list_all (ty_wf D) us" "ty_wf D t"
    by (auto simp: list_all2_Cons1)
  note M = complete.prems(2) [unfolded ts]
  obtain c where c: "c \<in> set (columnCtors M)"
    "fst (useful F (Some (registry_of D)) (specialize M c) (wildRow (mCtor_arity c) @ rest))"
    using complete.prems(1) by (auto simp: useful_complete [OF complete.hyps(1,2)] fst_firstUseful split_beta)
  obtain cs where cs: "ctor_types D t c cs" using columnCtors_types [OF M c(1)] by blast
  have sc: "simple_ctor c" using columnCtors_simple complete.prems(4) c(1) by blast
  have "\<exists>vs. list_all2 (has_type D) vs (cs @ us) \<and> list_all2 (matches Opq) (wildRow (mCtor_arity c) @ rest) vs \<and>
      (\<forall>r \<in> set (specialize M c). \<not> list_all2 (matches Opq) r vs)"
  proof (rule complete.IH [OF c])
    show "list_all2 (pat_type D) (wildRow (mCtor_arity c) @ rest) (cs @ us)"
      using ty(1) ctor_types_arity [OF cs] by (auto simp: wildRow_type intro!: list_all2_appendI)
  qed (use specialize_type [OF M cs] complete.prems(4-8) simple_specialize ctor_types_wf [OF complete.prems(6) ty(3) cs]
        ty length_specialize [of M c] in auto)
  then obtain as ws where vs: "list_all2 (has_type D) as cs" "list_all2 (has_type D) ws us"
    "list_all2 (matches Opq) (wildRow (mCtor_arity c) @ rest) (as @ ws)"
    "\<forall>r \<in> set (specialize M c). \<not> list_all2 (matches Opq) r (as @ ws)"
    by (auto simp: list_all2_append2)
  obtain v where v: "has_type D v t" "head_args Opq c v as" using build_value [OF sc cs vs(1)] by blast
  have "list_all2 (matches Opq) rest ws"
    using vs(3) head_args_arity [OF v(2)] by (simp add: list_all2_append)
  moreover have "\<forall>r \<in> set M. \<not> list_all2 (matches Opq) r (v # ws)"
    using specialize_complete [OF M complete.prems(4) sc cs v(2)] vs(4) by blast
  ultimately show ?case using v(1) vs(2) ts by (intro exI [of _ "v # ws"]) simp
next
  case (default M m rest)
  then obtain t us where ts: "ts = t # us" and ty: "list_all2 (pat_type D) rest us" "list_all (ty_wf D) us" "ty_wf D t"
    by (auto simp: list_all2_Cons1)
  note M = default.prems(2) [unfolded ts]
  have "fst (useful F (Some (registry_of D)) (defaultMatrix M) rest)"
    using default.prems(1) by (simp add: useful_default [OF default.hyps])
  then obtain ws where ws: "list_all2 (has_type D) ws us" "list_all2 (matches Opq) rest ws"
    "\<forall>r \<in> set (defaultMatrix M). \<not> list_all2 (matches Opq) r ws"
    using default.IH [OF _ default_type [OF M] ty(1) simple_default] default.prems(4-8) ty(2) length_default [of M] by auto
  have "\<exists>v. has_type D v t \<and> (\<forall>c \<in> set (columnCtors M). \<forall>vs. \<not> head_args Opq c v vs)"
  proof (rule missing_value [OF default.hyps(2)])
    show "simple_ctor c \<and> (\<exists>us. ctor_types D t c us)" if "c \<in> set (columnCtors M)" for c
      using columnCtors_simple [OF default.prems(4) that] columnCtors_types [OF M that] by blast
  qed (use default.prems(6,8) ty(3) length_columnCtors [of M] in auto)
  then obtain v where v: "has_type D v t" "\<forall>c \<in> set (columnCtors M). \<forall>vs. \<not> head_args Opq c v vs" by blast
  have "\<forall>r \<in> set M. \<not> list_all2 (matches Opq) r (v # ws)"
    using default_complete [OF M default.prems(4) v(2)] ws(3) by blast
  then show ?case using v(1) ws ts by (intro exI [of _ "v # ws"]) simp
next
  case (head M p c rest)
  then obtain t us where ts: "ts = t # us" and ty: "pat_type D p t" "list_all2 (pat_type D) rest us" "list_all (ty_wf D) us" "ty_wf D t"
    and sp: "simple_pat p" "list_all simple_pat rest"
    by (auto simp: list_all2_Cons1)
  note M = head.prems(2) [unfolded ts]
  obtain cs where cs: "ctor_types D t c cs" using headCtor_types [OF ty(1) head.hyps(2)] by blast
  have sc: "simple_ctor c" using simple_headCtor [OF sp(1) head.hyps(2)] .
  have "fst (useful F (Some (registry_of D)) (specialize M c) (headColumns p @ rest))"
    using head.prems(1) by (simp add: useful_head [OF head.hyps])
  then have "\<exists>vs. list_all2 (has_type D) vs (cs @ us) \<and> list_all2 (matches Opq) (headColumns p @ rest) vs \<and>
      (\<forall>r \<in> set (specialize M c). \<not> list_all2 (matches Opq) r vs)"
    using specialize_type [OF M cs] headColumns_type [OF ty(1) head.hyps(2) cs] ty head.prems(4-8) sp
      simple_headColumns [OF sp(1) head.hyps(2)] simple_specialize ctor_types_wf [OF head.prems(6) ty(4) cs]
      length_specialize [of M c]
    by (intro head.IH) (auto intro: list_all2_appendI)
  then obtain as ws where vs: "list_all2 (has_type D) as cs" "list_all2 (has_type D) ws us"
    "list_all2 (matches Opq) (headColumns p @ rest) (as @ ws)"
    "\<forall>r \<in> set (specialize M c). \<not> list_all2 (matches Opq) r (as @ ws)"
    by (auto simp: list_all2_append2)
  obtain v where v: "has_type D v t" "head_args Opq c v as" using build_value [OF sc cs vs(1)] by blast
  have "length (headColumns p) = length as"
    using list_all2_lengthD [OF headColumns_type [OF ty(1) head.hyps(2) cs]] list_all2_lengthD [OF vs(1)] by simp
  then have "list_all2 (matches Opq) (headColumns p) as" "list_all2 (matches Opq) rest ws"
    using vs(3) by (auto simp: list_all2_append)
  moreover have "\<forall>r \<in> set M. \<not> list_all2 (matches Opq) r (v # ws)"
    using specialize_complete [OF M head.prems(4) sc cs v(2)] vs(4) by blast
  ultimately show ?case
    using v vs(2) ts headColumns_matches_conv [OF sp(1) head.hyps(2) v(2)] by (intro exI [of _ "v # ws"]) simp
qed


section \<open>The verdicts\<close>

text \<open>
  C7: a false verdict of \<open>useful\<close> is sound.  When \<open>useful M q\<close> is false, every well-typed row of values
  that \<open>q\<close> matches is matched by a row of \<open>M\<close>, whatever the opaque patterns match: an arm reported
  as unreachable adds nothing to the arms before it.
\<close>

theorem useful_false_covers:
  "\<not> fst (useful F (Some (registry_of D)) M q) \<Longrightarrow> matrix_type D M ts \<Longrightarrow> row_type D q ts \<Longrightarrow>
   have_types D vs ts \<Longrightarrow> rowMatches Opq q vs \<Longrightarrow> \<exists>r \<in> set M. rowMatches Opq r vs"
  unfolding rows_as_lists by (rule useful_sound)

text \<open>
  The exhaustiveness verdict is sound.  When a row of wildcards is not useful, the arms match every
  well-typed row of values.
\<close>

lemma exhaustive_covers:
  assumes "\<not> fst (useful F (Some (registry_of D)) M (wildRow (length ts)))" and "matrix_type D M ts"
    and "have_types D vs ts"
  shows "\<exists>r \<in> set M. rowMatches Opq r vs"
  using assms list_all2_lengthD [of "has_type D" vs ts] unfolding rows_as_lists
  by (intro useful_sound) (auto simp: wildRow_type wildRow_matches)

text \<open>
  C8: a true verdict is complete for patterns without \<open>...rest\<close> and without opaque parts: there is a
  well-typed row of values that \<open>q\<close> matches and no row of \<open>M\<close> does.  (Fewer than \<open>2^64\<close> arms, so
  that integer literals cannot exhaust \<open>int64\<close>.)
\<close>

theorem useful_true_witnessed:
  "fst (useful F (Some (registry_of D)) M q) \<Longrightarrow> matrix_type D M ts \<Longrightarrow> row_type D q ts \<Longrightarrow>
   simple_matrix M \<Longrightarrow> list_all simple_pat q \<Longrightarrow> decls_ok D \<Longrightarrow> list_all (ty_wf D) ts \<Longrightarrow> length M < 2 ^ 64 \<Longrightarrow>
   \<exists>vs. have_types D vs ts \<and> rowMatches Opq q vs \<and> (\<forall>r \<in> set M. \<not> rowMatches Opq r vs)"
  unfolding rows_as_lists by (rule useful_complete_value)

text \<open>
  The witness of an open-domain column need not be a missing value.  For the arms \<open>0\<close> and \<open>1\<close> the
  analysis rightly finds a wildcard useful, but the witness it reports is the literal \<open>1\<close>, the first
  arm's literal plus one, which the second arm matches.
\<close>

lemma int_witness_covered:
  "useful F cg [[mLit (LInt 0)], [mLit (LInt 1)]] [mWild] = (True, Some (Witness (mcLit (LInt 1)) [])) \<and>
   rowMatches Opq [mLit (LInt 1)] [VInt 1]"
  by (simp add: useful.simps(2) columnCtors_def completeSignature_def ctorFamily_def defaultMatrix_def
      List.map_filter_simps missingFor_def wrap64_def prependWitness_def mCtor_arity_def)

subsection \<open>Concrete matches\<close>

definition option_decls :: adt_decls where
  "option_decls = [(''Option'', [(''None'', []), (''Some'', [TBool])])]"

definition no_fmt :: go_fmt where
  "no_fmt = \<lparr>f64_add = (\<lambda>x y. x), sprintf_g = (\<lambda>_. []), sprintf_q = (\<lambda>s. s)\<rparr>"

definition full_match :: matrix where
  "full_match = [[mData ''Option'' ''Some'' [mLit (LBool True)]], [mData ''Option'' ''None'' []],
                 [mData ''Option'' ''Some'' [mLit (LBool False)]]]"

lemmas maranget_eval = useful.simps(2) columnCtors_def completeSignature_def completeData_def completeBool_def
  ctorFamily_def registry_of_def specialize_def List.map_filter_simps defaultMatrix_def wildRow_def mCtor_arity_def
  padTo_def prependWitness_def prependChildren_def missingFor_def zeroCtor_def zeroWitness_def Let_def

lemma full_match_exhaustive: "\<not> fst (useful no_fmt (Some (registry_of option_decls)) full_match [mWild])"
  by (simp add: maranget_eval full_match_def option_decls_def)

lemma full_match_typed: "matrix_type option_decls full_match [TData ''Option'']"
  by (simp add: matrix_type_def full_match_def option_decls_def variantTypes_def)

theorem useful_false_covers_witness:
  "\<exists>r \<in> set full_match. rowMatches (\<lambda>_ _. False) r [VData ''Option'' ''Some'' [VBool False]]"
  by (rule useful_false_covers [OF full_match_exhaustive full_match_typed])
     (simp_all add: option_decls_def variantTypes_def)

lemma exhaustive_covers_witness:
  "\<exists>r \<in> set full_match. rowMatches (\<lambda>_ _. False) r [VData ''Option'' ''None'' []]"
  by (rule exhaustive_covers [where F = no_fmt and D = option_decls and ts = "[TData ''Option'']"])
     (use full_match_exhaustive full_match_typed in
       \<open>simp_all add: wildRow_def option_decls_def variantTypes_def\<close>)

lemma option_decls_ok: "decls_ok option_decls"
proof -
  have "has_type option_decls (VData ''Option'' ''None'' []) (TData ''Option'')"
    by (simp add: option_decls_def variantTypes_def)
  then have "\<exists>v. has_type option_decls v (TData ''Option'')" by blast
  moreover have "fst ` set option_decls = {''Option''}" by (simp add: option_decls_def)
  moreover have "list_all (\<lambda>(a, vs). list_all (\<lambda>(v, ts). list_all (ty_wf option_decls) ts) vs) option_decls"
    by (simp add: option_decls_def)
  ultimately show ?thesis unfolding decls_ok_def by simp
qed

theorem useful_true_witnessed_witness:
  "\<exists>vs. have_types option_decls vs [TData ''Option''] \<and> rowMatches (\<lambda>_ _. False) [mWild] vs \<and>
        (\<forall>r \<in> set (tl full_match). \<not> rowMatches (\<lambda>_ _. False) r vs)"
proof (rule useful_true_witnessed [where F = no_fmt])
  show "fst (useful no_fmt (Some (registry_of option_decls)) (tl full_match) [mWild])"
    by (simp add: maranget_eval full_match_def option_decls_def)
  show "matrix_type option_decls (tl full_match) [TData ''Option'']"
    using full_match_typed by (simp add: matrix_type_def full_match_def)
  show "decls_ok option_decls" by (rule option_decls_ok)
qed (simp_all add: full_match_def option_decls_def)


section \<open>The order of field names\<close>

text \<open>
  The inner loop moves the element at \<open>j\<close> into the sorted prefix before it: the invariant is that the
  prefix is sorted apart from the moving element, and that everything after it is not smaller.
\<close>

definition sunk :: "nat \<Rightarrow> string list \<Rightarrow> nat \<Rightarrow> bool" where
  "sunk j s n \<longleftrightarrow> (\<forall>a b. a < b \<and> b \<le> n \<and> a \<noteq> j \<and> b \<noteq> j \<longrightarrow> s ! a \<le> s ! b) \<and> (\<forall>b. j < b \<and> b \<le> n \<longrightarrow> s ! j \<le> s ! b)"

lemma sinkString_sorted:
  "j \<le> n \<Longrightarrow> n < length s \<Longrightarrow> sunk j s n \<Longrightarrow> sorted (take (Suc n) (sinkString j s))"
proof (induction j s rule: sinkString.induct)
  case (1 s)
  have "s ! a \<le> s ! b" if "a < b" "b \<le> n" for a b
    using 1(3) that by (cases "a = 0") (auto simp: sunk_def)
  then show ?case using 1(2) by (simp add: sorted_iff_nth_mono_less less_Suc_eq_le)
next
  case (2 j s)
  show ?case
  proof (cases "s ! j > s ! Suc j")
    case True
    have swap: "s[j := s ! Suc j, Suc j := s ! j] ! k = (if k = j then s ! Suc j else if k = Suc j then s ! j else s ! k)"
      if "k \<le> n" for k
      using 2(2,3) that by (simp add: nth_list_update)
    have "sunk j (s[j := s ! Suc j, Suc j := s ! j]) n"
      unfolding sunk_def
    proof (intro conjI allI impI; elim conjE)
      fix a b assume ab: "a < b" "b \<le> n" "a \<noteq> j" "b \<noteq> j"
      then have sl: "s ! a \<le> s ! b" if "a \<noteq> Suc j" "b \<noteq> Suc j" using 2(4) that by (auto simp: sunk_def)
      have "s ! j \<le> s ! b" if "a = Suc j"
        using 2(4) ab that unfolding sunk_def by (metis Suc_lessD less_not_refl2)
      moreover have "s ! a \<le> s ! j" if "b = Suc j"
        using 2(4) ab that unfolding sunk_def
        by (metis Suc_leD less_SucE nat_neq_iff n_not_Suc_n)
      ultimately show "s[j := s ! Suc j, Suc j := s ! j] ! a \<le> s[j := s ! Suc j, Suc j := s ! j] ! b"
        using sl ab swap [of a] swap [of b] by (cases "a = Suc j"; cases "b = Suc j") simp_all
    next
      fix b assume b: "j < b" "b \<le> n"
      have "s ! Suc j \<le> s ! b" if "b \<noteq> Suc j" using 2(4) b that by (auto simp: sunk_def)
      then show "s[j := s ! Suc j, Suc j := s ! j] ! j \<le> s[j := s ! Suc j, Suc j := s ! j] ! b"
        using b True swap [of j] swap [of b] by (cases "b = Suc j") simp_all
    qed
    then show ?thesis using True 2(1-3) by simp
  next
    case False
    have "s ! a \<le> s ! b" if "a < b" "b \<le> n" for a b
    proof (cases "b = Suc j")
      case True
      have "s ! j \<le> s ! Suc j" using False by simp
      moreover have "s ! a \<le> s ! j" if "a \<noteq> j"
        using 2(2,4) \<open>a < b\<close> \<open>b \<le> n\<close> True that unfolding sunk_def by (metis Suc_leD less_SucE n_not_Suc_n less_irrefl)
      ultimately show ?thesis using True by force
    next
      case b: False
      then show ?thesis using 2(4) that by (cases "a = Suc j") (auto simp: sunk_def)
    qed
    then show ?thesis using False 2(3) by (simp add: sorted_iff_nth_mono_less less_Suc_eq_le)
  qed
qed

lemma sortStrings_prefix:
  "n < length s \<Longrightarrow> sorted (take (Suc n) (fold sinkString [1..<Suc n] s)) \<and> length (fold sinkString [1..<Suc n] s) = length s"
proof (induction n)
  case 0
  then show ?case by (cases s) auto
next
  case (Suc n)
  let ?s = "fold sinkString [1..<Suc n] s"
  have srt: "sorted (take (Suc n) ?s)" and len: "length ?s = length s" using Suc by auto
  have "sunk (Suc n) ?s (Suc n)"
    using srt Suc.prems len by (auto simp: sunk_def sorted_iff_nth_mono_less less_Suc_eq_le)
  then have "sorted (take (Suc (Suc n)) (sinkString (Suc n) ?s))"
    using Suc.prems len by (intro sinkString_sorted) auto
  then show ?case using len by simp
qed

text \<open>
  \<open>sortStrings\<close>, the insertion sort that fixes the order of a struct pattern's fields, returns the
  sorted permutation of its argument.
\<close>

lemma sortStrings_correct: "sorted (sortStrings s) \<and> mset (sortStrings s) = mset s"
proof (cases s)
  case Nil
  then show ?thesis by (simp add: sortStrings_def)
next
  case (Cons x xs)
  then have l: "length s = Suc (length xs)" "length xs < length s" by simp_all
  have "sorted (take (length s) (sortStrings s))" "length (sortStrings s) = length s"
    using sortStrings_prefix [OF l(2)] by (simp_all only: sortStrings_def l(1))
  then show ?thesis using sortStrings_mset [of s] by simp
qed

end
