(* ===== verification/TinMatch.thy ===== *)
theory TinMatch
  imports TinPrint TinMarangetCorrect "HOL-Library.AList"
begin

text \<open>
  From the arms of a \<open>match\<close> or \<open>where\<close> list to the pattern analysis, and from its verdicts to warnings and errors
  (\<^verbatim>\<open>src/codegen/maranget.go\<close>, \<^verbatim>\<open>exhaustive.go\<close>), with the dispatch that is generated for a match on an ADT
  (\<^verbatim>\<open>stmts_match_data.go\<close>, \<^verbatim>\<open>data_match.go\<close>, \<^verbatim>\<open>data_ctors.go\<close>).

  A pattern that cannot be printed makes \<open>opaqueTag\<close> panic; \<open>None\<close> is that panic.  A warning is its position and
  the kind of arm it names.
\<close>

section \<open>The ADT registry\<close>

definition appendUnique :: "string list \<Rightarrow> string \<Rightarrow> string list" where
  "appendUnique xs s = (if s \<in> set xs then xs else xs @ [s])"

definition lookupVariant :: "adt_registry \<Rightarrow> string \<Rightarrow> string list" where
  "lookupVariant R v = (case map_of (dataVariantLookup R) v of Some adts \<Rightarrow> adts | None \<Rightarrow> [])"

definition registerVariant :: "string \<Rightarrow> adt_registry \<Rightarrow> string \<Rightarrow> adt_registry" where
  "registerVariant adt R v = R\<lparr>dataVariantLookup := AList.update v (appendUnique (lookupVariant R v) adt) (dataVariantLookup R)\<rparr>"

definition isDataVariant :: "adt_registry \<Rightarrow> string \<Rightarrow> bool" where
  "isDataVariant R v \<longleftrightarrow> lookupVariant R v \<noteq> []"

definition dataVariantInfoFor :: "adt_registry \<Rightarrow> string \<Rightarrow> string \<Rightarrow> nat option" where
  "dataVariantInfoFor R adt v = (case map_of (dataVariants R) adt of Some vars \<Rightarrow> map_of vars v | None \<Rightarrow> None)"

datatype variantRef = UnknownVariant | OneVariant string | Ambiguous "string list"

definition resolveVariantName :: "adt_registry \<Rightarrow> string \<Rightarrow> variantRef" where
  "resolveVariantName R v =
     (case lookupVariant R v of [] \<Rightarrow> UnknownVariant | [a] \<Rightarrow> OneVariant a | adts \<Rightarrow> Ambiguous adts)"

definition adtForVariant :: "adt_registry option \<Rightarrow> string \<Rightarrow> string" where
  "adtForVariant cg v = (case cg of None \<Rightarrow> [] | Some R \<Rightarrow> (case lookupVariant R v of [] \<Rightarrow> [] | a # _ \<Rightarrow> a))"

section \<open>Patterns\<close>

definition opaqueTag :: "go_fmt \<Rightarrow> Node \<Rightarrow> string option" where
  "opaqueTag F n = PrintExpr F n"

definition opaquePat :: "go_fmt \<Rightarrow> Node \<Rightarrow> mPat option" where
  "opaquePat F n = map_option mOpaque (opaqueTag F n)"

text \<open>A constructor pattern \<open>Ok(v)\<close>: a call of an identifier that names a variant.\<close>

definition asCtorCall :: "adt_registry option \<Rightarrow> Node \<Rightarrow> (string \<times> Node list) option" where
  "asCtorCall cg n =
     (case (cg, asCall n) of
        (Some R, Some (f, args)) \<Rightarrow>
          (case asIdent f of Some x \<Rightarrow> if isDataVariant R x then Some (x, args) else None | None \<Rightarrow> None)
      | _ \<Rightarrow> None)"

lemma asCtorCall_size: "asCtorCall cg n = Some (x, args) \<Longrightarrow> a \<in> set args \<Longrightarrow> size a < size n"
proof -
  assume c: "asCtorCall cg n = Some (x, args)" and a: "a \<in> set args"
  from c obtain f where "asCall n = Some (f, args)" by (auto simp: asCtorCall_def split: option.splits prod.splits if_splits)
  then obtain p ts tr where "n = NExpr p (CallExpr f ts args tr)" by (cases n rule: asCall.cases) auto
  with a show "size a < size n" using size_list_estimation' [of a args "size a" size] by auto
qed

definition leafToMPat :: "go_fmt \<Rightarrow> adt_registry option \<Rightarrow> Node \<Rightarrow> mPat option" where
  "leafToMPat F cg n =
     (case n of
        NLeaf _ l \<Rightarrow>
          (case l of
             Identifier x \<Rightarrow>
               (case cg of Some R \<Rightarrow> if isDataVariant R x then Some (mData (adtForVariant cg x) x []) else Some mWild
                | None \<Rightarrow> Some mWild)
           | IntLit v _ \<Rightarrow> Some (mLit (LInt v))
           | FloatLit v \<Rightarrow> Some (mLit (LFloat v))
           | StringLit v \<Rightarrow> Some (mLit (LString v))
           | BoolLit b \<Rightarrow> Some (mLit (LBool b))
           | AtomLit a \<Rightarrow> Some (mLit (LAtom a))
           | ArrayPattern es \<Rightarrow>
               Some (mArr (replicate (length (filter (\<lambda>e. \<not> ape_IsRest e) es)) mWild) (\<exists>e \<in> set es. ape_IsRest e))
           | _ \<Rightarrow> opaquePat F n)
      | _ \<Rightarrow> opaquePat F n)"

function nodeToMPat :: "go_fmt \<Rightarrow> adt_registry option \<Rightarrow> Node \<Rightarrow> mPat option" where
  "nodeToMPat F cg n =
     (case asCtorCall cg n of
        Some (x, args) \<Rightarrow> map_option (mData (adtForVariant cg x) x) (those (map (nodeToMPat F cg) args))
      | None \<Rightarrow> leafToMPat F cg n)"
  by pat_completeness auto
termination by (relation "measure (\<lambda>(F, cg, n). size n)") (auto dest: asCtorCall_size)

declare nodeToMPat.simps [simp del]

section \<open>Rows\<close>

fun asTuplePattern :: "Node \<Rightarrow> Node list option" where
  "asTuplePattern (NExpr _ (TuplePattern es)) = Some es"
| "asTuplePattern _ = None"

definition nodesToRow :: "go_fmt \<Rightarrow> adt_registry option \<Rightarrow> Node list \<Rightarrow> row option" where
  "nodesToRow F cg es = those (map (nodeToMPat F cg) es)"

definition wherePatternToRow :: "go_fmt \<Rightarrow> adt_registry option \<Rightarrow> Node WhereClause \<Rightarrow> nat \<Rightarrow> (row \<times> bool) option" where
  "wherePatternToRow F cg c arity =
     (case c of WhereClause _ cond pat guard _ \<Rightarrow>
        (let guarded = (guard \<noteq> None) in
         case pat of
           None \<Rightarrow> Some (wildRow arity, guarded \<or> cond \<noteq> None)
         | Some p \<Rightarrow>
             (case asTuplePattern p of
                Some es \<Rightarrow> if length es \<noteq> arity then Some (wildRow arity, guarded)
                           else map_option (\<lambda>r. (r, guarded)) (nodesToRow F cg es)
              | None \<Rightarrow> if arity \<noteq> 1 then Some (wildRow arity, guarded)
                        else map_option (\<lambda>q. ([q], guarded)) (nodeToMPat F cg p))))"

definition matchCaseToRow :: "go_fmt \<Rightarrow> adt_registry option \<Rightarrow> Node MatchCase \<Rightarrow> (row \<times> bool) option" where
  "matchCaseToRow F cg c =
     (case c of MatchCase _ pat _ varType guard _ \<Rightarrow>
        (let guarded = (guard \<noteq> None) in
         if varType \<noteq> None then Some ([mWild], True)
         else case pat of
           None \<Rightarrow> Some ([mWild], guarded)
         | Some p \<Rightarrow>
             (case asTuplePattern p of
                Some es \<Rightarrow> map_option (\<lambda>r. (r, guarded)) (nodesToRow F cg es)
              | None \<Rightarrow> map_option (\<lambda>q. ([q], guarded)) (nodeToMPat F cg p))))"

definition unguardedRows :: "(row \<times> bool) list \<Rightarrow> matrix" where
  "unguardedRows rs = map fst (filter (\<lambda>(_, g). \<not> g) rs)"

definition buildWhereMatrix :: "go_fmt \<Rightarrow> adt_registry option \<Rightarrow> Node WhereClause list \<Rightarrow> nat \<Rightarrow> matrix option" where
  "buildWhereMatrix F cg cs arity = map_option unguardedRows (those (map (\<lambda>c. wherePatternToRow F cg c arity) cs))"

definition buildMatchMatrix :: "go_fmt \<Rightarrow> adt_registry option \<Rightarrow> Node MatchCase list \<Rightarrow> matrix option" where
  "buildMatchMatrix F cg cs = map_option unguardedRows (those (map (matchCaseToRow F cg) cs))"

section \<open>Verdicts\<close>

definition verdict :: "go_fmt \<Rightarrow> nat \<Rightarrow> bool \<times> witnessVal option \<Rightarrow> bool \<times> string" where
  "verdict F arity r = (if fst r then (False, witnessRowString F (snd r) arity) else (True, []))"

definition marangetCheckWhereExhaustive ::
  "go_fmt \<Rightarrow> adt_registry option \<Rightarrow> Node WhereClause list \<Rightarrow> nat \<Rightarrow> (bool \<times> string) option" where
  "marangetCheckWhereExhaustive F cg cs arity =
     map_option (\<lambda>M. verdict F arity (useful F cg M (wildRow arity))) (buildWhereMatrix F cg cs arity)"

definition marangetCheckMatchExhaustive ::
  "go_fmt \<Rightarrow> adt_registry option \<Rightarrow> Node MatchCase list \<Rightarrow> Node Block option \<Rightarrow> (bool \<times> string) option" where
  "marangetCheckMatchExhaustive F cg cs dflt =
     (if dflt \<noteq> None then Some (True, [])
      else map_option (\<lambda>M. verdict F 1 (useful F cg M (wildRow 1))) (buildMatchMatrix F cg cs))"

text \<open>Arm \<open>i\<close> against the arms before it, given the translation \<open>toRow\<close> of an arm.\<close>

definition armUseful ::
  "go_fmt \<Rightarrow> adt_registry option \<Rightarrow> ('c \<Rightarrow> (row \<times> bool) option) \<Rightarrow> 'c list \<Rightarrow> nat \<Rightarrow> bool option" where
  "armUseful F cg toRow cs i =
     (case toRow (cs ! i) of
        None \<Rightarrow> None
      | Some (r, guarded) \<Rightarrow>
          if guarded then Some True
          else map_option (\<lambda>rs. fst (useful F cg (unguardedRows rs) r)) (those (map toRow (take i cs))))"

definition marangetWhereArmUseful ::
  "go_fmt \<Rightarrow> adt_registry option \<Rightarrow> Node WhereClause list \<Rightarrow> nat \<Rightarrow> nat \<Rightarrow> bool option" where
  "marangetWhereArmUseful F cg cs i arity = armUseful F cg (\<lambda>c. wherePatternToRow F cg c arity) cs i"

definition marangetMatchArmUseful :: "go_fmt \<Rightarrow> adt_registry option \<Rightarrow> Node MatchCase list \<Rightarrow> nat \<Rightarrow> bool option" where
  "marangetMatchArmUseful F cg cs i = armUseful F cg (matchCaseToRow F cg) cs i"

definition marangetMatchDefaultUseful :: "go_fmt \<Rightarrow> adt_registry option \<Rightarrow> Node MatchCase list \<Rightarrow> bool option" where
  "marangetMatchDefaultUseful F cg cs = map_option (\<lambda>M. fst (useful F cg M (wildRow 1))) (buildMatchMatrix F cg cs)"

section \<open>The warnings\<close>

record matchEnv =
  me_registry :: adt_registry
  me_suppressed :: bool
  me_curFnParams :: "nat option"
  me_structTypeIDs :: "string list"
  me_unionTypeIDs :: "string list"
  me_traitInstKeys :: "string list"
  me_dataTypeIDs :: "string list"

type_synonym armWarning = "Pos \<times> string"

definition emitUnreachableArmWarning :: "Pos \<Rightarrow> string \<Rightarrow> armWarning" where
  "emitUnreachableArmWarning p kind = (p, kind)"

fun wc_Pos :: "'n WhereClause \<Rightarrow> Pos" where
  "wc_Pos (WhereClause p _ _ _ _) = p"

fun wc_Pattern :: "'n WhereClause \<Rightarrow> 'n option" where
  "wc_Pattern (WhereClause _ _ pat _ _) = pat"

fun mc_Pos :: "'n MatchCase \<Rightarrow> Pos" where
  "mc_Pos (MatchCase p _ _ _ _ _) = p"

fun mc_Pattern :: "'n MatchCase \<Rightarrow> 'n option" where
  "mc_Pattern (MatchCase _ pat _ _ _ _) = pat"

fun mc_VarType :: "'n MatchCase \<Rightarrow> TypeExpr option" where
  "mc_VarType (MatchCase _ _ _ t _ _) = t"

fun mc_Guard :: "'n MatchCase \<Rightarrow> 'n option" where
  "mc_Guard (MatchCase _ _ _ _ g _) = g"

fun tupleWidth :: "Node WhereClause list \<Rightarrow> nat" where
  "tupleWidth [] = 1"
| "tupleWidth (c # cs) =
     (case Option.bind (wc_Pattern c) asTuplePattern of Some es \<Rightarrow> length es | None \<Rightarrow> tupleWidth cs)"

definition whereArity :: "matchEnv \<Rightarrow> Node WhereClause list \<Rightarrow> nat" where
  "whereArity env cs = (case me_curFnParams env of Some n \<Rightarrow> n | None \<Rightarrow> tupleWidth cs)"

definition isKnownTypeName :: "matchEnv \<Rightarrow> string \<Rightarrow> bool" where
  "isKnownTypeName env name \<longleftrightarrow>
     name \<in> {''i8'', ''i16'', ''i32'', ''i64'', ''i128'', ''u8'', ''u16'', ''u32'', ''u64'', ''u128'', ''f32'', ''f64'', ''f128'',
              ''bool'', ''byte'', ''char'', ''string'', ''atom'', ''any'', ''void''} \<or>
     name \<in> set (me_structTypeIDs env) \<or> name \<in> set (me_unionTypeIDs env) \<or>
     name \<in> set (me_traitInstKeys env) \<or> name \<in> set (me_dataTypeIDs env)"

definition warnUnless :: "armWarning \<Rightarrow> bool \<Rightarrow> armWarning list" where
  "warnUnless w ok = (if ok then [] else [w])"

definition scanWhereForUnreachable :: "go_fmt \<Rightarrow> matchEnv \<Rightarrow> Node WhereClause list \<Rightarrow> armWarning list option" where
  "scanWhereForUnreachable F env cs =
     (if me_suppressed env then Some []
      else map_option concat (those (map
        (\<lambda>i. map_option (warnUnless (emitUnreachableArmWarning (wc_Pos (cs ! i)) ''where clause''))
               (marangetWhereArmUseful F (Some (me_registry env)) cs i (whereArity env cs))) [0..<length cs])))"

definition scanMatchForUnreachable ::
  "go_fmt \<Rightarrow> matchEnv \<Rightarrow> Pos \<Rightarrow> Node MatchCase list \<Rightarrow> Node Block option \<Rightarrow> armWarning list option" where
  "scanMatchForUnreachable F env p cs dflt =
     (if me_suppressed env \<or> (\<exists>c \<in> set cs. \<exists>x \<in> set_option (Option.bind (mc_Pattern c) asIdent). isKnownTypeName env x) then Some []
      else map_option concat (those (map
        (\<lambda>i. map_option (warnUnless (emitUnreachableArmWarning (mc_Pos (cs ! i)) ''match case''))
               (marangetMatchArmUseful F (Some (me_registry env)) cs i)) [0..<length cs] @
        (if dflt \<noteq> None then
           [map_option (warnUnless (emitUnreachableArmWarning p ''match default''))
              (marangetMatchDefaultUseful F (Some (me_registry env)) cs)]
         else []))))"

section \<open>The dump\<close>

text \<open>What \<open>-fdump-match-info\<close> prints.\<close>

definition filenameForDiag :: "string \<Rightarrow> string" where
  "filenameForDiag filename = (if filename \<noteq> [] then filename else ''<repl>'')"

definition padRight :: "nat \<Rightarrow> string \<Rightarrow> string" where
  "padRight n s = s @ replicate (n - length s) CHR '' ''"

definition dumpHeader :: "string \<Rightarrow> string \<Rightarrow> Pos \<Rightarrow> string" where
  "dumpHeader label filename p =
     ''[match-info] '' @ label @ '' at '' @ filenameForDiag filename @ '':'' @ sprintf_d (Line p) @ '':'' @ sprintf_d (Col p) @ [CHR 0x0A]"

definition dumpArm :: "go_fmt \<Rightarrow> string \<Rightarrow> nat \<Rightarrow> row \<times> bool \<Rightarrow> bool \<Rightarrow> string" where
  "dumpArm F kind i r isUseful =
     ''  '' @ kind @ ''['' @ sprintf_d (int i) @ ''] '' @
     padRight 12 (if snd r then ''guarded'' else if \<not> isUseful then ''UNREACHABLE'' else ''ok'') @ '' '' @ rowStr F (fst r) @ [CHR 0x0A]"

definition dumpVerdict :: "bool \<times> string \<Rightarrow> string" where
  "dumpVerdict v = (if fst v then ''  exhaustive: YES'' else ''  exhaustive: NO   missing witness: '' @ snd v) @ [CHR 0x0A]"

definition dumpArms :: "go_fmt \<Rightarrow> string \<Rightarrow> (row \<times> bool) option list \<Rightarrow> bool option list \<Rightarrow> string option" where
  "dumpArms F kind rows oks =
     cat (map2 (\<lambda>i (r, ok). case (r, ok) of (Some r', Some ok') \<Rightarrow> Some (dumpArm F kind i r' ok') | _ \<Rightarrow> None)
       [0..<length rows] (zip rows oks))"

definition dumpMatchInfo ::
  "go_fmt \<Rightarrow> matchEnv \<Rightarrow> string \<Rightarrow> Pos \<Rightarrow> Node MatchCase list \<Rightarrow> Node Block option \<Rightarrow> string \<Rightarrow> string option" where
  "dumpMatchInfo F env filename p cs dflt label =
     (let cg = Some (me_registry env) in
      cat [Some (dumpHeader label filename p),
           Some (''  arity=1, cases='' @ sprintf_d (int (length cs)) @ '', default='' @ (if dflt \<noteq> None then ''true'' else ''false'') @ [CHR 0x0A]),
           dumpArms F ''case'' (map (matchCaseToRow F cg) cs) (map (marangetMatchArmUseful F cg cs) [0..<length cs]),
           if dflt = None then Some []
           else map_option (\<lambda>ok. ''  default     '' @ (if ok then ''ok'' else ''UNREACHABLE'') @ [CHR 0x0A]) (marangetMatchDefaultUseful F cg cs),
           map_option dumpVerdict (marangetCheckMatchExhaustive F cg cs dflt)])"

definition dumpWhereInfo ::
  "go_fmt \<Rightarrow> matchEnv \<Rightarrow> string \<Rightarrow> Pos \<Rightarrow> Node WhereClause list \<Rightarrow> string \<Rightarrow> string option" where
  "dumpWhereInfo F env filename p cs label =
     (let cg = Some (me_registry env); arity = whereArity env cs in
      cat [Some (dumpHeader label filename (case cs of c # _ \<Rightarrow> wc_Pos c | [] \<Rightarrow> p)),
           Some (''  arity='' @ sprintf_d (int arity) @ '', clauses='' @ sprintf_d (int (length cs)) @ [CHR 0x0A]),
           dumpArms F ''clause'' (map (\<lambda>c. wherePatternToRow F cg c arity) cs)
             (map (\<lambda>i. marangetWhereArmUseful F cg cs i arity) [0..<length cs]),
           map_option dumpVerdict (marangetCheckWhereExhaustive F cg cs arity)])"

section \<open>Where lists\<close>

definition isCatchAllWhereClause :: "Node WhereClause \<Rightarrow> bool" where
  "isCatchAllWhereClause c \<longleftrightarrow> (case c of WhereClause _ cond pat guard _ \<Rightarrow> cond = None \<and> pat = None \<and> guard = None)"

definition whereClauseArity :: "Node \<Rightarrow> nat" where
  "whereClauseArity p = (case asTuplePattern p of Some es \<Rightarrow> length es | None \<Rightarrow> 1)"

datatype whereError =
    TupleForOneArg Pos nat
  | SinglePattern Pos nat
  | WrongArity Pos nat nat
  | NonExhaustive Pos string
  | PrintPanic

definition clauseShape :: "nat \<Rightarrow> Node WhereClause \<Rightarrow> whereError option" where
  "clauseShape arity c =
     (case wc_Pattern c of
        None \<Rightarrow> None
      | Some p \<Rightarrow>
          (let got = whereClauseArity p; isTuple = (asTuplePattern p \<noteq> None) in
           if arity = 1 then if isTuple then Some (TupleForOneArg (wc_Pos c) got) else None
           else if \<not> isTuple then Some (SinglePattern (wc_Pos c) arity)
           else if got \<noteq> arity then Some (WrongArity (wc_Pos c) arity got)
           else None))"

fun firstError :: "('c \<Rightarrow> 'e option) \<Rightarrow> 'c list \<Rightarrow> 'e option" where
  "firstError f [] = None"
| "firstError f (c # cs) = (case f c of Some e \<Rightarrow> Some e | None \<Rightarrow> firstError f cs)"

text \<open>The checks of \<open>genPatternWhereList\<close> before code is generated: the warnings, or the error.\<close>

definition checkPatternWhereList ::
  "go_fmt \<Rightarrow> matchEnv \<Rightarrow> Pos \<Rightarrow> Node WhereClause list \<Rightarrow> nat \<Rightarrow> whereError + armWarning list" where
  "checkPatternWhereList F env p cs arity =
     (case firstError (clauseShape arity) cs of
        Some e \<Rightarrow> Inl e
      | None \<Rightarrow>
          (case (scanWhereForUnreachable F env cs, marangetCheckWhereExhaustive F (Some (me_registry env)) cs arity) of
             (Some ws, Some (ok, witness)) \<Rightarrow>
               if ok then Inr ws
               else Inl (NonExhaustive (case cs of c # _ \<Rightarrow> wc_Pos c | [] \<Rightarrow> p) witness)
           | _ \<Rightarrow> Inl PrintPanic))"

section \<open>Matches on an ADT\<close>

definition isDataMatchPattern :: "adt_registry \<Rightarrow> Node option \<Rightarrow> bool" where
  "isDataMatchPattern R pat =
     (case pat of
        None \<Rightarrow> False
      | Some p \<Rightarrow>
          (case asCall p of
             Some (f, _) \<Rightarrow> (case asIdent f of Some x \<Rightarrow> isDataVariant R x | None \<Rightarrow> False)
           | None \<Rightarrow>
               (case asIdent p of
                  Some x \<Rightarrow> list_ex (\<lambda>adt. dataVariantInfoFor R adt x = Some 0) (lookupVariant R x)
                | None \<Rightarrow> False)))"

definition dataPatternVariantName :: "Node option \<Rightarrow> string" where
  "dataPatternVariantName pat =
     (case pat of
        None \<Rightarrow> []
      | Some p \<Rightarrow>
          (case asCall p of
             Some (f, _) \<Rightarrow> (case asIdent f of Some x \<Rightarrow> x | None \<Rightarrow> [])
           | None \<Rightarrow> (case asIdent p of Some x \<Rightarrow> x | None \<Rightarrow> [])))"

definition dataPatternBinders :: "Node option \<Rightarrow> string list" where
  "dataPatternBinders pat =
     (case Option.bind pat asCall of
        None \<Rightarrow> []
      | Some (_, args) \<Rightarrow> map (\<lambda>a. case asIdent a of Some x \<Rightarrow> x | None \<Rightarrow> ''_'') args)"

definition isExhaustiveDataMatch :: "adt_registry \<Rightarrow> Node MatchCase list \<Rightarrow> Node Block option \<Rightarrow> string \<Rightarrow> bool" where
  "isExhaustiveDataMatch R cs dflt adt \<longleftrightarrow>
     dflt \<noteq> None \<or>
     (cs \<noteq> [] \<and>
      (case map_of (dataVariants R) adt of
         None \<Rightarrow> False
       | Some variants \<Rightarrow>
           list_all (\<lambda>c. mc_Guard c = None \<and> dataPatternVariantName (mc_Pattern c) \<noteq> [] \<and>
                         dataPatternVariantName (mc_Pattern c) \<in> fst ` set variants) cs \<and>
           list_all (\<lambda>(v, _). v \<in> (\<lambda>c. dataPatternVariantName (mc_Pattern c)) ` set cs) variants))"

datatype dataMatchError = NonADTPattern nat | NoVariant string string | WrongBindings string string nat nat | NonExhaustiveMatch string string

text \<open>
  The switch of \<open>genDataMatch\<close>: the variants with the arm each of them jumps to, in the order of the arms.  An arm whose variant
  has been seen gets no code.  (The tag of a variant is its name here.)
\<close>

fun dataSwitch ::
  "adt_registry \<Rightarrow> string \<Rightarrow> nat \<Rightarrow> Node MatchCase list \<Rightarrow> string list \<Rightarrow> dataMatchError + (string \<times> nat) list" where
  "dataSwitch R adt i [] seen = Inr []"
| "dataSwitch R adt i (c # cs) seen =
     (if \<not> isDataMatchPattern R (mc_Pattern c) then Inl (NonADTPattern i)
      else let v = dataPatternVariantName (mc_Pattern c) in
        case dataVariantInfoFor R adt v of
          None \<Rightarrow> Inl (NoVariant adt v)
        | Some n \<Rightarrow>
            if length (dataPatternBinders (mc_Pattern c)) \<noteq> n
            then Inl (WrongBindings adt v n (length (dataPatternBinders (mc_Pattern c))))
            else if v \<in> set seen then dataSwitch R adt (Suc i) cs seen
            else case dataSwitch R adt (Suc i) cs (v # seen) of Inl e \<Rightarrow> Inl e | Inr sw \<Rightarrow> Inr ((v, i) # sw))"

text \<open>The arm that runs for a value of variant \<open>v\<close>: \<open>None\<close> is the default block, where a failed guard goes too.\<close>

definition dataDispatch :: "(string \<times> nat) list \<Rightarrow> Node MatchCase list \<Rightarrow> (nat \<Rightarrow> bool) \<Rightarrow> string \<Rightarrow> nat option" where
  "dataDispatch sw cs guardOk v =
     (case map_of sw v of
        None \<Rightarrow> None
      | Some i \<Rightarrow> if mc_Guard (cs ! i) = None \<or> guardOk i then Some i else None)"

end
