(* ===== verification/TinMatchCorrect.thy ===== *)
theory TinMatchCorrect
  imports TinMatch
begin

text \<open>
  What the verdicts on arms mean for the generated dispatch: a \<open>where\<close> list that is accepted handles every argument; a match on an
  ADT whose arms only bind runs its first matching arm and the arms without code are those reported; and inputs for which a
  verdict does not agree with the dispatch.
\<close>

section \<open>The registry\<close>

lemma completeSignature_registry:
  "dataVariants R = dataVariants R' \<Longrightarrow> completeSignature F (Some R) cs = completeSignature F (Some R') cs"
  by (simp add: completeSignature_def completeData_def split: list.splits mCtor.splits)

lemma useful_registry:
  assumes "dataVariants R = dataVariants R'"
  shows "fst (useful F (Some R) M q) = fst (useful F (Some R') M q)"
proof (induction M q rule: useful_induct [where F = F and cg = "Some R"])
  case (nil M)
  then show ?case by simp
next
  case (ragged M p rest)
  then show ?case by (simp add: useful.simps(2))
next
  case (complete M m rest)
  then show ?case using completeSignature_registry [OF assms, of F "columnCtors M"]
    by (simp add: useful_complete fst_firstUseful split_beta cong: bex_cong)
next
  case (default M m rest)
  then show ?case using completeSignature_registry [OF assms, of F "columnCtors M"] by (simp add: useful_default)
next
  case (head M p c rest)
  then show ?case by (simp add: useful_head)
qed

text \<open>The registry after the declarations \<open>D\<close>, as \<open>preregister\<close> and the emission of a declaration build it.\<close>

definition registerData :: "adt_registry \<Rightarrow> string \<times> (string \<times> mTy list) list \<Rightarrow> adt_registry" where
  "registerData R d = foldl (registerVariant (fst d)) R (map fst (snd d))"

definition registryFor :: "adt_decls \<Rightarrow> adt_registry" where
  "registryFor D = foldl registerData (registry_of D) D"

lemma registerVariant_dataVariants [simp]: "dataVariants (registerVariant a R v) = dataVariants R"
  by (simp add: registerVariant_def)

lemma registryFor_dataVariants [simp]: "dataVariants (registryFor D) = dataVariants (registry_of D)"
proof -
  have a: "dataVariants (foldl (registerVariant a) R vs) = dataVariants R" for a R vs
    by (induction vs arbitrary: R) simp_all
  have "dataVariants (foldl registerData R ds) = dataVariants R" for R ds
    by (induction ds arbitrary: R) (simp_all add: registerData_def a)
  then show ?thesis by (simp add: registryFor_def)
qed

lemma useful_registryFor: "fst (useful F (Some (registryFor D)) M q) = fst (useful F (Some (registry_of D)) M q)"
  by (rule useful_registry) simp

section \<open>Where lists\<close>

text \<open>The test that \<open>emitSingleArgPatternTest\<close> emits for a pattern, on an argument value; \<open>None\<close> is a compile error (a literal of another type, or a
  pattern that \<open>where\<close> does not support).\<close>

definition emitSingleArgPatternTest :: "Node \<Rightarrow> mVal \<Rightarrow> bool option" where
  "emitSingleArgPatternTest n v =
     (case n of
        NLeaf _ l \<Rightarrow>
          (case (l, v) of
             (Identifier _, _) \<Rightarrow> Some True
           | (IntLit i big, VInt x) \<Rightarrow> Some (x = (case big of Some b \<Rightarrow> b | None \<Rightarrow> i))
           | (BoolLit b, VBool x) \<Rightarrow> Some (x = b)
           | (StringLit s, VString x) \<Rightarrow> Some (x = s)
           | (FloatLit f, VFloat x) \<Rightarrow> Some (f64_eq x f)
           | (AtomLit a, VAtom x) \<Rightarrow> Some (x = a)
           | (ArrayPattern es, VArr vs) \<Rightarrow>
               (let regularCount = length (filter (\<lambda>e. \<not> ape_IsRest e) es) in
                Some (if \<exists>e \<in> set es. ape_IsRest e then regularCount < length vs else length vs = regularCount))
           | _ \<Rightarrow> None)
      | _ \<Rightarrow> None)"

fun conjTests :: "bool option list \<Rightarrow> bool option" where
  "conjTests [] = Some True"
| "conjTests (t # ts) = (case t of None \<Rightarrow> None | Some b \<Rightarrow> map_option (\<lambda>c. b \<and> c) (conjTests ts))"

definition emitWherePatternTest :: "Node \<Rightarrow> mVal list \<Rightarrow> bool option" where
  "emitWherePatternTest p args =
     (case asTuplePattern p of
        Some es \<Rightarrow> conjTests (map2 emitSingleArgPatternTest es args)
      | None \<Rightarrow> (case args of a # _ \<Rightarrow> emitSingleArgPatternTest p a | [] \<Rightarrow> None))"

text \<open>The clause matches without a guard that could fail: control does not go to the next clause.\<close>

definition clauseHandles :: "Node WhereClause \<Rightarrow> mVal list \<Rightarrow> bool" where
  "clauseHandles c args \<longleftrightarrow>
     (case c of WhereClause _ cond pat guard _ \<Rightarrow>
        guard = None \<and> (case pat of None \<Rightarrow> cond = None | Some p \<Rightarrow> emitWherePatternTest p args = Some True))"

definition clauseCompiles :: "Node WhereClause \<Rightarrow> mVal list \<Rightarrow> bool" where
  "clauseCompiles c args \<longleftrightarrow> (case wc_Pattern c of None \<Rightarrow> True | Some p \<Rightarrow> emitWherePatternTest p args \<noteq> None)"

text \<open>No integer literal of the pattern exceeds 64 bits.\<close>

fun bigLit :: "Node \<Rightarrow> bool" where
  "bigLit (NLeaf _ (IntLit _ big)) = (big \<noteq> None)"
| "bigLit _ = False"

definition patternElems :: "Node \<Rightarrow> Node list" where
  "patternElems p = (case asTuplePattern p of Some es \<Rightarrow> es | None \<Rightarrow> [p])"

definition clauseFits :: "Node WhereClause \<Rightarrow> bool" where
  "clauseFits c \<longleftrightarrow> (\<forall>p \<in> set_option (wc_Pattern c). \<forall>e \<in> set (patternElems p). \<not> bigLit e)"

lemma test_matches:
  assumes "nodeToMPat F cg n = Some q" and "emitSingleArgPatternTest n v = Some b" and "matches Opq q v" and "\<not> bigLit n"
  shows b
proof -
  obtain p l where n: "n = NLeaf p l" using assms(2) by (cases n) (simp_all add: emitSingleArgPatternTest_def)
  then have "asCtorCall cg n = None" by (cases cg) (simp_all add: asCtorCall_def)
  with assms(1) have "leafToMPat F cg n = Some q" by (simp add: nodeToMPat.simps)
  with assms(2-4) n show ?thesis
    by (cases l; cases v) (auto simp: emitSingleArgPatternTest_def leafToMPat_def opaquePat_def Let_def rows_as_lists
      wildRow_matches [unfolded wildRow_def] split: option.splits if_splits)
qed

lemma those_Some_iff: "those xs = Some ys \<longleftrightarrow> xs = map Some ys"
  by (induction xs arbitrary: ys) (auto split: option.splits)

lemma those_map_Some: "those (map f xs) = Some ys \<longleftrightarrow> list_all2 (\<lambda>x y. f x = Some y) xs ys"
  by (simp add: those_Some_iff list_eq_iff_nth_eq list_all2_conv_all_nth) auto

lemma conjTests_True: "list_all (\<lambda>t. t = Some True) ts \<Longrightarrow> conjTests ts = Some True"
  by (induction ts) auto

lemma conjTests_Some: "conjTests ts \<noteq> None \<Longrightarrow> t \<in> set ts \<Longrightarrow> t \<noteq> None"
  by (induction ts) (auto split: option.splits)

lemma firstError_None: "firstError f cs = None \<Longrightarrow> c \<in> set cs \<Longrightarrow> f c = None"
  by (induction cs) (auto split: option.splits)

lemma unguardedRows_mem: "those (map f cs) = Some rs \<Longrightarrow> r \<in> set (unguardedRows rs) \<Longrightarrow> \<exists>c \<in> set cs. f c = Some (r, False)"
  by (auto simp: those_map_Some unguardedRows_def list_all2_conv_all_nth in_set_conv_nth) (metis nth_mem)

lemma tuple_handles:
  assumes r: "nodesToRow F cg es = Some r" and m: "list_all2 (matches Opq) r vs"
    and c: "conjTests (map2 emitSingleArgPatternTest es vs) \<noteq> None" and f: "\<forall>e \<in> set es. \<not> bigLit e"
  shows "conjTests (map2 emitSingleArgPatternTest es vs) = Some True"
proof (rule conjTests_True, unfold list_all_length, intro allI impI)
  fix i assume i: "i < length (map2 emitSingleArgPatternTest es vs)"
  let ?t = "emitSingleArgPatternTest (es ! i) (vs ! i)"
  have l: "i < length es" "i < length vs" using i by simp_all
  from r have "nodeToMPat F cg (es ! i) = Some (r ! i)"
    unfolding nodesToRow_def those_map_Some using l(1) by (rule list_all2_nthD)
  moreover have "matches Opq (r ! i) (vs ! i)" using m l(2) by (rule list_all2_nthD2)
  moreover have "?t \<in> set (map2 emitSingleArgPatternTest es vs)" using l by (force simp: set_zip)
  with c have "?t \<noteq> None" by (rule conjTests_Some)
  moreover have "\<not> bigLit (es ! i)" using f l by simp
  ultimately have "?t = Some True" using test_matches by (metis option.exhaust)
  then show "map2 emitSingleArgPatternTest es vs ! i = Some True" using l by simp
qed

lemma row_handles:
  assumes r: "wherePatternToRow F cg c (length vs) = Some (r, False)" and m: "list_all2 (matches Opq) r vs"
    and "clauseShape (length vs) c = None" and "clauseCompiles c vs" and "clauseFits c"
  shows "clauseHandles c vs"
proof -
  obtain p cond pat guard body where c: "c = WhereClause p cond pat guard body" by (cases c)
  show ?thesis
  proof (cases pat)
    case None
    then show ?thesis using r c by (simp add: wherePatternToRow_def clauseHandles_def)
  next
    case (Some n)
    show ?thesis
    proof (cases "asTuplePattern n")
      case None
      then have l: "length vs = 1" using assms(3) c Some by (auto simp: clauseShape_def Let_def split: if_splits)
      then obtain v where vs: "vs = [v]" by (cases vs) auto
      obtain q where q: "nodeToMPat F cg n = Some q" "r = [q]" "guard = None"
        using r c Some None l by (auto simp: wherePatternToRow_def)
      have "emitSingleArgPatternTest n v \<noteq> None" "\<not> bigLit n"
        using assms(4,5) c Some None vs by (simp_all add: clauseCompiles_def emitWherePatternTest_def clauseFits_def patternElems_def)
      then have "emitSingleArgPatternTest n v = Some True"
        using test_matches [OF q(1), of v] m q(2) vs by (metis list_all2_Cons option.exhaust)
      then show ?thesis using c Some None q vs r by (auto simp: clauseHandles_def emitWherePatternTest_def)
    next
      case (Some es)
      then have l: "length es = length vs" using assms(3) c \<open>pat = Some n\<close>
        by (auto simp: clauseShape_def whereClauseArity_def Let_def split: if_splits)
      then have g: "guard = None" "nodesToRow F cg es = Some r" using r c \<open>pat = Some n\<close> Some by (auto simp: wherePatternToRow_def)
      have "conjTests (map2 emitSingleArgPatternTest es vs) = Some True"
        by (rule tuple_handles [OF g(2) m]) (use assms(4,5) c \<open>pat = Some n\<close> Some in
          \<open>simp_all add: clauseCompiles_def emitWherePatternTest_def clauseFits_def patternElems_def\<close>)
      then show ?thesis using c \<open>pat = Some n\<close> Some g by (simp add: clauseHandles_def emitWherePatternTest_def)
    qed
  qed
qed

text \<open>C31: a \<open>where\<close> list that passes the checks handles every call.  For every row of well-typed arguments some clause without a guard
  matches, so the \<open>unreachable\<close> instruction after the last clause is not executed.\<close>

theorem where_accepted_handles:
  assumes "checkPatternWhereList F env p cs (length ts) = Inr ws" and "me_registry env = registryFor D"
    and "\<forall>c \<in> set cs. \<forall>r g. wherePatternToRow F (Some (registryFor D)) c (length ts) = Some (r, g) \<longrightarrow> row_type D r ts"
    and "have_types D vs ts" and "\<forall>c \<in> set cs. clauseCompiles c vs \<and> clauseFits c"
  shows "\<exists>c \<in> set cs. clauseHandles c vs"
proof -
  let ?row = "\<lambda>c. wherePatternToRow F (Some (registryFor D)) c (length ts)"
  have vs: "list_all2 (has_type D) vs ts" "length vs = length ts" using assms(4) by (auto simp: rows_as_lists dest: list_all2_lengthD)
  from assms(1,2) have shape: "firstError (clauseShape (length ts)) cs = None"
    and ex: "\<exists>w. marangetCheckWhereExhaustive F (Some (registryFor D)) cs (length ts) = Some (True, w)"
    by (auto simp: checkPatternWhereList_def split: option.splits prod.splits if_splits)
  from ex obtain rs where rs: "those (map ?row cs) = Some rs"
      and u: "\<not> fst (useful F (Some (registryFor D)) (unguardedRows rs) (wildRow (length ts)))"
    by (auto simp: marangetCheckWhereExhaustive_def buildWhereMatrix_def verdict_def split: if_splits)
  have "matrix_type D (unguardedRows rs) ts"
    unfolding matrix_type_def list_all_iff using unguardedRows_mem [OF rs] assms(3) by blast
  from useful_sound [OF u [unfolded useful_registryFor] this _ vs(1)] obtain r where
    r: "r \<in> set (unguardedRows rs)" "list_all2 (matches (\<lambda>_ _. False)) r vs"
    using vs(2) by (auto simp: wildRow_type wildRow_matches)
  from unguardedRows_mem [OF rs r(1)] obtain c where c: "c \<in> set cs" "?row c = Some (r, False)" by blast
  have "clauseHandles c vs"
    by (rule row_handles [OF _ r(2)]) (use c vs(2) assms(5) firstError_None [OF shape c(1)] in auto)
  with c(1) show ?thesis by blast
qed

section \<open>Matches on an ADT\<close>

abbreviation armVariant :: "Node MatchCase \<Rightarrow> string" where
  "armVariant c \<equiv> dataPatternVariantName (mc_Pattern c)"

lemma dataSwitch_mem:
  "dataSwitch R adt i cs seen = Inr sw \<Longrightarrow>
   (v, j) \<in> set sw \<longleftrightarrow> v \<notin> set seen \<and> i \<le> j \<and> j - i < length cs \<and> armVariant (cs ! (j - i)) = v \<and>
     (\<forall>k < j - i. armVariant (cs ! k) \<noteq> v)"
proof (induction cs arbitrary: i seen sw)
  case Nil
  then show ?case by simp
next
  case (Cons c cs)
  let ?w = "armVariant c"
  have split: "i \<le> j \<and> j - i < length (c # cs) \<and> armVariant ((c # cs) ! (j - i)) = v \<and> (\<forall>k < j - i. armVariant ((c # cs) ! k) \<noteq> v) \<longleftrightarrow>
      (if j = i then ?w = v
       else ?w \<noteq> v \<and> Suc i \<le> j \<and> j - Suc i < length cs \<and> armVariant (cs ! (j - Suc i)) = v \<and> (\<forall>k < j - Suc i. armVariant (cs ! k) \<noteq> v))"
  proof (cases "Suc i \<le> j")
    case True
    then obtain m where m: "j = Suc i + m" using le_Suc_ex by blast
    have d: "j - i = Suc m" "j - Suc i = m" "i \<le> j" "j \<noteq> i" "Suc i \<le> j" using m by simp_all
    show ?thesis unfolding d(1,2) All_less_Suc2 using d(3-5) by (simp add: conj_ac)
  next
    case False
    then show ?thesis by (cases "j = i") auto
  qed
  show ?case
  proof (cases "?w \<in> set seen")
    case True
    then have "dataSwitch R adt (Suc i) cs seen = Inr sw" using Cons.prems by (auto simp: Let_def split: if_splits option.splits)
    from Cons.IH [OF this] show ?thesis unfolding split using True by auto
  next
    case False
    then obtain sw' where "dataSwitch R adt (Suc i) cs (?w # seen) = Inr sw'" "sw = (?w, i) # sw'"
      using Cons.prems by (auto simp: Let_def split: if_splits option.splits sum.splits)
    from Cons.IH [OF this(1)] this(2) show ?thesis unfolding split using False by auto
  qed
qed

lemma dataSwitch_map_of:
  assumes "dataSwitch R adt 0 cs [] = Inr sw"
  shows "map_of sw v = Some j \<longleftrightarrow> (v, j) \<in> set sw"
proof
  assume m: "(v, j) \<in> set sw"
  then obtain k where k: "map_of sw v = Some k" by (metis weak_map_of_SomeI)
  then have "(v, k) \<in> set sw" by (rule map_of_SomeD)
  with m have "j = k" unfolding dataSwitch_mem [OF assms] by (metis diff_zero linorder_neqE_nat)
  with k show "map_of sw v = Some j" by simp
qed (rule map_of_SomeD)

text \<open>Arms that only bind: no guard, no type test, and every argument of the constructor is a name that is not a variant.\<close>

definition bindsOnly :: "adt_registry \<Rightarrow> Node MatchCase \<Rightarrow> bool" where
  "bindsOnly R c \<longleftrightarrow> mc_Guard c = None \<and> mc_VarType c = None \<and>
     (\<forall>(f, args) \<in> set_option (Option.bind (mc_Pattern c) asCall). \<forall>a \<in> set args. \<exists>x. asIdent a = Some x \<and> \<not> isDataVariant R x)"

lemma asIdent_not_call: "asIdent n = Some x \<Longrightarrow> asCall n = None"
  by (cases n rule: asIdent.cases) auto

lemma binder_wild: "asIdent a = Some x \<Longrightarrow> \<not> isDataVariant R x \<Longrightarrow> nodeToMPat F (Some R) a = Some mWild"
  by (cases a rule: asIdent.cases) (simp_all add: nodeToMPat.simps asCtorCall_def leafToMPat_def)

lemma arm_row:
  assumes "bindsOnly R c" and "isDataMatchPattern R (mc_Pattern c)"
  shows "matchCaseToRow F (Some R) c =
    Some ([mData (adtForVariant (Some R) (armVariant c)) (armVariant c) (wildRow (length (dataPatternBinders (mc_Pattern c))))], False)"
proof -
  obtain p pat x t g b where c: "c = MatchCase p pat x t g b" by (cases c)
  from assms(2) c obtain n where n: "pat = Some n" by (auto simp: isDataMatchPattern_def split: option.splits)
  have g: "g = None" "t = None" using assms(1) c by (simp_all add: bindsOnly_def)
  have "asTuplePattern n = None" using assms(2) c n by (cases n rule: asTuplePattern.cases) (auto simp: isDataMatchPattern_def)
  moreover have "nodeToMPat F (Some R) n = Some (mData (adtForVariant (Some R) (armVariant c)) (armVariant c)
      (wildRow (length (dataPatternBinders (mc_Pattern c)))))"
  proof (cases "asCall n")
    case None
    then obtain y where y: "asIdent n = Some y" "isDataVariant R y"
      using assms(2) c n
      by (cases "asIdent n"; cases "lookupVariant R (the (asIdent n))") (auto simp: isDataMatchPattern_def isDataVariant_def)
    then obtain q where "n = NLeaf q (Identifier y)" by (cases n rule: asIdent.cases) auto
    then show ?thesis using y c n None
      by (simp add: nodeToMPat.simps asCtorCall_def leafToMPat_def dataPatternVariantName_def dataPatternBinders_def wildRow_def)
  next
    case (Some fa)
    obtain f args where fa: "fa = (f, args)" by (cases fa)
    obtain y where y: "asIdent f = Some y" "isDataVariant R y"
      using assms(2) c n Some fa by (auto simp: isDataMatchPattern_def split: option.splits)
    have "nodeToMPat F (Some R) a = Some mWild" if "a \<in> set args" for a
      using assms(1) c n Some fa that binder_wild [of a] by (auto simp: bindsOnly_def)
    then have "those (map (nodeToMPat F (Some R)) args) = Some (wildRow (length args))"
      by (auto simp: those_map_Some list_all2_conv_all_nth wildRow_def)
    then show ?thesis using y c n Some fa
      by (simp add: nodeToMPat.simps [of F "Some R" n] asCtorCall_def dataPatternVariantName_def dataPatternBinders_def)
  qed
  ultimately show ?thesis using c n g by (simp add: matchCaseToRow_def)
qed

lemma columnCtors_wild: "\<forall>r \<in> set M. \<exists>ps. r = mWild # ps \<Longrightarrow> columnCtors M = []"
  unfolding columnCtors_def by (induction M) auto

lemma useful_wild_rows: "fst (useful F cg (replicate k (wildRow n)) (wildRow n)) \<longleftrightarrow> k = 0"
proof (induction n)
  case 0
  then show ?case by (simp add: wildRow_def)
next
  case (Suc n)
  let ?M = "replicate k (wildRow (Suc n))"
  have "columnCtors ?M = []" by (rule columnCtors_wild) (simp add: wildRow_def)
  then have "completeSignature F cg (columnCtors ?M) = (False, mcLit (LInt 0))" by (simp add: completeSignature_def)
  moreover have "[] \<notin> set ?M" by (simp add: wildRow_def)
  moreover have "defaultMatrix ?M = replicate k (wildRow n)"
    by (induction k) (simp_all add: defaultMatrix_def wildRow_def List.map_filter_simps)
  ultimately have "fst (useful F cg ?M (mWild # wildRow n)) = fst (useful F cg (replicate k (wildRow n)) (wildRow n))"
    by (simp add: useful_default)
  then show ?case using Suc by (simp add: wildRow_def)
qed

lemma useful_binder_arm:
  "fst (useful F cg (map (\<lambda>w. [mData (a w) w (wildRow (ar w))]) vs) [mData (a v) v (wildRow (ar v))]) \<longleftrightarrow> v \<notin> set vs"
proof -
  let ?M = "map (\<lambda>w. [mData (a w) w (wildRow (ar w))]) vs"
  have "specialize ?M (mcData (a v) v (ar v)) = replicate (count_list vs v) (wildRow (ar v))"
    by (induction vs) (auto simp: specialize_def List.map_filter_simps padTo_def wildRow_def)
  moreover have "[] \<notin> set ?M" by auto
  ultimately have "fst (useful F cg ?M [mData (a v) v (wildRow (ar v))]) =
      fst (useful F cg (replicate (count_list vs v) (wildRow (ar v))) (wildRow (ar v)))"
    by (simp add: useful_head)
  then show ?thesis by (simp add: useful_wild_rows count_list_0_iff)
qed

lemma snd_image_iff: "(\<exists>w. (w, j) \<in> A) \<longleftrightarrow> j \<in> snd ` A"
  by force

lemma notin_take:
  assumes "j \<le> length xs"
  shows "y \<notin> f ` set (take j xs) \<longleftrightarrow> (\<forall>k < j. f (xs ! k) \<noteq> y)"
proof -
  have "set (take j xs) = nth xs ` {0..<j}" using assms by (simp add: nth_image)
  then show ?thesis by (simp add: image_image image_iff) (metis atLeastLessThan_iff le0)
qed

lemma dataSwitch_arms:
  "dataSwitch R adt i cs seen = Inr sw \<Longrightarrow> c \<in> set cs \<Longrightarrow>
   isDataMatchPattern R (mc_Pattern c) \<and> dataVariantInfoFor R adt (armVariant c) = Some (length (dataPatternBinders (mc_Pattern c)))"
  by (induction cs arbitrary: i seen sw) (auto simp: Let_def split: if_splits option.splits sum.splits)

lemma data_match_reported:
  assumes sw: "dataSwitch R adt 0 cs [] = Inr sw" and b: "\<forall>c \<in> set cs. bindsOnly R c" and j: "j < length cs"
  shows "marangetMatchArmUseful F (Some R) cs j = Some (j \<in> snd ` set sw)"
proof -
  have mem: "(w, i) \<in> set sw \<longleftrightarrow> i < length cs \<and> armVariant (cs ! i) = w \<and> (\<forall>k < i. armVariant (cs ! k) \<noteq> w)" for w i
    using dataSwitch_mem [OF sw] by simp
  define ar where "ar w = the (dataVariantInfoFor R adt w)" for w
  let ?a = "adtForVariant (Some R)"
  have row: "matchCaseToRow F (Some R) c = Some ([mData (?a (armVariant c)) (armVariant c) (wildRow (ar (armVariant c)))], False)"
    if "c \<in> set cs" for c
    using arm_row [of R c F] b dataSwitch_arms [OF sw that] that by (simp add: ar_def)
  have "those (map (matchCaseToRow F (Some R)) (take j cs)) =
      Some (map (\<lambda>c. ([mData (?a (armVariant c)) (armVariant c) (wildRow (ar (armVariant c)))], False)) (take j cs))"
    unfolding those_Some_iff using row set_take_subset [of j cs] by auto
  then have "marangetMatchArmUseful F (Some R) cs j =
      Some (fst (useful F (Some R) (map (\<lambda>w. [mData (?a w) w (wildRow (ar w))]) (map armVariant (take j cs)))
        [mData (?a (armVariant (cs ! j))) (armVariant (cs ! j)) (wildRow (ar (armVariant (cs ! j))))]))"
    using row [of "cs ! j"] j by (simp add: marangetMatchArmUseful_def armUseful_def unguardedRows_def comp_def)
  also have "\<dots> = Some (armVariant (cs ! j) \<notin> set (map armVariant (take j cs)))"
    by (simp only: useful_binder_arm)
  also have "armVariant (cs ! j) \<notin> set (map armVariant (take j cs)) \<longleftrightarrow> (\<forall>k < j. armVariant (cs ! k) \<noteq> armVariant (cs ! j))"
    using j notin_take [of j cs "armVariant (cs ! j)" armVariant] by simp
  also have "\<dots> \<longleftrightarrow> (\<exists>w. (w, j) \<in> set sw)" unfolding mem using j by simp
  also have "\<dots> \<longleftrightarrow> j \<in> snd ` set sw" by (rule snd_image_iff)
  finally show ?thesis .
qed

text \<open>C32: in a match on an ADT whose arms only bind, the generated dispatch runs the first arm of the variant of the value; the arms that
  get no code are exactly those that the analysis reports as unreachable; and when the match is taken for exhaustive, every variant of the
  ADT has an arm, so the default block is not entered.\<close>

theorem data_match_dispatch:
  assumes sw: "dataSwitch R adt 0 cs [] = Inr sw" and b: "\<forall>c \<in> set cs. bindsOnly R c"
  shows "(dataDispatch sw cs guardOk v = Some j \<longleftrightarrow>
      j < length cs \<and> armVariant (cs ! j) = v \<and> (\<forall>k < j. armVariant (cs ! k) \<noteq> v)) \<and>
    (j < length cs \<longrightarrow> marangetMatchArmUseful F (Some R) cs j = Some (j \<in> snd ` set sw)) \<and>
    (isExhaustiveDataMatch R cs None adt \<and> dataVariantInfoFor R adt v \<noteq> None \<longrightarrow> dataDispatch sw cs guardOk v \<noteq> None)"
proof (intro conjI impI)
  have mem: "(w, i) \<in> set sw \<longleftrightarrow> i < length cs \<and> armVariant (cs ! i) = w \<and> (\<forall>k < i. armVariant (cs ! k) \<noteq> w)" for w i
    using dataSwitch_mem [OF sw] by simp
  have disp: "dataDispatch sw cs guardOk w = Some i \<longleftrightarrow> (w, i) \<in> set sw" for w i
  proof -
    have "dataDispatch sw cs guardOk w = map_of sw w"
    proof (cases "map_of sw w")
      case (Some k)
      then have "k < length cs" using mem by (metis map_of_SomeD)
      then show ?thesis using Some b by (simp add: dataDispatch_def bindsOnly_def)
    qed (simp add: dataDispatch_def)
    then show ?thesis by (simp add: dataSwitch_map_of [OF sw])
  qed
  show "dataDispatch sw cs guardOk v = Some j \<longleftrightarrow> j < length cs \<and> armVariant (cs ! j) = v \<and> (\<forall>k < j. armVariant (cs ! k) \<noteq> v)"
    unfolding disp mem ..
  show "marangetMatchArmUseful F (Some R) cs j = Some (j \<in> snd ` set sw)" if "j < length cs"
    by (rule data_match_reported [OF sw b that])
  assume e: "isExhaustiveDataMatch R cs None adt \<and> dataVariantInfoFor R adt v \<noteq> None"
  then obtain c where "c \<in> set cs" "armVariant c = v"
    by (auto simp: isExhaustiveDataMatch_def dataVariantInfoFor_def list_all_iff split: option.splits dest!: map_of_SomeD)
  then have "\<exists>i. i < length cs \<and> armVariant (cs ! i) = v" by (metis in_set_conv_nth)
  then obtain i where "i < length cs \<and> armVariant (cs ! i) = v" "\<forall>k < i. \<not> (k < length cs \<and> armVariant (cs ! k) = v)"
    using exists_least_iff [of "\<lambda>i. i < length cs \<and> armVariant (cs ! i) = v"] by blast
  then have "(v, i) \<in> set sw" unfolding mem by auto
  then show "dataDispatch sw cs guardOk v \<noteq> None" using disp by (metis option.distinct(1))
qed

section \<open>Where the verdict and the dispatch disagree\<close>

text \<open>The length test of \<open>genArrayMatch\<close>, which differs from that of \<open>where\<close>: a rest slot may bind no element, but the array must not be empty.\<close>

definition arrayCaseTest :: "ArrayPatternElement list \<Rightarrow> nat \<Rightarrow> bool" where
  "arrayCaseTest es arrLen =
     (let regularCount = length (filter (\<lambda>e. \<not> ape_IsRest e) es) in
      if \<exists>e \<in> set es. ape_IsRest e then max regularCount 1 \<le> arrLen else arrLen = regularCount)"

fun arrayArm :: "nat \<Rightarrow> ArrayPatternElement list list \<Rightarrow> nat \<Rightarrow> nat option" where
  "arrayArm i [] arrLen = None"
| "arrayArm i (es # arms) arrLen = (if arrayCaseTest es arrLen then Some i else arrayArm (Suc i) arms arrLen)"

definition slot :: "string \<Rightarrow> ArrayPatternElement" where
  "slot x = \<lparr>ape_Name = x, ape_IsRest = False, ape_IsWild = False\<rparr>"

definition restSlot :: "string \<Rightarrow> ArrayPatternElement" where
  "restSlot x = \<lparr>ape_Name = x, ape_IsRest = True, ape_IsWild = False\<rparr>"

definition caseOf :: "int \<Rightarrow> Node \<Rightarrow> Node MatchCase" where
  "caseOf l n = MatchCase \<lparr>Line = l, Col = 1\<rparr> (Some n) [] None None (Block noPos [] False)"

definition nameOf :: "string \<Rightarrow> Node" where
  "nameOf x = NLeaf noPos (Identifier x)"

definition ctorOf :: "string \<Rightarrow> Node list \<Rightarrow> Node" where
  "ctorOf f args = NExpr noPos (CallExpr (nameOf f) [] args False)"

definition envFor :: "adt_decls \<Rightarrow> matchEnv" where
  "envFor D = \<lparr>me_registry = registryFor D, me_suppressed = False, me_curFnParams = None, me_structTypeIDs = [],
     me_unionTypeIDs = [], me_traitInstKeys = [], me_dataTypeIDs = []\<rparr>"

definition result_decls :: adt_decls where
  "result_decls = [(''Result'', [(''Ok'', [TInt]), (''Err'', [TString])])]"

definition restArms :: "ArrayPatternElement list list" where
  "restArms = [[slot ''x'', restSlot ''r''], [slot ''x'']]"

definition restCases :: "Node MatchCase list" where
  "restCases = map (\<lambda>es. caseOf 1 (NLeaf noPos (ArrayPattern es))) restArms"

definition literalCases :: "Node MatchCase list" where
  "literalCases = [caseOf 1 (ctorOf ''Ok'' [NLeaf noPos (IntLit 0 None)]), caseOf 2 (ctorOf ''Ok'' [nameOf ''x'']),
                   caseOf 3 (ctorOf ''Err'' [nameOf ''e''])]"

definition shared_decls :: adt_decls where
  "shared_decls = [(''A'', [(''X'', [])]), (''B'', [(''X'', []), (''Z'', [])])]"

lemma arrayArm_restArms: "arrayArm 0 restArms n = (if n = 0 then None else Some 0)"
  by (auto simp: restArms_def arrayCaseTest_def slot_def restSlot_def)


subsection \<open>Concrete matches\<close>

definition boolClauses :: "Node WhereClause list" where
  "boolClauses = map (\<lambda>b. WhereClause noPos None (Some (NLeaf noPos (BoolLit b))) None (nameOf ''y'')) [True, False]"

theorem where_accepted_handles_witness: "\<exists>c \<in> set boolClauses. clauseHandles c [VBool False]"
proof (rule where_accepted_handles [where D = "[]" and env = "envFor []" and F = no_fmt and ts = "[TBool]" and p = noPos and ws = "[]"])
  show "checkPatternWhereList no_fmt (envFor []) noPos boolClauses (length [TBool]) = Inr []" by code_simp
  show "\<forall>c \<in> set boolClauses. \<forall>r g. wherePatternToRow no_fmt (Some (registryFor [])) c (length [TBool]) = Some (r, g) \<longrightarrow> row_type [] r [TBool]"
    by (auto simp: boolClauses_def wherePatternToRow_def nodeToMPat.simps asCtorCall_def leafToMPat_def)
  show "\<forall>c \<in> set boolClauses. clauseCompiles c [VBool False] \<and> clauseFits c"
    by (simp add: boolClauses_def clauseCompiles_def clauseFits_def emitWherePatternTest_def emitSingleArgPatternTest_def patternElems_def)
qed (simp_all add: envFor_def)

definition resultCases :: "Node MatchCase list" where
  "resultCases = [caseOf 1 (ctorOf ''Ok'' [nameOf ''x'']), caseOf 2 (ctorOf ''Err'' [nameOf ''e'']), caseOf 3 (ctorOf ''Ok'' [nameOf ''y''])]"

theorem data_match_dispatch_witness:
  "dataDispatch [(''Ok'', 0), (''Err'', 1)] resultCases (\<lambda>_. False) ''Err'' = Some 1 \<and>
   marangetMatchArmUseful no_fmt (Some (registryFor result_decls)) resultCases 2 = Some False \<and>
   dataDispatch [(''Ok'', 0), (''Err'', 1)] resultCases (\<lambda>_. False) ''Ok'' \<noteq> None"
proof -
  have sw: "dataSwitch (registryFor result_decls) ''Result'' 0 resultCases [] = Inr [(''Ok'', 0), (''Err'', 1)]" by code_simp
  have nv: "\<not> isDataVariant (registryFor result_decls) ''x''" "\<not> isDataVariant (registryFor result_decls) ''e''"
    "\<not> isDataVariant (registryFor result_decls) ''y''" by code_simp+
  have b: "\<forall>c \<in> set resultCases. bindsOnly (registryFor result_decls) c"
    by (auto simp: resultCases_def bindsOnly_def caseOf_def ctorOf_def nameOf_def nv)
  have l: "length resultCases = 3" "armVariant (resultCases ! 0) = ''Ok''" "armVariant (resultCases ! 1) = ''Err''" by code_simp+
  have "isExhaustiveDataMatch (registryFor result_decls) resultCases None ''Result'' \<and> dataVariantInfoFor (registryFor result_decls) ''Result'' ''Ok'' \<noteq> None"
    by code_simp
  then show ?thesis
    using data_match_dispatch [OF sw b, of "\<lambda>_. False" "''Err''" 1 no_fmt] data_match_dispatch [OF sw b, of "\<lambda>_. False" "''Ok''" 2 no_fmt] l by auto
qed

end
