(* ===== verification/TinInterval.thy ===== *)
theory TinInterval
  imports TinPrelude
begin

text \<open>
  The value domains of the dataflow pass: nil facts, constants and strided intervals
  (\<^verbatim>\<open>src/codegen/dataflow_state.go\<close>, \<^verbatim>\<open>dataflow_cmp.go\<close>, and the interval arithmetic of
  \<^verbatim>\<open>dataflow_run.go\<close> and \<^verbatim>\<open>dataflow.go\<close>).

  An \<open>int64\<close> is an \<open>int\<close>; every Go operation that can leave the range is followed by \<open>wrap64\<close>.  Go's
  \<open>%\<close> truncates towards zero: \<open>goRem\<close>.
\<close>

section \<open>Nil facts and constants\<close>

datatype nilFact = nilTop | nilIsNil | nilNonNil | nilBottom

definition mergeNil :: "nilFact \<Rightarrow> nilFact \<Rightarrow> nilFact" where
  "mergeNil a b = (if a = nilTop then b else if b = nilTop then a else if a = b then a else nilBottom)"

datatype constFact = cTop | cInt int | cBool bool | cBottom

definition mergeConst :: "constFact \<Rightarrow> constFact \<Rightarrow> constFact" where
  "mergeConst a b =
     (if a = cTop then b
      else if b = cTop then a
      else if a = cBottom \<or> b = cBottom then cBottom
      else case (a, b) of
        (cInt i, cInt j) \<Rightarrow> if i = j then a else cBottom
      | (cBool i, cBool j) \<Rightarrow> if i = j then a else cBottom
      | _ \<Rightarrow> cBottom)"

section \<open>Machine arithmetic\<close>

definition goRem :: "int \<Rightarrow> int \<Rightarrow> int" where
  "goRem a b = (if a < 0 then - ((- a) mod \<bar>b\<bar>) else a mod \<bar>b\<bar>)"

definition goDiv :: "int \<Rightarrow> int \<Rightarrow> int" where
  "goDiv a b = wrap64 (sgn a * sgn b * (\<bar>a\<bar> div \<bar>b\<bar>))"

definition minInt64 :: int where "minInt64 = - (2 ^ 63)"

definition maxInt64 :: int where "maxInt64 = 2 ^ 63 - 1"

text \<open>The conversions \<open>uint64(x)\<close> and \<open>int64(u)\<close>.\<close>

definition toUint64 :: "int \<Rightarrow> int" where
  "toUint64 x = x mod 2 ^ 64"

definition addOverflow :: "int \<Rightarrow> int \<Rightarrow> int \<times> bool" where
  "addOverflow a b =
     (let r = wrap64 (a + b) in
      if (b > 0 \<and> r < a) \<or> (b < 0 \<and> r > a) then (0, False) else (r, True))"

definition subOverflow :: "int \<Rightarrow> int \<Rightarrow> int \<times> bool" where
  "subOverflow a b =
     (let r = wrap64 (a - b) in
      if (b < 0 \<and> r < a) \<or> (b > 0 \<and> r > a) then (0, False) else (r, True))"

lemma goRem_abs_less: "b \<noteq> 0 \<Longrightarrow> \<bar>goRem a b\<bar> < \<bar>b\<bar>"
  by (simp add: goRem_def)

text \<open>The loop of \<open>gcd64\<close>, from the absolute values (which wrap at the least \<open>int64\<close>).\<close>

function gcdLoop :: "int \<Rightarrow> int \<Rightarrow> int" where
  "gcdLoop a b = (if b \<noteq> 0 then gcdLoop b (goRem a b) else a)"
  by pat_completeness auto
termination
  by (relation "measure (\<lambda>(a, b). nat \<bar>b\<bar>)") (auto simp: goRem_abs_less)

declare gcdLoop.simps [simp del]

definition gcd64 :: "int \<Rightarrow> int \<Rightarrow> int" where
  "gcd64 a b = gcdLoop (if a < 0 then wrap64 (- a) else a) (if b < 0 then wrap64 (- b) else b)"

section \<open>Strided intervals\<close>

record interval =
  lo :: int
  hi :: int
  stride :: int
  isSet :: bool

definition unsetIv :: interval where
  "unsetIv = \<lparr>lo = 0, hi = 0, stride = 0, isSet = False\<rparr>"

abbreviation mkIv :: "int \<Rightarrow> int \<Rightarrow> int \<Rightarrow> interval" where
  "mkIv l h s \<equiv> \<lparr>lo = l, hi = h, stride = s, isSet = True\<rparr>"

definition singletonIv :: "int \<Rightarrow> interval" where
  "singletonIv v = mkIv v v 0"

definition rangeIv :: "int \<Rightarrow> int \<Rightarrow> interval" where
  "rangeIv l h = (if l > h then unsetIv else if l = h then singletonIv l else mkIv l h 1)"

definition effectiveStride :: "interval \<Rightarrow> int" where
  "effectiveStride iv =
     (if \<not> isSet iv \<or> lo iv = hi iv then 0 else if stride iv \<le> 0 then 1 else stride iv)"

definition unionInterval :: "interval \<Rightarrow> interval \<Rightarrow> interval" where
  "unionInterval a b =
     (if \<not> isSet a \<or> \<not> isSet b then unsetIv
      else
        let l = (if lo b < lo a then lo b else lo a);
            h = (if hi b > hi a then hi b else hi a) in
        if l = h then singletonIv l
        else
          let gap0 = wrap64 (lo a - lo b);
              gap = (if gap0 < 0 then wrap64 (- gap0) else gap0);
              s0 = gcd64 (gcd64 (effectiveStride a) (effectiveStride b)) gap;
              s1 = (if s0 = 0 then 1 else s0);
              s = (if goRem (wrap64 (h - l)) s1 \<noteq> 0 then 1 else s1) in
          mkIv l h s)"

definition widenInterval :: "interval \<Rightarrow> interval \<Rightarrow> interval" where
  "widenInterval prev cur =
     (if \<not> isSet prev \<or> \<not> isSet cur then cur
      else
        let wlo = (if lo cur < lo prev then minInt64 else lo cur);
            whi = (if hi cur > hi prev then maxInt64 else hi cur) in
        if wlo = lo cur \<and> whi = hi cur then cur
        else
          let s = effectiveStride cur;
              whi' = (if s > 1 \<and> whi = maxInt64
                      then wrap64 (whi - wrap64 (toUint64 (toUint64 whi - toUint64 (lo cur)) mod toUint64 s)) else whi);
              wlo' = (if s > 1 \<and> wlo = minInt64
                      then wrap64 (wlo + wrap64 (toUint64 (toUint64 (lo cur) - toUint64 wlo) mod toUint64 s)) else wlo) in
          if wlo' > whi' then cur
          else if wlo' = whi' then singletonIv wlo'
          else mkIv wlo' whi' (stride cur))"

definition shiftIv :: "interval \<Rightarrow> int \<Rightarrow> interval" where
  "shiftIv iv delta =
     (if \<not> isSet iv then unsetIv
      else
        let (l, ok1) = addOverflow (lo iv) delta; (h, ok2) = addOverflow (hi iv) delta in
        if \<not> ok1 \<or> \<not> ok2 then unsetIv else mkIv l h (stride iv))"

definition allMembersDivisibleBy :: "interval \<Rightarrow> int \<Rightarrow> bool" where
  "allMembersDivisibleBy iv n =
     (if \<not> isSet iv \<or> n \<le> 0 then False
      else if goRem (lo iv) n \<noteq> 0 then False
      else if lo iv = hi iv then True
      else let s = effectiveStride iv in if s = 0 then False else goRem s n = 0)"

definition cmpAlwaysHolds :: "interval \<Rightarrow> string \<Rightarrow> int \<Rightarrow> bool \<times> bool" where
  "cmpAlwaysHolds x op c =
     (if op = ''<'' then
        if hi x < c then (True, True) else if lo x \<ge> c then (True, False) else (False, False)
      else if op = ''<='' then
        if hi x \<le> c then (True, True) else if lo x > c then (True, False) else (False, False)
      else if op = ''>'' then
        if lo x > c then (True, True) else if hi x \<le> c then (True, False) else (False, False)
      else if op = ''>='' then
        if lo x \<ge> c then (True, True) else if hi x < c then (True, False) else (False, False)
      else if op = ''=='' then
        if lo x = c \<and> hi x = c then (True, True)
        else if c < lo x \<or> c > hi x then (True, False) else (False, False)
      else if op = ''!='' then
        if c < lo x \<or> c > hi x then (True, True)
        else if lo x = c \<and> hi x = c then (True, False) else (False, False)
      else (False, False))"

definition clipInterval :: "interval \<Rightarrow> int \<Rightarrow> int \<Rightarrow> interval" where
  "clipInterval x lo0 hi0 =
     (if \<not> isSet x then unsetIv
      else
        let l = (if lo0 < lo x then lo x else lo0);
            h = (if hi0 > hi x then hi x else hi0) in
        if l > h then unsetIv
        else
          let s = stride x in
          if s \<le> 1 then
            if l = h then singletonIv l else mkIv l h (if s \<le> 0 then 1 else s)
          else
            let remL = goRem (wrap64 (l - lo x)) s;
                l' = (if remL \<noteq> 0 then wrap64 (l + wrap64 (s - remL)) else l);
                remH = goRem (wrap64 (h - lo x)) s;
                h' = (if remH \<noteq> 0 then wrap64 (h - remH) else h) in
            if l' > h' then unsetIv else if l' = h' then singletonIv l' else mkIv l' h' s)"

definition flipOp :: "string \<Rightarrow> string" where
  "flipOp op =
     (if op = ''<'' then ''>'' else if op = ''<='' then ''>='' else if op = ''>'' then ''<''
      else if op = ''>='' then ''<='' else op)"

definition narrowIntervalCmp :: "interval \<Rightarrow> string \<Rightarrow> int \<Rightarrow> interval \<times> interval" where
  "narrowIntervalCmp x op c =
     (if \<not> isSet x then (unsetIv, unsetIv)
      else
        let (m, okM) = subOverflow c 1; cMinus1 = (if \<not> okM then c else m);
            (q, okP) = addOverflow c 1; cPlus1 = (if \<not> okP then c else q) in
        if op = ''<'' then (clipInterval x (lo x) cMinus1, clipInterval x c (hi x))
        else if op = ''<='' then (clipInterval x (lo x) c, clipInterval x cPlus1 (hi x))
        else if op = ''>'' then (clipInterval x cPlus1 (hi x), clipInterval x (lo x) c)
        else if op = ''>='' then (clipInterval x c (hi x), clipInterval x (lo x) cMinus1)
        else if op = ''=='' then (clipInterval x c c, x)
        else if op = ''!='' then (x, clipInterval x c c)
        else (unsetIv, unsetIv))"

definition scaleIv :: "interval \<Rightarrow> int \<Rightarrow> interval" where
  "scaleIv iv k =
     (if \<not> isSet iv then unsetIv
      else if k = 0 then singletonIv 0
      else
        let l0 = wrap64 (lo iv * k); h0 = wrap64 (hi iv * k);
            (l, h) = (if k < 0 then (h0, l0) else (l0, h0)) in
        if l = h then singletonIv l
        else
          let s0 = wrap64 (effectiveStride iv * k);
              s1 = (if s0 < 0 then wrap64 (- s0) else s0);
              s = (if s1 = 0 then 1 else s1) in
          mkIv l h s)"

text \<open>The stride of a sum or a difference of two ranges.\<close>

definition combinedStride :: "interval \<Rightarrow> interval \<Rightarrow> int \<Rightarrow> int \<Rightarrow> int" where
  "combinedStride a b l h =
     (let s0 = gcd64 (effectiveStride a) (effectiveStride b);
          s1 = (if s0 = 0 then 1 else s0) in
      if goRem (wrap64 (h - l)) s1 \<noteq> 0 then 1 else s1)"

definition intervalArith :: "string \<Rightarrow> interval \<Rightarrow> interval \<Rightarrow> interval" where
  "intervalArith op a b =
     (if \<not> isSet a \<or> \<not> isSet b then unsetIv
      else if op = ''+'' then
        if lo b = hi b then shiftIv a (lo b)
        else if lo a = hi a then shiftIv b (lo a)
        else
          let (l, ok1) = addOverflow (lo a) (lo b); (h, ok2) = addOverflow (hi a) (hi b) in
          if \<not> ok1 \<or> \<not> ok2 then unsetIv else mkIv l h (combinedStride a b l h)
      else if op = ''-'' then
        if lo b = hi b then
          let (neg, ok) = subOverflow 0 (lo b) in if \<not> ok then unsetIv else shiftIv a neg
        else
          let (l, ok1) = subOverflow (lo a) (hi b); (h, ok2) = subOverflow (hi a) (lo b) in
          if \<not> ok1 \<or> \<not> ok2 then unsetIv else mkIv l h (combinedStride a b l h)
      else if op = ''*'' then
        if lo b = hi b then scaleIv a (lo b)
        else if lo a = hi a then scaleIv b (lo a)
        else unsetIv
      else unsetIv)"

text \<open>The case \<open>-x\<close> of \<open>intervalOf\<close>.\<close>

definition negateIv :: "interval \<Rightarrow> interval" where
  "negateIv iv = (if isSet iv then mkIv (wrap64 (- hi iv)) (wrap64 (- lo iv)) (effectiveStride iv) else unsetIv)"

definition foldBinConst :: "string \<Rightarrow> constFact \<Rightarrow> constFact \<Rightarrow> constFact" where
  "foldBinConst op a b =
     (case (a, b) of
        (cInt i, cInt j) \<Rightarrow>
          if op = ''+'' then cInt (wrap64 (i + j))
          else if op = ''-'' then cInt (wrap64 (i - j))
          else if op = ''*'' then cInt (wrap64 (i * j))
          else if op = ''/'' then if j = 0 then cBottom else cInt (goDiv i j)
          else if op = ''%'' then if j = 0 then cBottom else cInt (goRem i j)
          else if op = ''=='' then cBool (i = j)
          else if op = ''!='' then cBool (i \<noteq> j)
          else if op = ''<'' then cBool (i < j)
          else if op = ''<='' then cBool (i \<le> j)
          else if op = ''>'' then cBool (i > j)
          else if op = ''>='' then cBool (i \<ge> j)
          else cBottom
      | (cBool i, cBool j) \<Rightarrow>
          if op = ''=='' then cBool (i = j)
          else if op = ''!='' then cBool (i \<noteq> j)
          else if op = ''&&'' then cBool (i \<and> j)
          else if op = ''||'' then cBool (i \<or> j)
          else cBottom
      | _ \<Rightarrow> cBottom)"

definition foldUnaryConst :: "string \<Rightarrow> constFact \<Rightarrow> constFact" where
  "foldUnaryConst op v =
     (case v of
        cInt i \<Rightarrow> if op = ''-'' then cInt (wrap64 (- i)) else cBottom
      | cBool b \<Rightarrow> if op = ''!'' \<or> op = ''not'' then cBool (\<not> b) else cBottom
      | _ \<Rightarrow> cBottom)"

end
