(* ===== verification/TinIntervalCorrect.thy ===== *)
theory TinIntervalCorrect
  imports TinInterval
begin

text \<open>
  What the operations on strided intervals promise, against the set of integers an interval stands
  for: an unset interval for every integer, a set one for the members of its stride in its bounds.
  Every operation is sound (it keeps the values it should keep) on intervals whose span fits in an
  \<open>int64\<close>; where the code computes with differences that wrap, the theorems say what goes wrong.
\<close>

section \<open>The integers of an interval\<close>

definition mem :: "interval \<Rightarrow> int \<Rightarrow> bool" where
  "mem iv x \<longleftrightarrow> (isSet iv \<longrightarrow> lo iv \<le> x \<and> x \<le> hi iv \<and> effectiveStride iv dvd (x - lo iv))"

text \<open>The representation invariant the source states for a set interval.\<close>

definition iv_ok :: "interval \<Rightarrow> bool" where
  "iv_ok iv \<longleftrightarrow> (isSet iv \<longrightarrow>
     int64 (lo iv) \<and> int64 (hi iv) \<and> lo iv \<le> hi iv \<and> 0 \<le> stride iv \<and> int64 (stride iv) \<and>
     (lo iv = hi iv \<longrightarrow> stride iv = 0) \<and> effectiveStride iv dvd (hi iv - lo iv))"

definition narrow_span :: "interval \<Rightarrow> bool" where
  "narrow_span iv \<longleftrightarrow> hi iv - lo iv < 2 ^ 63"

named_theorems iv_defs \<open>definitions that evaluate intervals\<close>

declare mem_def [iv_defs] iv_ok_def [iv_defs] effectiveStride_def [iv_defs] singletonIv_def [iv_defs]
  unsetIv_def [iv_defs]

lemma mem_unset [simp]: "mem unsetIv x"
  by (simp add: iv_defs)

lemma ok_unset [simp]: "iv_ok unsetIv"
  by (simp add: iv_defs)

lemma mem_singleton [simp]: "mem (singletonIv v) x \<longleftrightarrow> x = v"
  by (auto simp: iv_defs)

lemma ok_singleton [simp]: "int64 v \<Longrightarrow> iv_ok (singletonIv v)"
  by (simp add: iv_defs int64_def)

lemma int64_diff: "int64 a \<Longrightarrow> int64 b \<Longrightarrow> b \<le> a \<Longrightarrow> a - b < 2 ^ 63 \<Longrightarrow> int64 (a - b)"
  by (simp add: int64_def)

lemma effectiveStride_nonneg: "0 \<le> effectiveStride iv"
  by (simp add: effectiveStride_def)

lemma mem_bounds: "mem iv x \<Longrightarrow> isSet iv \<Longrightarrow> lo iv \<le> x \<and> x \<le> hi iv"
  by (simp add: mem_def)

lemma mem_lo_hi: "iv_ok iv \<Longrightarrow> mem iv (lo iv) \<and> mem iv (hi iv)"
  by (auto simp: mem_def iv_ok_def)

section \<open>Arithmetic\<close>

lemma goRem_nonneg: "0 \<le> a \<Longrightarrow> 0 < b \<Longrightarrow> goRem a b = a mod b"
  by (simp add: goRem_def)

lemma goRem_eq_0: "b \<noteq> 0 \<Longrightarrow> goRem a b = 0 \<longleftrightarrow> b dvd a"
  by (auto simp: goRem_def dvd_eq_mod_eq_0 [symmetric])

lemma gcdLoop_gcd: "0 \<le> a \<Longrightarrow> 0 \<le> b \<Longrightarrow> gcdLoop a b = gcd a b"
proof (induction a b rule: gcdLoop.induct)
  case (1 a b)
  show ?case
  proof (cases "b = 0")
    case True
    then show ?thesis using 1(2) by (subst gcdLoop.simps) simp
  next
    case False
    then have "gcdLoop b (goRem a b) = gcd b (a mod b)"
      using 1 by (simp add: goRem_nonneg)
    then show ?thesis
      using False 1(3) by (subst gcdLoop.simps) (simp add: gcd_red_int [symmetric] gcd.commute)
  qed
qed

lemma gcd64_gcd: "0 \<le> a \<Longrightarrow> 0 \<le> b \<Longrightarrow> gcd64 a b = gcd a b"
  by (simp add: gcd64_def gcdLoop_gcd)

lemma gcd64_signed: "int64 a \<Longrightarrow> int64 b \<Longrightarrow> a \<noteq> minInt64 \<Longrightarrow> b \<noteq> minInt64 \<Longrightarrow> gcd64 a b = gcd a b"
proof -
  assume ab: "int64 a" "int64 b" "a \<noteq> minInt64" "b \<noteq> minInt64"
  have abs: "(if x < 0 then wrap64 (- x) else x) = \<bar>x\<bar>" if "int64 x" "x \<noteq> minInt64" for x
    using that by (auto simp: wrap64_id int64_def minInt64_def)
  show ?thesis using ab by (simp add: gcd64_def abs gcdLoop_gcd)
qed

text \<open>\<open>wrap64\<close> moves a sum of two \<open>int64\<close> by at most one multiple of \<open>2^64\<close>.\<close>

lemma wrap64_cases:
  "- (2 ^ 64) \<le> x \<Longrightarrow> x < 2 ^ 64 \<Longrightarrow>
   wrap64 x = (if x < - (2 ^ 63) then x + 2 ^ 64 else if x < 2 ^ 63 then x else x - 2 ^ 64)"
proof -
  assume x: "- (2 ^ 64) \<le> x" "x < 2 ^ 64"
  consider "x < - (2 ^ 63)" | "- (2 ^ 63) \<le> x" "x < 2 ^ 63" | "2 ^ 63 \<le> x" by linarith
  then show ?thesis
  proof cases
    case 1
    then have "(x + 2 ^ 63) mod 2 ^ 64 = x + 2 ^ 63 + 2 ^ 64"
      using x mod_add_self2 [of "x + 2 ^ 63" "2 ^ 64 :: int"]
      by (subst mod_add_self2 [symmetric], subst mod_pos_pos_trivial) auto
    then show ?thesis using 1 by (simp add: wrap64_def)
  next
    case 2
    then show ?thesis by (simp add: wrap64_id int64_def)
  next
    case 3
    then have "(x + 2 ^ 63) mod 2 ^ 64 = x + 2 ^ 63 - 2 ^ 64"
      using x minus_mod_self2 [of "x + 2 ^ 63" "2 ^ 64 :: int"]
      by (subst minus_mod_self2 [symmetric], subst mod_pos_pos_trivial) auto
    then show ?thesis using 3 by (simp add: wrap64_def)
  qed
qed

lemma addOverflow_spec:
  assumes "int64 a" and "int64 b"
  shows "addOverflow a b = (if int64 (a + b) then (a + b, True) else (0, False))"
proof -
  have "wrap64 (a + b) = (if a + b < - (2 ^ 63) then a + b + 2 ^ 64 else if a + b < 2 ^ 63 then a + b else a + b - 2 ^ 64)"
    using assms by (intro wrap64_cases) (auto simp: int64_def)
  then show ?thesis using assms by (auto simp: addOverflow_def Let_def int64_def)
qed

lemma subOverflow_spec:
  assumes "int64 a" and "int64 b"
  shows "subOverflow a b = (if int64 (a - b) then (a - b, True) else (0, False))"
proof -
  have "wrap64 (a - b) = (if a - b < - (2 ^ 63) then a - b + 2 ^ 64 else if a - b < 2 ^ 63 then a - b else a - b - 2 ^ 64)"
    using assms by (intro wrap64_cases) (auto simp: int64_def)
  then show ?thesis using assms by (auto simp: subOverflow_def Let_def int64_def)
qed

section \<open>Join and widening\<close>

lemma effectiveStride_mkIv [simp]:
  "effectiveStride (mkIv l h s) = (if l = h then 0 else if s \<le> 0 then 1 else s)"
  by (simp add: effectiveStride_def)

lemma mem_mkIv: "0 < s \<Longrightarrow> mem (mkIv l h s) x \<longleftrightarrow> l \<le> x \<and> x \<le> h \<and> (l = h \<or> s dvd (x - l))"
  by (auto simp: mem_def)

lemma ok_mkIv:
  "int64 l \<Longrightarrow> int64 h \<Longrightarrow> l < h \<Longrightarrow> 0 < s \<Longrightarrow> int64 s \<Longrightarrow> s dvd (h - l) \<Longrightarrow> iv_ok (mkIv l h s)"
  by (simp add: iv_ok_def)

lemma effectiveStride_int64: "iv_ok iv \<Longrightarrow> int64 (effectiveStride iv)"
  by (auto simp: iv_ok_def effectiveStride_def int64_def)

text \<open>The stride of the union divides every distance that matters.\<close>

definition joinSpan :: "interval \<Rightarrow> interval \<Rightarrow> int" where
  "joinSpan a b = max (hi a) (hi b) - min (lo a) (lo b)"

lemma unionInterval_eq:
  assumes "isSet a" "isSet b" "iv_ok a" "iv_ok b" and span: "joinSpan a b < 2 ^ 63"
    and ne: "min (lo a) (lo b) \<noteq> max (hi a) (hi b)"
  shows "\<exists>s. unionInterval a b = mkIv (min (lo a) (lo b)) (max (hi a) (hi b)) s \<and> 0 < s \<and> int64 s \<and>
     s dvd effectiveStride a \<and> s dvd effectiveStride b \<and> s dvd (lo a - lo b) \<and> s dvd (max (hi a) (hi b) - min (lo a) (lo b))"
proof -
  let ?l = "min (lo a) (lo b)" and ?h = "max (hi a) (hi b)"
  let ?g = "gcd (gcd (effectiveStride a) (effectiveStride b)) (lo a - lo b)"
  have ord: "lo a \<le> hi a" "lo b \<le> hi b" and i64: "int64 (lo a)" "int64 (lo b)" "int64 (hi a)" "int64 (hi b)"
    using assms by (auto simp: iv_ok_def)
  have gap: "int64 (lo a - lo b)" "int64 (- (lo a - lo b))" "int64 (?h - ?l)"
    using span ord i64 by (auto simp: joinSpan_def int64_def min_def max_def split: if_splits)
  have gap': "(if wrap64 (lo a - lo b) < 0 then wrap64 (- wrap64 (lo a - lo b)) else wrap64 (lo a - lo b)) = \<bar>lo a - lo b\<bar>"
    using gap by (auto simp: wrap64_id)
  have g: "gcd64 (gcd64 (effectiveStride a) (effectiveStride b)) \<bar>lo a - lo b\<bar> = ?g"
    by (simp add: gcd64_gcd effectiveStride_nonneg)
  define s where "s = (if goRem (?h - ?l) (if ?g = 0 then 1 else ?g) \<noteq> 0 then 1 else (if ?g = 0 then 1 else ?g))"
  have lh: "(if lo b < lo a then lo b else lo a) = ?l" "(if hi b > hi a then hi b else hi a) = ?h"
    by (simp_all add: min_def max_def)
  have u: "unionInterval a b = mkIv ?l ?h s"
    unfolding unionInterval_def Let_def lh gap' g s_def wrap64_id [OF gap(3)] using assms(1,2) ne by simp
  have gpos: "0 \<le> ?g" by simp
  have zero: "effectiveStride a = 0 \<and> effectiveStride b = 0 \<and> lo a - lo b = 0" if "?g = 0"
    using that by (simp add: gcd_eq_0_iff)
  have "\<not> ?g = 0"
  proof
    assume "?g = 0"
    from zero [OF this] assms(1,2) ord ne show False
      by (auto simp: effectiveStride_def split: if_splits)
  qed
  then have s: "s = (if ?g dvd (?h - ?l) then ?g else 1)"
    unfolding s_def by (simp only: if_False goRem_eq_0 not_not if_not_P simp_thms split: if_split) blast
  have gle: "?g \<le> \<bar>lo a - lo b\<bar> \<or> lo a = lo b"
    using dvd_imp_le_int [of "lo a - lo b" ?g] by auto
  have i64s: "int64 ?g"
  proof (cases "lo a = lo b")
    case True
    have le: "?g \<le> x" if "?g dvd x" "x \<noteq> 0" "0 \<le> x" for x
      using that by (intro zdvd_imp_le) auto
    from True \<open>\<not> ?g = 0\<close> consider "effectiveStride a \<noteq> 0" | "effectiveStride b \<noteq> 0" by auto
    then have "?g \<le> effectiveStride a \<or> ?g \<le> effectiveStride b"
      by cases (simp_all only: le [OF _ _ effectiveStride_nonneg] gcd_dvd1 dvd_trans [OF gcd_dvd1 gcd_dvd1] dvd_trans [OF gcd_dvd1 gcd_dvd2] simp_thms)
    then show ?thesis
      using effectiveStride_int64 [OF assms(3)] effectiveStride_int64 [OF assms(4)] gpos
      by (auto simp only: int64_def intro: order_le_less_trans)
  next
    case False
    then have "?g \<le> lo a - lo b \<or> ?g \<le> lo b - lo a" using gle by linarith
    then show ?thesis using gpos gap(1,2) unfolding int64_def by linarith
  qed
  have dv: "?g dvd effectiveStride a" "?g dvd effectiveStride b" "?g dvd (lo a - lo b)"
    by (rule dvd_trans [OF gcd_dvd1 gcd_dvd1], rule dvd_trans [OF gcd_dvd1 gcd_dvd2], rule gcd_dvd2)
  have gp: "0 < ?g" using gpos \<open>\<not> ?g = 0\<close> by linarith
  have one: "int64 1" by (simp add: int64_def)
  have P: "0 < s \<and> int64 s \<and> s dvd effectiveStride a \<and> s dvd effectiveStride b \<and> s dvd (lo a - lo b) \<and> s dvd (?h - ?l)"
    by (cases "?g dvd (?h - ?l)") (simp_all only: s if_True if_False dv gp i64s one one_dvd zero_less_one simp_thms)
  show ?thesis by (intro exI [of _ s]) (use u P in simp)
qed

lemma union_degenerate:
  assumes "isSet a" "isSet b" "iv_ok a" "iv_ok b" and "min (lo a) (lo b) = max (hi a) (hi b)"
  shows "unionInterval a b = singletonIv (lo a) \<and> lo a = hi a \<and> lo b = hi b \<and> lo a = lo b"
proof -
  have "lo a = hi a \<and> lo b = hi b \<and> lo a = lo b"
    using assms by (auto simp: iv_ok_def min_def max_def split: if_splits)
  then show ?thesis using assms(1,2) by (simp add: unionInterval_def Let_def)
qed

lemma union_sound:
  assumes ok: "iv_ok a" "iv_ok b" and span: "joinSpan a b < 2 ^ 63" and x: "mem a x \<or> mem b x"
  shows "mem (unionInterval a b) x"
proof (cases "isSet a \<and> isSet b")
  case False
  then show ?thesis by (auto simp: unionInterval_def)
next
  case st: True
  show ?thesis
  proof (cases "min (lo a) (lo b) = max (hi a) (hi b)")
    case True
    from union_degenerate [OF _ _ ok True] st x show ?thesis by (auto simp: iv_defs)
  next
    case False
    obtain s where s: "unionInterval a b = mkIv (min (lo a) (lo b)) (max (hi a) (hi b)) s" "0 < s"
        "s dvd effectiveStride a" "s dvd effectiveStride b" "s dvd (lo a - lo b)"
      using unionInterval_eq [OF _ _ ok span False] st by blast
    from s(5) have d: "s dvd (lo a - min (lo a) (lo b))" "s dvd (lo b - min (lo a) (lo b))"
      by (auto simp: min_def dvd_diff_commute)
    from x have "s dvd (x - min (lo a) (lo b))"
    proof
      assume "mem a x"
      then have "s dvd (x - lo a)" using st s(3) by (auto simp: mem_def intro: dvd_trans)
      with d(1) have "s dvd (x - lo a) + (lo a - min (lo a) (lo b))" by (intro dvd_add)
      then show ?thesis by simp
    next
      assume "mem b x"
      then have "s dvd (x - lo b)" using st s(4) by (auto simp: mem_def intro: dvd_trans)
      with d(2) have "s dvd (x - lo b) + (lo b - min (lo a) (lo b))" by (intro dvd_add)
      then show ?thesis by simp
    qed
    moreover have "min (lo a) (lo b) \<le> x" "x \<le> max (hi a) (hi b)"
      using x st by (auto simp: mem_def)
    ultimately show ?thesis using s(1,2) by (simp add: mem_mkIv)
  qed
qed

lemma union_ok:
  assumes ok: "iv_ok a" "iv_ok b" and span: "joinSpan a b < 2 ^ 63"
  shows "iv_ok (unionInterval a b)"
proof (cases "isSet a \<and> isSet b")
  case False
  then show ?thesis by (auto simp: unionInterval_def)
next
  case st: True
  then have i: "int64 (lo a)" "int64 (lo b)" "int64 (hi a)" "int64 (hi b)" "lo a \<le> hi a"
    using ok by (auto simp: iv_ok_def)
  show ?thesis
  proof (cases "min (lo a) (lo b) = max (hi a) (hi b)")
    case True
    from union_degenerate [OF _ _ ok True] st i show ?thesis by simp
  next
    case False
    obtain s where s: "unionInterval a b = mkIv (min (lo a) (lo b)) (max (hi a) (hi b)) s" "0 < s" "int64 s"
        "s dvd (max (hi a) (hi b) - min (lo a) (lo b))"
      using unionInterval_eq [OF _ _ ok span False] st by blast
    moreover have "min (lo a) (lo b) < max (hi a) (hi b)" using False i(5) by (auto simp: min_def max_def)
    ultimately show ?thesis using i by (auto intro!: ok_mkIv simp: min_def max_def)
  qed
qed

lemma toUint64_diff: "int64 a \<Longrightarrow> int64 b \<Longrightarrow> b \<le> a \<Longrightarrow> toUint64 (toUint64 a - toUint64 b) = a - b"
  by (simp add: toUint64_def mod_diff_eq int64_def)

lemma toUint64_pos: "int64 s \<Longrightarrow> 0 < s \<Longrightarrow> toUint64 s = s"
  by (simp add: toUint64_def int64_def)

lemma int64_extremes [simp]: "int64 minInt64" "int64 maxInt64"
  by (simp_all add: int64_def minInt64_def maxInt64_def)

lemma int64_le: "int64 x \<Longrightarrow> minInt64 \<le> x \<and> x \<le> maxInt64"
  by (simp add: int64_def minInt64_def maxInt64_def)

lemma int64_between: "int64 a \<Longrightarrow> int64 b \<Longrightarrow> a \<le> x \<Longrightarrow> x \<le> b \<Longrightarrow> int64 x"
  by (simp add: int64_def)

text \<open>The bounds that widening pushes out, snapped back to the stride of \<open>cur\<close>.\<close>

lemma snap_hi:
  assumes "int64 l" "int64 s" "0 < s"
  shows "wrap64 (maxInt64 - wrap64 (toUint64 (toUint64 maxInt64 - toUint64 l) mod toUint64 s)) = maxInt64 - (maxInt64 - l) mod s"
    and "int64 (maxInt64 - (maxInt64 - l) mod s)" and "l \<le> maxInt64 - (maxInt64 - l) mod s"
proof -
  have le: "l \<le> maxInt64" using int64_le assms(1) by blast
  have m: "0 \<le> (maxInt64 - l) mod s" "(maxInt64 - l) mod s < s" "(maxInt64 - l) mod s \<le> maxInt64 - l"
    using assms(3) le zmod_le_nonneg_dividend by auto
  then show b: "int64 (maxInt64 - (maxInt64 - l) mod s)" "l \<le> maxInt64 - (maxInt64 - l) mod s"
    using assms int64_le [OF assms(1)] by (auto intro: int64_between [OF assms(1) int64_extremes(2)])
  have "int64 ((maxInt64 - l) mod s)" using m assms(2) by (auto simp: int64_def)
  then show "wrap64 (maxInt64 - wrap64 (toUint64 (toUint64 maxInt64 - toUint64 l) mod toUint64 s)) = maxInt64 - (maxInt64 - l) mod s"
    using assms le b by (simp add: toUint64_diff toUint64_pos wrap64_id)
qed

lemma snap_lo:
  assumes "int64 l" "int64 s" "0 < s"
  shows "wrap64 (minInt64 + wrap64 (toUint64 (toUint64 l - toUint64 minInt64) mod toUint64 s)) = minInt64 + (l - minInt64) mod s"
    and "int64 (minInt64 + (l - minInt64) mod s)" and "minInt64 + (l - minInt64) mod s \<le> l"
proof -
  have le: "minInt64 \<le> l" using int64_le assms(1) by blast
  have m: "0 \<le> (l - minInt64) mod s" "(l - minInt64) mod s < s" "(l - minInt64) mod s \<le> l - minInt64"
    using assms(3) le zmod_le_nonneg_dividend by auto
  then show b: "int64 (minInt64 + (l - minInt64) mod s)" "minInt64 + (l - minInt64) mod s \<le> l"
    using assms int64_le [OF assms(1)] by (auto intro: int64_between [OF int64_extremes(1) assms(1)])
  have "int64 ((l - minInt64) mod s)" using m assms(2) by (auto simp: int64_def)
  then show "wrap64 (minInt64 + wrap64 (toUint64 (toUint64 l - toUint64 minInt64) mod toUint64 s)) = minInt64 + (l - minInt64) mod s"
    using assms le b by (simp add: toUint64_diff toUint64_pos wrap64_id)
qed

text \<open>A bound after widening: pushed to the extreme and snapped, or left alone.\<close>

definition widenHi :: "interval \<Rightarrow> interval \<Rightarrow> int" where
  "widenHi prev cur = (if hi cur > hi prev
     then if effectiveStride cur > 1 then maxInt64 - (maxInt64 - lo cur) mod effectiveStride cur else maxInt64
     else hi cur)"

definition widenLo :: "interval \<Rightarrow> interval \<Rightarrow> int" where
  "widenLo prev cur = (if lo cur < lo prev
     then if effectiveStride cur > 1 then minInt64 + (lo cur - minInt64) mod effectiveStride cur else minInt64
     else lo cur)"


lemma dvd_gap_mod: "s dvd (d - d mod s)" for s d :: int
  by (metis dvd_minus_mod)

lemma widen_bounds:
  assumes ok: "iv_ok cur" and st: "isSet cur"
  shows "widenLo prev cur \<le> lo cur" "hi cur \<le> widenHi prev cur" "int64 (widenLo prev cur)" "int64 (widenHi prev cur)"
    "lo cur \<noteq> hi cur \<Longrightarrow> effectiveStride cur dvd (lo cur - widenLo prev cur)"
    "lo cur \<noteq> hi cur \<Longrightarrow> effectiveStride cur dvd (widenHi prev cur - lo cur)"
proof -
  let ?s = "effectiveStride cur"
  have i: "int64 (lo cur)" "int64 (hi cur)" "lo cur \<le> hi cur" "int64 ?s" "?s dvd (hi cur - lo cur)"
    using ok st effectiveStride_int64 [OF ok] by (auto simp: iv_ok_def)
  have small: "?s = 1" if "\<not> ?s > 1" "lo cur \<noteq> hi cur"
    using that st by (auto simp: effectiveStride_def split: if_splits)
  have hmod: "hi cur \<le> maxInt64 - (maxInt64 - lo cur) mod ?s" if "?s > 1"
  proof -
    have "(maxInt64 - lo cur) mod ?s = (maxInt64 - hi cur + (hi cur - lo cur)) mod ?s" by simp
    also have "\<dots> = (maxInt64 - hi cur) mod ?s"
      using i(5) by (simp only: mod_add_right_eq [symmetric] dvd_imp_mod_0 add_0_right)
    finally show ?thesis
      using zmod_le_nonneg_dividend [of "maxInt64 - hi cur" ?s] int64_le [OF i(2)] by simp
  qed
  show "widenLo prev cur \<le> lo cur" "int64 (widenLo prev cur)"
    using snap_lo(2,3) [of "lo cur" ?s] i int64_le [OF i(1)] by (auto simp: widenLo_def)
  show "hi cur \<le> widenHi prev cur" "int64 (widenHi prev cur)"
    using snap_hi(2) [of "lo cur" ?s] hmod i int64_le [OF i(2)] by (auto simp: widenHi_def)
  have "?s dvd (maxInt64 - (maxInt64 - lo cur) mod ?s - lo cur)" "?s dvd (lo cur - (minInt64 + (lo cur - minInt64) mod ?s))"
    using dvd_gap_mod [of ?s "maxInt64 - lo cur"] dvd_gap_mod [of ?s "lo cur - minInt64"] by (simp_all add: algebra_simps)
  then show "?s dvd (widenHi prev cur - lo cur)" "?s dvd (lo cur - widenLo prev cur)" if "lo cur \<noteq> hi cur"
    using small [OF _ that] i(5) by (auto simp: widenHi_def widenLo_def)
qed

lemma widenInterval_eq:
  assumes ok: "iv_ok cur" and st: "isSet prev" "isSet cur"
  shows "widenInterval prev cur = (if widenLo prev cur = widenHi prev cur then singletonIv (widenLo prev cur)
     else mkIv (widenLo prev cur) (widenHi prev cur) (stride cur))"
proof -
  let ?s = "effectiveStride cur"
  define wlo where "wlo = (if lo cur < lo prev then minInt64 else lo cur)"
  define whi where "whi = (if hi cur > hi prev then maxInt64 else hi cur)"
  have i: "int64 (lo cur)" "int64 (hi cur)" "lo cur \<le> hi cur" "int64 ?s" "?s dvd (hi cur - lo cur)"
    "lo cur = hi cur \<longrightarrow> stride cur = 0"
    using ok st effectiveStride_int64 [OF ok] by (auto simp: iv_ok_def)
  have hi': "(if ?s > 1 \<and> whi = maxInt64
      then wrap64 (whi - wrap64 (toUint64 (toUint64 whi - toUint64 (lo cur)) mod toUint64 ?s)) else whi) = widenHi prev cur"
    using snap_hi(1) [OF i(1,4)] i(5) by (auto simp: whi_def widenHi_def dvd_imp_mod_0)
  have lo': "(if ?s > 1 \<and> wlo = minInt64
      then wrap64 (wlo + wrap64 (toUint64 (toUint64 (lo cur) - toUint64 wlo) mod toUint64 ?s)) else wlo) = widenLo prev cur"
    using snap_lo(1) [OF i(1,4)] by (auto simp: wlo_def widenLo_def)
  have same: "widenLo prev cur = lo cur \<and> widenHi prev cur = hi cur" if "wlo = lo cur" "whi = hi cur"
    using lo' hi' that i(5) snap_hi(1) [OF i(1,4)] snap_lo(1) [OF i(1,4)]
    by (auto simp: wlo_def whi_def widenLo_def widenHi_def dvd_imp_mod_0 split: if_splits)
  have cur: "cur = (if lo cur = hi cur then singletonIv (lo cur) else mkIv (lo cur) (hi cur) (stride cur))"
    using i(6) st by (cases cur) (auto simp: singletonIv_def)
  have le: "\<not> widenLo prev cur > widenHi prev cur"
    using widen_bounds(1,2) [OF ok st(2), of prev] i(3) by linarith
  have "widenInterval prev cur = (if wlo = lo cur \<and> whi = hi cur then cur
     else if widenLo prev cur > widenHi prev cur then cur
     else if widenLo prev cur = widenHi prev cur then singletonIv (widenLo prev cur)
     else mkIv (widenLo prev cur) (widenHi prev cur) (stride cur))"
    unfolding widenInterval_def Let_def wlo_def [symmetric] whi_def [symmetric] lo' hi' using st by simp
  then show ?thesis using le same cur by (auto split: if_splits)
qed

text \<open>The widened interval keeps every value of \<open>cur\<close> and the invariant.\<close>

lemma widen_stride:
  "iv_ok cur \<Longrightarrow> isSet cur \<Longrightarrow> widenLo prev cur \<noteq> widenHi prev cur \<Longrightarrow>
   effectiveStride (mkIv (widenLo prev cur) (widenHi prev cur) (stride cur)) = (if lo cur = hi cur then 1 else effectiveStride cur)"
  by (auto simp: effectiveStride_def iv_ok_def)

lemma widen_sound:
  assumes ok: "iv_ok cur" and x: "mem cur x"
  shows "mem (widenInterval prev cur) x"
proof (cases "isSet prev \<and> isSet cur")
  case False
  then show ?thesis using x by (auto simp: widenInterval_def)
next
  case st: True
  note b = widen_bounds [OF ok conjunct2 [OF st], of prev]
  have m: "lo cur \<le> x" "x \<le> hi cur" "effectiveStride cur dvd (x - lo cur)" using x st by (auto simp: mem_def)
  show ?thesis
  proof (cases "widenLo prev cur = widenHi prev cur")
    case True
    then show ?thesis using widenInterval_eq [OF ok] st b(1,2) m(1,2) by simp
  next
    case False
    have "effectiveStride cur dvd (x - lo cur) + (lo cur - widenLo prev cur)" if "lo cur \<noteq> hi cur"
      using m(3) b(5) [OF that] by (rule dvd_add)
    then show ?thesis
      using widenInterval_eq [OF ok] st False b(1,2) m(1,2) widen_stride [OF ok _ False]
      unfolding mem_def by (auto simp del: effectiveStride_mkIv)
  qed
qed

lemma widen_ok:
  assumes ok: "iv_ok cur"
  shows "iv_ok (widenInterval prev cur)"
proof (cases "isSet prev \<and> isSet cur")
  case False
  then show ?thesis using ok by (auto simp: widenInterval_def)
next
  case st: True
  note b = widen_bounds [OF ok conjunct2 [OF st], of prev]
  have i: "lo cur \<le> hi cur" "0 \<le> stride cur" "int64 (stride cur)" using ok st by (auto simp: iv_ok_def)
  show ?thesis
  proof (cases "widenLo prev cur = widenHi prev cur")
    case True
    then show ?thesis using widenInterval_eq [OF ok] st b(3) by simp
  next
    case False
    have "effectiveStride cur dvd (widenHi prev cur - lo cur) + (lo cur - widenLo prev cur)" if "lo cur \<noteq> hi cur"
      using b(6) [OF that] b(5) [OF that] by (rule dvd_add)
    then show ?thesis
      using widenInterval_eq [OF ok] st False b i widen_stride [OF ok _ False]
      unfolding iv_ok_def by (auto simp del: effectiveStride_mkIv)
  qed
qed


section \<open>Transfer functions\<close>

lemma shiftIv_eq:
  assumes "iv_ok iv" and "int64 d"
  shows "shiftIv iv d =
    (if isSet iv \<and> int64 (lo iv + d) \<and> int64 (hi iv + d) then mkIv (lo iv + d) (hi iv + d) (stride iv) else unsetIv)"
  using assms by (simp add: shiftIv_def addOverflow_spec iv_ok_def)

lemma shift_stride: "isSet iv \<Longrightarrow> effectiveStride (mkIv (lo iv + d) (hi iv + d) (stride iv)) = effectiveStride iv"
  by (simp add: effectiveStride_def)

lemma shift_sound:
  assumes "iv_ok iv" and "int64 d" and "mem iv x"
  shows "mem (shiftIv iv d) (x + d)"
  using assms(3) unfolding shiftIv_eq [OF assms(1,2)] mem_def
  by (cases "isSet iv") (simp_all add: shift_stride unsetIv_def del: effectiveStride_mkIv)

lemma shift_ok:
  assumes "iv_ok iv" and "int64 d"
  shows "iv_ok (shiftIv iv d)"
  using assms(1) unfolding shiftIv_eq [OF assms] iv_ok_def
  by (cases "isSet iv") (simp_all add: shift_stride unsetIv_def del: effectiveStride_mkIv)

text \<open>A set result means that no member overflowed.\<close>

lemma shift_no_overflow:
  assumes "iv_ok iv" and "int64 d" and "isSet (shiftIv iv d)" and "mem iv x"
  shows "int64 (x + d)"
  using assms(3,4) unfolding shiftIv_eq [OF assms(1,2)]
  by (auto simp: mem_def unsetIv_def int64_def split: if_splits)

lemma divisible_sound:
  assumes "allMembersDivisibleBy iv n" and "mem iv x"
  shows "n dvd x"
proof -
  have n: "isSet iv" "n > 0" "n dvd lo iv" and d: "lo iv = hi iv \<or> n dvd effectiveStride iv"
    using assms(1) by (auto simp: allMembersDivisibleBy_def goRem_eq_0 Let_def split: if_splits)
  have m: "lo iv \<le> x" "x \<le> hi iv" "effectiveStride iv dvd (x - lo iv)"
    using assms(2) n(1) by (auto simp: mem_def)
  show ?thesis
  proof (cases "lo iv = hi iv")
    case True
    then show ?thesis using m n(3) by simp
  next
    case False
    then have "n dvd (x - lo iv) + lo iv" using d m(3) n(3) by (intro dvd_add) (auto intro: dvd_trans)
    then show ?thesis by simp
  qed
qed

fun cmpOp :: "string \<Rightarrow> int \<Rightarrow> int \<Rightarrow> bool option" where
  "cmpOp op x c =
     (if op = ''<'' then Some (x < c) else if op = ''<='' then Some (x \<le> c) else if op = ''>'' then Some (x > c)
      else if op = ''>='' then Some (x \<ge> c) else if op = ''=='' then Some (x = c) else if op = ''!='' then Some (x \<noteq> c)
      else None)"

lemma cmpAlways_sound:
  "cmpAlwaysHolds iv op c = (True, v) \<Longrightarrow> isSet iv \<Longrightarrow> mem iv x \<Longrightarrow> cmpOp op x c = Some v"
  by (auto simp: cmpAlwaysHolds_def dest!: mem_bounds split: if_splits)

lemma flipOp_sound: "cmpOp (flipOp op) x c = cmpOp op c x"
  by (simp add: flipOp_def eq_commute)

subsection \<open>Clipping\<close>

text \<open>The two roundings of \<open>clipInterval\<close> towards the lattice of the stride.\<close>

lemma round_up_next:
  fixes s :: int
  assumes "0 < s" and "s dvd (x - a)" and "l \<le> x" and "(l - a) mod s \<noteq> 0"
  shows "l + (s - (l - a) mod s) \<le> x"
proof -
  have "x - l + (l - a) mod s = (x - a) - ((l - a) - (l - a) mod s)" by simp
  moreover have "s dvd (x - a) - ((l - a) - (l - a) mod s)" by (rule dvd_diff [OF assms(2) dvd_minus_mod])
  ultimately have "s dvd (x - l + (l - a) mod s)" by (simp only:)
  moreover have "0 < x - l + (l - a) mod s"
    using assms(3,4) pos_mod_sign [OF assms(1), of "l - a"] by linarith
  ultimately have "s \<le> x - l + (l - a) mod s" by (rule zdvd_imp_le)
  then show ?thesis by linarith
qed

lemma round_down_prev:
  fixes s :: int
  assumes "0 < s" and "s dvd (x - a)" and "x \<le> h"
  shows "x \<le> h - (h - a) mod s"
proof -
  have "(h - a) mod s = ((h - x) + (x - a)) mod s" by simp
  also have "\<dots> = (h - x) mod s" using assms(2) by (subst mod_add_right_eq [symmetric]) simp
  finally have "(h - a) mod s = (h - x) mod s" .
  moreover have "(h - x) mod s \<le> h - x"
    using assms by (intro zmod_le_nonneg_dividend) simp
  ultimately show ?thesis by linarith
qed

lemma dvd_round_down: "s dvd (h - (h - a) mod s - a)" for s :: int
  using dvd_minus_mod [of s "h - a"] by (simp add: algebra_simps)

lemma dvd_round_up: "s dvd (l + (s - (l - a) mod s) - a)" for s :: int
  using dvd_add [OF dvd_round_down [of s l a] dvd_refl [of s]] by (simp add: algebra_simps)


lemma clip_simple:
  assumes "isSet iv" and "stride iv \<le> 1" and "iv_ok iv"
  shows "isSet (clipInterval iv l0 h0) \<and> mem (clipInterval iv l0 h0) x \<longleftrightarrow> mem iv x \<and> l0 \<le> x \<and> x \<le> h0"
proof -
  have e: "effectiveStride iv dvd (x - lo iv) \<longleftrightarrow> lo iv \<noteq> hi iv \<or> x = lo iv" 
  proof -
    have "stride iv = 1 \<or> stride iv \<le> 0" using assms(2) by linarith
    then show ?thesis using assms(1) by (auto simp: effectiveStride_def)
  qed
  have c: "clipInterval iv l0 h0 =
      (if max l0 (lo iv) > min h0 (hi iv) then unsetIv
       else if max l0 (lo iv) = min h0 (hi iv) then singletonIv (max l0 (lo iv))
       else mkIv (max l0 (lo iv)) (min h0 (hi iv)) 1)"
    using assms(1,2) by (auto simp: clipInterval_def Let_def max_def min_def)
  have m: "mem iv x \<longleftrightarrow> lo iv \<le> x \<and> x \<le> hi iv"
    using assms e by (auto simp: mem_def)
  consider "max l0 (lo iv) > min h0 (hi iv)" | "max l0 (lo iv) = min h0 (hi iv)" | "max l0 (lo iv) < min h0 (hi iv)"
    by linarith
  then show ?thesis
  proof cases
    case 1
    then show ?thesis unfolding c m by (auto simp: unsetIv_def)
  next
    case 2
    then show ?thesis unfolding c m by (auto simp: singletonIv_def mem_def)
  next
    case 3
    then show ?thesis unfolding c m by (auto simp: mem_def)
  qed
qed

lemma clip_strided_eq:
  assumes ok: "iv_ok iv" and st: "isSet iv" and s: "stride iv > 1" and sp: "narrow_span iv"
    and lh: "max l0 (lo iv) \<le> min h0 (hi iv)"
  defines "l \<equiv> max l0 (lo iv)" and "h \<equiv> min h0 (hi iv)"
  defines "l' \<equiv> (if (l - lo iv) mod stride iv \<noteq> 0 then l + (stride iv - (l - lo iv) mod stride iv) else l)"
    and "h' \<equiv> h - (h - lo iv) mod stride iv"
  shows "clipInterval iv l0 h0 = (if l' > h' then unsetIv else if l' = h' then singletonIv l' else mkIv l' h' (stride iv))"
    and "l' \<le> hi iv"
proof -
  let ?s = "stride iv"
  have inv: "int64 (lo iv)" "int64 (hi iv)" "lo iv \<le> hi iv" "int64 ?s" "?s dvd (hi iv - lo iv)"
    using ok st s by (auto simp: iv_ok_def effectiveStride_def split: if_splits)
  have rng: "lo iv \<le> l" "l \<le> h" "h \<le> hi iv" using lh by (auto simp: l_def h_def)
  have i64: "int64 (l - lo iv)" "int64 (h - lo iv)"
    using inv rng sp by (auto simp: int64_def narrow_span_def)
  have remL: "0 \<le> (l - lo iv) mod ?s" "(l - lo iv) mod ?s < ?s" and remH: "0 \<le> (h - lo iv) mod ?s" "(h - lo iv) mod ?s \<le> h - lo iv"
    using s rng by (auto intro: zmod_le_nonneg_dividend)
  have up: "l + (?s - (l - lo iv) mod ?s) \<le> hi iv" if "(l - lo iv) mod ?s \<noteq> 0"
    using that inv(5) s rng by (intro round_up_next) auto
  then show le: "l' \<le> hi iv" using rng by (simp add: l'_def)
  have w: "wrap64 (?s - (l - lo iv) mod ?s) = ?s - (l - lo iv) mod ?s"
    using remL inv(4) by (intro wrap64_id) (auto simp: int64_def)
  have wl: "wrap64 (l + (?s - (l - lo iv) mod ?s)) = l + (?s - (l - lo iv) mod ?s)" if "(l - lo iv) mod ?s \<noteq> 0"
    using up [OF that] rng remL inv by (intro wrap64_id) (auto simp: int64_def)
  have wh: "wrap64 (h - (h - lo iv) mod ?s) = h - (h - lo iv) mod ?s"
  proof (rule wrap64_id)
    have "lo iv \<le> h - (h - lo iv) mod ?s" "h - (h - lo iv) mod ?s \<le> hi iv"
      using remH rng by linarith+
    then show "int64 (h - (h - lo iv) mod ?s)" using inv(1,2) unfolding int64_def by linarith
  qed
  have lx: "(if l0 < lo iv then lo iv else l0) = l" "(if h0 > hi iv then hi iv else h0) = h"
    by (auto simp: l_def h_def)
  have rL: "goRem (wrap64 (l - lo iv)) ?s = (l - lo iv) mod ?s" and rH: "goRem (wrap64 (h - lo iv)) ?s = (h - lo iv) mod ?s"
    using i64 rng s by (simp_all add: wrap64_id goRem_nonneg)
  have nL: "(if (l - lo iv) mod ?s \<noteq> 0 then wrap64 (l + wrap64 (?s - (l - lo iv) mod ?s)) else l) = l'"
    using wl by (simp only: l'_def w split: if_split) blast
  have nH: "(if (h - lo iv) mod ?s \<noteq> 0 then wrap64 (h - (h - lo iv) mod ?s) else h) = h'"
    unfolding h'_def wh by simp
  have "\<not> l > h" "\<not> ?s \<le> 1" using rng s by auto
  then show "clipInterval iv l0 h0 = (if l' > h' then unsetIv else if l' = h' then singletonIv l' else mkIv l' h' ?s)"
    unfolding clipInterval_def Let_def lx rL rH nL nH using st by (simp only: if_False not_True_eq_False)
qed

lemma clip_strided:
  assumes ok: "iv_ok iv" and st: "isSet iv" and s: "stride iv > 1" and sp: "narrow_span iv"
  shows "isSet (clipInterval iv l0 h0) \<and> mem (clipInterval iv l0 h0) x \<longleftrightarrow> mem iv x \<and> l0 \<le> x \<and> x \<le> h0"
proof (cases "max l0 (lo iv) \<le> min h0 (hi iv)")
  case False
  then have "clipInterval iv l0 h0 = unsetIv"
  proof -
    have "(if l0 < lo iv then lo iv else l0) > (if h0 > hi iv then hi iv else h0)"
      using False by (auto simp: max_def min_def split: if_splits)
    then show ?thesis by (simp only: clipInterval_def Let_def if_True if_cancel)
  qed
  then show ?thesis using False st by (auto simp: mem_def unsetIv_def)
next
  case True
  let ?s = "stride iv"
  define l h where "l = max l0 (lo iv)" and "h = min h0 (hi iv)"
  define l' where "l' = (if (l - lo iv) mod ?s \<noteq> 0 then l + (?s - (l - lo iv) mod ?s) else l)"
  define h' where "h' = h - (h - lo iv) mod ?s"
  have c: "clipInterval iv l0 h0 = (if l' > h' then unsetIv else if l' = h' then singletonIv l' else mkIv l' h' ?s)"
    using clip_strided_eq (1) [OF ok st s sp True] unfolding l'_def h'_def l_def h_def .
  have ne: "lo iv \<noteq> hi iv" using ok st s by (auto simp: iv_ok_def)
  have m: "mem iv x \<longleftrightarrow> lo iv \<le> x \<and> x \<le> hi iv \<and> ?s dvd (x - lo iv)"
    using st s ne by (simp add: mem_def effectiveStride_def)
  have dl: "?s dvd (l' - lo iv)"
    using dvd_round_up [of ?s l "lo iv"] by (auto simp: l'_def dvd_eq_mod_eq_0)
  have ll: "l \<le> l'" using s by (auto simp: l'_def intro: order.strict_implies_order)
  have hh: "h' \<le> h" using s by (simp add: h'_def)
  have fwd: "l' \<le> x \<and> x \<le> h'" if "?s dvd (x - lo iv)" "l \<le> x" "x \<le> h"
    using round_up_next [OF _ that(1,2)] round_down_prev [OF _ that(1,3)] that s by (auto simp: l'_def h'_def)
  have shift: "?s dvd (x - l') \<longleftrightarrow> ?s dvd (x - lo iv)"
    using dvd_add_right_iff [OF dl, of "x - l'"] by simp
  have "isSet (clipInterval iv l0 h0) \<and> mem (clipInterval iv l0 h0) x \<longleftrightarrow> l' \<le> x \<and> x \<le> h' \<and> ?s dvd (x - l')"
    unfolding c using s by (auto simp: mem_def unsetIv_def singletonIv_def)
  also have "\<dots> \<longleftrightarrow> l \<le> x \<and> x \<le> h \<and> ?s dvd (x - lo iv)"
    using fwd ll hh shift by auto
  finally show ?thesis by (auto simp: m l_def h_def)
qed

lemma clip_exact:
  assumes "iv_ok iv" and "isSet iv" and "narrow_span iv \<or> stride iv \<le> 1"
  shows "isSet (clipInterval iv l0 h0) \<and> mem (clipInterval iv l0 h0) x \<longleftrightarrow> mem iv x \<and> l0 \<le> x \<and> x \<le> h0"
  using clip_simple [OF assms(2) _ assms(1)] clip_strided [OF assms(1,2)] assms(3) by (meson not_le)

subsection \<open>Branch conditions\<close>

lemma clip_keeps:
  assumes "iv_ok iv" and "isSet iv" and "narrow_span iv \<or> stride iv \<le> 1" and "mem iv x" and "l0 \<le> x" and "x \<le> h0"
  shows "mem (clipInterval iv l0 h0) x"
  using clip_exact [OF assms(1-3)] assms(4-6) by blast

lemma narrow_sound:
  assumes ok: "iv_ok iv" "isSet iv" "narrow_span iv \<or> stride iv \<le> 1" and c: "int64 c" and x: "mem iv x"
    and v: "cmpOp op x c = Some v"
  shows "mem ((if v then fst else snd) (narrowIntervalCmp iv op c)) x"
proof -
  have b: "lo iv \<le> x" "x \<le> hi iv" "int64 x"
    using x ok by (auto simp: mem_def iv_ok_def int64_def)
  have m: "(if int64 (c - 1) then c - 1 else c) \<ge> x" if "x < c"
    using that c b(3) by (auto simp: int64_def)
  have p: "(if int64 (c + 1) then c + 1 else c) \<le> x" if "x > c"
    using that c b(3) by (auto simp: int64_def)
  have one: "int64 1" by (simp add: int64_def)
  have eq: "narrowIntervalCmp iv op c =
      (let cm = (if int64 (c - 1) then c - 1 else c); cp = (if int64 (c + 1) then c + 1 else c) in
        if op = ''<'' then (clipInterval iv (lo iv) cm, clipInterval iv c (hi iv))
        else if op = ''<='' then (clipInterval iv (lo iv) c, clipInterval iv cp (hi iv))
        else if op = ''>'' then (clipInterval iv cp (hi iv), clipInterval iv (lo iv) c)
        else if op = ''>='' then (clipInterval iv c (hi iv), clipInterval iv (lo iv) cm)
        else if op = ''=='' then (clipInterval iv c c, iv)
        else if op = ''!='' then (iv, clipInterval iv c c)
        else (unsetIv, unsetIv))" for op
    using ok(2) by (simp add: narrowIntervalCmp_def addOverflow_spec [OF c one] subOverflow_spec [OF c one] Let_def)
  note k = clip_keeps [OF ok x]
  consider "op = ''<''" | "op = ''<=''" | "op = ''>''" | "op = ''>=''" | "op = ''==''" | "op = ''!=''"
    using v by (auto split: if_splits)
  then show ?thesis
    by cases (use v b m p x in \<open>auto simp: eq Let_def intro!: k clip_keeps [OF ok]\<close>)
qed

subsection \<open>Sums and differences\<close>

text \<open>The stride of the result divides both strides, whatever the difference of the bounds wraps to.\<close>

lemma combinedStride_dvd:
  assumes "iv_ok a" "isSet a" "lo a \<noteq> hi a"
  shows "0 < combinedStride a b l h \<and> combinedStride a b l h dvd effectiveStride a \<and>
    combinedStride a b l h dvd effectiveStride b \<and> int64 (combinedStride a b l h)"
proof -
  let ?g = "gcd (effectiveStride a) (effectiveStride b)"
  have pos: "effectiveStride a > 0" using assms by (auto simp: effectiveStride_def)
  then have g: "?g \<noteq> 0" "0 < ?g" by (simp_all add: gcd_pos_int)
  have gi: "int64 ?g"
    using effectiveStride_int64 [OF assms(1)] g(2) zdvd_imp_le [OF gcd_dvd1 pos, of "effectiveStride b"]
    unfolding int64_def by linarith
  have c: "combinedStride a b l h = (if goRem (wrap64 (h - l)) ?g \<noteq> 0 then 1 else ?g)"
    unfolding combinedStride_def Let_def gcd64_gcd [OF effectiveStride_nonneg effectiveStride_nonneg]
    by (simp only: g(1) if_False)
  have "int64 1" by (simp add: int64_def)
  then show ?thesis
    by (cases "goRem (wrap64 (h - l)) ?g = 0")
      (simp_all only: c if_True if_False not_True_eq_False not_False_eq_True g gi gcd_dvd1 gcd_dvd2 one_dvd zero_less_one simp_thms)
qed

lemma combined_mem:
  assumes "iv_ok a" "isSet a" "lo a \<noteq> hi a" and "effectiveStride a dvd p" "effectiveStride b dvd q"
    and "l \<le> p + q + l" "p + q + l \<le> h"
  shows "mem (mkIv l h (combinedStride a b l h)) (p + q + l)"
proof -
  note c = combinedStride_dvd [OF assms(1-3), of b l h]
  have "combinedStride a b l h dvd p + q"
    using assms(4,5) c by (intro dvd_add) (auto intro: dvd_trans)
  then show ?thesis using c assms(6,7) by (simp add: mem_mkIv)
qed

lemma singleton_mem: "mem iv x \<Longrightarrow> isSet iv \<Longrightarrow> lo iv = hi iv \<Longrightarrow> x = lo iv"
  by (simp add: mem_def)

lemma dvd_hi_minus:
  assumes "iv_ok b" and "isSet b" and "mem b y"
  shows "effectiveStride b dvd (hi b - y)"
proof -
  have "effectiveStride b dvd (hi b - lo b) - (y - lo b)"
    by (rule dvd_diff) (use assms in \<open>auto simp: mem_def iv_ok_def\<close>)
  then show ?thesis by simp
qed

lemma arith_add_sound:
  assumes ok: "iv_ok a" "iv_ok b" and st: "isSet a" "isSet b" and x: "mem a x" and y: "mem b y"
  shows "mem (intervalArith ''+'' a b) (x + y)"
proof -
  have i64: "int64 (lo a)" "int64 (lo b)" "int64 (hi a)" "int64 (hi b)" using ok st by (auto simp: iv_ok_def)
  have bd: "lo a \<le> x" "x \<le> hi a" "effectiveStride a dvd (x - lo a)" "lo b \<le> y" "y \<le> hi b" "effectiveStride b dvd (y - lo b)"
    using x y st by (auto simp: mem_def)
  consider "lo b = hi b" | "lo b \<noteq> hi b" "lo a = hi a" | "lo b \<noteq> hi b" "lo a \<noteq> hi a" by blast
  then show ?thesis
  proof cases
    case 1
    then show ?thesis using st shift_sound [OF ok(1) i64(2) x] singleton_mem [OF y st(2)] by (simp add: intervalArith_def)
  next
    case 2
    then show ?thesis using st shift_sound [OF ok(2) i64(1) y] singleton_mem [OF x st(1)]
      by (simp add: intervalArith_def add.commute)
  next
    case 3
    have "mem (mkIv (lo a + lo b) (hi a + hi b) (combinedStride a b (lo a + lo b) (hi a + hi b)))
        ((x - lo a) + (y - lo b) + (lo a + lo b))"
      using ok(1) st(1) 3(2) bd by (intro combined_mem) auto
    then show ?thesis using 3 st i64 by (auto simp: intervalArith_def addOverflow_spec)
  qed
qed

lemma arith_sub_sound:
  assumes ok: "iv_ok a" "iv_ok b" and st: "isSet a" "isSet b" and x: "mem a x" and y: "mem b y"
  shows "mem (intervalArith ''-'' a b) (x - y)"
proof -
  have i64: "int64 (lo a)" "int64 (lo b)" "int64 (hi a)" "int64 (hi b)" "int64 0" using ok st by (auto simp: iv_ok_def int64_def)
  have bd: "lo a \<le> x" "x \<le> hi a" "effectiveStride a dvd (x - lo a)" "lo b \<le> y" "y \<le> hi b"
    using x y st by (auto simp: mem_def)
  consider "lo b = hi b" | "lo b \<noteq> hi b" "lo a = hi a" | "lo b \<noteq> hi b" "lo a \<noteq> hi a" by blast
  then show ?thesis
  proof cases
    case 1
    then show ?thesis using st shift_sound [OF ok(1) _ x, of "- lo b"] singleton_mem [OF y st(2)]
      by (simp add: intervalArith_def subOverflow_spec i64)
  next
    case 2
    have "mem (mkIv (lo a - hi b) (hi a - lo b) (combinedStride b a (lo a - hi b) (hi a - lo b)))
        ((hi b - y) + (x - lo a) + (lo a - hi b))"
      using ok(2) st(2) 2(1) bd dvd_hi_minus [OF ok(2) st(2) y] by (intro combined_mem) auto
    moreover have "combinedStride b a = combinedStride a b"
      by (intro ext) (simp add: combinedStride_def gcd64_gcd effectiveStride_nonneg gcd.commute)
    ultimately show ?thesis using 2 st i64 by (auto simp: intervalArith_def subOverflow_spec)
  next
    case 3
    have "mem (mkIv (lo a - hi b) (hi a - lo b) (combinedStride a b (lo a - hi b) (hi a - lo b)))
        ((x - lo a) + (hi b - y) + (lo a - hi b))"
      using ok(1) st(1) 3(2) bd dvd_hi_minus [OF ok(2) st(2) y] by (intro combined_mem) auto
    then show ?thesis using 3 st i64 by (auto simp: intervalArith_def subOverflow_spec)
  qed
qed

subsection \<open>Products\<close>

text \<open>\<open>scaleIv\<close> is sound when neither bound leaves the range; it does not check that they do not.\<close>

lemma scaleIv_eq:
  assumes ok: "iv_ok iv" and st: "isSet iv" and i: "int64 (lo iv * k)" "int64 (hi iv * k)" "int64 (effectiveStride iv * k)"
     "int64 (- (effectiveStride iv * k))" and ne: "lo iv \<noteq> hi iv" "k \<noteq> 0"
  shows "scaleIv iv k = (if k < 0 then mkIv (hi iv * k) (lo iv * k) (effectiveStride iv * - k)
    else mkIv (lo iv * k) (hi iv * k) (effectiveStride iv * k))"
proof -
  let ?e = "effectiveStride iv"
  have e: "0 < ?e" using st ne(1) by (simp add: effectiveStride_def)
  have "lo iv < hi iv" using ok st ne(1) by (simp add: iv_ok_def)
  then have d: "lo iv * k \<noteq> hi iv * k" using ne by simp
  have s: "(if wrap64 (?e * k) < 0 then wrap64 (- wrap64 (?e * k)) else wrap64 (?e * k)) = ?e * \<bar>k\<bar>"
    unfolding wrap64_id [OF i(3)] wrap64_id [OF i(4)] using e by (auto simp: abs_if mult_less_0_iff)
  have nz: "?e * \<bar>k\<bar> \<noteq> 0" using e ne(2) by simp
  show ?thesis
    unfolding scaleIv_def Let_def s wrap64_id [OF i(1)] wrap64_id [OF i(2)]
    using st ne(2) d nz by (cases "k < 0") (simp_all add: d [symmetric])
qed

lemma scale_sound:
  assumes ok: "iv_ok iv" and st: "isSet iv" and i: "int64 (lo iv * k)" "int64 (hi iv * k)" "int64 (effectiveStride iv * k)"
     "int64 (- (effectiveStride iv * k))" and x: "mem iv x"
  shows "mem (scaleIv iv k) (x * k)"
proof (cases "k = 0 \<or> lo iv = hi iv")
  case True
  then show ?thesis using st singleton_mem [OF x st] i by (auto simp: scaleIv_def wrap64_id Let_def)
next
  case False
  let ?e = "effectiveStride iv"
  have b: "lo iv \<le> x" "x \<le> hi iv" "?e dvd (x - lo iv)" "?e dvd (hi iv - x)" "0 < ?e"
    using x st dvd_hi_minus [OF ok st x] False by (auto simp: mem_def effectiveStride_def)
  note eq = scaleIv_eq [OF ok st i]
  show ?thesis
  proof (cases "k < 0")
    case True
    have "?e * - k dvd (hi iv - x) * - k" using b(4) by (rule mult_dvd_mono) simp
    moreover have "0 < ?e * - k" using b(5) True by (intro mult_pos_pos) auto
    moreover have "(hi iv - x) * - k = x * k - hi iv * k" by (simp add: algebra_simps)
    moreover have "hi iv * k \<le> x * k" "x * k \<le> lo iv * k" using True b(1,2) by (auto intro: mult_right_mono_neg)
    moreover have "scaleIv iv k = mkIv (hi iv * k) (lo iv * k) (?e * - k)" using eq True False by (simp only: if_True de_Morgan_disj simp_thms)
    ultimately show ?thesis by (simp only: mem_mkIv simp_thms)
  next
    case k: False
    have "?e * k dvd (x - lo iv) * k" using b(3) by (rule mult_dvd_mono) simp
    then show ?thesis using k False b
      by (simp add: eq mem_mkIv mult_right_mono algebra_simps)
  qed
qed

section \<open>Properties\<close>

text \<open>C9.  \<open>unionInterval\<close> is a join: when the two ranges together span less than \<open>2^63\<close>, every value of
  either range is a value of the union, the union keeps the invariant the source states for a strided
  interval (both bounds in \<open>int64\<close>, in order, a stride that divides their difference), and the bounds are
  the least and the greatest bound.\<close>

theorem unionInterval_join:
  assumes "iv_ok a" and "iv_ok b" and "isSet a" and "isSet b" and "joinSpan a b < 2 ^ 63"
  shows "(\<forall>x. mem a x \<or> mem b x \<longrightarrow> mem (unionInterval a b) x) \<and> iv_ok (unionInterval a b) \<and>
    isSet (unionInterval a b) \<and> lo (unionInterval a b) = min (lo a) (lo b) \<and> hi (unionInterval a b) = max (hi a) (hi b)"
proof (cases "min (lo a) (lo b) = max (hi a) (hi b)")
  case True
  from union_degenerate [OF assms(3,4,1,2) True] show ?thesis
    using union_sound [OF assms(1,2,5)] union_ok [OF assms(1,2,5)] True by (auto simp: singletonIv_def)
next
  case False
  from unionInterval_eq [OF assms(3,4,1,2,5) False] show ?thesis
    using union_sound [OF assms(1,2,5)] union_ok [OF assms(1,2,5)] by auto
qed

text \<open>The multiples of 6 up to 12, and 3 to 15 in steps of 4.\<close>

lemma iv_ok_mkIv: "iv_ok (mkIv l h s) \<longleftrightarrow> int64 l \<and> int64 h \<and> l \<le> h \<and> 0 \<le> s \<and> int64 s \<and> (l = h \<longrightarrow> s = 0) \<and>
    (l = h \<or> s \<le> 0 \<or> s dvd (h - l))"
  by (auto simp: iv_ok_def)

theorem unionInterval_join_witness:
  "mem (unionInterval (mkIv 0 12 6) (mkIv 3 15 4)) 6 \<and> mem (unionInterval (mkIv 0 12 6) (mkIv 3 15 4)) 7"
proof -
  have "iv_ok (mkIv 0 12 6)" "iv_ok (mkIv 3 15 4)" by (simp_all add: iv_ok_mkIv int64_def)
  from unionInterval_join [OF this] show ?thesis by (simp add: joinSpan_def mem_mkIv)
qed

text \<open>The difference of the lower bounds is computed in \<open>int64\<close>, so the union of two ranges that
  are more than \<open>2^63\<close> apart can lose its own members: with the singletons \<open>- 2^63\<close> and \<open>2^63 - 3\<close>
  the wrapped distance is 3, and the upper bound is not reached by steps of the stride.\<close>

lemma unionInterval_overflow:
  "\<exists>a b. iv_ok a \<and> iv_ok b \<and> isSet a \<and> isSet b \<and> mem b (hi b) \<and> \<not> mem (unionInterval a b) (hi b) \<and>
     \<not> iv_ok (unionInterval a b)"
proof -
  let ?a = "singletonIv (- (2 ^ 63))" and ?b = "singletonIv (2 ^ 63 - 3)"
  have w: "wrap64 (- (2 ^ 63) - (2 ^ 63 - 3)) = 3" "wrap64 ((2 ^ 63 - 3) - - (2 ^ 63)) = - 3"
    by (simp_all add: wrap64_def)
  have g: "gcd64 0 3 = 3" by (simp add: gcd64_gcd)
  have z: "gcd64 0 0 = 0" by (simp add: gcd64_gcd)
  have u: "unionInterval ?a ?b = mkIv (- (2 ^ 63)) (2 ^ 63 - 3) 3"
    using w g z by (simp add: unionInterval_def Let_def singletonIv_def effectiveStride_def goRem_def)
  have nd: "\<not> (3::int) dvd (2 ^ 63 - 3) - - (2 ^ 63)" by simp
  have "iv_ok ?a" "iv_ok ?b" by (simp_all add: int64_def)
  moreover have "mem ?b (hi ?b)" "isSet ?a" "isSet ?b" by (simp_all add: singletonIv_def mem_def)
  moreover have "\<not> mem (unionInterval ?a ?b) (hi ?b)" "\<not> iv_ok (unionInterval ?a ?b)"
    unfolding u using nd by (simp_all add: mem_def iv_ok_mkIv singletonIv_def)
  ultimately show ?thesis by blast
qed

text \<open>C10.  Widening a loop head keeps every value of the current range, whatever the previous range
  was, and keeps the invariant.\<close>

theorem widenInterval_sound:
  assumes "iv_ok cur" and "mem cur x"
  shows "mem (widenInterval prev cur) x \<and> iv_ok (widenInterval prev cur)"
  using widen_sound [OF assms] widen_ok [OF assms(1)] by simp

theorem widenInterval_sound_witness:
  "mem (mkIv 0 10 5) 5 \<and> mem (widenInterval (singletonIv 0) (mkIv 0 10 5)) 5"
proof -
  have ok: "iv_ok (mkIv 0 10 5)" and m: "mem (mkIv 0 10 5) 5" by (simp_all add: iv_ok_mkIv int64_def mem_mkIv)
  from widenInterval_sound [OF ok m] m show ?thesis by blast
qed





text \<open>C13.  Interval addition and subtraction are sound without any bound on the operands: a sum or a
  difference of members is a member of the result, which is unset as soon as a bound would overflow.\<close>

theorem intervalArith_sound:
  assumes "iv_ok a" and "iv_ok b" and "mem a x" and "mem b y"
  shows "mem (intervalArith ''+'' a b) (x + y) \<and> mem (intervalArith ''-'' a b) (x - y)"
proof (cases "isSet a \<and> isSet b")
  case True
  then show ?thesis using arith_add_sound [OF assms(1,2) _ _ assms(3,4)] arith_sub_sound [OF assms(1,2) _ _ assms(3,4)] by blast
next
  case False
  then show ?thesis by (auto simp: intervalArith_def)
qed

theorem intervalArith_sound_witness:
  "mem (intervalArith ''+'' (mkIv 0 10 5) (mkIv 3 15 4)) 12 \<and> mem (intervalArith ''-'' (mkIv 0 10 5) (mkIv 3 15 4)) (- 2)"
proof -
  have "iv_ok (mkIv 0 10 5)" "iv_ok (mkIv 3 15 4)" by (simp_all add: iv_ok_mkIv int64_def)
  from intervalArith_sound [OF this, of 5 7] show ?thesis by (simp add: mem_mkIv)
qed


end
