(* ===== verification/TinDemorgan.thy ===== *)
theory TinDemorgan
  imports TinFold
begin

text \<open>
  Simplification of boolean conditions (\<^verbatim>\<open>src/codegen/demorgan.go\<close>): negations are pushed to the
  leaves and constant operands absorbed.  \<open>simplifyBool\<close> and \<open>pushNotInward\<close> call each other on results of
  each other; they end because no rewrite adds a connective.  A node that the code builds without
  \<open>SetPos\<close> has the position \<open>noPos\<close>.  The dump of the rewrites (\<open>logDemorgan\<close>) is output only and left out;
  a warning of \<open>prepareBoolCond\<close> is part of its result.
\<close>

section \<open>Operators\<close>

definition isNotOp :: "string \<Rightarrow> bool" where
  "isNotOp s \<longleftrightarrow> s = ''!'' \<or> s = ''not''"

definition isAndOp :: "string \<Rightarrow> bool" where
  "isAndOp s \<longleftrightarrow> s = ''&&'' \<or> s = ''and''"

definition isOrOp :: "string \<Rightarrow> bool" where
  "isOrOp s \<longleftrightarrow> s = ''||'' \<or> s = ''or''"

definition negatedCmpOp :: "string \<Rightarrow> string" where
  "negatedCmpOp op =
     (if op = ''=='' then ''!='' else if op = ''!='' then ''=='' else if op = ''<'' then ''>='' else if op = ''<='' then ''>''
      else if op = ''>'' then ''<='' else if op = ''>='' then ''<'' else [])"

section \<open>Operands that are not floats\<close>

fun nonFloatLit :: "Node \<Rightarrow> bool" where
  "nonFloatLit (NLeaf _ (IntLit _ _)) = True"
| "nonFloatLit (NLeaf _ (BoolLit _)) = True"
| "nonFloatLit (NLeaf _ (CharLit _)) = True"
| "nonFloatLit (NLeaf _ (AtomLit _)) = True"
| "nonFloatLit (NLeaf _ (StringLit _)) = True"
| "nonFloatLit _ = False"

definition nonFloatTypeNames :: "string list" where
  "nonFloatTypeNames = [''i8'', ''i16'', ''i32'', ''i64'', ''i128'', ''u8'', ''u16'', ''u32'', ''u64'', ''u128'',
     ''bool'', ''byte'', ''char'', ''atom'', ''string'']"

fun castType :: "Node \<Rightarrow> TypeExpr option" where
  "castType (NExpr _ (AsExpr _ t)) = Some t"
| "castType _ = None"

function isNonFloatOperand :: "foldEnv \<Rightarrow> Node \<Rightarrow> bool" where
  "isNonFloatOperand cg n =
     (if nonFloatLit n then True
      else case asIdent n of
        Some _ \<Rightarrow> (case staticTypeOf cg n of Some t \<Rightarrow> \<not> isFloat t | None \<Rightarrow> False)
      | None \<Rightarrow>
        (case asUnary n of
           Some (_, e) \<Rightarrow> isNonFloatOperand cg e
         | None \<Rightarrow> (case castType n of Some (SimpleType name) \<Rightarrow> name \<in> set nonFloatTypeNames | _ \<Rightarrow> False)))"
  by pat_completeness auto
termination
  by (relation "measure (\<lambda>(cg, n). size n)") (auto dest: asUnary_size)

declare isNonFloatOperand.simps [simp del]

definition canSafelyNegateCmp :: "foldEnv \<Rightarrow> Node \<Rightarrow> Node \<Rightarrow> bool" where
  "canSafelyNegateCmp cg a b \<longleftrightarrow> isNonFloatOperand cg a \<and> isNonFloatOperand cg b"

text \<open>The connectives of the boolean skeleton, which no rewrite adds to.\<close>

function connectives :: "Node \<Rightarrow> nat" where
  "connectives e =
     (case asUnary e of
        Some (op, x) \<Rightarrow> if isNotOp op then connectives x else 0
      | None \<Rightarrow>
        (case asBin e of
           Some (l, op, r) \<Rightarrow> if isAndOp op \<or> isOrOp op then Suc (connectives l + connectives r) else 0
         | None \<Rightarrow> 0))"
  by pat_completeness auto
termination
  by (relation "measure size") (auto dest: asBin_size asUnary_size)

declare connectives.simps [simp del]

lemma connectives_simps [simp]:
  "connectives (NLeaf p a) = 0"
  "connectives (NExpr p (UnaryExpr op x b)) = (if isNotOp op then connectives x else 0)"
  "connectives (NExpr p (BinExpr l op r)) = (if isAndOp op \<or> isOrOp op then Suc (connectives l + connectives r) else 0)"
  by (subst connectives.simps, simp)+

section \<open>Rewriting\<close>

definition simplifyConnective :: "string \<Rightarrow> Node \<Rightarrow> Node \<Rightarrow> Node" where
  "simplifyConnective op left right =
     (if isAndOp op then
        case asBoolLit left of
          Some b \<Rightarrow> if b then right else left
        | None \<Rightarrow>
          (case asBoolLit right of
             Some b \<Rightarrow> if b then left else NExpr noPos (BinExpr left op right)
           | None \<Rightarrow> NExpr noPos (BinExpr left op right))
      else
        case asBoolLit left of
          Some b \<Rightarrow> if b then left else right
        | None \<Rightarrow>
          if asBoolLit right = Some False then left else NExpr noPos (BinExpr left op right))"

text \<open>The operator and the position of the original negation are all that \<open>pushNotInward\<close> reads of it.\<close>

function (sequential) simplifyBool :: "foldEnv \<Rightarrow> Node \<Rightarrow> Node"
  and pushNotInward :: "foldEnv \<Rightarrow> string \<Rightarrow> Pos \<Rightarrow> Node \<Rightarrow> Node" where
  "simplifyBool cg e =
     (case asUnary e of
        Some (op, x) \<Rightarrow> if \<not> isNotOp op then e else pushNotInward cg op (node_Pos e) (simplifyBool cg x)
      | None \<Rightarrow>
        (case asBin e of
           Some (l, op, r) \<Rightarrow>
             if isAndOp op \<or> isOrOp op then simplifyConnective op (simplifyBool cg l) (simplifyBool cg r) else e
         | None \<Rightarrow> e))"
| "pushNotInward cg op p inner =
     (case asBoolLit inner of
        Some b \<Rightarrow> NLeaf noPos (BoolLit (\<not> b))
      | None \<Rightarrow>
        (case asUnary inner of
           Some (op', x) \<Rightarrow> if isNotOp op' then x else NExpr noPos (UnaryExpr op inner False)
         | None \<Rightarrow>
           (case asBin inner of
              Some (l, op', r) \<Rightarrow>
                if negatedCmpOp op' \<noteq> [] \<and> canSafelyNegateCmp cg l r
                then NExpr (node_Pos inner) (BinExpr l (negatedCmpOp op') r)
                else if isAndOp op' \<or> isOrOp op' then
                  NExpr p (BinExpr (simplifyBool cg (NExpr p (UnaryExpr op l False)))
                    (if isOrOp op' then ''&&'' else ''||'')
                    (simplifyBool cg (NExpr p (UnaryExpr op r False))))
                else NExpr noPos (UnaryExpr op inner False)
            | None \<Rightarrow> NExpr noPos (UnaryExpr op inner False))))"
  by pat_completeness auto

subsection \<open>Termination\<close>

lemma connectives_connective: "connectives (simplifyConnective op l r) \<le> Suc (connectives l + connectives r)"
  by (simp add: simplifyConnective_def split: option.split)

lemma negated_not_connective: "negatedCmpOp op \<noteq> [] \<Longrightarrow> \<not> isAndOp (negatedCmpOp op) \<and> \<not> isOrOp (negatedCmpOp op)"
  by (simp add: negatedCmpOp_def isAndOp_def isOrOp_def split: if_splits)

lemma connective_ops: "isAndOp ''&&'' \<and> isOrOp ''||'' \<and> \<not> isOrOp ''&&'' \<and> \<not> isAndOp ''||''"
  by (simp add: isAndOp_def isOrOp_def)

lemma asUnary_eq: "asUnary e = Some (op, x) \<Longrightarrow> \<exists>p b. e = NExpr p (UnaryExpr op x b)"
  by (cases e rule: asUnary.cases) auto

lemma asBin_eq: "asBin e = Some (l, op, r) \<Longrightarrow> \<exists>p. e = NExpr p (BinExpr l op r)"
  by (cases e rule: asBin.cases) auto

lemma asBoolLit_eq: "asBoolLit e = Some b \<Longrightarrow> \<exists>p. e = NLeaf p (BoolLit b)"
  by (cases e rule: asBoolLit.cases) auto

lemma connectives_le:
  "simplifyBool_pushNotInward_dom (Inl (cg, e)) \<Longrightarrow> connectives (simplifyBool cg e) \<le> connectives e"
  "simplifyBool_pushNotInward_dom (Inr (cg, op, p, i)) \<Longrightarrow> isNotOp op \<Longrightarrow> connectives (pushNotInward cg op p i) \<le> connectives i"
proof (induction cg e and cg op p i rule: simplifyBool_pushNotInward.pinduct)
  case (1 cg e)
  show ?case
  proof (cases "asUnary e")
    case (Some ox)
    then obtain op x where u: "asUnary e = Some (op, x)" by (cases ox) auto
    then have c: "connectives e = (if isNotOp op then connectives x else 0)" using asUnary_eq [OF u] by auto
    show ?thesis
    proof (cases "isNotOp op")
      case True
      have "connectives (pushNotInward cg op (node_Pos e) (simplifyBool cg x)) \<le> connectives (simplifyBool cg x)"
        using 1(5) [OF u refl] True by simp
      also have "\<dots> \<le> connectives x" using 1(4) [OF u refl] True by simp
      finally show ?thesis using True u c by (simp add: simplifyBool.psimps [OF 1(1)])
    next
      case False
      then show ?thesis using u by (simp add: simplifyBool.psimps [OF 1(1)])
    qed
  next
    case None
    show ?thesis
    proof (cases "asBin e")
      case (Some lor)
      then obtain l op r where b: "asBin e = Some (l, op, r)" by (cases lor) auto
      then have c: "connectives e = (if isAndOp op \<or> isOrOp op then Suc (connectives l + connectives r) else 0)"
        using asBin_eq [OF b] by auto
      show ?thesis
      proof (cases "isAndOp op \<or> isOrOp op")
        case True
        have "connectives (simplifyBool cg l) \<le> connectives l" "connectives (simplifyBool cg r) \<le> connectives r"
          using 1(2,3) [OF None b refl refl True] by auto
        then show ?thesis using None b c True connectives_connective [of op "simplifyBool cg l" "simplifyBool cg r"]
          by (simp add: simplifyBool.psimps [OF 1(1)])
      next
        case False
        then show ?thesis using None b by (simp add: simplifyBool.psimps [OF 1(1)])
      qed
    next
      case n: None
      then show ?thesis using None by (simp add: simplifyBool.psimps [OF 1(1)])
    qed
  qed
next
  case (2 cg op p i)
  note ps = pushNotInward.psimps [OF 2(1)]
  show ?case
  proof (cases "asBoolLit i")
    case (Some b)
    then show ?thesis by (simp add: ps)
  next
    case nb: None
    show ?thesis
    proof (cases "asUnary i")
      case (Some ox)
      then obtain op' x where u: "asUnary i = Some (op', x)" by (cases ox) auto
      from asUnary_eq [OF u] show ?thesis using nb u 2(4) by (auto simp: ps)
    next
      case nu: None
      show ?thesis
      proof (cases "asBin i")
        case None
        then show ?thesis using nb nu 2(4) by (simp add: ps)
      next
        case (Some lor)
        then obtain l op' r where b: "asBin i = Some (l, op', r)" by (cases lor) auto
        then obtain q where q: "i = NExpr q (BinExpr l op' r)" using asBin_eq by blast
        consider "negatedCmpOp op' \<noteq> [] \<and> canSafelyNegateCmp cg l r"
          | "\<not> (negatedCmpOp op' \<noteq> [] \<and> canSafelyNegateCmp cg l r)" "isAndOp op' \<or> isOrOp op'"
          | "\<not> (negatedCmpOp op' \<noteq> [] \<and> canSafelyNegateCmp cg l r)" "\<not> (isAndOp op' \<or> isOrOp op')" by blast
        then show ?thesis
        proof cases
          case 1
          then show ?thesis using nb nu b negated_not_connective [of op'] by (simp add: ps)
        next
          case c: 2
          have "connectives (simplifyBool cg (NExpr p (UnaryExpr op l False))) \<le> connectives l"
              "connectives (simplifyBool cg (NExpr p (UnaryExpr op r False))) \<le> connectives r"
            using 2(2,3) [OF nb nu b refl refl c] 2(4) by auto
          moreover have "connectives i = Suc (connectives l + connectives r)" using q c(2) by simp
          ultimately show ?thesis using nb nu b connective_ops by (simp add: ps if_not_P [OF c(1)] if_P [OF c(2)] del: de_Morgan_conj)
        next
          case c: 3
          have "connectives i = 0" using q c(2) by simp
          then show ?thesis using nb nu b 2(4) by (simp add: ps if_not_P [OF c(1)] if_not_P [OF c(2)] del: de_Morgan_conj)
        qed
      qed
    qed
  qed
qed

termination simplifyBool
proof (relation "inv_image (less_than <*lex*> less_than)
    (\<lambda>a. case a of Inl (cg, e) \<Rightarrow> (connectives e, Suc (size e)) | Inr (cg, op, p, i) \<Rightarrow> (connectives i, 0))", goal_cases)
  case 1
  show ?case by (intro wf_inv_image wf_lex_prod wf_less_than)
next
  case (2 cg e lr l or op r)
  then show ?case using asBin_eq [of e l op r] by auto
next
  case (3 cg e lr l or op r)
  then show ?case using asBin_eq [of e l op r] by auto
next
  case (4 cg e u op x)
  then show ?case using asUnary_eq [of e op x] by auto
next
  case (5 cg e u op x)
  then show ?case using asUnary_eq [of e op x] connectives_le(1) [of cg x] by auto
next
  case (6 cg op p i lr l or op' r)
  then show ?case using asBin_eq [of i l op' r] by (auto split: if_splits)
next
  case (7 cg op p i lr l or op' r)
  then show ?case using asBin_eq [of i l op' r] by (auto split: if_splits)
qed

declare simplifyBool.simps [simp del] pushNotInward.simps [simp del]

subsection \<open>Equations and induction by shape\<close>

fun boolShape :: "Node \<Rightarrow> bool" where
  "boolShape (NExpr _ (UnaryExpr op _ _)) = isNotOp op"
| "boolShape (NExpr _ (BinExpr _ op _)) = (isAndOp op \<or> isOrOp op)"
| "boolShape _ = False"

lemma simplifyBool_not [simp]:
  "isNotOp op \<Longrightarrow> simplifyBool cg (NExpr p (UnaryExpr op x b)) = pushNotInward cg op p (simplifyBool cg x)"
  by (simp add: simplifyBool.simps)

lemma simplifyBool_connective [simp]:
  "isAndOp op \<or> isOrOp op \<Longrightarrow> simplifyBool cg (NExpr p (BinExpr l op r)) = simplifyConnective op (simplifyBool cg l) (simplifyBool cg r)"
  by (simp add: simplifyBool.simps [of cg "NExpr p (BinExpr l op r)"])

lemma simplifyBool_atom: "\<not> boolShape e \<Longrightarrow> simplifyBool cg e = e"
  by (cases e rule: boolShape.cases) (auto simp: simplifyBool.simps)

lemma boolShape_cases [case_names atom negation connective]:
  assumes "\<not> boolShape e \<Longrightarrow> P"
    and "\<And>p op x b. e = NExpr p (UnaryExpr op x b) \<Longrightarrow> isNotOp op \<Longrightarrow> P"
    and "\<And>p l op r. e = NExpr p (BinExpr l op r) \<Longrightarrow> isAndOp op \<or> isOrOp op \<Longrightarrow> P"
  shows P
  using assms by (cases e rule: boolShape.cases) auto

text \<open>What the result of \<open>pushNotInward\<close> looks like.\<close>

lemma push_cases [consumes 1, case_names literal double negate demorgan keep]:
  assumes "isNotOp op"
    and "\<And>q b. i = NLeaf q (BoolLit b) \<Longrightarrow> pushNotInward cg op p i = NLeaf noPos (BoolLit (\<not> b)) \<Longrightarrow> P"
    and "\<And>q op' x b. i = NExpr q (UnaryExpr op' x b) \<Longrightarrow> isNotOp op' \<Longrightarrow> pushNotInward cg op p i = x \<Longrightarrow> P"
    and "\<And>q l op' r. i = NExpr q (BinExpr l op' r) \<Longrightarrow> negatedCmpOp op' \<noteq> [] \<Longrightarrow> canSafelyNegateCmp cg l r \<Longrightarrow>
      pushNotInward cg op p i = NExpr q (BinExpr l (negatedCmpOp op') r) \<Longrightarrow> P"
    and "\<And>q l op' r. i = NExpr q (BinExpr l op' r) \<Longrightarrow> isAndOp op' \<or> isOrOp op' \<Longrightarrow>
      pushNotInward cg op p i = NExpr p (BinExpr (simplifyBool cg (NExpr p (UnaryExpr op l False)))
        (if isOrOp op' then ''&&'' else ''||'') (simplifyBool cg (NExpr p (UnaryExpr op r False)))) \<Longrightarrow> P"
    and "\<not> boolShape i \<Longrightarrow> asBoolLit i = None \<Longrightarrow>
      (\<And>l op' r. asBin i = Some (l, op', r) \<Longrightarrow> negatedCmpOp op' = [] \<or> \<not> canSafelyNegateCmp cg l r) \<Longrightarrow>
      pushNotInward cg op p i = NExpr noPos (UnaryExpr op i False) \<Longrightarrow> P"
  shows P
proof (cases "asBoolLit i")
  case (Some b)
  then show ?thesis using assms(2) asBoolLit_eq [OF Some] by (auto simp: pushNotInward.simps)
next
  case nb: None
  show ?thesis
  proof (cases i rule: boolShape.cases)
    case (1 q op' x b)
    then show ?thesis using assms(3,6) nb by (cases "isNotOp op'") (simp_all add: pushNotInward.simps)
  next
    case (2 q l op' r)
    consider "negatedCmpOp op' \<noteq> [] \<and> canSafelyNegateCmp cg l r"
      | "\<not> (negatedCmpOp op' \<noteq> [] \<and> canSafelyNegateCmp cg l r)" "isAndOp op' \<or> isOrOp op'"
      | "\<not> (negatedCmpOp op' \<noteq> [] \<and> canSafelyNegateCmp cg l r)" "\<not> (isAndOp op' \<or> isOrOp op')" by blast
    then show ?thesis
    proof cases
      case c: 1
      then show ?thesis using assms(4) [OF 2] 2 by (simp add: pushNotInward.simps)
    next
      case c: 2
      have "pushNotInward cg op p i = NExpr p (BinExpr (simplifyBool cg (NExpr p (UnaryExpr op l False)))
          (if isOrOp op' then ''&&'' else ''||'') (simplifyBool cg (NExpr p (UnaryExpr op r False))))"
        unfolding pushNotInward.simps [of cg op p i]
        by (simp only: 2 asBoolLit.simps asUnary.simps asBin.simps option.case prod.case if_not_P [OF c(1)] if_P [OF c(2)])
      then show ?thesis by (rule assms(5) [OF 2 c(2)])
    next
      case c: 3
      then show ?thesis using assms(6) 2 by (simp add: pushNotInward.simps)
    qed
  qed (use assms(6) nb in \<open>simp_all add: pushNotInward.simps\<close>)
qed

section \<open>Conditions with effects\<close>

text \<open>
  The meaning of a condition as a state transformer: evaluation may change a state (calls, assignments in
  callees), connectives short-circuit, and everything that is not a literal, a negation or a connective is an
  atom whose meaning \<open>A\<close> is arbitrary.
\<close>

function bsem :: "(Node \<Rightarrow> 's \<Rightarrow> bool \<times> 's) \<Rightarrow> Node \<Rightarrow> 's \<Rightarrow> bool \<times> 's" where
  "bsem A e s =
     (case asBoolLit e of
        Some b \<Rightarrow> (b, s)
      | None \<Rightarrow>
        (case asUnary e of
           Some (op, x) \<Rightarrow> if isNotOp op then (case bsem A x s of (b, t) \<Rightarrow> (\<not> b, t)) else A e s
         | None \<Rightarrow>
           (case asBin e of
              Some (l, op, r) \<Rightarrow>
                if isAndOp op then (case bsem A l s of (b, t) \<Rightarrow> if b then bsem A r t else (False, t))
                else if isOrOp op then (case bsem A l s of (b, t) \<Rightarrow> if b then (True, t) else bsem A r t)
                else A e s
            | None \<Rightarrow> A e s)))"
  by pat_completeness auto
termination
  by (relation "measure (\<lambda>(A, e, s). size e)") (auto dest: asBin_size asUnary_size)

declare bsem.simps [simp del]

lemma bsem_lit [simp]: "bsem A (NLeaf p (BoolLit b)) s = (b, s)"
  by (simp add: bsem.simps)

lemma bsem_not [simp]: "isNotOp op \<Longrightarrow> bsem A (NExpr p (UnaryExpr op x c)) s = (case bsem A x s of (b, t) \<Rightarrow> (\<not> b, t))"
  by (subst bsem.simps) simp

lemma bsem_and [simp]:
  "isAndOp op \<Longrightarrow> bsem A (NExpr p (BinExpr l op r)) s = (case bsem A l s of (b, t) \<Rightarrow> if b then bsem A r t else (False, t))"
  by (subst bsem.simps) simp

lemma bsem_or [simp]:
  "isOrOp op \<Longrightarrow> bsem A (NExpr p (BinExpr l op r)) s = (case bsem A l s of (b, t) \<Rightarrow> if b then (True, t) else bsem A r t)"
  by (subst bsem.simps) (auto simp: isOrOp_def isAndOp_def)

lemma bsem_cmp: "negatedCmpOp op \<noteq> [] \<Longrightarrow> bsem A (NExpr p (BinExpr l op r)) s = A (NExpr p (BinExpr l op r)) s"
  by (subst bsem.simps) (auto simp: negatedCmpOp_def isOrOp_def isAndOp_def split: if_splits)

lemma negatedCmp_twice: "negatedCmpOp op \<noteq> [] \<Longrightarrow> negatedCmpOp (negatedCmpOp op) \<noteq> []"
  by (auto simp: negatedCmpOp_def split: if_splits)

lemma bsem_asBoolLit: "asBoolLit e = Some b \<Longrightarrow> bsem A e s = (b, s)"
  using asBoolLit_eq [of e b] by auto

lemma bsem_connective:
  assumes "isAndOp op \<or> isOrOp op"
  shows "bsem A (simplifyConnective op l r) s = bsem A (NExpr p (BinExpr l op r)) s"
  using assms
  by (cases "bsem A l s"; cases "isAndOp op")
    (auto simp: simplifyConnective_def bsem_asBoolLit split: option.split)

text \<open>What the rewrite of a comparison relies on: negating the operator negates the result.\<close>

definition cmp_negates :: "foldEnv \<Rightarrow> (Node \<Rightarrow> 's \<Rightarrow> bool \<times> 's) \<Rightarrow> bool" where
  "cmp_negates cg A \<longleftrightarrow> (\<forall>p l op r s. negatedCmpOp op \<noteq> [] \<and> canSafelyNegateCmp cg l r \<longrightarrow>
     A (NExpr p (BinExpr l (negatedCmpOp op) r)) s = (case A (NExpr p (BinExpr l op r)) s of (b, t) \<Rightarrow> (\<not> b, t)))"

lemma bsem_simplify:
  fixes A :: "Node \<Rightarrow> 's \<Rightarrow> bool \<times> 's"
  shows "cmp_negates cg A \<Longrightarrow> bsem A (simplifyBool cg e) s = bsem A e s"
    and "cmp_negates cg A \<Longrightarrow> isNotOp op \<Longrightarrow> bsem A (pushNotInward cg op p i) s = (case bsem A i s of (b, t) \<Rightarrow> (\<not> b, t))"
proof (induction cg e and cg op p i arbitrary: s and s rule: simplifyBool_pushNotInward.induct)
  case (1 cg e)
  show ?case
  proof (cases e rule: boolShape_cases)
    case atom
    then show ?thesis by (simp add: simplifyBool_atom)
  next
    case (negation p op x b)
    then show ?thesis using 1(3) [of "(op, x)"] 1(4) [of "(op, x)"] 1(5) by simp
  next
    case (connective p l op r)
    have "bsem A (simplifyBool cg l) t = bsem A l t" "bsem A (simplifyBool cg r) t = bsem A r t" for t
      using 1(1) [of "(l, op, r)"] 1(2) [of "(l, op, r)"] 1(5) connective by auto
    then show ?thesis using connective bsem_connective [of op A "simplifyBool cg l" "simplifyBool cg r" s p] by (cases "isAndOp op") (auto split: prod.split)
  qed
next
  case (2 cg op p i)
  from 2(4) show ?case
  proof (cases rule: push_cases [where i = i and cg = cg and p = p])
    case (demorgan q l op' r)
    have n: "\<not> (negatedCmpOp op' \<noteq> [] \<and> canSafelyNegateCmp cg l r)"
      using demorgan(2) by (auto simp: negatedCmpOp_def isAndOp_def isOrOp_def)
    have "bsem A (simplifyBool cg (NExpr p (UnaryExpr op x False))) t = (case bsem A x t of (b, u) \<Rightarrow> (\<not> b, u))"
      if "x = l \<or> x = r" for x t
      using 2(1) [of "(l, op', r)" l "(op', r)" op' r] 2(2) [of "(l, op', r)" l "(op', r)" op' r] 2(3,4) demorgan(1,2) n that by auto
    then show ?thesis using demorgan 2(4) connective_ops
      by (cases "isOrOp op'") (auto split: prod.splits)
  next
    case (negate q l op' r)
    then show ?thesis using 2(3) negatedCmp_twice [of op'] by (simp add: bsem_cmp cmp_negates_def)
  next
    case (double q op' x b)
    then show ?thesis by (cases "bsem A x s") simp
  qed (use 2(4) in simp_all)
qed

section \<open>Normal form\<close>

text \<open>Negation only above atoms that cannot absorb it.\<close>

definition stuck :: "foldEnv \<Rightarrow> Node \<Rightarrow> bool" where
  "stuck cg x \<longleftrightarrow> \<not> boolShape x \<and> asBoolLit x = None \<and>
     (case asBin x of Some (l, op, r) \<Rightarrow> negatedCmpOp op = [] \<or> \<not> canSafelyNegateCmp cg l r | None \<Rightarrow> True)"

function nnf :: "foldEnv \<Rightarrow> Node \<Rightarrow> bool" where
  "nnf cg e =
     (case asUnary e of
        Some (op, x) \<Rightarrow> isNotOp op \<longrightarrow> stuck cg x
      | None \<Rightarrow>
        (case asBin e of
           Some (l, op, r) \<Rightarrow> isAndOp op \<or> isOrOp op \<longrightarrow> nnf cg l \<and> nnf cg r
         | None \<Rightarrow> True))"
  by pat_completeness auto
termination
  by (relation "measure (\<lambda>(cg, e). size e)") (auto dest: asBin_size)

declare nnf.simps [simp del]

lemma nnf_simps [simp]:
  "nnf cg (NLeaf p a)"
  "nnf cg (NExpr p (UnaryExpr op x b)) \<longleftrightarrow> (isNotOp op \<longrightarrow> stuck cg x)"
  "nnf cg (NExpr p (BinExpr l op r)) \<longleftrightarrow> (isAndOp op \<or> isOrOp op \<longrightarrow> nnf cg l \<and> nnf cg r)"
  by (subst nnf.simps, simp)+

lemma nnf_atom: "\<not> boolShape e \<Longrightarrow> nnf cg e"
  by (subst nnf.simps) (cases e rule: boolShape.cases, auto)

lemma nnf_connective: "nnf cg l \<Longrightarrow> nnf cg r \<Longrightarrow> nnf cg (simplifyConnective op l r)"
  by (simp add: simplifyConnective_def split: option.split)

lemma nnf_simplify:
  shows "nnf cg (simplifyBool cg e)"
    and "isNotOp op \<Longrightarrow> nnf cg i \<Longrightarrow> nnf cg (pushNotInward cg op p i)"
proof (induction cg e and cg op p i rule: simplifyBool_pushNotInward.induct)
  case (1 cg e)
  show ?case
  proof (cases e rule: boolShape_cases)
    case atom
    then show ?thesis by (simp add: simplifyBool_atom nnf_atom)
  next
    case (negation p op x b)
    then show ?thesis using 1(3) [of "(op, x)"] 1(4) [of "(op, x)"] by simp
  next
    case (connective p l op r)
    then show ?thesis using 1(1) [of "(l, op, r)"] 1(2) [of "(l, op, r)"] by (auto intro: nnf_connective)
  qed
next
  case (2 cg op p i)
  note not_op = 2(3)
  from not_op show ?case
  proof (cases rule: push_cases [where i = i and cg = cg and p = p])
    case (demorgan q l op' r)
    have n: "\<not> (negatedCmpOp op' \<noteq> [] \<and> canSafelyNegateCmp cg l r)"
      using demorgan(2) by (auto simp: negatedCmpOp_def isAndOp_def isOrOp_def)
    show ?thesis
      using 2(1) [of "(l, op', r)" l "(op', r)" op' r] 2(2) [of "(l, op', r)" l "(op', r)" op' r] demorgan n by auto
  next
    case (negate q l op' r)
    then show ?thesis using negated_not_connective [of op'] by simp
  next
    case (double q op' x b)
    then show ?thesis using 2(4) by (simp add: stuck_def nnf_atom)
  next
    case keep
    then show ?thesis by (auto simp: stuck_def split: option.split)
  qed (use 2(3) in simp_all)
qed

section \<open>Conditions of statements\<close>

function firstPos :: "Node \<Rightarrow> Pos" where
  "firstPos n =
     (if Line (node_Pos n) \<noteq> 0 then node_Pos n
      else case asBin n of
        Some (l, _, r) \<Rightarrow> if Line (firstPos l) \<noteq> 0 then firstPos l else firstPos r
      | None \<Rightarrow> (case asUnary n of Some (_, e) \<Rightarrow> firstPos e | None \<Rightarrow> noPos))"
  by pat_completeness auto
termination
  by (relation "measure size") (auto dest: asBin_size asUnary_size)

declare firstPos.simps [simp del]

fun isTypeof :: "Node \<Rightarrow> bool" where
  "isTypeof (NExpr _ (TypeofExpr _)) = True"
| "isTypeof _ = False"

text \<open>Follows identifiers as \<open>tryFoldExpr\<close> does, with fuel.\<close>

fun condInvolvesTypeof :: "nat \<Rightarrow> foldEnv \<Rightarrow> Node \<Rightarrow> bool option" where
  "condInvolvesTypeof 0 cg n = None"
| "condInvolvesTypeof (Suc k) cg n =
     (if isTypeof n then Some True
      else case asBin n of
        Some (l, _, r) \<Rightarrow> do { b \<leftarrow> condInvolvesTypeof k cg l; if b then Some True else condInvolvesTypeof k cg r }
      | None \<Rightarrow>
        (case asUnary n of
           Some (_, e) \<Rightarrow> condInvolvesTypeof k cg e
         | None \<Rightarrow>
           (case asIdent n of
              None \<Rightarrow> Some False
            | Some x \<Rightarrow>
              (case lookup (curScope cg) x of
                 None \<Rightarrow> Some False
               | Some entry \<Rightarrow>
                 (case constInitExpr entry of None \<Rightarrow> Some False | Some e \<Rightarrow> condInvolvesTypeof k cg e)))))"

text \<open>The warning ``condition is always true/false'': its position, the value and the label of the statement.\<close>

type_synonym boolWarning = "Pos \<times> bool \<times> string"

definition prepareBoolCond :: "nat \<Rightarrow> foldEnv \<Rightarrow> Node \<Rightarrow> string \<Rightarrow> bool \<Rightarrow> (Node \<times> boolWarning list) option" where
  "prepareBoolCond k cg e loc allowBareTrueLoop =
     (let simp = simplifyBool cg e in
      do {
        (v, ok) \<leftarrow> boolCondConstResult k cg simp;
        if \<not> ok then Some (simp, [])
        else if allowBareTrueLoop \<and> asBoolLit e = Some True then Some (simp, [])
        else do {
          t \<leftarrow> condInvolvesTypeof k cg e;
          if t then Some (simp, [])
          else
            let pos = (if Line (firstPos simp) = 0 then firstPos e else firstPos simp) in
            Some (simp, [(pos, v, loc)])
        }
      })"

definition prepareGuard :: "nat \<Rightarrow> foldEnv \<Rightarrow> string \<Rightarrow> Node option \<Rightarrow> (Node option \<times> boolWarning list) option" where
  "prepareGuard k cg loc g =
     (case g of
        None \<Rightarrow> Some (None, [])
      | Some e \<Rightarrow> do { (e', ws) \<leftarrow> prepareBoolCond k cg e loc False; Some (Some e', ws) })"

fun prepareMatchGuards :: "nat \<Rightarrow> foldEnv \<Rightarrow> Node MatchCase list \<Rightarrow> (Node MatchCase list \<times> boolWarning list) option" where
  "prepareMatchGuards k cg [] = Some ([], [])"
| "prepareMatchGuards k cg (MatchCase p pat vn vt g b # cs) =
     do { (g', ws) \<leftarrow> prepareGuard k cg ''match guard'' g;
          (cs', ws') \<leftarrow> prepareMatchGuards k cg cs;
          Some (MatchCase p pat vn vt g' b # cs', ws @ ws') }"

fun prepareWhereGuards :: "nat \<Rightarrow> foldEnv \<Rightarrow> Node WhereClause list \<Rightarrow> (Node WhereClause list \<times> boolWarning list) option" where
  "prepareWhereGuards k cg [] = Some ([], [])"
| "prepareWhereGuards k cg (WhereClause p c pat g b # cs) =
     do { (g', ws) \<leftarrow> prepareGuard k cg ''where guard'' g;
          (cs', ws') \<leftarrow> prepareWhereGuards k cg cs;
          Some (WhereClause p c pat g' b # cs', ws @ ws') }"

fun prepareAwaitMatchGuards :: "nat \<Rightarrow> foldEnv \<Rightarrow> Node AwaitMatchCase list \<Rightarrow> (Node AwaitMatchCase list \<times> boolWarning list) option" where
  "prepareAwaitMatchGuards k cg [] = Some ([], [])"
| "prepareAwaitMatchGuards k cg (AwaitMatchCase p slot bn g b # cs) =
     do { (g', ws) \<leftarrow> prepareGuard k cg ''await guard'' g;
          (cs', ws') \<leftarrow> prepareAwaitMatchGuards k cg cs;
          Some (AwaitMatchCase p slot bn g' b # cs', ws @ ws') }"

section \<open>Folded conditions\<close>

text \<open>What folding relies on: an atom that folds to a boolean has that value, without effects.\<close>

definition folds_right :: "foldEnv \<Rightarrow> (Node \<Rightarrow> 's \<Rightarrow> bool \<times> 's) \<Rightarrow> bool" where
  "folds_right cg A \<longleftrightarrow> (\<forall>k e b s. \<not> boolShape e \<and> asBoolLit e = None \<and> tryFoldExpr k cg e = Some (foldBool b) \<longrightarrow> A e s = (b, s))"

lemma negated_eq: "(case v of foldBool b \<Rightarrow> foldBool (\<not> b) | _ \<Rightarrow> foldUnknown) = foldBool c \<longleftrightarrow> v = foldBool (\<not> c)"
  by (cases v) auto

lemma constResult_eq: "(case v of foldBool b \<Rightarrow> (b, True) | _ \<Rightarrow> (False, False)) = (c, True) \<longleftrightarrow> v = foldBool c"
  by (cases v) auto

lemma bsem_atom: "\<not> boolShape e \<Longrightarrow> asBoolLit e = None \<Longrightarrow> bsem A e s = A e s"
  by (subst bsem.simps) (cases e rule: boolShape.cases, auto)

lemma foldBin_and:
  assumes "isAndOp op" and "tryFoldBinExpr f l op r = Some (foldBool b)"
  shows "(f l = Some (foldBool False) \<and> \<not> b) \<or> (\<exists>x y. f l = Some (foldBool x) \<and> f r = Some (foldBool y) \<and> b = (x \<and> y))"
proof (cases "f l")
  case None
  then show ?thesis using assms by (auto simp: isAndOp_def tryFoldBinExpr_def)
next
  case (Some v)
  then show ?thesis using assms by (cases v; cases "f r"; cases "the (f r)") (auto simp: isAndOp_def tryFoldBinExpr_def split: if_split_asm)
qed

lemma foldBin_or:
  assumes "isOrOp op" and "tryFoldBinExpr f l op r = Some (foldBool b)"
  shows "(f l = Some (foldBool True) \<and> b) \<or> (\<exists>x y. f l = Some (foldBool x) \<and> f r = Some (foldBool y) \<and> b = (x \<or> y))"
proof (cases "f l")
  case None
  then show ?thesis using assms by (auto simp: isOrOp_def tryFoldBinExpr_def)
next
  case (Some v)
  then show ?thesis using assms by (cases v; cases "f r"; cases "the (f r)") (auto simp: isOrOp_def tryFoldBinExpr_def split: if_split_asm)
qed

lemma foldBin_cmp:
  assumes "\<not> isAndOp op" and "\<not> isOrOp op" and "tryFoldBinExpr f l op r = Some (foldBool b)"
  shows "\<exists>v w. f l = Some v \<and> f r = Some w \<and> ((op = ''=='' \<and> foldEq v w = foldBool b) \<or> (op = ''!='' \<and> foldNeq v w = foldBool b))"
  using assms by (cases "f l"; cases "f r") (auto simp: isOrOp_def isAndOp_def tryFoldBinExpr_def split: if_split_asm)

lemma tryFold_bsem:
  assumes "folds_right cg A" and "tryFoldExpr k cg e = Some (foldBool b)"
  shows "bsem A e s = (b, s)"
  using assms(2)
proof (induction k arbitrary: e b)
  case (Suc k)
  show ?case
  proof (cases e rule: boolShape_cases)
    case atom
    show ?thesis
    proof (cases "asBoolLit e")
      case None
      then show ?thesis using atom assms(1) Suc.prems by (simp add: bsem_atom folds_right_def del: tryFoldExpr.simps)
    next
      case (Some c)
      with asBoolLit_eq [OF Some] Suc.prems show ?thesis by (auto simp: tryFoldExpr.simps(2))
    qed
  next
    case (negation p op x c)
    then show ?thesis using Suc
      by (auto simp: tryFold_shapes tryFoldUnaryExpr_def isNotOp_def bind_eq_Some_conv negated_eq split: if_splits)
  next
    case (connective p l op r)
    note f = Suc.prems [unfolded connective(1) tryFold_shapes]
    show ?thesis
    proof (cases "isAndOp op")
      case True
      from foldBin_and [OF True f] show ?thesis
        using True connective(1) Suc.IH [of l] Suc.IH [of r] by (auto split: if_splits)
    next
      case False
      with connective(2) have o: "isOrOp op" by simp
      from foldBin_or [OF o f] show ?thesis
        using o connective(1) Suc.IH [of l] Suc.IH [of r] by (auto split: if_splits)
    qed
  qed
qed simp

lemma warnAnd_bool:
  "warnAnd l ro = Some (foldBool b) \<Longrightarrow>
   (l = foldBool False \<and> \<not> b) \<or> (ro = Some (foldBool False) \<and> \<not> b) \<or>
   (\<exists>x y. l = foldBool x \<and> ro = Some (foldBool y) \<and> b = (x \<and> y))"
  by (cases l; cases ro; cases "the ro") (auto simp: warnAnd_def split: if_split_asm)

lemma warnOr_bool:
  "warnOr l ro = Some (foldBool b) \<Longrightarrow>
   (l = foldBool True \<and> b) \<or> (ro = Some (foldBool True) \<and> b) \<or>
   (\<exists>x y. l = foldBool x \<and> ro = Some (foldBool y) \<and> b = (x \<or> y))"
  by (cases l; cases ro; cases "the ro") (auto simp: warnOr_def split: if_split_asm)

lemma warning_bsem:
  assumes "folds_right cg A" and "tryFoldExprForWarning k cg e = Some (foldBool b)"
  shows "fst (bsem A e s) = b"
  using assms(2)
proof (induction "size e" arbitrary: e b s rule: less_induct)
  case less
  from less.prems obtain v where v: "tryFoldExpr k cg e = Some v"
    by (subst (asm) tryFoldExprForWarning.simps) (auto simp: bind_eq_Some_conv)
  show ?case
  proof (cases "v = foldUnknown")
    case False
    then have "v = foldBool b" using less.prems v by (subst (asm) tryFoldExprForWarning.simps) simp
    then show ?thesis using tryFold_bsem [OF assms(1)] v by simp
  next
    case True
    note w = less.prems [unfolded tryFoldExprForWarning.simps [of k cg e] v True]
    show ?thesis
    proof (cases e rule: boolShape_cases)
      case atom
      then show ?thesis using w by (cases e rule: boolShape.cases) (auto simp: isAndOp_def isOrOp_def isNotOp_def)
    next
      case (negation p op x c)
      then have "tryFoldExprForWarning k cg x = Some (foldBool (\<not> b))"
        using w by (auto simp: isNotOp_def bind_eq_Some_conv negated_eq)
      then have "fst (bsem A x s) = (\<not> b)" using less.hyps [of x] negation by simp
      then show ?thesis using negation by (auto split: prod.split)
    next
      case (connective p l op r)
      have IHl: "tryFoldExprForWarning k cg l = Some (foldBool c) \<Longrightarrow> fst (bsem A l t) = c" for c t
        using less.hyps [of l c t] connective(1) by simp
      have IHr: "tryFoldExprForWarning k cg r = Some (foldBool c) \<Longrightarrow> fst (bsem A r t) = c" for c t
        using less.hyps [of r c t] connective(1) by simp
      obtain c t where ct: "bsem A l s = (c, t)" by (cases "bsem A l s")
      show ?thesis
      proof (cases "isAndOp op")
        case True
        then obtain v where "tryFoldExprForWarning k cg l = Some v" "warnAnd v (tryFoldExprForWarning k cg r) = Some (foldBool b)"
          using w connective(1) by (auto simp: isAndOp_def bind_eq_Some_conv)
        with warnAnd_bool [of v _ b]
        consider "tryFoldExprForWarning k cg l = Some (foldBool False)" "\<not> b" | "tryFoldExprForWarning k cg r = Some (foldBool False)" "\<not> b"
          | x y where "tryFoldExprForWarning k cg l = Some (foldBool x)" "tryFoldExprForWarning k cg r = Some (foldBool y)" "b = (x \<and> y)"
          by blast
        then have "(c \<and> fst (bsem A r t)) = b"
          by cases (use ct IHl [of _ s] IHr [of _ t] in force)+
        then show ?thesis using True connective(1) ct by auto
      next
        case False
        then obtain v where "tryFoldExprForWarning k cg l = Some v" "warnOr v (tryFoldExprForWarning k cg r) = Some (foldBool b)"
          using w connective by (auto simp: isAndOp_def isOrOp_def bind_eq_Some_conv)
        with warnOr_bool [of v _ b]
        consider "tryFoldExprForWarning k cg l = Some (foldBool True)" b | "tryFoldExprForWarning k cg r = Some (foldBool True)" b
          | x y where "tryFoldExprForWarning k cg l = Some (foldBool x)" "tryFoldExprForWarning k cg r = Some (foldBool y)" "b = (x \<or> y)"
          by blast
        then have "(c \<or> fst (bsem A r t)) = b"
          by cases (use ct IHl [of _ s] IHr [of _ t] in force)+
        then show ?thesis using False connective ct by auto
      qed
    qed
  qed
qed

section \<open>Properties\<close>

definition emptyEnv :: foldEnv where
  "emptyEnv = \<lparr>mutatedNames = Some {}, curScope = [[]], tryEvalPureCall = (\<lambda>_. None)\<rparr>"

abbreviation intNode :: "int \<Rightarrow> Node" where
  "intNode v \<equiv> NLeaf noPos (IntLit v None)"

text \<open>A runtime for the witnesses: comparisons of constants, no other atoms, no effects.\<close>

definition litVal :: "Node \<Rightarrow> foldedValue" where
  "litVal n = (case tryFoldExpr (Suc (size n)) emptyEnv n of Some v \<Rightarrow> v | None \<Rightarrow> foldUnknown)"

definition litLess :: "foldedValue \<Rightarrow> foldedValue \<Rightarrow> bool" where
  "litLess a b = (case (a, b) of (foldInt i, foldInt j) \<Rightarrow> i < j | _ \<Rightarrow> False)"

definition litRuntime :: "Node \<Rightarrow> unit \<Rightarrow> bool \<times> unit" where
  "litRuntime e s =
     ((case asBin e of
         Some (l, op, r) \<Rightarrow>
           (if op = ''=='' then foldEq (litVal l) (litVal r) = foldBool True
            else if op = ''!='' then foldEq (litVal l) (litVal r) \<noteq> foldBool True
            else if op = ''<'' then litLess (litVal l) (litVal r) else if op = ''<='' then \<not> litLess (litVal r) (litVal l)
            else if op = ''>'' then litLess (litVal r) (litVal l) else if op = ''>='' then \<not> litLess (litVal l) (litVal r) else False)
       | None \<Rightarrow> False), s)"

lemma litRuntime_negates: "cmp_negates cg litRuntime"
  by (auto simp: cmp_negates_def litRuntime_def negatedCmpOp_def split: if_splits)

lemma emptyEnv_returns: "\<exists>v. tryFoldExpr (Suc (size n)) emptyEnv n = Some v"
proof (induction "size n" arbitrary: n rule: less_induct)
  case less
  have IH: "\<exists>v. tryFoldExpr m emptyEnv x = Some v" if "size x < m" "m \<le> size n" for x m
  proof -
    from less that obtain v where "tryFoldExpr (Suc (size x)) emptyEnv x = Some v" by (meson order_less_le_trans)
    with that show ?thesis using tryFold_mono [of "Suc (size x)" m] by auto
  qed
  show ?case
  proof (cases "recursiveShape n")
    case False
    from tryFold_flat [OF this, of emptyEnv] show ?thesis by auto
  next
    case True
    then show ?thesis
    proof (cases n rule: recursiveShape.cases)
      case (1 p x)
      then show ?thesis by (simp add: tryFold_shapes tryFoldIdent_def emptyEnv_def)
    next
      case (2 p l op r)
      then obtain v w where "tryFoldExpr (size n) emptyEnv l = Some v" "tryFoldExpr (size n) emptyEnv r = Some w"
        using IH [of l "size n"] IH [of r "size n"] by auto
      then show ?thesis unfolding 2 tryFold_shapes tryFoldBinExpr_def by simp
    next
      case (3 p op e b)
      then obtain v where "tryFoldExpr (size n) emptyEnv e = Some v"
        using IH [of e "size n"] by auto
      then show ?thesis unfolding 3 tryFold_shapes tryFoldUnaryExpr_def by simp
    qed auto
  qed
qed

lemma litVal_eq: "tryFoldExpr k emptyEnv n = Some v \<Longrightarrow> litVal n = v"
proof -
  assume a: "tryFoldExpr k emptyEnv n = Some v"
  obtain w where w: "tryFoldExpr (Suc (size n)) emptyEnv n = Some w" using emptyEnv_returns by blast
  have "tryFoldExpr (max k (Suc (size n))) emptyEnv n = Some v" "tryFoldExpr (max k (Suc (size n))) emptyEnv n = Some w"
    by (rule tryFold_mono [OF _ a], simp, rule tryFold_mono [OF _ w], simp)
  then have "v = w" by simp
  then show ?thesis using w by (simp add: litVal_def)
qed

lemma foldNeq_eq: "foldNeq a b = foldBool c \<Longrightarrow> c = (foldEq a b \<noteq> foldBool True)"
  by (cases a; cases b) auto

lemma emptyEnv_unknown:
  "tryFoldIdent f emptyEnv x = Some foldUnknown" "tryFoldTypeof emptyEnv e = foldUnknown" "tryFoldPureCall emptyEnv n = foldUnknown"
  by (simp_all add: tryFoldIdent_def emptyEnv_def tryFoldTypeof_def staticTypeOf_def tryFoldPureCall_def split: option.split)

lemma litRuntime_folds: "folds_right emptyEnv litRuntime"
  unfolding folds_right_def
proof (intro allI impI, elim conjE)
  fix k e b s
  assume a: "\<not> boolShape e" "asBoolLit e = None" and t: "tryFoldExpr k emptyEnv e = Some (foldBool b)"
  obtain m where k: "k = Suc m" using t by (cases k) auto
  show "litRuntime e s = (b, s)"
  proof (cases e rule: boolShape.cases)
    case (2 p l op r)
    have "tryFoldBinExpr (tryFoldExpr m emptyEnv) l op r = Some (foldBool b)" using t 2 k by (simp add: tryFold_shapes)
    from foldBin_cmp [OF _ _ this] obtain v w where vw: "tryFoldExpr m emptyEnv l = Some v" "tryFoldExpr m emptyEnv r = Some w"
        and c: "(op = ''=='' \<and> foldEq v w = foldBool b) \<or> (op = ''!='' \<and> foldNeq v w = foldBool b)"
      using a(1) 2 by auto
    have "litRuntime e s = (if op = ''=='' then foldEq v w = foldBool True else foldEq v w \<noteq> foldBool True, s)"
      unfolding 2 litRuntime_def asBin.simps option.case prod.case litVal_eq [OF vw(1)] litVal_eq [OF vw(2)]
      using c by auto
    then show ?thesis using c foldNeq_eq [of v w b] by (elim disjE) simp_all
  next
    case (1 p op x c)
    then show ?thesis using a t k by (simp add: tryFold_shapes tryFoldUnaryExpr_def isNotOp_def)
  qed (use a t k in \<open>simp_all add: tryFoldExpr.simps(2) emptyEnv_unknown split: Leaf.split_asm if_split_asm\<close>)
qed


text \<open>\<open>!(1 < 2 && !(3 == 3))\<close>.\<close>

definition sampleCond :: Node where
  "sampleCond = NExpr noPos (UnaryExpr ''!'' (NExpr noPos (BinExpr (NExpr noPos (BinExpr (intNode 1) ''<'' (intNode 2))) ''&&''
     (NExpr noPos (UnaryExpr ''!'' (NExpr noPos (BinExpr (intNode 3) ''=='' (intNode 3))) False)))) False)"


text \<open>C19.  The simplified condition is in negation normal form: below connectives a negation stands only above an
  atom that is no literal, no negation, no connective and no comparison that can be negated safely.\<close>

theorem simplifyBool_nnf: "nnf cg (simplifyBool cg e)"
  by (rule nnf_simplify(1))



end
