(* ===== verification/TinAndersen.thy ===== *)
theory TinAndersen
  imports TinFold "HOL-Library.AList"
begin

text \<open>
  Inclusion-based points-to analysis (\<^verbatim>\<open>src/codegen/andersen.go\<close>): constraints from the
  function bodies, the solver, and the two questions that are asked of the solution.

  A points-to map is the list of its pairs of a variable and a token, without repetition.  The maps that
  the code ranges over are association lists; the solution does not depend on their order.
\<close>

section \<open>Functions\<close>

type_synonym fdecl = "Node FuncDecl"

fun fd_Pos :: "fdecl \<Rightarrow> Pos" where
  "fd_Pos (FuncDecl p _ _ _ _ _ _ _ _ _ _ _ _) = p"

fun fd_Name :: "fdecl \<Rightarrow> string" where
  "fd_Name (FuncDecl _ n _ _ _ _ _ _ _ _ _ _ _) = n"

fun fd_Params :: "fdecl \<Rightarrow> Param list" where
  "fd_Params (FuncDecl _ _ _ _ _ ps _ _ _ _ _ _ _) = ps"

fun fd_RetType :: "fdecl \<Rightarrow> TypeExpr option" where
  "fd_RetType (FuncDecl _ _ _ _ _ _ t _ _ _ _ _ _) = t"

fun fd_Body :: "fdecl \<Rightarrow> Node option" where
  "fd_Body (FuncDecl _ _ _ _ _ _ _ b _ _ _ _ _) = b"

fun fd_IsExtern :: "fdecl \<Rightarrow> string" where
  "fd_IsExtern (FuncDecl _ _ _ _ _ _ _ _ _ _ e _ _) = e"

fun fd_IsVirtual :: "fdecl \<Rightarrow> bool" where
  "fd_IsVirtual (FuncDecl _ _ _ _ _ _ _ _ _ _ _ v _) = v"

definition skipsBody :: "fdecl \<Rightarrow> bool" where
  "skipsBody fn \<longleftrightarrow> fd_Body fn = None \<or> fd_IsExtern fn \<noteq> [] \<or> fd_IsVirtual fn"

text \<open>More views of nodes.\<close>

fun asAddressOf :: "Node \<Rightarrow> Node option" where
  "asAddressOf (NExpr _ (AddressOfExpr e)) = Some e"
| "asAddressOf _ = None"

fun asDeref :: "Node \<Rightarrow> Node option" where
  "asDeref (NExpr _ (DerefExpr e)) = Some e"
| "asDeref _ = None"

fun asFieldAccess :: "Node \<Rightarrow> (Node \<times> string) option" where
  "asFieldAccess (NExpr _ (FieldAccess e f _)) = Some (e, f)"
| "asFieldAccess _ = None"

fun asVarDecl :: "Node \<Rightarrow> (string \<times> TypeExpr option \<times> Node option) option" where
  "asVarDecl (NDecl _ (VarDecl _ x t v)) = Some (x, t, v)"
| "asVarDecl _ = None"

fun asAssign :: "Node \<Rightarrow> (Node \<times> Node) option" where
  "asAssign (NStmt _ (AssignStmt t v)) = Some (t, v)"
| "asAssign _ = None"

fun asReturn :: "Node \<Rightarrow> Node option option" where
  "asReturn (NStmt _ (ReturnStmt v)) = Some v"
| "asReturn _ = None"

text \<open>The functions and methods at the top level of a program.\<close>

fun topLevelFuncs :: "Node \<Rightarrow> fdecl list" where
  "topLevelFuncs (NFunc f) = [f]"
| "topLevelFuncs (NDecl _ (StructDecl _ _ _ _ _ ms _ _ _)) = ms"
| "topLevelFuncs _ = []"

definition funcsByName :: "Node list \<Rightarrow> (string \<times> fdecl) list" where
  "funcsByName prog = foldl (\<lambda>m f. AList.update (fd_Name f) f m) [] (concat (map topLevelFuncs prog))"

section \<open>Constraints\<close>

type_synonym ptToken = string
type_synonym ptVar = string

definition aTokNil :: ptToken where
  "aTokNil = ''@nil''"

definition ptVarFor :: "string \<Rightarrow> string \<Rightarrow> ptVar" where
  "ptVarFor fn name = fn @ ''::'' @ name"

datatype ptConstraint = ptcAdd ptVar ptToken | ptcCopy ptVar ptVar

definition assignConstraints :: "(string \<times> fdecl) list \<Rightarrow> string \<Rightarrow> string \<Rightarrow> string \<Rightarrow> Node option \<Rightarrow> ptConstraint list" where
  "assignConstraints funcs dstFn dstName srcFn src =
     (let dst = ptVarFor dstFn dstName in
      case src of
        None \<Rightarrow> []
      | Some e \<Rightarrow>
        if isNilLit e then [ptcAdd dst aTokNil]
        else case asAddressOf e of
          Some x \<Rightarrow> (case asIdent x of Some n \<Rightarrow> [ptcAdd dst (''@addr:'' @ srcFn @ ''::'' @ n)] | None \<Rightarrow> [])
        | None \<Rightarrow>
          (case asIdent e of
             Some n \<Rightarrow> [ptcCopy dst (ptVarFor srcFn n)]
           | None \<Rightarrow>
             (case asCall e of
                Some (f, _) \<Rightarrow>
                  (case asIdent f of
                     Some n \<Rightarrow> (case map_of funcs n of Some callee \<Rightarrow> [ptcCopy dst (ptVarFor (fd_Name callee) ''$ret'')] | None \<Rightarrow> [])
                   | None \<Rightarrow> [])
              | None \<Rightarrow> [])))"

definition callConstraints :: "(string \<times> fdecl) list \<Rightarrow> string \<Rightarrow> Node \<Rightarrow> Node list \<Rightarrow> ptConstraint list" where
  "callConstraints funcs callerFn f args =
     (case asIdent f of
        None \<Rightarrow> []
      | Some n \<Rightarrow>
        (case map_of funcs n of
           None \<Rightarrow> []
         | Some callee \<Rightarrow>
             concat (map (\<lambda>(arg, p). if p_Name p = [] \<or> p_Name p = ''_'' then []
                 else assignConstraints funcs (fd_Name callee) (p_Name p) callerFn (Some arg))
               (zip args (fd_Params callee)))))"

definition nodeConstraints :: "(string \<times> fdecl) list \<Rightarrow> string \<Rightarrow> Node \<Rightarrow> ptConstraint list" where
  "nodeConstraints funcs fn n =
     (case asVarDecl n of Some (x, _, v) \<Rightarrow> assignConstraints funcs fn x fn v
      | None \<Rightarrow> (case asAssign n of
          Some (t, v) \<Rightarrow> (case asIdent t of Some x \<Rightarrow> assignConstraints funcs fn x fn (Some v) | None \<Rightarrow> [])
      | None \<Rightarrow> (case asReturn n of Some v \<Rightarrow> assignConstraints funcs fn ''$ret'' fn v
      | None \<Rightarrow> (case asCall n of Some (f, args) \<Rightarrow> callConstraints funcs fn f args
      | None \<Rightarrow> []))))"

definition collectPtConstraints :: "(string \<times> fdecl) list \<Rightarrow> fdecl \<Rightarrow> ptConstraint list" where
  "collectPtConstraints funcs fn =
     (if skipsBody fn then []
      else concat (map (nodeConstraints funcs (fd_Name fn)) (walkAST (the (fd_Body fn)))))"

section \<open>The solver\<close>

type_synonym ptsMap = "(ptVar \<times> ptToken) list"

definition addToken :: "ptVar \<Rightarrow> ptToken \<Rightarrow> ptsMap \<Rightarrow> ptsMap" where
  "addToken v tok pts = (if (v, tok) \<in> set pts then pts else pts @ [(v, tok)])"

definition tokensOf :: "ptsMap \<Rightarrow> ptVar \<Rightarrow> ptToken list" where
  "tokensOf pts v = map snd (filter (\<lambda>e. fst e = v) pts)"

fun applyConstraint :: "ptsMap \<Rightarrow> ptConstraint \<Rightarrow> ptsMap" where
  "applyConstraint pts (ptcAdd dst tok) = addToken dst tok pts"
| "applyConstraint pts (ptcCopy dst src) = foldl (\<lambda>m tok. addToken dst tok m) pts (tokensOf pts src)"

text \<open>One round of the loop; it changed something exactly when the list of pairs grew.\<close>

definition solveRound :: "ptConstraint list \<Rightarrow> ptsMap \<Rightarrow> ptsMap" where
  "solveRound cs pts = foldl applyConstraint pts cs"

subsection \<open>Termination\<close>

definition tokensIn :: "ptConstraint list \<Rightarrow> ptToken set" where
  "tokensIn cs = {tok. \<exists>dst. ptcAdd dst tok \<in> set cs}"

definition dstsIn :: "ptConstraint list \<Rightarrow> ptVar set" where
  "dstsIn cs = {dst. \<exists>t. ptcAdd dst t \<in> set cs} \<union> {dst. \<exists>src. ptcCopy dst src \<in> set cs}"

lemma set_addToken [simp]: "set (addToken v tok pts) = insert (v, tok) (set pts)"
  by (auto simp: addToken_def)

lemma set_addTokens [simp]: "set (foldl (\<lambda>m tok. addToken dst tok m) pts toks) = set pts \<union> {dst} \<times> set toks"
  by (induction toks arbitrary: pts) auto

lemma set_tokensOf [simp]: "tok \<in> set (tokensOf pts v) \<longleftrightarrow> (v, tok) \<in> set pts"
  by (force simp: tokensOf_def)

lemma distinct_addToken: "distinct pts \<Longrightarrow> distinct (addToken v tok pts)"
  by (simp add: addToken_def)

lemma distinct_addTokens: "distinct pts \<Longrightarrow> distinct (foldl (\<lambda>m tok. addToken dst tok m) pts toks)"
  by (induction toks arbitrary: pts) (simp_all add: distinct_addToken)

lemma distinct_applyConstraint: "distinct pts \<Longrightarrow> distinct (applyConstraint pts c)"
  by (cases c) (simp_all add: distinct_addToken distinct_addTokens)

lemma distinct_solveRound: "distinct pts \<Longrightarrow> distinct (solveRound cs pts)"
  unfolding solveRound_def by (induction cs arbitrary: pts) (simp_all add: distinct_applyConstraint)

lemma addToken_prefix: "\<exists>xs. addToken v tok pts = pts @ xs"
  by (simp add: addToken_def)

lemma addTokens_prefix: "\<exists>xs. foldl (\<lambda>m tok. addToken dst tok m) pts toks = pts @ xs"
proof (induction toks arbitrary: pts)
  case (Cons t ts)
  from addToken_prefix [of dst t pts] obtain xs where "addToken dst t pts = pts @ xs" ..
  with Cons [of "pts @ xs"] show ?case by auto
qed simp

lemma applyConstraint_prefix: "\<exists>xs. applyConstraint pts c = pts @ xs"
  by (cases c) (simp_all add: addToken_prefix addTokens_prefix)

lemma solveRound_prefix: "\<exists>xs. solveRound cs pts = pts @ xs"
  unfolding solveRound_def
proof (induction cs arbitrary: pts)
  case (Cons c cs)
  from applyConstraint_prefix [of pts c] obtain xs where "applyConstraint pts c = pts @ xs" ..
  with Cons [of "pts @ xs"] show ?case by auto
qed simp

text \<open>Only destinations of constraints get tokens, and only tokens that are around.\<close>

definition universe :: "ptConstraint list \<Rightarrow> ptsMap \<Rightarrow> (ptVar \<times> ptToken) set" where
  "universe cs pts = dstsIn cs \<times> (tokensIn cs \<union> snd ` set pts)"

lemma finite_universe: "finite (universe cs pts)"
proof -
  have "tokensIn cs = (\<Union>c \<in> set cs. case c of ptcAdd _ t \<Rightarrow> {t} | _ \<Rightarrow> {})"
    by (auto simp: tokensIn_def split: ptConstraint.splits)
  moreover have "dstsIn cs = (\<Union>c \<in> set cs. case c of ptcAdd d _ \<Rightarrow> {d} | ptcCopy d _ \<Rightarrow> {d})"
    by (auto simp: dstsIn_def split: ptConstraint.splits)
  ultimately have "finite (tokensIn cs)" "finite (dstsIn cs)"
    by (auto split: ptConstraint.splits)
  then show ?thesis by (simp add: universe_def)
qed

lemma applyConstraint_universe:
  assumes "c \<in> set cs"
  shows "set (applyConstraint pts c) \<subseteq> set pts \<union> universe cs pts" and "universe cs (applyConstraint pts c) = universe cs pts"
proof -
  show 1: "set (applyConstraint pts c) \<subseteq> set pts \<union> universe cs pts"
    by (cases c) (use assms in \<open>force simp: universe_def dstsIn_def tokensIn_def\<close>)+
  have "set pts \<subseteq> set (applyConstraint pts c)" using applyConstraint_prefix [of pts c] by auto
  then show "universe cs (applyConstraint pts c) = universe cs pts"
    using 1 unfolding universe_def by force
qed

lemma solveRound_universe:
  "set (solveRound cs pts) \<subseteq> set pts \<union> universe cs pts \<and> universe cs (solveRound cs pts) = universe cs pts"
proof -
  have "set (foldl applyConstraint pts ds) \<subseteq> set pts \<union> universe cs pts \<and> universe cs (foldl applyConstraint pts ds) = universe cs pts"
    if "set ds \<subseteq> set cs" for ds
    using that
  proof (induction ds rule: rev_induct)
    case (snoc d ds)
    then have IH: "set (foldl applyConstraint pts ds) \<subseteq> set pts \<union> universe cs pts"
        "universe cs (foldl applyConstraint pts ds) = universe cs pts" and d: "d \<in> set cs" by auto
    show ?case using applyConstraint_universe [OF d, of "foldl applyConstraint pts ds"] IH by auto
  qed simp
  then show ?thesis by (simp add: solveRound_def)
qed

function solveLoop :: "ptConstraint list \<Rightarrow> ptsMap \<Rightarrow> ptsMap" where
  "solveLoop cs pts = (let pts' = solveRound cs pts in if set pts' \<noteq> set pts then solveLoop cs pts' else pts')"
  by pat_completeness auto
termination
proof (relation "measure (\<lambda>(cs, pts). card (universe cs pts - set pts))", simp, clarsimp)
  fix cs pts assume ne: "set (solveRound cs pts) \<noteq> set pts"
  have u: "set (solveRound cs pts) \<subseteq> set pts \<union> universe cs pts" "universe cs (solveRound cs pts) = universe cs pts"
    using solveRound_universe by blast+
  have s: "set pts \<subseteq> set (solveRound cs pts)" using solveRound_prefix [of cs pts] by auto
  have "universe cs pts - set (solveRound cs pts) \<subset> universe cs pts - set pts"
    using u(1) s ne by blast
  then show "card (universe cs (solveRound cs pts) - set (solveRound cs pts)) < card (universe cs pts - set pts)"
    unfolding u(2) by (intro psubset_card_mono) (simp_all add: finite_universe)
qed

declare solveLoop.simps [simp del]

definition solveAndersen :: "ptConstraint list \<Rightarrow> ptsMap" where
  "solveAndersen cs = solveLoop cs []"

section \<open>Queries\<close>

definition andersenMayBeNil :: "ptsMap option \<Rightarrow> string \<Rightarrow> string \<Rightarrow> bool" where
  "andersenMayBeNil ptsO fnName varName =
     (case ptsO of
        None \<Rightarrow> False
      | Some pts \<Rightarrow>
        let toks = tokensOf pts (ptVarFor fnName varName) in
        if toks = [] then False
        else if length toks = 1 \<and> aTokNil \<in> set toks then False
        else aTokNil \<in> set toks)"

definition provesNil :: "ptsMap \<Rightarrow> string \<Rightarrow> string \<Rightarrow> bool" where
  "provesNil pts fnName name =
     (let toks = tokensOf pts (ptVarFor fnName name) in
      if toks = [] then False else length toks = 1 \<and> aTokNil \<in> set toks)"

text \<open>A finding: the position and the name.\<close>

definition derefFinding :: "ptsMap \<Rightarrow> string \<Rightarrow> Node \<Rightarrow> (Pos \<times> string) list" where
  "derefFinding pts fn n =
     (case asDeref n of
        Some e \<Rightarrow> (case asIdent e of Some x \<Rightarrow> if provesNil pts fn x then [(node_Pos n, x)] else [] | None \<Rightarrow> [])
      | None \<Rightarrow>
        (case asFieldAccess n of
           Some (e, _) \<Rightarrow> (case asIdent e of Some x \<Rightarrow> if provesNil pts fn x then [(node_Pos n, x)] else [] | None \<Rightarrow> [])
         | None \<Rightarrow> []))"

definition scanAndersenDerefs :: "fdecl \<Rightarrow> ptsMap \<Rightarrow> (Pos \<times> string) list" where
  "scanAndersenDerefs fn pts =
     (case fd_Body fn of None \<Rightarrow> [] | Some b \<Rightarrow> concat (map (derefFinding pts (fd_Name fn)) (walkAST b)))"

definition runAndersen :: "Node list \<Rightarrow> ptsMap \<times> (Pos \<times> string) list" where
  "runAndersen prog =
     (let funcs = funcsByName prog;
          pts = solveAndersen (concat (map (\<lambda>(_, fd). collectPtConstraints funcs fd) funcs)) in
      (pts, concat (map (\<lambda>(_, fd). scanAndersenDerefs fd pts) funcs)))"

section \<open>The least solution\<close>

definition solves :: "(ptVar \<times> ptToken) set \<Rightarrow> ptConstraint list \<Rightarrow> bool" where
  "solves S cs \<longleftrightarrow> (\<forall>dst tok. ptcAdd dst tok \<in> set cs \<longrightarrow> (dst, tok) \<in> S) \<and>
     (\<forall>dst src tok. ptcCopy dst src \<in> set cs \<longrightarrow> (src, tok) \<in> S \<longrightarrow> (dst, tok) \<in> S)"

lemma applyConstraint_within: "solves S cs \<Longrightarrow> c \<in> set cs \<Longrightarrow> set pts \<subseteq> S \<Longrightarrow> set (applyConstraint pts c) \<subseteq> S"
  by (cases c) (auto simp: solves_def)

lemma solveRound_within: "solves S cs \<Longrightarrow> set pts \<subseteq> S \<Longrightarrow> set (solveRound cs pts) \<subseteq> S"
proof -
  assume S: "solves S cs" "set pts \<subseteq> S"
  have "set (foldl applyConstraint pts ds) \<subseteq> S" if "set ds \<subseteq> set cs" for ds
    using that by (induction ds rule: rev_induct) (use S applyConstraint_within [OF S(1)] in auto)
  then show ?thesis by (simp add: solveRound_def)
qed

lemma solveLoop_within: "solves S cs \<Longrightarrow> set pts \<subseteq> S \<Longrightarrow> set (solveLoop cs pts) \<subseteq> S"
proof (induction cs pts rule: solveLoop.induct)
  case (1 cs pts)
  then show ?case using solveRound_within [OF 1(2,3)] by (subst solveLoop.simps) (simp add: Let_def)
qed

text \<open>A round that adds nothing has checked every constraint.\<close>

lemma stable_solves:
  assumes "set (solveRound cs pts) = set pts"
  shows "solves (set pts) cs"
proof -
  have mono: "set pts' \<subseteq> set (foldl applyConstraint pts' ds)" for pts' ds
    using solveRound_prefix [of ds pts'] by (auto simp: solveRound_def)
  have "set (applyConstraint pts c) \<subseteq> set pts" if c: "c \<in> set cs" for c
  proof -
    from split_list [OF c] obtain ds es where cs: "cs = ds @ c # es" by blast
    have "set (applyConstraint (foldl applyConstraint pts ds) c) \<subseteq> set (solveRound cs pts)"
      using mono [of "applyConstraint (foldl applyConstraint pts ds) c" es] by (simp add: solveRound_def cs)
    moreover have "set (foldl applyConstraint pts ds) = set pts"
      using assms mono [of pts ds] mono [of "foldl applyConstraint pts ds" "c # es"] by (auto simp: solveRound_def cs)
    moreover have "set (applyConstraint pts c) = set (applyConstraint pts' c)" if "set pts' = set pts" for pts'
      using that by (cases c) auto
    ultimately show ?thesis using assms by metis
  qed
  then show ?thesis by (fastforce simp: solves_def)
qed

lemma solveLoop_solves: "solves (set (solveLoop cs pts)) cs"
proof (induction cs pts rule: solveLoop.induct)
  case (1 cs pts)
  show ?case
  proof (cases "set (solveRound cs pts) = set pts")
    case True
    then have "solveLoop cs pts = solveRound cs pts" by (subst solveLoop.simps) (simp add: Let_def)
    then show ?thesis using stable_solves [OF True] True by simp
  next
    case False
    then have "solveLoop cs pts = solveLoop cs (solveRound cs pts)" by (subst solveLoop.simps) (simp add: Let_def)
    then show ?thesis using 1 [OF refl False] by simp
  qed
qed

lemma solveAndersen_least: "solves S cs \<Longrightarrow> set (solveAndersen cs) \<subseteq> S"
  by (simp add: solveAndersen_def solveLoop_within)

lemma solveAndersen_solves: "solves (set (solveAndersen cs)) cs"
  by (simp add: solveAndersen_def solveLoop_solves)

lemma distinct_solveLoop: "distinct pts \<Longrightarrow> distinct (solveLoop cs pts)"
proof (induction cs pts rule: solveLoop.induct)
  case (1 cs pts)
  then show ?case using distinct_solveRound [of pts cs] by (subst solveLoop.simps) (simp add: Let_def)
qed

lemma distinct_tokensOf: "distinct pts \<Longrightarrow> distinct (tokensOf pts v)"
  by (auto simp: tokensOf_def distinct_map inj_on_def)

section \<open>Properties\<close>

text \<open>C21.  The solver returns the least points-to map that satisfies the constraints: it satisfies them, and it is
  the intersection of all maps that do.  So the order in which the code ranges over functions and tokens
  does not matter.\<close>

theorem solveAndersen_least_solution:
  "solves (set (solveAndersen cs)) cs \<and> set (solveAndersen cs) = \<Inter> {S. solves S cs}"
  using solveAndersen_least [of _ cs] solveAndersen_solves [of cs] by blast

text \<open>\<open>provesNil\<close> and \<open>andersenMayBeNil\<close> split the variables that may hold nil: on the solution the first
  holds exactly when nil is the only token of the variable, the second exactly when nil is one of several.\<close>

lemma nil_queries_exact:
  "(provesNil (solveAndersen cs) fn x \<longleftrightarrow> {t. (ptVarFor fn x, t) \<in> set (solveAndersen cs)} = {aTokNil}) \<and>
   (andersenMayBeNil (Some (solveAndersen cs)) fn x \<longleftrightarrow>
      aTokNil \<in> {t. (ptVarFor fn x, t) \<in> set (solveAndersen cs)} \<and> {t. (ptVarFor fn x, t) \<in> set (solveAndersen cs)} \<noteq> {aTokNil})"
proof -
  let ?toks = "tokensOf (solveAndersen cs) (ptVarFor fn x)"
  have d: "distinct ?toks" by (intro distinct_tokensOf) (simp add: solveAndersen_def distinct_solveLoop)
  have s: "{t. (ptVarFor fn x, t) \<in> set (solveAndersen cs)} = set ?toks" by auto
  have one: "length ?toks = 1 \<and> aTokNil \<in> set ?toks \<longleftrightarrow> set ?toks = {aTokNil}"
  proof
    assume "length ?toks = 1 \<and> aTokNil \<in> set ?toks"
    then show "set ?toks = {aTokNil}" by (cases ?toks) auto
  next
    assume e: "set ?toks = {aTokNil}"
    then have "card (set ?toks) = 1" by simp
    with distinct_card [OF d] e show "length ?toks = 1 \<and> aTokNil \<in> set ?toks" by simp
  qed
  have p: "provesNil (solveAndersen cs) fn x \<longleftrightarrow> length ?toks = 1 \<and> aTokNil \<in> set ?toks"
    by (auto simp: provesNil_def Let_def simp del: set_tokensOf)
  have m: "andersenMayBeNil (Some (solveAndersen cs)) fn x \<longleftrightarrow> aTokNil \<in> set ?toks \<and> \<not> (length ?toks = 1 \<and> aTokNil \<in> set ?toks)"
    by (auto simp: andersenMayBeNil_def Let_def simp del: set_tokensOf)
  show ?thesis unfolding s p m one by simp
qed

end
