(* ===== verification/TinDfState.thy ===== *)
theory TinDfState
  imports TinIntervalCorrect TinAndersen Complex_Main
begin

text \<open>
  The abstract state of the dataflow pass (\<^verbatim>\<open>src/codegen/dataflow_state.go\<close>): one map per lattice,
  the join of two states, widening, and the test for convergence.

  A Go map is an association list without repeated keys; \<open>clone\<close> is the identity on values.  A \<open>nil\<close>
  state occurs in the code only as the start of the fold in \<open>dfWalkMatch\<close> and is an option there.
\<close>

section \<open>States\<close>

type_synonym 'a smap = "(string \<times> 'a) list"

record floatPair =
  ieee :: float64
  exact :: rat

datatype manualAllocState = manualAllocLive | manualAllocFreed | manualAllocEscaped

record dfState =
  dfNil :: "nilFact smap"
  dfCnst :: "constFact smap"
  dfFreed :: "bool smap"
  dfIntv :: "interval smap"
  dfFloats :: "floatPair smap"
  dfUninit :: "bool smap"
  dfNotZero :: "bool smap"
  dfBoundsChecked :: "bool smap"
  dfTypes :: "TypeExpr smap"
  dfManualAlloc :: "manualAllocState smap"
  dfDead :: bool

definition newDFState :: dfState where
  "newDFState = \<lparr>dfNil = [], dfCnst = [], dfFreed = [], dfIntv = [], dfFloats = [], dfUninit = [], dfNotZero = [],
     dfBoundsChecked = [], dfTypes = [], dfManualAlloc = [], dfDead = False\<rparr>"

text \<open>Reading a \<open>map[string]bool\<close> gives \<open>false\<close> for a missing key.\<close>

definition flag :: "bool smap \<Rightarrow> string \<Rightarrow> bool" where
  "flag m k \<longleftrightarrow> map_of m k = Some True"

section \<open>Joins\<close>

text \<open>The two loops over a map whose keys survive from either side.\<close>

definition mergeEither :: "('a \<Rightarrow> 'a \<Rightarrow> 'a) \<Rightarrow> 'a smap \<Rightarrow> 'a smap \<Rightarrow> 'a smap" where
  "mergeEither f a b =
     map (\<lambda>(k, v). (k, case map_of b k of Some w \<Rightarrow> f v w | None \<Rightarrow> v)) a @ filter (\<lambda>(k, _). map_of a k = None) b"

definition mergeIntervals :: "interval smap \<Rightarrow> interval smap \<Rightarrow> interval smap" where
  "mergeIntervals a b =
     concat (map (\<lambda>(k, v). case map_of b k of Some w \<Rightarrow> [(k, unionInterval v w)] | None \<Rightarrow> []) a)"

definition mergeFloats :: "floatPair smap \<Rightarrow> floatPair smap \<Rightarrow> floatPair smap" where
  "mergeFloats a b =
     concat (map (\<lambda>(k, v). case map_of b k of
        Some w \<Rightarrow> if exact v = exact w \<and> f64_eq (ieee v) (ieee w) then [(k, v)] else [] | None \<Rightarrow> []) a)"

text \<open>May-facts are kept from either side, must-facts from both.\<close>

definition mergeMay :: "bool smap \<Rightarrow> bool smap \<Rightarrow> bool smap" where
  "mergeMay a b = filter snd a @ filter (\<lambda>(k, v). v \<and> \<not> flag a k) b"

definition mergeMust :: "bool smap \<Rightarrow> bool smap \<Rightarrow> bool smap" where
  "mergeMust a b = filter (\<lambda>(k, v). v \<and> flag b k) a"

definition mergeAlloc :: "manualAllocState \<Rightarrow> manualAllocState \<Rightarrow> manualAllocState" where
  "mergeAlloc a b =
     (if a = manualAllocEscaped \<or> b = manualAllocEscaped then manualAllocEscaped
      else if a = manualAllocLive \<or> b = manualAllocLive then manualAllocLive
      else manualAllocFreed)"

definition mergeStates :: "dfState \<Rightarrow> dfState \<Rightarrow> dfState" where
  "mergeStates a b =
     (if dfDead a then b
      else if dfDead b then a
      else \<lparr>dfNil = mergeEither mergeNil (dfNil a) (dfNil b),
            dfCnst = mergeEither mergeConst (dfCnst a) (dfCnst b),
            dfFreed = mergeMay (dfFreed a) (dfFreed b),
            dfIntv = mergeIntervals (dfIntv a) (dfIntv b),
            dfFloats = mergeFloats (dfFloats a) (dfFloats b),
            dfUninit = mergeMay (dfUninit a) (dfUninit b),
            dfNotZero = mergeMust (dfNotZero a) (dfNotZero b),
            dfBoundsChecked = mergeMust (dfBoundsChecked a) (dfBoundsChecked b),
            dfTypes = mergeEither (\<lambda>v w. v) (dfTypes a) (dfTypes b),
            dfManualAlloc = mergeEither mergeAlloc (dfManualAlloc a) (dfManualAlloc b),
            dfDead = False\<rparr>)"

definition widenStates :: "dfState \<Rightarrow> dfState \<Rightarrow> dfState" where
  "widenStates prev cur =
     cur\<lparr>dfIntv := map (\<lambda>(k, nv). (k, case map_of (dfIntv prev) k of
            Some pv \<Rightarrow> if isSet pv \<and> isSet nv then widenInterval pv nv else nv | None \<Rightarrow> nv)) (dfIntv cur)\<rparr>"

text \<open>Two maps agree when they have as many keys and every entry of the first is in the second.\<close>

definition mapsEqual :: "'a smap \<Rightarrow> 'a smap \<Rightarrow> bool" where
  "mapsEqual a b \<longleftrightarrow> length a = length b \<and> list_all (\<lambda>(k, v). map_of b k = Some v) a"

definition statesEqual :: "dfState \<Rightarrow> dfState \<Rightarrow> bool" where
  "statesEqual a b \<longleftrightarrow> dfDead a = dfDead b \<and> mapsEqual (dfNil a) (dfNil b) \<and> mapsEqual (dfCnst a) (dfCnst b) \<and>
     mapsEqual (dfIntv a) (dfIntv b) \<and> mapsEqual (dfUninit a) (dfUninit b)"

section \<open>Lookups after a join\<close>

lemma map_of_mapVal: "map_of (map (\<lambda>(k, v). (k, f k v)) m) k = map_option (f k) (map_of m k)"
  by (induction m) auto

lemma map_of_filter_key: "map_of (filter (\<lambda>(k, _). P k) m) k = (if P k then map_of m k else None)"
  by (induction m) auto

lemma map_of_mergeEither:
  "map_of (mergeEither f a b) k =
     (case (map_of a k, map_of b k) of
        (Some v, Some w) \<Rightarrow> Some (f v w) | (Some v, None) \<Rightarrow> Some v | (None, w) \<Rightarrow> w)"
  by (auto simp: mergeEither_def map_add_def map_of_mapVal map_of_filter_key split: option.splits)

lemma map_of_concat_opt:
  "map_of (concat (map (\<lambda>(k, v). case g k v of Some w \<Rightarrow> [(k, w)] | None \<Rightarrow> []) m)) k =
     (case map_of m k of Some v \<Rightarrow> g k v | None \<Rightarrow> None)"
  if "distinct (map fst m)"
  using that
proof (induction m)
  case (Cons e m)
  obtain k' v where e: "e = (k', v)" by (cases e)
  have n: "map_of m k' = None" using Cons.prems e by (simp add: map_of_eq_None_iff)
  have "fst ` set (concat (map (\<lambda>(k, v). case g k v of Some w \<Rightarrow> [(k, w)] | None \<Rightarrow> []) m)) \<subseteq> fst ` set m"
    by (force split: option.splits)
  then have "map_of (concat (map (\<lambda>(k, v). case g k v of Some w \<Rightarrow> [(k, w)] | None \<Rightarrow> []) m)) k' = None"
    using Cons.prems e unfolding map_of_eq_None_iff by (metis (no_types, lifting) distinct.simps(2) fst_conv list.simps(9) list.set_map subsetD)
  then show ?case using Cons e by (auto split: option.splits)
qed simp

lemma map_of_mergeIntervals:
  assumes "distinct (map fst a)"
  shows "map_of (mergeIntervals a b) k =
     (case (map_of a k, map_of b k) of (Some v, Some w) \<Rightarrow> Some (unionInterval v w) | _ \<Rightarrow> None)"
proof -
  have "mergeIntervals a b = concat (map (\<lambda>(k, v). case map_option (unionInterval v) (map_of b k) of Some w \<Rightarrow> [(k, w)] | None \<Rightarrow> []) a)"
    unfolding mergeIntervals_def by (intro arg_cong [where f = concat] map_cong) (auto split: option.split)
  then show ?thesis using map_of_concat_opt [OF assms, of "\<lambda>k v. map_option (unionInterval v) (map_of b k)" k]
    by (auto split: option.splits)
qed

lemma map_of_filter_snd: "distinct (map fst m) \<Longrightarrow> map_of (filter (\<lambda>(k, v). P k v) m) k = (case map_of m k of Some v \<Rightarrow> if P k v then Some v else None | None \<Rightarrow> None)"
proof (induction m)
  case (Cons e m)
  obtain k' v where e: "e = (k', v)" by (cases e)
  then have "map_of m k' = None" using Cons.prems by (simp add: map_of_eq_None_iff)
  then show ?case using Cons e by auto
qed simp

lemma flag_mergeMay:
  assumes "distinct (map fst a)" and "distinct (map fst b)"
  shows "flag (mergeMay a b) k \<longleftrightarrow> flag a k \<or> flag b k"
proof -
  have "filter snd a = filter (\<lambda>(k, v). v) a" by (intro filter_cong) auto
  then show ?thesis
    using map_of_filter_snd [OF assms(1), of "\<lambda>k v. v" k] map_of_filter_snd [OF assms(2), of "\<lambda>k v. v \<and> \<not> flag a k" k]
    by (auto simp: mergeMay_def flag_def map_add_def split: option.splits if_splits)
qed

lemma flag_mergeMust:
  assumes "distinct (map fst a)"
  shows "flag (mergeMust a b) k \<longleftrightarrow> flag a k \<and> flag b k"
  using map_of_filter_snd [OF assms, of "\<lambda>k v. v \<and> flag b k" k]
  by (auto simp: mergeMust_def flag_def split: option.splits if_splits)

lemma keys_mergeEither: "set (map fst (mergeEither f a b)) = set (map fst a) \<union> set (map fst b)"
  by (force simp: mergeEither_def map_of_eq_None_iff)

lemma distinct_mergeEither:
  assumes "distinct (map fst a)" and "distinct (map fst b)"
  shows "distinct (map fst (mergeEither f a b))"
proof -
  have "map fst (map (\<lambda>(k, v). (k, case map_of b k of Some w \<Rightarrow> f v w | None \<Rightarrow> v)) a) = map fst a" by (induction a) auto
  moreover have "distinct (map fst (filter (\<lambda>(k, _). map_of a k = None) b))"
    using assms(2) by (simp add: distinct_map_filter)
  moreover have "set (map fst a) \<inter> set (map fst (filter (\<lambda>(k, _). map_of a k = None) b)) = {}"
    by (force simp: map_of_eq_None_iff)
  ultimately show ?thesis using assms(1) unfolding mergeEither_def map_append distinct_append by metis
qed

lemma mapsEqual_map_of:
  assumes "mapsEqual a b" and "distinct (map fst a)" and "distinct (map fst b)"
  shows "map_of a = map_of b"
proof -
  have sub: "map_of b k = Some v" if "map_of a k = Some v" for k v
    using assms(1) map_of_SomeD [OF that] by (auto simp: mapsEqual_def list_all_iff)
  have "card (dom (map_of a)) = card (dom (map_of b))"
    using assms distinct_card [of "map fst a"] distinct_card [of "map fst b"] by (simp add: mapsEqual_def dom_map_of_conv_image_fst)
  moreover have "dom (map_of a) \<subseteq> dom (map_of b)" using sub by auto
  ultimately have d: "dom (map_of a) = dom (map_of b)" by (intro card_subset_eq) (auto simp: finite_dom_map_of)
  show ?thesis
  proof
    fix k show "map_of a k = map_of b k"
    proof (cases "map_of a k")
      case None
      then have "k \<notin> dom (map_of b)" using d by (metis domIff)
      then show ?thesis using None by (simp add: domIff)
    qed (use sub [of k] in simp)
  qed
qed

end
