(* ===== verification/TinDataflow.thy ===== *)
theory TinDataflow
  imports TinDfState "HOL-Library.While_Combinator"
begin

text \<open>
  The dataflow pass (\<^verbatim>\<open>src/codegen/dataflow.go\<close>, \<^verbatim>\<open>dataflow_cmp.go\<close>, \<^verbatim>\<open>dataflow_run.go\<close>,
  \<^verbatim>\<open>dataflow_walk.go\<close>, \<^verbatim>\<open>dataflow_check.go\<close>, \<^verbatim>\<open>dataflow_checks2.go\<close>): abstract evaluation, branch
  narrowing, the checks of expressions, and the walk over statements with its loop fixpoint.

  \<^item> \<open>dfEnv\<close> is what the pass reads of the code generator.  Its field \<open>foldExpr\<close> is \<open>tryFoldExpr\<close> of the scope
    in which the pass runs (a total function where \<open>TinFold.tryFoldExpr_terminates\<close> applies).  IEEE
    arithmetic is the parameter \<open>float_ops\<close>.
  \<^item> \<open>dfCtx\<close> is what the pass changes: the warnings emitted so far, the depth of suppression, the positions
    of allocations and the index expressions that a destructuring has unwrapped.  A warning is its name, its position and
    the arguments of its message.
\<close>

section \<open>Environment and context\<close>

record float_ops =
  fo_add :: "float64 \<Rightarrow> float64 \<Rightarrow> float64"
  fo_sub :: "float64 \<Rightarrow> float64 \<Rightarrow> float64"
  fo_mul :: "float64 \<Rightarrow> float64 \<Rightarrow> float64"
  fo_div :: "float64 \<Rightarrow> float64 \<Rightarrow> float64"
  fo_neg :: "float64 \<Rightarrow> float64"
  fo_ofInt :: "int \<Rightarrow> float64"
  fo_shortest :: "float64 \<Rightarrow> rat option"

record dfEnv =
  foldExpr :: "Node \<Rightarrow> foldedValue"
  floatOps :: float_ops
  paramFrees :: "(string \<times> nat list) list"
  returnsAlloc :: "string list"
  structFieldsByName :: "(string \<times> StructField list) list"
  funcRetTypes :: "(string \<times> TypeExpr option) list"
  andersenPts :: "ptsMap option"
  dfCurFnName :: string

datatype dfDiag =
    DiagManualUseAfterFree | DiagDerefNil | DiagUncheckedReturnedNil | DiagUncheckedNilDeref | DiagUseAfterDeinit
  | DiagUseBeforeAssign | DiagUncheckedDiv | DiagUncheckedIndex | DiagFloatPrecision | DiagImpossibleRange
  | DiagBoolAnalysis | DiagManualAllocLeak | DiagDoubleDeinit | DiagManualDoubleFree

type_synonym dfWarning = "dfDiag \<times> Pos \<times> string list"

record dfCtx =
  dfWarnings :: "dfWarning list"
  dfSuppressWarnings :: nat
  manualAllocSites :: "(string \<times> Pos) list"
  dfSkipIndexCheck :: "Node list"

definition warn :: "dfDiag \<Rightarrow> Pos \<Rightarrow> string list \<Rightarrow> dfCtx \<Rightarrow> dfCtx" where
  "warn d p args ctx = (if dfSuppressWarnings ctx > 0 then ctx else ctx\<lparr>dfWarnings := dfWarnings ctx @ [(d, p, args)]\<rparr>)"

text \<open>Updates of one entry of one map of the state.\<close>

definition setNil :: "string \<Rightarrow> nilFact \<Rightarrow> dfState \<Rightarrow> dfState" where
  "setNil x f st = st\<lparr>dfNil := AList.update x f (dfNil st)\<rparr>"

definition setCnst :: "string \<Rightarrow> constFact \<Rightarrow> dfState \<Rightarrow> dfState" where
  "setCnst x f st = st\<lparr>dfCnst := AList.update x f (dfCnst st)\<rparr>"

definition setIntv :: "string \<Rightarrow> interval \<Rightarrow> dfState \<Rightarrow> dfState" where
  "setIntv x iv st = st\<lparr>dfIntv := AList.update x iv (dfIntv st)\<rparr>"

definition delIntv :: "string \<Rightarrow> dfState \<Rightarrow> dfState" where
  "delIntv x st = st\<lparr>dfIntv := AList.delete x (dfIntv st)\<rparr>"

definition setFloat :: "string \<Rightarrow> floatPair option \<Rightarrow> dfState \<Rightarrow> dfState" where
  "setFloat x fp st = st\<lparr>dfFloats := (case fp of Some v \<Rightarrow> AList.update x v (dfFloats st) | None \<Rightarrow> AList.delete x (dfFloats st))\<rparr>"

definition delUninit :: "string \<Rightarrow> dfState \<Rightarrow> dfState" where
  "delUninit x st = st\<lparr>dfUninit := AList.delete x (dfUninit st)\<rparr>"

definition delProofs :: "string \<Rightarrow> dfState \<Rightarrow> dfState" where
  "delProofs x st = st\<lparr>dfNotZero := AList.delete x (dfNotZero st), dfBoundsChecked := AList.delete x (dfBoundsChecked st)\<rparr>"

definition setNotZero :: "string \<Rightarrow> dfState \<Rightarrow> dfState" where
  "setNotZero x st = st\<lparr>dfNotZero := AList.update x True (dfNotZero st)\<rparr>"

definition setBoundsChecked :: "string \<Rightarrow> dfState \<Rightarrow> dfState" where
  "setBoundsChecked x st = st\<lparr>dfBoundsChecked := AList.update x True (dfBoundsChecked st)\<rparr>"

definition setAlloc :: "string \<Rightarrow> manualAllocState option \<Rightarrow> dfState \<Rightarrow> dfState" where
  "setAlloc x a st =
     st\<lparr>dfManualAlloc := (case a of Some v \<Rightarrow> AList.update x v (dfManualAlloc st) | None \<Rightarrow> AList.delete x (dfManualAlloc st))\<rparr>"

section \<open>Abstract evaluation\<close>

fun asFloatLit :: "Node \<Rightarrow> float64 option" where
  "asFloatLit (NLeaf _ (FloatLit f)) = Some f"
| "asFloatLit _ = None"

definition floatPairFromLit :: "float_ops \<Rightarrow> float64 \<Rightarrow> floatPair option" where
  "floatPairFromLit fo f = (case fo_shortest fo f of Some r \<Rightarrow> Some \<lparr>ieee = f, exact = r\<rparr> | None \<Rightarrow> None)"

definition floatBin :: "float_ops \<Rightarrow> string \<Rightarrow> floatPair \<Rightarrow> floatPair \<Rightarrow> floatPair option" where
  "floatBin fo op l r =
     (if op = ''+'' then Some \<lparr>ieee = fo_add fo (ieee l) (ieee r), exact = exact l + exact r\<rparr>
      else if op = ''-'' then Some \<lparr>ieee = fo_sub fo (ieee l) (ieee r), exact = exact l - exact r\<rparr>
      else if op = ''*'' then Some \<lparr>ieee = fo_mul fo (ieee l) (ieee r), exact = exact l * exact r\<rparr>
      else if op = ''/'' then
        if f64_isZero (ieee r) \<or> exact r = 0 then None
        else Some \<lparr>ieee = fo_div fo (ieee l) (ieee r), exact = exact l / exact r\<rparr>
      else None)"

function dfFoldFloat :: "float_ops \<Rightarrow> dfState \<Rightarrow> Node \<Rightarrow> floatPair option" where
  "dfFoldFloat fo st n =
     (case asFloatLit n of Some f \<Rightarrow> floatPairFromLit fo f
      | None \<Rightarrow> (case asIntLit n of Some v \<Rightarrow> Some \<lparr>ieee = fo_ofInt fo v, exact = of_int v\<rparr>
      | None \<Rightarrow> (case asIdent n of Some x \<Rightarrow> map_of (dfFloats st) x
      | None \<Rightarrow> (case asUnary n of
          Some (op, e) \<Rightarrow>
            if op \<noteq> ''-'' then None
            else (case dfFoldFloat fo st e of
                    Some fp \<Rightarrow> Some \<lparr>ieee = fo_neg fo (ieee fp), exact = - exact fp\<rparr> | None \<Rightarrow> None)
      | None \<Rightarrow> (case asBin n of
          Some (l, op, r) \<Rightarrow>
            (case dfFoldFloat fo st l of None \<Rightarrow> None
             | Some a \<Rightarrow> (case dfFoldFloat fo st r of None \<Rightarrow> None | Some b \<Rightarrow> floatBin fo op a b))
      | None \<Rightarrow> None)))))"
  by pat_completeness auto
termination
  by (relation "measure (\<lambda>(fo, st, n). size n)") (auto dest: asBin_size asUnary_size)

declare dfFoldFloat.simps [simp del]

definition dfNilOf :: "Node option \<Rightarrow> dfState \<Rightarrow> nilFact" where
  "dfNilOf expr st =
     (case expr of
        None \<Rightarrow> nilTop
      | Some e \<Rightarrow>
        if isNilLit e then nilIsNil
        else if asAddressOf e \<noteq> None then nilNonNil
        else case asIdent e of
          Some x \<Rightarrow> (case map_of (dfNil st) x of Some v \<Rightarrow> v | None \<Rightarrow> nilBottom)
        | None \<Rightarrow> nilBottom)"

definition dfConstInt :: "constFact \<Rightarrow> int option" where
  "dfConstInt f = (case f of cInt i \<Rightarrow> Some i | _ \<Rightarrow> None)"

definition intervalForTinType :: "TypeExpr option \<Rightarrow> interval" where
  "intervalForTinType t =
     (case t of
        Some (SimpleType n) \<Rightarrow>
          if n = ''i8'' then rangeIv (- 128) 127
          else if n = ''u8'' \<or> n = ''byte'' \<or> n = ''char'' then rangeIv 0 255
          else if n = ''i16'' then rangeIv (- 32768) 32767
          else if n = ''u16'' then rangeIv 0 65535
          else if n = ''i32'' then rangeIv (- 2147483648) 2147483647
          else if n = ''u32'' then rangeIv 0 4294967295
          else if n = ''i64'' then rangeIv (- 9223372036854775808) 9223372036854775807
          else unsetIv
      | _ \<Rightarrow> unsetIv)"

function intervalOf :: "dfState \<Rightarrow> Node \<Rightarrow> interval" where
  "intervalOf st n =
     (case asIntLit n of Some v \<Rightarrow> singletonIv v
      | None \<Rightarrow> (case asIdent n of
          Some x \<Rightarrow> (case map_of (dfIntv st) x of Some iv \<Rightarrow> iv | None \<Rightarrow> unsetIv)
      | None \<Rightarrow> (case asUnary n of
          Some (op, e) \<Rightarrow> if op = ''-'' then negateIv (intervalOf st e) else unsetIv
      | None \<Rightarrow> (case asBin n of
          Some (l, op, r) \<Rightarrow> intervalArith op (intervalOf st l) (intervalOf st r)
      | None \<Rightarrow> unsetIv))))"
  by pat_completeness auto
termination
  by (relation "measure (\<lambda>(st, n). size n)") (auto dest: asBin_size asUnary_size)

declare intervalOf.simps [simp del]

definition intervalOfOpt :: "dfState \<Rightarrow> Node option \<Rightarrow> interval" where
  "intervalOfOpt st e = (case e of Some n \<Rightarrow> intervalOf st n | None \<Rightarrow> unsetIv)"

definition dfIntervalForBinding :: "TypeExpr option \<Rightarrow> Node option \<Rightarrow> dfState \<Rightarrow> interval" where
  "dfIntervalForBinding declType v st =
     (let iv = intervalOfOpt st v in if isSet iv then iv else intervalForTinType declType)"

definition foldedToConst :: "foldedValue \<Rightarrow> constFact" where
  "foldedToConst v = (case v of foldInt i \<Rightarrow> cInt i | foldBool b \<Rightarrow> cBool b | _ \<Rightarrow> cBottom)"

text \<open>\<open>x % n\<close> where every value of \<open>x\<close> is a multiple of \<open>n\<close>.\<close>

definition stridedModulo :: "dfState \<Rightarrow> string \<Rightarrow> Node \<Rightarrow> constFact \<Rightarrow> bool" where
  "stridedModulo st op l rv \<longleftrightarrow> op = ''%'' \<and>
     (case dfConstInt rv of
        Some n \<Rightarrow> n > 0 \<and> isSet (intervalOf st l) \<and> allMembersDivisibleBy (intervalOf st l) n
      | None \<Rightarrow> False)"

function dfEvalNode :: "dfEnv \<Rightarrow> dfState \<Rightarrow> Node \<Rightarrow> constFact" where
  "dfEvalNode env st n =
     (case asIntLit n of Some v \<Rightarrow> cInt v
      | None \<Rightarrow> (case asBoolLit n of Some b \<Rightarrow> cBool b
      | None \<Rightarrow> (case asIdent n of
          Some x \<Rightarrow> (case map_of (dfCnst st) x of Some v \<Rightarrow> v | None \<Rightarrow> foldedToConst (foldExpr env n))
      | None \<Rightarrow> (case asBin n of
          Some (l, op, r) \<Rightarrow>
            if stridedModulo st op l (dfEvalNode env st r) then cInt 0
            else foldBinConst op (dfEvalNode env st l) (dfEvalNode env st r)
      | None \<Rightarrow> (case asUnary n of
          Some (op, e) \<Rightarrow> foldUnaryConst op (dfEvalNode env st e)
      | None \<Rightarrow> foldedToConst (foldExpr env n))))))"
  by pat_completeness auto
termination
  by (relation "measure (\<lambda>(env, st, n). size n)") (auto dest: asBin_size asUnary_size)

declare dfEvalNode.simps [simp del]

definition dfEval :: "dfEnv \<Rightarrow> Node option \<Rightarrow> dfState \<Rightarrow> constFact" where
  "dfEval env expr st = (case expr of None \<Rightarrow> cTop | Some n \<Rightarrow> dfEvalNode env st n)"

section \<open>Branch conditions\<close>

definition constIntOf :: "Node \<Rightarrow> interval" where
  "constIntOf n = (case asIntLit n of Some v \<Rightarrow> singletonIv v | None \<Rightarrow> unsetIv)"

definition isCmpOp :: "string \<Rightarrow> bool" where
  "isCmpOp op \<longleftrightarrow> op \<in> set [''<'', ''<='', ''>'', ''>='', ''=='', ''!='']"

text \<open>The name compared with \<open>nil\<close>; the empty name stands for none.\<close>

definition nilComparand :: "Node \<Rightarrow> Node \<Rightarrow> string" where
  "nilComparand l r =
     (case asIdent l of
        Some x \<Rightarrow> if isNilLit r then x else []
      | None \<Rightarrow> (case asIdent r of Some x \<Rightarrow> if isNilLit l then x else [] | None \<Rightarrow> []))"

datatype cmpSubject = noSubject | unknownBound string | comparedTo string string int

text \<open>The identifier, operator and constant of \<open>x op c\<close> or \<open>c op x\<close>; an identifier with a bound that is no
  literal; or neither.\<close>

definition cmpSubjectOf :: "Node \<Rightarrow> string \<Rightarrow> Node \<Rightarrow> cmpSubject" where
  "cmpSubjectOf l op r =
     (case asIdent l of
        Some x \<Rightarrow>
          (let iv = constIntOf r in
           if \<not> isSet iv then if op = ''<'' \<or> op = ''<='' then unknownBound x else noSubject
           else comparedTo x op (lo iv))
      | None \<Rightarrow>
        (case asIdent r of
           Some x \<Rightarrow>
             (let iv = constIntOf l in
              if \<not> isSet iv then if op = ''>'' \<or> op = ''>='' then unknownBound x else noSubject
              else comparedTo x (flipOp op) (lo iv))
         | None \<Rightarrow> noSubject))"

definition narrowNotZero :: "string \<Rightarrow> string \<Rightarrow> int \<Rightarrow> dfState \<times> dfState \<Rightarrow> dfState \<times> dfState" where
  "narrowNotZero x op c ste =
     (case ste of (th, el) \<Rightarrow>
      if op = ''!='' then (if c = 0 then setNotZero x th else th, el)
      else if op = ''=='' then (th, if c = 0 then setNotZero x el else el)
      else if op = ''>'' then (if c \<ge> 0 then setNotZero x th else th, el)
      else if op = ''>='' then (if c > 0 then setNotZero x th else th, el)
      else if op = ''<'' then (if c \<le> 0 then setNotZero x th else th, el)
      else if op = ''<='' then (if c < 0 then setNotZero x th else th, el)
      else (th, el))"

definition narrowOnCond :: "Node \<Rightarrow> dfState \<Rightarrow> dfState \<times> dfState" where
  "narrowOnCond cond st =
     (case asBin cond of
        None \<Rightarrow> (st, st)
      | Some (l, op, r) \<Rightarrow>
        if (op = ''=='' \<or> op = ''!='') \<and> nilComparand l r \<noteq> [] then
          let x = nilComparand l r in
          if op = ''=='' then (setNil x nilIsNil st, setNil x nilNonNil st)
          else (setNil x nilNonNil st, setNil x nilIsNil st)
        else if \<not> isCmpOp op then (st, st)
        else case cmpSubjectOf l op r of
          noSubject \<Rightarrow> (st, st)
        | unknownBound x \<Rightarrow> (setBoundsChecked x st, st)
        | comparedTo x op' c \<Rightarrow>
            if x = [] then (st, st)
            else case map_of (dfIntv st) x of
              None \<Rightarrow> (st, st)
            | Some cur \<Rightarrow>
                if \<not> isSet cur then (st, st)
                else
                  let (thenIv, elseIv) = narrowIntervalCmp cur op' c;
                      th = (if isSet thenIv then setIntv x thenIv st else st);
                      el = (if isSet elseIv then setIntv x elseIv st else st);
                      (th', el') = narrowNotZero x op' c (th, el) in
                  (if (op' = ''<'' \<or> op' = ''<='') \<and> c > 0 then setBoundsChecked x th' else th', el'))"

text \<open>The text of a boolean in a message.\<close>

definition boolStr :: "bool \<Rightarrow> string" where
  "boolStr b = (if b then ''true'' else ''false'')"

definition checkSingleCmp :: "Node \<Rightarrow> dfState \<Rightarrow> dfCtx \<Rightarrow> dfCtx" where
  "checkSingleCmp cond st ctx =
     (case asBin cond of
        None \<Rightarrow> ctx
      | Some (l, op, r) \<Rightarrow>
        if \<not> isCmpOp op then ctx
        else case cmpSubjectOf l op r of
          comparedTo x op' c \<Rightarrow>
            (case map_of (dfIntv st) x of
               None \<Rightarrow> ctx
             | Some cur \<Rightarrow>
                 if \<not> isSet cur then ctx
                 else case cmpAlwaysHolds cur op' c of
                   (always, v) \<Rightarrow>
                     if always
                     then warn DiagImpossibleRange (node_Pos cond) [op', boolStr v, x, sprintf_d (lo cur), sprintf_d (hi cur)] ctx
                     else ctx)
        | _ \<Rightarrow> ctx)"

function checkImpossibleCmpIn :: "Node \<Rightarrow> dfState \<Rightarrow> dfCtx \<Rightarrow> dfCtx \<times> dfState" where
  "checkImpossibleCmpIn cond st ctx =
     (case asBin cond of
        Some (l, op, r) \<Rightarrow>
          if op = ''&&'' then
            case checkImpossibleCmpIn l st ctx of
              (ctx1, leftThen) \<Rightarrow> (fst (checkImpossibleCmpIn r leftThen ctx1), leftThen)
          else if op = ''||'' then
            (fst (checkImpossibleCmpIn r st (fst (checkImpossibleCmpIn l st ctx))), st)
          else (checkSingleCmp cond st ctx, fst (narrowOnCond cond st))
      | None \<Rightarrow> (checkSingleCmp cond st ctx, fst (narrowOnCond cond st)))"
  by pat_completeness auto
termination
  by (relation "measure (\<lambda>(n, st, ctx). size n)") (auto dest: asBin_size)

declare checkImpossibleCmpIn.simps [simp del]

definition checkImpossibleCmp :: "Node \<Rightarrow> dfState \<Rightarrow> dfCtx \<Rightarrow> dfCtx" where
  "checkImpossibleCmp cond st ctx = fst (checkImpossibleCmpIn cond st ctx)"

section \<open>Types of expressions\<close>

fun dfStructNameOf :: "TypeExpr \<Rightarrow> string" where
  "dfStructNameOf (SimpleType n) = n"
| "dfStructNameOf (PointerType e _ _) = dfStructNameOf e"
| "dfStructNameOf (GenericType n _) = n"
| "dfStructNameOf _ = []"

fun dfIsPointerLike :: "TypeExpr option \<Rightarrow> bool" where
  "dfIsPointerLike (Some (PointerType _ _ _)) = True"
| "dfIsPointerLike _ = False"

fun isArrayLikeType :: "TypeExpr option \<Rightarrow> bool" where
  "isArrayLikeType (Some (ArrayType _ _)) = True"
| "isArrayLikeType (Some (PointerType _ _ _)) = True"
| "isArrayLikeType (Some (SimpleType n)) = (n = ''string'')"
| "isArrayLikeType _ = False"

fun peelType :: "TypeExpr \<Rightarrow> TypeExpr option" where
  "peelType (ArrayType e _) = Some e"
| "peelType (PointerType e _ _) = Some e"
| "peelType _ = None"

definition fieldType :: "dfEnv \<Rightarrow> TypeExpr \<Rightarrow> string \<Rightarrow> TypeExpr option" where
  "fieldType env t f =
     (let s = dfStructNameOf t in
      if s = [] then None
      else case map_of (structFieldsByName env) s of
        None \<Rightarrow> None
      | Some fs \<Rightarrow> (case find (\<lambda>fd. sf_Name fd = f) fs of Some fd \<Rightarrow> sf_Type fd | None \<Rightarrow> None))"

lemma asFieldAccess_size: "asFieldAccess n = Some (e, f) \<Longrightarrow> size e < size n"
  by (cases n rule: asFieldAccess.cases) auto

function dfResolveType :: "dfEnv \<Rightarrow> dfState \<Rightarrow> Node \<Rightarrow> TypeExpr option" where
  "dfResolveType env st n =
     (case asIdent n of Some x \<Rightarrow> map_of (dfTypes st) x
      | None \<Rightarrow> (case asFieldAccess n of
          Some (e, f) \<Rightarrow> (case dfResolveType env st e of Some t \<Rightarrow> fieldType env t f | None \<Rightarrow> None)
      | None \<Rightarrow> (case asIndex n of
          Some (e, _) \<Rightarrow> (case dfResolveType env st e of Some t \<Rightarrow> peelType t | None \<Rightarrow> None)
      | None \<Rightarrow> None)))"
  by pat_completeness auto
termination
  by (relation "measure (\<lambda>(env, st, n). size n)") (auto dest: asFieldAccess_size asIndex_size)

declare dfResolveType.simps [simp del]

definition indexReceiverTypeIsArrayLike :: "dfEnv \<Rightarrow> Node \<Rightarrow> dfState \<Rightarrow> bool" where
  "indexReceiverTypeIsArrayLike env n st = isArrayLikeType (dfResolveType env st n)"

text \<open>The verb \<open>%q\<close> of \<open>fmt.Sprintf\<close> on a name: names hold no character that it escapes.\<close>

definition quoteName :: "string \<Rightarrow> string" where
  "quoteName x = [CHR 0x22] @ x @ [CHR 0x22]"

function dfExprDescription :: "Node \<Rightarrow> string" where
  "dfExprDescription n =
     (case asIdent n of Some x \<Rightarrow> quoteName x
      | None \<Rightarrow> (case asFieldAccess n of Some (e, f) \<Rightarrow> dfExprDescription e @ ''.'' @ f | None \<Rightarrow> ''<expr>''))"
  by pat_completeness auto
termination
  by (relation "measure size") (auto dest: asFieldAccess_size)

declare dfExprDescription.simps [simp del]

fun isArrayLit :: "Node \<Rightarrow> bool" where
  "isArrayLit (NExpr _ (ArrayLit _)) = True"
| "isArrayLit _ = False"

text \<open>The synthesized types have an unnamed element type; an \<open>ArrayType\<close> literal in Go has size 0.\<close>

definition dfInferTypeFromRHS :: "dfEnv \<Rightarrow> Node option \<Rightarrow> TypeExpr option" where
  "dfInferTypeFromRHS env rhs =
     (case rhs of
        None \<Rightarrow> None
      | Some n \<Rightarrow>
        if isArrayLit n then Some (ArrayType (SimpleType []) 0)
        else if asAddressOf n \<noteq> None then Some (PointerType (SimpleType []) False False)
        else case asCall n of
          Some (f, _) \<Rightarrow>
            (case asIdent f of
               Some name \<Rightarrow> (case map_of (funcRetTypes env) name of Some t \<Rightarrow> t | None \<Rightarrow> None)
             | None \<Rightarrow> None)
        | None \<Rightarrow> None)"

section \<open>Manual allocation\<close>

definition calleePath :: "Node \<Rightarrow> string list option" where
  "calleePath f = asScope (case asIndex f of Some (e, _) \<Rightarrow> e | None \<Rightarrow> f)"

definition isManualAllocCall :: "Node option \<Rightarrow> bool" where
  "isManualAllocCall expr =
     (case expr of
        None \<Rightarrow> False
      | Some n \<Rightarrow>
        (case asCall n of
           Some (f, _) \<Rightarrow>
             (case calleePath f of
                Some path \<Rightarrow> length path = 2 \<and> path ! 0 = ''mem'' \<and> path ! 1 \<in> set [''malloc'', ''calloc'', ''realloc'', ''alloc'']
              | None \<Rightarrow> False)
         | None \<Rightarrow> False))"

definition isReallocOfSelf :: "Node \<Rightarrow> string \<Rightarrow> bool" where
  "isReallocOfSelf n name =
     (case asCall n of
        Some (f, args) \<Rightarrow>
          (case calleePath f of
             Some path \<Rightarrow> path = [''mem'', ''realloc''] \<and>
               (case args of a # _ \<Rightarrow> asIdent a = Some name | [] \<Rightarrow> False)
           | None \<Rightarrow> False)
      | None \<Rightarrow> False)"

definition callReturnsAlloc :: "dfEnv \<Rightarrow> Node option \<Rightarrow> bool" where
  "callReturnsAlloc env expr =
     (case expr of
        None \<Rightarrow> False
      | Some n \<Rightarrow>
        (case asCall n of
           Some (f, _) \<Rightarrow> (case asIdent f of Some name \<Rightarrow> name \<in> set (returnsAlloc env) | None \<Rightarrow> False)
         | None \<Rightarrow> False))"

definition isManualFreeCall :: "Node \<Rightarrow> string option" where
  "isManualFreeCall n =
     (case asCall n of
        Some (f, args) \<Rightarrow>
          (case asScope f of
             Some path \<Rightarrow> if path = [''mem'', ''free''] then (case args of [a] \<Rightarrow> asIdent a | _ \<Rightarrow> None) else None
           | None \<Rightarrow> None)
      | None \<Rightarrow> None)"

definition isDeinitCall :: "Node \<Rightarrow> string option" where
  "isDeinitCall n =
     (case asCall n of
        Some (f, _) \<Rightarrow>
          (case asFieldAccess f of
             Some (e, fld) \<Rightarrow>
               if fld \<noteq> ''deinit'' then None
               else (case asIdent e of Some x \<Rightarrow> Some x
                     | None \<Rightarrow> (case asDeref e of Some d \<Rightarrow> asIdent d | None \<Rightarrow> None))
           | None \<Rightarrow> None)
      | None \<Rightarrow> None)"

section \<open>Checks of expressions\<close>

definition dfCheckUncheckedDiv :: "dfEnv \<Rightarrow> Pos \<Rightarrow> string \<Rightarrow> Node \<Rightarrow> dfState \<Rightarrow> dfCtx \<Rightarrow> dfCtx" where
  "dfCheckUncheckedDiv env p op r st ctx =
     (if op \<noteq> ''/'' \<and> op \<noteq> ''%'' then ctx
      else case foldExpr env r of
        foldInt _ \<Rightarrow> ctx
      | _ \<Rightarrow>
        if (case asIdent r of
              Some x \<Rightarrow>
                (case map_of (dfIntv st) x of Some iv \<Rightarrow> isSet iv \<and> (lo iv > 0 \<or> hi iv < 0) | None \<Rightarrow> False) \<or>
                flag (dfNotZero st) x
            | None \<Rightarrow> False)
        then ctx
        else warn DiagUncheckedDiv p [op, (case asIdent r of Some x \<Rightarrow> ''divisor '' @ quoteName x | None \<Rightarrow> ''divisor'')] ctx)"

definition dfCheckUncheckedIndex :: "dfEnv \<Rightarrow> Node \<Rightarrow> Node \<Rightarrow> Node \<Rightarrow> dfState \<Rightarrow> dfCtx \<Rightarrow> dfCtx" where
  "dfCheckUncheckedIndex env n e idx st ctx =
     (case foldExpr env idx of
        foldInt _ \<Rightarrow> ctx
      | _ \<Rightarrow>
        if n \<in> set (dfSkipIndexCheck ctx) then ctx
        else if indexReceiverTypeIsArrayLike env e st then
          if (case asIdent idx of Some x \<Rightarrow> flag (dfBoundsChecked st) x | None \<Rightarrow> False) then ctx
          else warn DiagUncheckedIndex (node_Pos n) [(case asIdent idx of Some x \<Rightarrow> ''index '' @ quoteName x | None \<Rightarrow> ''index'')] ctx
        else if dfResolveType env st e \<noteq> None
        then warn DiagUncheckedIndex (node_Pos n) [dfExprDescription e, dfExprDescription e] ctx
        else ctx)"

definition dfCheckFloatPrecision :: "dfEnv \<Rightarrow> Pos \<Rightarrow> Node \<Rightarrow> string \<Rightarrow> Node \<Rightarrow> dfState \<Rightarrow> dfCtx \<Rightarrow> dfCtx" where
  "dfCheckFloatPrecision env p l op r st ctx =
     (if op \<noteq> ''=='' \<and> op \<noteq> ''!='' then ctx
      else case dfFoldFloat (floatOps env) st l of
        None \<Rightarrow> ctx
      | Some a \<Rightarrow>
        (case dfFoldFloat (floatOps env) st r of
           None \<Rightarrow> ctx
         | Some b \<Rightarrow>
           let floatEq = f64_eq (ieee a) (ieee b); exactEq = (exact a = exact b) in
           if floatEq = exactEq then ctx
           else
             let (i, e) = (if op = ''!='' then (\<not> floatEq, \<not> exactEq) else (floatEq, exactEq)) in
             warn DiagFloatPrecision p [op, boolStr i, boolStr e] ctx))"

text \<open>What \<open>*x\<close> and \<open>x.f\<close> share: the warning for a name that is nil or not known to be non-nil.\<close>

definition warnUncheckedNil :: "dfEnv \<Rightarrow> Pos \<Rightarrow> string \<Rightarrow> dfCtx \<Rightarrow> dfCtx" where
  "warnUncheckedNil env p x ctx =
     (if andersenMayBeNil (andersenPts env) (dfCurFnName env) x
      then warn DiagUncheckedReturnedNil p [x, x] ctx
      else warn DiagUncheckedNilDeref p [x, x] ctx)"

text \<open>A missing entry of the nil map reads as \<open>nilTop\<close>, the zero value.\<close>

definition nilAt :: "dfState \<Rightarrow> string \<Rightarrow> nilFact" where
  "nilAt st x = (case map_of (dfNil st) x of Some v \<Rightarrow> v | None \<Rightarrow> nilTop)"

definition checkDeref :: "dfEnv \<Rightarrow> dfState \<Rightarrow> Pos \<Rightarrow> string \<Rightarrow> dfCtx \<Rightarrow> dfCtx" where
  "checkDeref env st p x ctx =
     (let ctx1 = (if nilAt st x = nilIsNil then warn DiagDerefNil p [x] ctx
                  else if nilAt st x \<noteq> nilNonNil then warnUncheckedNil env p x ctx else ctx) in
      if flag (dfFreed st) x then warn DiagUseAfterDeinit p [x] ctx1 else ctx1)"

definition checkField :: "dfEnv \<Rightarrow> dfState \<Rightarrow> Pos \<Rightarrow> string \<Rightarrow> dfCtx \<Rightarrow> dfCtx" where
  "checkField env st p x ctx =
     (let ctx1 = (if nilAt st x = nilIsNil then warn DiagDerefNil p [x] ctx
                  else if dfIsPointerLike (map_of (dfTypes st) x) \<and> nilAt st x \<noteq> nilNonNil then warnUncheckedNil env p x ctx
                  else ctx) in
      if flag (dfFreed st) x then warn DiagUseAfterDeinit p [x] ctx1 else ctx1)"

definition dfCheckVisit :: "dfEnv \<Rightarrow> dfState \<Rightarrow> dfCtx \<Rightarrow> Node \<Rightarrow> dfCtx" where
  "dfCheckVisit env st ctx n =
     (case asIdent n of
        Some x \<Rightarrow> if map_of (dfManualAlloc st) x = Some manualAllocFreed then warn DiagManualUseAfterFree (node_Pos n) [x] ctx else ctx
      | None \<Rightarrow> (case asDeref n of
          Some e \<Rightarrow> (case asIdent e of Some x \<Rightarrow> checkDeref env st (node_Pos n) x ctx | None \<Rightarrow> ctx)
      | None \<Rightarrow> (case asFieldAccess n of
          Some (e, _) \<Rightarrow> (case asIdent e of Some x \<Rightarrow> checkField env st (node_Pos n) x ctx | None \<Rightarrow> ctx)
      | None \<Rightarrow> (case asIndex n of
          Some (e, idx) \<Rightarrow> dfCheckUncheckedIndex env n e idx st ctx
      | None \<Rightarrow> (case asBin n of
          Some (l, op, r) \<Rightarrow>
            dfCheckUncheckedDiv env (node_Pos n) op r st (dfCheckFloatPrecision env (node_Pos n) l op r st ctx)
      | None \<Rightarrow> ctx)))))"

text \<open>The operands into which \<open>dfCheckUseBeforeAssignNode\<close> goes on.\<close>

fun useBeforeAssignChildren :: "Node Expr \<Rightarrow> Node list" where
  "useBeforeAssignChildren (AddressOfExpr e) = (case asIdent e of Some _ \<Rightarrow> [] | None \<Rightarrow> [e])"
| "useBeforeAssignChildren (FieldAccess e _ _) = [e]"
| "useBeforeAssignChildren (BinExpr l _ r) = [l, r]"
| "useBeforeAssignChildren (UnaryExpr _ e _) = [e]"
| "useBeforeAssignChildren (CallExpr f _ as _) = f # as"
| "useBeforeAssignChildren (DerefExpr e) = [e]"
| "useBeforeAssignChildren (IndexExpr e i) = [e, i]"
| "useBeforeAssignChildren (TernaryExpr c t e) = [c, t, e]"
| "useBeforeAssignChildren _ = []"

definition useChildren :: "Node \<Rightarrow> Node list" where
  "useChildren n = (case n of NExpr _ e \<Rightarrow> useBeforeAssignChildren e | _ \<Rightarrow> [])"

lemma useChildren_size: "c \<in> set (useChildren n) \<Longrightarrow> size c < size n"
proof (cases n)
  case (NExpr p e)
  assume "c \<in> set (useChildren n)"
  then have "c \<in> set (useBeforeAssignChildren e)" using NExpr by (simp add: useChildren_def)
  then have "c \<in> set (exprChildren e)"
    by (cases e rule: useBeforeAssignChildren.cases) (auto split: option.splits)
  then show ?thesis using exprChildren_size NExpr by (simp add: less_Suc_eq_le)
qed (auto simp: useChildren_def)

function dfCheckUseBeforeAssignNode :: "dfState \<Rightarrow> dfCtx \<Rightarrow> Node \<Rightarrow> dfCtx" where
  "dfCheckUseBeforeAssignNode st ctx n =
     (case asIdent n of
        Some x \<Rightarrow> if flag (dfUninit st) x then warn DiagUseBeforeAssign (node_Pos n) [x] ctx else ctx
      | None \<Rightarrow> foldl (\<lambda>c m. dfCheckUseBeforeAssignNode st c m) ctx (useChildren n))"
  by pat_completeness auto
termination
  by (relation "measure (\<lambda>(st, ctx, n). size n)") (auto simp: useChildren_size)

declare dfCheckUseBeforeAssignNode.simps [simp del]

definition dfCheckUseBeforeAssign :: "Node \<Rightarrow> dfState \<Rightarrow> dfCtx \<Rightarrow> dfCtx" where
  "dfCheckUseBeforeAssign n st ctx = (if dfUninit st = [] then ctx else dfCheckUseBeforeAssignNode st ctx n)"

definition dfCheckExpr :: "dfEnv \<Rightarrow> Node option \<Rightarrow> dfState \<Rightarrow> dfCtx \<Rightarrow> dfCtx" where
  "dfCheckExpr env expr st ctx =
     (case expr of
        None \<Rightarrow> ctx
      | Some n \<Rightarrow> dfCheckUseBeforeAssign n st (foldl (dfCheckVisit env st) ctx (walkAST n)))"

section \<open>Escapes\<close>

definition namedIdent :: "Node \<Rightarrow> string list" where
  "namedIdent n = (case asIdent n of Some x \<Rightarrow> if x \<noteq> [] \<and> x \<noteq> ''_'' then [x] else [] | None \<Rightarrow> [])"

fun literalElems :: "Node \<Rightarrow> Node list" where
  "literalElems (NExpr _ (StructLit _ _ fs _)) = map structLitValue fs"
| "literalElems (NExpr _ (ArrayLit es)) = es"
| "literalElems (NExpr _ (TupleLit es)) = es"
| "literalElems _ = []"

text \<open>The names whose address is taken, those that are absorbed or passed to an unknown callee, and those
  that a callee frees, of one visited node.\<close>

definition callArgs :: "dfEnv \<Rightarrow> Node \<Rightarrow> Node \<Rightarrow> Node list \<Rightarrow> string list \<times> string list" where
  "callArgs env n f args =
     (if isManualFreeCall n \<noteq> None then ([], [])
      else
        let summary = (case asIdent f of Some name \<Rightarrow> map_of (paramFrees env) name | None \<Rightarrow> None);
            freed = (\<lambda>i. case summary of Some is \<Rightarrow> i \<in> set is | None \<Rightarrow> False);
            ias = zip [0..<length args] args in
        (concat (map (\<lambda>(i, a). if freed i \<or> summary \<noteq> None then [] else namedIdent a) ias),
         concat (map (\<lambda>(i, a). if freed i then namedIdent a else []) ias)))"

definition escapesOf :: "dfEnv \<Rightarrow> Node \<Rightarrow> string list \<times> string list \<times> string list" where
  "escapesOf env n =
     (case asAddressOf n of
        Some e \<Rightarrow> (namedIdent e, [], [])
      | None \<Rightarrow>
        (case asCall n of
           Some (f, args) \<Rightarrow> ([], callArgs env n f args)
         | None \<Rightarrow> ([], concat (map namedIdent (literalElems n)), [])))"

definition escapeName :: "string \<Rightarrow> dfState \<Rightarrow> dfState" where
  "escapeName x st =
     delUninit x ((setFloat x None (delIntv x (setNil x nilBottom (setCnst x cBottom st))))
       \<lparr>dfFreed := AList.delete x (dfFreed st)\<rparr>)"

definition moveAlloc :: "manualAllocState \<Rightarrow> string \<Rightarrow> dfState \<Rightarrow> dfState" where
  "moveAlloc a x st = (if map_of (dfManualAlloc st) x = Some manualAllocLive then setAlloc x (Some a) st else st)"

definition dfApplyEscapes :: "dfEnv \<Rightarrow> Node option \<Rightarrow> dfState \<Rightarrow> dfState" where
  "dfApplyEscapes env expr st =
     (case expr of
        None \<Rightarrow> st
      | Some n \<Rightarrow>
        let es = map (escapesOf env) (walkAST n);
            escaped = concat (map fst es);
            callArgNames = concat (map (fst \<circ> snd) es);
            callArgFreed = concat (map (snd \<circ> snd) es);
            st1 = foldl (\<lambda>s x. escapeName x s) st escaped;
            st2 = foldl (\<lambda>s x. moveAlloc manualAllocEscaped x s) st1 callArgNames in
        foldl (\<lambda>s x. moveAlloc manualAllocFreed x s) st2 callArgFreed)"

definition dfEscapeManualAllocFromExpr :: "Node option \<Rightarrow> dfState \<Rightarrow> dfState" where
  "dfEscapeManualAllocFromExpr expr st =
     (case expr of
        None \<Rightarrow> st
      | Some n \<Rightarrow> foldl (\<lambda>s m. case asIdent m of Some x \<Rightarrow> moveAlloc manualAllocEscaped x s | None \<Rightarrow> s) st (walkAST n))"

definition dfCheckManualAllocLeaks :: "dfState \<Rightarrow> dfCtx \<Rightarrow> dfCtx" where
  "dfCheckManualAllocLeaks st ctx =
     (if dfDead st then ctx
      else foldl (\<lambda>c (x, a). if a \<noteq> manualAllocLive then c
           else warn DiagManualAllocLeak (case map_of (manualAllocSites c) x of Some p \<Rightarrow> p | None \<Rightarrow> noPos) [x, x] c)
         ctx (dfManualAlloc st))"

section \<open>Statements\<close>

definition isNamed :: "string \<Rightarrow> bool" where
  "isNamed x \<longleftrightarrow> x \<noteq> [] \<and> x \<noteq> ''_''"

definition setSite :: "string \<Rightarrow> Pos \<Rightarrow> dfCtx \<Rightarrow> dfCtx" where
  "setSite x p ctx = ctx\<lparr>manualAllocSites := AList.update x p (manualAllocSites ctx)\<rparr>"

text \<open>\<open>let (a, b) = v\<close>.\<close>

definition dfWalkTupleDestruct :: "dfEnv \<Rightarrow> string list \<Rightarrow> Node \<Rightarrow> dfCtx \<Rightarrow> dfState \<Rightarrow> dfCtx \<times> dfState" where
  "dfWalkTupleDestruct env names v ctx st =
     (let ctx1 = (case asIndex v of Some _ \<Rightarrow> ctx\<lparr>dfSkipIndexCheck := v # dfSkipIndexCheck ctx\<rparr> | None \<Rightarrow> ctx);
          ctx2 = dfCheckExpr env (Some v) st ctx1;
          st1 = dfApplyEscapes env (Some v) st in
      (ctx2, foldl (\<lambda>s x. if \<not> isNamed x then s else delUninit x (setCnst x cBottom (setNil x nilBottom s))) st1 names))"

definition dfWalkVarDecl :: "dfEnv \<Rightarrow> Pos \<Rightarrow> string \<Rightarrow> TypeExpr option \<Rightarrow> Node option \<Rightarrow> dfCtx \<Rightarrow> dfState \<Rightarrow> dfCtx \<times> dfState" where
  "dfWalkVarDecl env p x t v ctx st =
     (let ctx1 = dfCheckExpr env v st ctx;
          newNil = dfNilOf v st;
          newCnst = dfEval env v st;
          newIv = dfIntervalForBinding t v st;
          newFp = (case v of Some n \<Rightarrow> dfFoldFloat (floatOps env) st n | None \<Rightarrow> None);
          st1 = setCnst x newCnst (setNil x newNil (dfApplyEscapes env v st));
          st2 = (if isSet newIv then setIntv x newIv st1 else st1);
          st3 = (case newFp of Some fp \<Rightarrow> setFloat x (Some fp) st2 | None \<Rightarrow> st2);
          isAlloc = isManualAllocCall v \<or> callReturnsAlloc env v;
          rhsType = (case t of Some _ \<Rightarrow> t | None \<Rightarrow> dfInferTypeFromRHS env v);
          st4 = (if \<not> isNamed x then st3
                 else
                   let s = (case rhsType of Some ty \<Rightarrow> st3\<lparr>dfTypes := AList.update x ty (dfTypes st3)\<rparr> | None \<Rightarrow> st3) in
                   setAlloc x (if isAlloc then Some manualAllocLive else None) s);
          ctx2 = (if isNamed x \<and> isAlloc then setSite x p ctx1 else ctx1);
          st5 = (if v = None \<and> isNamed x then st4\<lparr>dfUninit := AList.update x True (dfUninit st4)\<rparr> else delUninit x st4) in
      (ctx2, st5))"

text \<open>The rules for the allocation that an assignment overwrites.\<close>

definition dfReassignAlloc :: "dfEnv \<Rightarrow> Pos \<Rightarrow> string \<Rightarrow> Node \<Rightarrow> dfCtx \<Rightarrow> dfState \<Rightarrow> dfCtx \<times> dfState" where
  "dfReassignAlloc env p x v ctx st =
     (let rhsIsAlloc = isManualAllocCall (Some v) \<or> callReturnsAlloc env (Some v);
          priorLive = (map_of (dfManualAlloc st) x = Some manualAllocLive) in
      if priorLive \<and> isReallocOfSelf v x then (ctx, st)
      else if priorLive \<and> rhsIsAlloc then
        (setSite x p (warn DiagManualAllocLeak p [x] ctx), setAlloc x (Some manualAllocLive) st)
      else if priorLive then (warn DiagManualAllocLeak p [x] ctx, setAlloc x None st)
      else if rhsIsAlloc then (setSite x p ctx, setAlloc x (Some manualAllocLive) st)
      else (ctx, setAlloc x None st))"

definition dfWalkAssign :: "dfEnv \<Rightarrow> Pos \<Rightarrow> Node \<Rightarrow> Node \<Rightarrow> dfCtx \<Rightarrow> dfState \<Rightarrow> dfCtx \<times> dfState" where
  "dfWalkAssign env p target v ctx st =
     (let ctx1 = dfCheckExpr env (Some v) st ctx;
          newNil = dfNilOf (Some v) st;
          newCnst = dfEval env (Some v) st;
          newIv = intervalOf st v;
          newFp = dfFoldFloat (floatOps env) st v;
          st1 = dfApplyEscapes env (Some v) st in
      case asIdent target of
        None \<Rightarrow> (ctx1, st1)
      | Some x \<Rightarrow>
        let st2 = delProofs x (delUninit x ((setCnst x newCnst (setNil x newNil st1))\<lparr>dfFreed := AList.delete x (dfFreed st1)\<rparr>));
            (ctx2, st3) = dfReassignAlloc env p x v ctx1 st2;
            st4 = (if isSet newIv then setIntv x newIv st3 else delIntv x st3) in
        (ctx2, setFloat x newFp st4))"

text \<open>\<open>x += e\<close> and \<open>x++\<close> end alike: the facts about \<open>x\<close> are dropped and its interval shifted by a known step.\<close>

definition dfShiftVar :: "string \<Rightarrow> int option \<Rightarrow> dfState \<Rightarrow> dfState" where
  "dfShiftVar x delta st =
     (case (delta, map_of (dfIntv st) x) of
        (Some d, Some cur) \<Rightarrow> if isSet cur then setIntv x (shiftIv cur d) st else delIntv x st
      | _ \<Rightarrow> delIntv x st)"

definition dfTouchVar :: "string \<Rightarrow> dfState \<Rightarrow> dfState" where
  "dfTouchVar x st = delProofs x (delUninit x (setFloat x None (setNil x nilBottom st)))"

definition warnReadBeforeAssign :: "Pos \<Rightarrow> string \<Rightarrow> string \<Rightarrow> dfState \<Rightarrow> dfCtx \<Rightarrow> dfCtx" where
  "warnReadBeforeAssign p x op st ctx = (if flag (dfUninit st) x then warn DiagUseBeforeAssign p [x, op] ctx else ctx)"

definition dfWalkAugAssign :: "dfEnv \<Rightarrow> Pos \<Rightarrow> Node \<Rightarrow> string \<Rightarrow> Node \<Rightarrow> dfCtx \<Rightarrow> dfState \<Rightarrow> dfCtx \<times> dfState" where
  "dfWalkAugAssign env p target op v ctx st =
     (let ctx1 = dfCheckExpr env (Some v) st ctx;
          st1 = dfApplyEscapes env (Some v) st in
      case asIdent target of
        None \<Rightarrow> (ctx1, st1)
      | Some x \<Rightarrow>
        let ctx2 = warnReadBeforeAssign p x op st1 ctx1;
            st2 = dfTouchVar x st1;
            delta = (case dfConstInt (dfEval env (Some v) st2) of
                Some d \<Rightarrow> if op = ''+='' then Some d else if op = ''-='' then Some (wrap64 (- d)) else None
              | None \<Rightarrow> None) in
        (ctx2, setCnst x cBottom (dfShiftVar x delta st2)))"

definition dfWalkPostfix :: "dfEnv \<Rightarrow> Pos \<Rightarrow> Node \<Rightarrow> string \<Rightarrow> dfCtx \<Rightarrow> dfState \<Rightarrow> dfCtx \<times> dfState" where
  "dfWalkPostfix env p e op ctx st =
     (let ctx1 = dfCheckExpr env (Some e) st ctx in
      case asIdent e of
        None \<Rightarrow> (ctx1, st)
      | Some x \<Rightarrow>
        (warnReadBeforeAssign p x op st ctx1,
         setCnst x cBottom (dfShiftVar x (if op = ''++'' then Some 1 else if op = ''--'' then Some (- 1) else None) (dfTouchVar x st))))"

definition dfWalkExprStmt :: "dfEnv \<Rightarrow> Node \<Rightarrow> dfCtx \<Rightarrow> dfState \<Rightarrow> dfCtx \<times> dfState" where
  "dfWalkExprStmt env e ctx st =
     (case isDeinitCall e of
        Some x \<Rightarrow>
          (if flag (dfFreed st) x then warn DiagDoubleDeinit (node_Pos e) [x] ctx else ctx,
           st\<lparr>dfFreed := AList.update x True (dfFreed st)\<rparr>)
      | None \<Rightarrow>
        (case isManualFreeCall e of
           Some x \<Rightarrow>
             (if map_of (dfManualAlloc st) x = Some manualAllocFreed then warn DiagManualDoubleFree (node_Pos e) [x, x] ctx else ctx,
              setAlloc x (Some manualAllocFreed) st)
         | None \<Rightarrow> (dfCheckExpr env (Some e) st ctx, dfApplyEscapes env (Some e) st)))"

definition dfWalkReturn :: "dfEnv \<Rightarrow> Node option \<Rightarrow> dfCtx \<Rightarrow> dfState \<Rightarrow> dfCtx \<times> dfState" where
  "dfWalkReturn env v ctx st =
     (let ctx1 = dfCheckExpr env v st ctx;
          st1 = dfEscapeManualAllocFromExpr v st in
      (dfCheckManualAllocLeaks st1 ctx1, st1\<lparr>dfDead := True\<rparr>))"

text \<open>The statements without a statement below them.\<close>

fun dfWalkSimple :: "dfEnv \<Rightarrow> Node \<Rightarrow> dfCtx \<Rightarrow> dfState \<Rightarrow> dfCtx \<times> dfState" where
  "dfWalkSimple env (NDecl p (TupleDestructDecl _ names v)) ctx st = dfWalkTupleDestruct env names v ctx st"
| "dfWalkSimple env (NDecl p (VarDecl _ x t v)) ctx st = dfWalkVarDecl env p x t v ctx st"
| "dfWalkSimple env (NStmt p (AssignStmt t v)) ctx st = dfWalkAssign env p t v ctx st"
| "dfWalkSimple env (NStmt p (AugAssignStmt t op v)) ctx st = dfWalkAugAssign env p t op v ctx st"
| "dfWalkSimple env (NStmt p (PostfixStmt e op)) ctx st = dfWalkPostfix env p e op ctx st"
| "dfWalkSimple env (NStmt p (ExprStmt e)) ctx st = dfWalkExprStmt env e ctx st"
| "dfWalkSimple env (NStmt p (EchoStmt v)) ctx st = (dfCheckExpr env (Some v) st ctx, dfApplyEscapes env (Some v) st)"
| "dfWalkSimple env (NStmt p (ReturnStmt v)) ctx st = dfWalkReturn env v ctx st"
| "dfWalkSimple env (NStmt p (DeferStmt c)) ctx st = (dfCheckExpr env (Some c) st ctx, st)"
| "dfWalkSimple env (NLeaf p BreakStmt) ctx st = (ctx, st\<lparr>dfDead := True\<rparr>)"
| "dfWalkSimple env _ ctx st = (ctx, st)"

section \<open>Control flow\<close>

fun asBlock :: "Node \<Rightarrow> Node list option" where
  "asBlock (NBlock (Block _ ss _)) = Some ss"
| "asBlock _ = None"

fun blockStmts :: "Node Block \<Rightarrow> Node list" where
  "blockStmts (Block _ ss _) = ss"

fun asIf :: "Node \<Rightarrow> (Node \<times> Node list \<times> (Node \<times> Node list) list \<times> Node list option) option" where
  "asIf (NStmt _ (IfStmt c t eis e)) =
     Some (c, blockStmts t, map (\<lambda>ei. case ei of ElseIfClause ec eb \<Rightarrow> (ec, blockStmts eb)) eis, map_option blockStmts e)"
| "asIf _ = None"

record forParts =
  fp_Kind :: ForKind
  fp_Var :: string
  fp_Init :: "Node option"
  fp_Cond :: "Node option"
  fp_Post :: "Node option"
  fp_Iter :: "Node option"
  fp_Body :: "Node list"

fun asFor :: "Node \<Rightarrow> forParts option" where
  "asFor (NStmt _ (ForStmt k x _ _ init cond post iter body)) =
     Some \<lparr>fp_Kind = k, fp_Var = x, fp_Init = init, fp_Cond = cond, fp_Post = post, fp_Iter = iter,
       fp_Body = (case body of Some b \<Rightarrow> blockStmts b | None \<Rightarrow> [])\<rparr>"
| "asFor _ = None"

fun asMatch :: "Node \<Rightarrow> (Node \<times> Node list list \<times> Node list option) option" where
  "asMatch (NStmt _ (MatchStmt e _ cs d)) =
     Some (e, map (\<lambda>c. case c of MatchCase _ _ _ _ _ b \<Rightarrow> blockStmts b) cs, map_option blockStmts d)"
| "asMatch _ = None"

text \<open>The facts about the variable of a \<open>for ... in\<close> loop are dropped before its body.\<close>

definition forInState :: "string \<Rightarrow> Node option \<Rightarrow> dfState \<Rightarrow> dfState" where
  "forInState x iter st =
     (if x = [] then st
      else
        let s = st\<lparr>dfNil := AList.delete x (dfNil st), dfCnst := AList.delete x (dfCnst st), dfIntv := AList.delete x (dfIntv st),
                   dfFloats := AList.delete x (dfFloats st), dfUninit := AList.delete x (dfUninit st),
                   dfFreed := AList.delete x (dfFreed st), dfNotZero := AList.delete x (dfNotZero st),
                   dfBoundsChecked := AList.delete x (dfBoundsChecked st)\<rparr> in
        case iter of
          Some n \<Rightarrow> (case asBin n of Some (_, op, _) \<Rightarrow> if op = ''..'' then setBoundsChecked x s else s | None \<Rightarrow> s)
        | None \<Rightarrow> s)"

text \<open>The fixpoint of a loop: at most four rounds of the body, with widening from the second round on.
  \<open>walkBody\<close> and \<open>walkPost\<close> are the walks of the body and of the post statement.\<close>

type_synonym walk = "dfCtx \<Rightarrow> dfState \<Rightarrow> dfCtx \<times> dfState"

definition bodyEntry :: "Node option \<Rightarrow> dfState \<Rightarrow> dfState" where
  "bodyEntry cond st = (case cond of Some c \<Rightarrow> fst (narrowOnCond c st) | None \<Rightarrow> st)"

definition loopRound :: "dfEnv \<Rightarrow> Node option \<Rightarrow> walk \<Rightarrow> walk option \<Rightarrow> bool \<Rightarrow> dfCtx \<Rightarrow> dfState \<Rightarrow> dfCtx \<times> dfState" where
  "loopRound env cond walkBody walkPost widen ctx prev =
     (let ctx1 = dfCheckExpr env cond prev ctx;
          (ctx2, bodySt) = walkBody ctx1 (bodyEntry cond prev);
          (ctx3, bodySt') = (case walkPost of Some w \<Rightarrow> if \<not> dfDead bodySt then w ctx2 bodySt else (ctx2, bodySt) | None \<Rightarrow> (ctx2, bodySt));
          merged = mergeStates prev bodySt' in
      (ctx3, if widen then widenStates prev merged else merged))"

text \<open>Rounds \<open>i\<close> to \<open>3\<close>; the flag says whether the state was stable.\<close>

fun loopFix :: "dfEnv \<Rightarrow> Node option \<Rightarrow> walk \<Rightarrow> walk option \<Rightarrow> nat \<Rightarrow> nat \<Rightarrow> dfCtx \<Rightarrow> dfState \<Rightarrow> dfCtx \<times> dfState \<times> bool" where
  "loopFix env cond wb wp i 0 ctx prev = (ctx, prev, False)"
| "loopFix env cond wb wp i (Suc n) ctx prev =
     (case loopRound env cond wb wp (i \<ge> 1) ctx prev of
        (ctx1, merged) \<Rightarrow>
          if statesEqual prev merged then (ctx1, merged, True)
          else loopFix env cond wb wp (Suc i) n ctx1 merged)"

definition maxIter :: nat where
  "maxIter = 4"

definition bottomised :: "dfState \<Rightarrow> dfState" where
  "bottomised prev =
     newDFState\<lparr>dfNil := map (\<lambda>(k, _). (k, nilBottom)) (dfNil prev), dfCnst := map (\<lambda>(k, _). (k, cBottom)) (dfCnst prev),
       dfFreed := dfFreed prev, dfUninit := dfUninit prev\<rparr>"

definition loopWalk :: "dfEnv \<Rightarrow> Node option \<Rightarrow> walk \<Rightarrow> walk option \<Rightarrow> dfCtx \<Rightarrow> dfState \<Rightarrow> dfCtx \<times> dfState" where
  "loopWalk env cond wb wp ctx st =
     (case loopFix env cond wb wp 0 maxIter (ctx\<lparr>dfSuppressWarnings := Suc (dfSuppressWarnings ctx)\<rparr>) st of
        (ctx1, prev, converged) \<Rightarrow>
          let ctx2 = ctx1\<lparr>dfSuppressWarnings := dfSuppressWarnings ctx1 - 1\<rparr> in
          if \<not> converged then (ctx2, bottomised prev)
          else (fst (wb (dfCheckExpr env cond prev ctx2) (bodyEntry cond prev)), prev))"

text \<open>The statements of a block; a dead state ends it.\<close>

fun walkSeq :: "(Node \<Rightarrow> walk) \<Rightarrow> Node list \<Rightarrow> walk" where
  "walkSeq w [] ctx st = (ctx, st)"
| "walkSeq w (s # ss) ctx st = (if dfDead st then (ctx, st) else case w s ctx st of (ctx1, st1) \<Rightarrow> walkSeq w ss ctx1 st1)"

lemma walkSeq_cong [fundef_cong]:
  "ss = ss' \<Longrightarrow> (\<And>s ctx st. s \<in> set ss' \<Longrightarrow> w s ctx st = w' s ctx st) \<Longrightarrow> walkSeq w ss = walkSeq w' ss'"
proof -
  assume "ss = ss'" "\<And>s ctx st. s \<in> set ss' \<Longrightarrow> w s ctx st = w' s ctx st"
  then have "walkSeq w ss ctx st = walkSeq w' ss' ctx st" for ctx st
    by (induction ss arbitrary: ss' ctx st) (auto split: prod.split)
  then show ?thesis by blast
qed

text \<open>The condition of an \<open>if\<close>: the checks, and the warning when it folds only because of flow facts.\<close>

definition checkIfCond :: "dfEnv \<Rightarrow> Pos \<Rightarrow> Node \<Rightarrow> dfState \<Rightarrow> dfCtx \<Rightarrow> dfCtx" where
  "checkIfCond env p c st ctx =
     (let ctx1 = checkImpossibleCmp c st (dfCheckExpr env (Some c) st ctx) in
      case dfEval env (Some c) st of
        cBool v \<Rightarrow> (case foldExpr env c of foldBool _ \<Rightarrow> ctx1 | _ \<Rightarrow> warn DiagBoolAnalysis p [boolStr v] ctx1)
      | _ \<Rightarrow> ctx1)"

text \<open>The \<open>elif\<close> clauses: \<open>thenSt\<close> collects the arms, \<open>elseSt\<close> is the state in which no condition held.\<close>

fun walkElifs :: "dfEnv \<Rightarrow> (Node list \<Rightarrow> walk) \<Rightarrow> (Node \<times> Node list) list \<Rightarrow> dfCtx \<Rightarrow> dfState \<Rightarrow> dfState \<Rightarrow> dfCtx \<times> dfState \<times> dfState" where
  "walkElifs env wb [] ctx thenSt elseSt = (ctx, thenSt, elseSt)"
| "walkElifs env wb ((c, b) # eis) ctx thenSt elseSt =
     (let ctx1 = dfCheckExpr env (Some c) elseSt ctx;
          (inner, elseSt') = narrowOnCond c elseSt;
          (ctx2, inner') = wb b ctx1 inner in
      walkElifs env wb eis ctx2 (mergeStates thenSt inner') elseSt')"

lemma walkElifs_cong [fundef_cong]:
  "eis = eis' \<Longrightarrow> (\<And>c b ctx st. (c, b) \<in> set eis' \<Longrightarrow> wb b ctx st = wb' b ctx st) \<Longrightarrow> walkElifs env wb eis = walkElifs env wb' eis'"
proof -
  assume "eis = eis'" "\<And>c b ctx st. (c, b) \<in> set eis' \<Longrightarrow> wb b ctx st = wb' b ctx st"
  then have "walkElifs env wb eis ctx t e = walkElifs env wb' eis' ctx t e" for ctx t e
  proof (induction eis arbitrary: eis' ctx t e)
    case (Cons ei eis)
    obtain c b where ei: "ei = (c, b)" by (cases ei)
    have mem: "(c, b) \<in> set eis'" using Cons.prems(1) ei by auto
    have "wb b = wb' b" by (intro ext Cons.prems(2) [OF mem])
    moreover have "walkElifs env wb eis ctx t e = walkElifs env wb' eis ctx t e" for ctx t e
    proof (rule Cons.IH [OF refl])
      fix c' b' ctx' st' assume "(c', b') \<in> set eis"
      then have "(c', b') \<in> set eis'" using Cons.prems(1) by auto
      then show "wb b' ctx' st' = wb' b' ctx' st'" by (rule Cons.prems(2))
    qed
    ultimately show ?case using Cons.prems ei by (auto simp: Let_def split: prod.split)
  qed auto
  then show ?thesis by blast
qed

definition mergeOpt :: "dfState option \<Rightarrow> dfState \<Rightarrow> dfState" where
  "mergeOpt a b = (case a of None \<Rightarrow> b | Some s \<Rightarrow> mergeStates s b)"

fun walkArms :: "(Node list \<Rightarrow> walk) \<Rightarrow> Node list list \<Rightarrow> dfState \<Rightarrow> dfCtx \<Rightarrow> dfState option \<Rightarrow> dfCtx \<times> dfState option" where
  "walkArms wb [] st ctx merged = (ctx, merged)"
| "walkArms wb (b # bs) st ctx merged = (case wb b ctx st of (ctx1, armSt) \<Rightarrow> walkArms wb bs st ctx1 (Some (mergeOpt merged armSt)))"

lemma walkArms_cong [fundef_cong]:
  "bs = bs' \<Longrightarrow> (\<And>b ctx st. b \<in> set bs' \<Longrightarrow> wb b ctx st = wb' b ctx st) \<Longrightarrow> walkArms wb bs = walkArms wb' bs'"
proof -
  assume "bs = bs'" "\<And>b ctx st. b \<in> set bs' \<Longrightarrow> wb b ctx st = wb' b ctx st"
  then have "walkArms wb bs s ctx m = walkArms wb' bs' s ctx m" for s ctx m
    by (induction bs arbitrary: bs' s ctx m) (auto split: prod.split)
  then show ?thesis by blast
qed

lemma asBlock_size: "asBlock n = Some ss \<Longrightarrow> s \<in> set ss \<Longrightarrow> size s < size n"
  by (cases n rule: asBlock.cases) (auto dest: node_list_mem)

lemma blockStmts_size: "s \<in> set (blockStmts b) \<Longrightarrow> size s < size_Block size b"
  by (cases b) (auto dest: node_list_mem)

lemma asIf_size:
  assumes "asIf n = Some (c, t, eis, e)"
  shows "s \<in> set t \<Longrightarrow> size s < size n" and "(ec, eb) \<in> set eis \<Longrightarrow> s \<in> set eb \<Longrightarrow> size s < size n"
    and "e = Some els \<Longrightarrow> s \<in> set els \<Longrightarrow> size s < size n"
proof -
  obtain p b eis' e' where n: "n = NStmt p (IfStmt c b eis' e')" and t: "t = blockStmts b"
      and eis: "eis = map (\<lambda>ei. case ei of ElseIfClause ec eb \<Rightarrow> (ec, blockStmts eb)) eis'" and e: "e = map_option blockStmts e'"
    using assms by (cases n rule: asIf.cases) auto
  show "s \<in> set t \<Longrightarrow> size s < size n" using blockStmts_size [of s b] n t by simp
  show "size s < size n" if "(ec, eb) \<in> set eis" "s \<in> set eb"
  proof -
    from that(1) eis obtain bl where ei: "ElseIfClause ec bl \<in> set eis'" "eb = blockStmts bl"
      by (auto split: ElseIfClause.splits)
    then show ?thesis using size_list_mem [OF ei(1), of "size_ElseIfClause size"] blockStmts_size [of s bl] that(2) n by simp
  qed
  show "size s < size n" if "e = Some els" "s \<in> set els"
  proof -
    from that e obtain bl where "e' = Some bl" "s \<in> set (blockStmts bl)" by auto
    then show ?thesis using blockStmts_size [of s bl] n by simp
  qed
qed

lemma asFor_size:
  assumes "asFor n = Some fp"
  shows "fp_Init fp = Some m \<Longrightarrow> size m < size n" and "fp_Post fp = Some m \<Longrightarrow> size m < size n" and "s \<in> set (fp_Body fp) \<Longrightarrow> size s < size n"
proof -
  obtain p k x t r i c po it b where n: "n = NStmt p (ForStmt k x t r i c po it b)"
      and f: "fp_Init fp = i" "fp_Post fp = po" "fp_Body fp = (case b of Some bl \<Rightarrow> blockStmts bl | None \<Rightarrow> [])"
    using assms by (cases n rule: asFor.cases) auto
  show "fp_Init fp = Some m \<Longrightarrow> size m < size n" "fp_Post fp = Some m \<Longrightarrow> size m < size n" using n f by auto
  show "s \<in> set (fp_Body fp) \<Longrightarrow> size s < size n" using blockStmts_size n f by (fastforce split: option.splits)
qed

lemma asMatch_size:
  assumes "asMatch n = Some (e, bs, d)"
  shows "b \<in> set bs \<Longrightarrow> s \<in> set b \<Longrightarrow> size s < size n" and "d = Some db \<Longrightarrow> s \<in> set db \<Longrightarrow> size s < size n"
proof -
  obtain p t cs d' where n: "n = NStmt p (MatchStmt e t cs d')"
      and bs: "bs = map (\<lambda>c. case c of MatchCase _ _ _ _ _ b \<Rightarrow> blockStmts b) cs" and d: "d = map_option blockStmts d'"
    using assms by (cases n rule: asMatch.cases) auto
  show "size s < size n" if "b \<in> set bs" "s \<in> set b"
  proof -
    from that(1) bs obtain q pat vn vt g bl where c: "MatchCase q pat vn vt g bl \<in> set cs" "b = blockStmts bl"
      by (auto split: MatchCase.splits)
    then show ?thesis using size_list_mem [OF c(1), of "size_MatchCase size"] blockStmts_size [of s bl] that(2) n by simp
  qed
  show "size s < size n" if "d = Some db" "s \<in> set db"
  proof -
    from that d obtain bl where "d' = Some bl" "s \<in> set (blockStmts bl)" by auto
    then show ?thesis using blockStmts_size [of s bl] n by simp
  qed
qed

function dfWalkStmt :: "dfEnv \<Rightarrow> Node \<Rightarrow> dfCtx \<Rightarrow> dfState \<Rightarrow> dfCtx \<times> dfState" where
  "dfWalkStmt env n ctx st =
     (case asBlock n of
        Some ss \<Rightarrow> walkSeq (\<lambda>s c t. dfWalkStmt env s c t) ss ctx st
      | None \<Rightarrow> (case asIf n of
          Some (cond, th, eis, el) \<Rightarrow>
            (let ctx1 = checkIfCond env (node_Pos n) cond st ctx;
                 (thenSt, elseSt) = narrowOnCond cond st;
                 (ctx2, thenSt1) = walkSeq (\<lambda>s c t. dfWalkStmt env s c t) th ctx1 thenSt;
                 (ctx3, thenSt2, elseSt2) = walkElifs env (\<lambda>b. walkSeq (\<lambda>s c t. dfWalkStmt env s c t) b) eis ctx2 thenSt1 elseSt;
                 (ctx4, elseSt3) = (case el of Some b \<Rightarrow> walkSeq (\<lambda>s c t. dfWalkStmt env s c t) b ctx3 elseSt2 | None \<Rightarrow> (ctx3, elseSt2)) in
             (ctx4, mergeStates thenSt2 elseSt3))
      | None \<Rightarrow> (case asFor n of
          Some fp \<Rightarrow>
            (let body = walkSeq (\<lambda>s c t. dfWalkStmt env s c t) (fp_Body fp) in
             if fp_Kind fp = ForIn then
               let loopSt = forInState (fp_Var fp) (fp_Iter fp) st in
               loopWalk env None body None (dfCheckExpr env (fp_Iter fp) loopSt ctx) loopSt
             else
               let (ctx1, st1) = (case fp_Init fp of Some i \<Rightarrow> dfWalkStmt env i ctx st | None \<Rightarrow> (ctx, st)) in
               loopWalk env (fp_Cond fp) body (case fp_Post fp of Some q \<Rightarrow> Some (\<lambda>c t. dfWalkStmt env q c t) | None \<Rightarrow> None) ctx1 st1)
      | None \<Rightarrow> (case asMatch n of
          Some (e, bs, d) \<Rightarrow>
            (let ctx1 = dfCheckExpr env (Some e) st ctx;
                 (ctx2, merged) = walkArms (\<lambda>b. walkSeq (\<lambda>s c t. dfWalkStmt env s c t) b) bs st ctx1 None;
                 (ctx3, merged') = (case d of
                    Some b \<Rightarrow> (case walkSeq (\<lambda>s c t. dfWalkStmt env s c t) b ctx2 st of (c, armSt) \<Rightarrow> (c, Some (mergeOpt merged armSt)))
                  | None \<Rightarrow> (ctx2, merged)) in
             (ctx3, case merged' of Some s \<Rightarrow> s | None \<Rightarrow> st))
      | None \<Rightarrow> dfWalkSimple env n ctx st))))"
  by pat_completeness auto
termination
  by (relation "measure (\<lambda>(env, n, ctx, st). size n)")
    (auto intro: asBlock_size asIf_size asFor_size asMatch_size)

declare dfWalkStmt.simps [simp del]


section \<open>Summaries of manual allocation\<close>

text \<open>What \<open>computeManualAllocSummaries\<close> computes for each function: the positions of the parameters that it
  frees, and whether it returns a fresh allocation.  The entries of earlier runs are kept.\<close>

record allocSummary =
  sumFrees :: "(string \<times> nat list) list"
  sumReturns :: "string list"

record fnEntry =
  fe_Body :: Node
  fe_ParamIndex :: "(string \<times> nat) list"

definition paramIndexOf :: "Param list \<Rightarrow> (string \<times> nat) list" where
  "paramIndexOf ps =
     fst (foldl (\<lambda>(idx, pos) p.
        if p_IsVarArgs p then (idx, pos)
        else (if isNamed (p_Name p) then AList.update (p_Name p) pos idx else idx, Suc pos)) ([], 0) ps)"

fun addFn :: "Node FuncDecl \<Rightarrow> (string \<times> fnEntry) list \<Rightarrow> (string \<times> fnEntry) list" where
  "addFn (FuncDecl _ name _ _ _ ps _ body _ _ isExtern isVirtual _) fns =
     (case body of
        None \<Rightarrow> fns
      | Some b \<Rightarrow>
        if isExtern \<noteq> [] \<or> isVirtual then fns
        else AList.update name \<lparr>fe_Body = b, fe_ParamIndex = paramIndexOf ps\<rparr> fns)"

text \<open>The functions and methods of a program, in the order of the source.\<close>

fun declaredFns :: "Node \<Rightarrow> Node FuncDecl list" where
  "declaredFns (NFunc fd) = [fd]"
| "declaredFns (NDecl _ (StructDecl _ _ _ _ _ ms _ _ _)) = ms"
| "declaredFns _ = []"

definition collectFns :: "Node list \<Rightarrow> (string \<times> fnEntry) list" where
  "collectFns prog = foldl (\<lambda>fns fd. addFn fd fns) [] (concat (map declaredFns prog))"

definition freesAt :: "allocSummary \<Rightarrow> string \<Rightarrow> nat \<Rightarrow> bool" where
  "freesAt s f i \<longleftrightarrow> (case map_of (sumFrees s) f of Some is \<Rightarrow> i \<in> set is | None \<Rightarrow> False)"

definition addFree :: "string \<Rightarrow> nat \<Rightarrow> allocSummary \<Rightarrow> allocSummary" where
  "addFree f i s =
     s\<lparr>sumFrees := AList.update f (case map_of (sumFrees s) f of Some is \<Rightarrow> List.insert i is | None \<Rightarrow> [i]) (sumFrees s)\<rparr>"

definition addReturns :: "string \<Rightarrow> allocSummary \<Rightarrow> allocSummary" where
  "addReturns f s = s\<lparr>sumReturns := List.insert f (sumReturns s)\<rparr>"

definition seedFrees :: "string list \<Rightarrow> allocSummary \<Rightarrow> allocSummary" where
  "seedFrees names s =
     foldl (\<lambda>s f. if map_of (sumFrees s) f = None then s\<lparr>sumFrees := AList.update f [] (sumFrees s)\<rparr> else s) s names"

fun asExprStmt :: "Node \<Rightarrow> Node option" where
  "asExprStmt (NStmt _ (ExprStmt e)) = Some e"
| "asExprStmt _ = None"

fun asReturn :: "Node \<Rightarrow> Node option option" where
  "asReturn (NStmt _ (ReturnStmt v)) = Some v"
| "asReturn _ = None"

definition directVisit :: "string \<Rightarrow> fnEntry \<Rightarrow> allocSummary \<Rightarrow> Node \<Rightarrow> allocSummary" where
  "directVisit name entry s n =
     (case asExprStmt n of
        Some e \<Rightarrow>
          (case isManualFreeCall e of
             Some a \<Rightarrow> (case map_of (fe_ParamIndex entry) a of Some i \<Rightarrow> addFree name i s | None \<Rightarrow> s)
           | None \<Rightarrow> s)
      | None \<Rightarrow>
        (case asReturn n of
           Some v \<Rightarrow> if isManualAllocCall v then addReturns name s else s
         | None \<Rightarrow> s))"

text \<open>A visit of the second phase also says whether it changed the summaries.  The set of the callee is read
  again for each argument: it is the set being extended when a function calls itself.\<close>

definition passArg :: "string \<Rightarrow> fnEntry \<Rightarrow> string \<Rightarrow> bool \<times> allocSummary \<Rightarrow> nat \<times> Node \<Rightarrow> bool \<times> allocSummary" where
  "passArg name entry callee cs ia =
     (case (cs, ia) of ((changed, s), (i, arg)) \<Rightarrow>
      if \<not> freesAt s callee i then cs
      else case asIdent arg of
        None \<Rightarrow> cs
      | Some a \<Rightarrow>
        (case map_of (fe_ParamIndex entry) a of
           None \<Rightarrow> cs
         | Some pidx \<Rightarrow> if freesAt s name pidx then cs else (True, addFree name pidx s)))"

definition callVisit :: "string \<Rightarrow> fnEntry \<Rightarrow> bool \<times> allocSummary \<Rightarrow> Node \<Rightarrow> bool \<times> allocSummary" where
  "callVisit name entry cs n =
     (case asCall n of
        Some (f, args) \<Rightarrow>
          (case asIdent f of
             None \<Rightarrow> cs
           | Some callee \<Rightarrow> foldl (passArg name entry callee) cs (zip [0..<length args] args))
      | None \<Rightarrow>
        (case asReturn n of
           Some (Some v) \<Rightarrow>
             (case asCall v of
                Some (f, _) \<Rightarrow>
                  (case asIdent f of
                     Some callee \<Rightarrow>
                       if callee \<in> set (sumReturns (snd cs)) \<and> name \<notin> set (sumReturns (snd cs))
                       then (True, addReturns name (snd cs)) else cs
                   | None \<Rightarrow> cs)
              | None \<Rightarrow> cs)
         | _ \<Rightarrow> cs))"

definition summaryRound :: "(string \<times> fnEntry) list \<Rightarrow> allocSummary \<Rightarrow> bool \<times> allocSummary" where
  "summaryRound fns s = foldl (\<lambda>cs (name, entry). foldl (callVisit name entry) cs (walkAST (fe_Body entry))) (False, s) fns"

definition summaryFix :: "(string \<times> fnEntry) list \<Rightarrow> allocSummary \<Rightarrow> (bool \<times> allocSummary) option" where
  "summaryFix fns s = while_option fst (\<lambda>(_, s). summaryRound fns s) (True, s)"

definition directSummary :: "(string \<times> fnEntry) list \<Rightarrow> allocSummary \<Rightarrow> allocSummary" where
  "directSummary fns s =
     foldl (\<lambda>s (name, entry). foldl (directVisit name entry) s (walkAST (fe_Body entry))) (seedFrees (map fst fns) s) fns"

definition computeManualAllocSummaries :: "Node list \<Rightarrow> allocSummary \<Rightarrow> allocSummary option" where
  "computeManualAllocSummaries prog s =
     (let fns = collectFns prog in map_option snd (summaryFix fns (directSummary fns s)))"

section \<open>Functions and programs\<close>

definition seedParam :: "dfState \<Rightarrow> Param \<Rightarrow> dfState" where
  "seedParam st p =
     (if \<not> isNamed (p_Name p) then st
      else
        let st1 = setCnst (p_Name p) cBottom (setNil (p_Name p) nilBottom st);
            iv = intervalForTinType (p_Type p);
            st2 = (if isSet iv then setIntv (p_Name p) iv st1 else st1) in
        case p_Type p of Some t \<Rightarrow> st2\<lparr>dfTypes := AList.update (p_Name p) t (dfTypes st2)\<rparr> | None \<Rightarrow> st2)"

fun dfAnalyzeFunc :: "dfEnv \<Rightarrow> Node FuncDecl \<Rightarrow> dfCtx \<Rightarrow> dfCtx" where
  "dfAnalyzeFunc env (FuncDecl _ name _ _ _ ps _ body _ _ isExtern isVirtual _) ctx =
     (case body of
        None \<Rightarrow> ctx
      | Some b \<Rightarrow>
        if isExtern \<noteq> [] \<or> isVirtual then ctx
        else case dfWalkStmt (env\<lparr>dfCurFnName := name\<rparr>) b (ctx\<lparr>manualAllocSites := []\<rparr>) (foldl seedParam newDFState ps) of
          (ctx1, finalSt) \<Rightarrow> dfCheckManualAllocLeaks finalSt ctx1)"

definition runDataflow :: "dfEnv \<Rightarrow> Node list \<Rightarrow> dfCtx \<Rightarrow> dfCtx option" where
  "runDataflow env prog ctx =
     map_option (\<lambda>s.
       let env' = env\<lparr>paramFrees := sumFrees s, returnsAlloc := sumReturns s\<rparr> in
       foldl (\<lambda>c fd. dfAnalyzeFunc env' fd c) ctx (concat (map declaredFns prog)))
       (computeManualAllocSummaries prog \<lparr>sumFrees = paramFrees env, sumReturns = returnsAlloc env\<rparr>)"

end
