(* ===== verification/TinDfSummary.thy ===== *)
theory TinDfSummary
  imports TinDataflow
begin

text \<open>
  The interprocedural summaries of manual allocation (\<open>computeManualAllocSummaries\<close>): the two phases end, and what they
  compute is the least solution of the rules that the comment of the Go function states.  In particular the
  result does not depend on the order in which Go visits the map of functions.
\<close>

section \<open>The specification\<close>

inductive freesParam :: "(string \<times> fnEntry) list \<Rightarrow> allocSummary \<Rightarrow> string \<Rightarrow> nat \<Rightarrow> bool" for fns s0 where
  kept: "freesAt s0 f i \<Longrightarrow> freesParam fns s0 f i"
| direct: "(f, e) \<in> set fns \<Longrightarrow> n \<in> set (walkAST (fe_Body e)) \<Longrightarrow> asExprStmt n = Some c \<Longrightarrow> isManualFreeCall c = Some a \<Longrightarrow>
    map_of (fe_ParamIndex e) a = Some i \<Longrightarrow> freesParam fns s0 f i"
| passed: "(f, e) \<in> set fns \<Longrightarrow> n \<in> set (walkAST (fe_Body e)) \<Longrightarrow> asCall n = Some (c, args) \<Longrightarrow> asIdent c = Some g \<Longrightarrow>
    freesParam fns s0 g j \<Longrightarrow> j < length args \<Longrightarrow> asIdent (args ! j) = Some a \<Longrightarrow>
    map_of (fe_ParamIndex e) a = Some k \<Longrightarrow> freesParam fns s0 f k"

inductive returnsFresh :: "(string \<times> fnEntry) list \<Rightarrow> allocSummary \<Rightarrow> string \<Rightarrow> bool" for fns s0 where
  kept: "f \<in> set (sumReturns s0) \<Longrightarrow> returnsFresh fns s0 f"
| direct: "(f, e) \<in> set fns \<Longrightarrow> n \<in> set (walkAST (fe_Body e)) \<Longrightarrow> asReturn n = Some v \<Longrightarrow> isManualAllocCall v \<Longrightarrow>
    returnsFresh fns s0 f"
| forwarded: "(f, e) \<in> set fns \<Longrightarrow> n \<in> set (walkAST (fe_Body e)) \<Longrightarrow> asReturn n = Some (Some v) \<Longrightarrow> asCall v = Some (c, args) \<Longrightarrow>
    asIdent c = Some g \<Longrightarrow> returnsFresh fns s0 g \<Longrightarrow> returnsFresh fns s0 f"

definition summarySound :: "(string \<times> fnEntry) list \<Rightarrow> allocSummary \<Rightarrow> allocSummary \<Rightarrow> bool" where
  "summarySound fns s0 s \<longleftrightarrow> (\<forall>f i. freesAt s f i \<longrightarrow> freesParam fns s0 f i) \<and> (\<forall>f \<in> set (sumReturns s). returnsFresh fns s0 f)"

definition summaryLe :: "allocSummary \<Rightarrow> allocSummary \<Rightarrow> bool" where
  "summaryLe s t \<longleftrightarrow> (\<forall>f i. freesAt s f i \<longrightarrow> freesAt t f i) \<and> set (sumReturns s) \<subseteq> set (sumReturns t)"

lemma summaryLe_refl [simp, intro]: "summaryLe s s"
  by (simp add: summaryLe_def)

lemma summaryLe_trans [trans]: "summaryLe s t \<Longrightarrow> summaryLe t u \<Longrightarrow> summaryLe s u"
  by (auto simp: summaryLe_def)

lemma freesAt_addFree [simp]: "freesAt (addFree f i s) g j \<longleftrightarrow> freesAt s g j \<or> (g = f \<and> j = i)"
  by (auto simp: freesAt_def addFree_def update_conv' split: option.splits)

lemma addFree_returns [simp]: "sumReturns (addFree f i s) = sumReturns s"
  by (simp add: addFree_def)

lemma addReturns_simps [simp]: "freesAt (addReturns f s) = freesAt s" "set (sumReturns (addReturns f s)) = insert f (set (sumReturns s))"
  by (auto simp: freesAt_def addReturns_def fun_eq_iff)

lemma seedFrees_simps [simp]: "freesAt (seedFrees names s) f i = freesAt s f i" "sumReturns (seedFrees names s) = sumReturns s"
proof -
  have "freesAt (seedFrees names s) f i = freesAt s f i \<and> sumReturns (seedFrees names s) = sumReturns s"
    unfolding seedFrees_def by (induction names arbitrary: s) (auto simp: freesAt_def update_conv' split: option.splits)
  then show "freesAt (seedFrees names s) f i = freesAt s f i" "sumReturns (seedFrees names s) = sumReturns s" by auto
qed

section \<open>The first phase\<close>

lemma foldl_mono:
  assumes "\<And>s x. x \<in> set xs \<Longrightarrow> summaryLe s (f s x)"
  shows "summaryLe s (foldl f s xs)"
  using assms by (induction xs arbitrary: s) (auto intro: summaryLe_trans)

lemma foldl_inv:
  assumes "P s" and "\<And>s x. x \<in> set xs \<Longrightarrow> P s \<Longrightarrow> P (f s x)"
  shows "P (foldl f s xs)"
  using assms by (induction xs arbitrary: s) auto

lemma foldl_reach:
  assumes "x \<in> set xs" and "\<And>s. P (f s x)" and "\<And>s y. P s \<Longrightarrow> P (f s y)"
  shows "P (foldl f s xs)"
  using assms(1)
proof (induction xs arbitrary: s)
  case (Cons y ys)
  show ?case
  proof (cases "x = y")
    case True
    then show ?thesis using assms(2) by (simp add: foldl_inv assms(3))
  qed (use Cons in auto)
qed simp

lemma directVisit_le: "summaryLe s (directVisit name entry s n)"
  by (auto simp: directVisit_def summaryLe_def split: option.split)

lemma directVisit_sound:
  assumes "summarySound fns s0 s" and "(name, entry) \<in> set fns" and "n \<in> set (walkAST (fe_Body entry))"
  shows "summarySound fns s0 (directVisit name entry s n)"
  using assms(1) freesParam.direct [OF assms(2,3)] returnsFresh.direct [OF assms(2,3)]
  by (auto simp: directVisit_def summarySound_def split: option.split)

lemma directSummary_sound: "summarySound fns s0 (directSummary fns s0)"
  unfolding directSummary_def
proof (rule foldl_inv)
  show "summarySound fns s0 (seedFrees (map fst fns) s0)"
    by (auto simp: summarySound_def intro: freesParam.kept returnsFresh.kept)
next
  fix s x assume x: "x \<in> set fns" and s: "summarySound fns s0 s"
  obtain name entry where e: "x = (name, entry)" by (cases x)
  have "summarySound fns s0 (foldl (directVisit name entry) s (walkAST (fe_Body entry)))"
    using x e by (intro foldl_inv [where P = "summarySound fns s0"] s directVisit_sound) auto
  then show "summarySound fns s0 (case x of (name, entry) \<Rightarrow> foldl (directVisit name entry) s (walkAST (fe_Body entry)))"
    using e by simp
qed

lemma directSummary_le: "summaryLe s0 (directSummary fns s0)"
proof -
  have "summaryLe (seedFrees (map fst fns) s0) (directSummary fns s0)"
    unfolding directSummary_def
  proof (rule foldl_mono)
    fix s x show "summaryLe s (case x of (name, entry) \<Rightarrow> foldl (directVisit name entry) s (walkAST (fe_Body entry)))"
      by (cases x) (simp add: foldl_mono directVisit_le)
  qed
  then show ?thesis by (simp add: summaryLe_def)
qed

lemma directSummary_reach:
  assumes "(f, e) \<in> set fns" and "n \<in> set (walkAST (fe_Body e))" and "\<And>s. P (directVisit f e s n)"
    and mono: "\<And>s t. P s \<Longrightarrow> summaryLe s t \<Longrightarrow> P t"
  shows "P (directSummary fns s0)"
  unfolding directSummary_def
proof (rule foldl_reach [OF assms(1)])
  show "P (case (f, e) of (name, entry) \<Rightarrow> foldl (directVisit name entry) s (walkAST (fe_Body entry)))" for s
    using foldl_reach [OF assms(2), of P "directVisit f e" s] assms(3) mono directVisit_le by auto
  show "P (case y of (name, entry) \<Rightarrow> foldl (directVisit name entry) s (walkAST (fe_Body entry)))" if "P s" for s y
    by (cases y) (use mono [OF that] in \<open>simp add: foldl_mono directVisit_le\<close>)
qed

lemma directSummary_frees:
  assumes "(f, e) \<in> set fns" and "n \<in> set (walkAST (fe_Body e))" and "asExprStmt n = Some c" and "isManualFreeCall c = Some a"
    and "map_of (fe_ParamIndex e) a = Some i"
  shows "freesAt (directSummary fns s0) f i"
  by (rule directSummary_reach [OF assms(1,2)]) (use assms(3-5) in \<open>auto simp: directVisit_def summaryLe_def\<close>)

lemma directSummary_returns:
  assumes "(f, e) \<in> set fns" and "n \<in> set (walkAST (fe_Body e))" and "asReturn n = Some v" and "isManualAllocCall v"
  shows "f \<in> set (sumReturns (directSummary fns s0))"
proof -
  have "asExprStmt n = None" using assms(3) by (cases n rule: asReturn.cases) auto
  then show ?thesis
    by (intro directSummary_reach [OF assms(1,2), where P = "\<lambda>s. f \<in> set (sumReturns s)"])
      (use assms(3,4) in \<open>auto simp: directVisit_def summaryLe_def\<close>)
qed

section \<open>The second phase\<close>

text \<open>The facts that may still be added; a visit either changes nothing or adds one of them and says so.\<close>

definition summaryRank :: "(string \<times> fnEntry) list \<Rightarrow> allocSummary \<Rightarrow> nat" where
  "summaryRank fns s =
     card ({(f, i). \<exists>e. (f, e) \<in> set fns \<and> i \<in> snd ` set (fe_ParamIndex e)} - {(f, i). freesAt s f i}) +
     card (fst ` set fns - set (sumReturns s))"

definition reports :: "(string \<times> fnEntry) list \<Rightarrow> bool \<times> allocSummary \<Rightarrow> bool \<times> allocSummary \<Rightarrow> bool" where
  "reports fns cs cs' \<longleftrightarrow> cs' = cs \<or> fst cs' \<and> summaryRank fns (snd cs') < summaryRank fns (snd cs)"

lemma finite_frees: "finite {(f, i). \<exists>e. (f, e) \<in> set fns \<and> i \<in> snd ` set (fe_ParamIndex e)}"
proof -
  have "{(f, i). \<exists>e. (f, e) \<in> set fns \<and> i \<in> snd ` set (fe_ParamIndex e)} \<subseteq>
      fst ` set fns \<times> (\<Union>e \<in> snd ` set fns. snd ` set (fe_ParamIndex e))" by force
  then show ?thesis by (rule finite_subset) auto
qed

lemma addFree_rank:
  assumes "(f, e) \<in> set fns" and "map_of (fe_ParamIndex e) a = Some i" and "\<not> freesAt s f i"
  shows "summaryRank fns (addFree f i s) < summaryRank fns s"
proof -
  have "i \<in> snd ` set (fe_ParamIndex e)" using map_of_SomeD [OF assms(2)] by force
  then have i: "(f, i) \<in> {(f, i). \<exists>e. (f, e) \<in> set fns \<and> i \<in> snd ` set (fe_ParamIndex e)} - {(f, i). freesAt s f i}" (is "_ \<in> ?U - ?F")
    using assms(1,3) by auto
  have "?U - {(g, j). freesAt (addFree f i s) g j} = ?U - ?F - {(f, i)}" by auto
  then show ?thesis unfolding summaryRank_def addFree_returns
    using card_Diff1_less [OF finite_Diff [OF finite_frees] i] by (simp del: freesAt_addFree)
qed

lemma addReturns_rank:
  assumes "(f, e) \<in> set fns" and "f \<notin> set (sumReturns s)"
  shows "summaryRank fns (addReturns f s) < summaryRank fns s"
proof -
  have "f \<in> fst ` set fns" using assms(1) by force
  then show ?thesis unfolding summaryRank_def using assms(2)
    by (intro add_le_less_mono psubset_card_mono) auto
qed

lemma reports_foldl:
  assumes "\<And>cs x. x \<in> set xs \<Longrightarrow> reports fns cs (f cs x)"
  shows "reports fns cs (foldl f cs xs)"
  using assms
proof (induction xs arbitrary: cs)
  case (Cons x xs)
  have "reports fns cs (f cs x)" "reports fns (f cs x) (foldl f (f cs x) xs)" using Cons by auto
  then show ?case by (auto simp: reports_def)
qed (simp add: reports_def)

lemma reports_quiet:
  assumes "\<And>cs x. x \<in> set xs \<Longrightarrow> reports fns cs (f cs x)" and "foldl f (False, s) xs = (False, s)" and "x \<in> set xs"
  shows "f (False, s) x = (False, s)"
  using assms
proof (induction xs)
  case (Cons y ys)
  let ?t = "f (False, s) y"
  have n: "reports fns (False, s) ?t" using Cons.prems(1) by simp
  have m: "reports fns ?t (foldl f ?t ys)" using Cons.prems(1) by (intro reports_foldl) simp
  have "?t = (False, s)" using n m Cons.prems(2) by (auto simp: reports_def)
  then show ?case using Cons by auto
qed simp

lemma passArg_reports: "(name, entry) \<in> set fns \<Longrightarrow> reports fns cs (passArg name entry callee cs ia)"
  by (cases cs; cases ia) (auto simp: passArg_def reports_def addFree_rank split: option.split)

lemma callVisit_reports: "(name, entry) \<in> set fns \<Longrightarrow> reports fns cs (callVisit name entry cs n)"
  unfolding callVisit_def
  by (auto simp: addReturns_rank intro!: reports_foldl passArg_reports split: option.split) (auto simp: reports_def addReturns_rank)

lemma walk_reports: "x \<in> set fns \<Longrightarrow> reports fns cs ((\<lambda>(name, entry). foldl (callVisit name entry) cs (walkAST (fe_Body entry))) x)"
  by (cases x) (auto intro!: reports_foldl callVisit_reports)

lemma summaryRound_reports: "reports fns (False, s) (summaryRound fns s)"
  unfolding summaryRound_def by (rule reports_foldl) (use walk_reports in \<open>auto split: prod.split\<close>)

lemma summaryRound_quiet:
  assumes "\<not> fst (summaryRound fns s)" and "(f, e) \<in> set fns" and "n \<in> set (walkAST (fe_Body e))"
  shows "summaryRound fns s = (False, s)" and "callVisit f e (False, s) n = (False, s)"
proof -
  show r: "summaryRound fns s = (False, s)" using assms(1) summaryRound_reports [of fns s] by (auto simp: reports_def)
  have "foldl (callVisit f e) (False, s) (walkAST (fe_Body e)) = (False, s)"
    using reports_quiet [OF _ r [unfolded summaryRound_def] assms(2), of fns] walk_reports by fastforce
  then show "callVisit f e (False, s) n = (False, s)"
    by (rule reports_quiet [OF callVisit_reports [OF assms(2)] _ assms(3)])
qed

lemma callVisit_sound:
  assumes "summarySound fns s0 (snd cs)" and f: "(f, e) \<in> set fns" and n: "n \<in> set (walkAST (fe_Body e))"
  shows "summarySound fns s0 (snd (callVisit f e cs n))"
proof (cases "asCall n")
  case None
  show ?thesis using assms(1) None returnsFresh.forwarded [OF f n]
    by (fastforce simp: callVisit_def summarySound_def split: option.split)
next
  case (Some ca)
  obtain c args where ca: "ca = (c, args)" by (cases ca)
  have "summarySound fns s0 (snd (passArg f e g cs' ia))"
    if c: "asIdent c = Some g" "ia \<in> set (zip [0..<length args] args)" "summarySound fns s0 (snd cs')" for g ia and cs' :: "bool \<times> allocSummary"
  proof -
    obtain i a where ia: "ia = (i, a)" "i < length args" "args ! i = a" using c(2) by (auto simp: set_zip)
    show ?thesis using c(3) freesParam.passed [OF f n Some [unfolded ca] c(1) _ ia(2)] ia
      by (cases cs') (auto simp: passArg_def summarySound_def split: option.split)
  qed
  then show ?thesis using Some ca assms(1)
    by (auto simp: callVisit_def split: option.split intro!: foldl_inv [where P = "\<lambda>cs. summarySound fns s0 (snd cs)"])
qed

lemma summaryRound_sound: "summarySound fns s0 s \<Longrightarrow> summarySound fns s0 (snd (summaryRound fns s))"
  unfolding summaryRound_def
proof (rule foldl_inv [where P = "\<lambda>cs. summarySound fns s0 (snd cs)"])
  fix cs :: "bool \<times> allocSummary" and x assume x: "x \<in> set fns" and cs: "summarySound fns s0 (snd cs)"
  obtain name entry where e: "x = (name, entry)" by (cases x)
  have "summarySound fns s0 (snd (foldl (callVisit name entry) cs (walkAST (fe_Body entry))))"
    using x e cs by (intro foldl_inv [where P = "\<lambda>cs. summarySound fns s0 (snd cs)"] callVisit_sound) auto
  then show "summarySound fns s0 (snd (case x of (name, entry) \<Rightarrow> foldl (callVisit name entry) cs (walkAST (fe_Body entry))))"
    using e by simp
qed simp

lemma foldl_snd_le:
  assumes "\<And>cs x. summaryLe (snd cs) (snd (f cs x))"
  shows "summaryLe (snd cs) (snd (foldl f cs xs))"
proof (induction xs arbitrary: cs)
  case (Cons x xs)
  show ?case using summaryLe_trans [OF assms Cons.IH] by simp
qed simp

lemma callVisit_le: "summaryLe (snd cs) (snd (callVisit name entry cs n))"
proof -
  have p: "summaryLe (snd cs) (snd (passArg name entry g cs ia))" for g cs ia
    by (cases cs; cases ia) (auto simp: passArg_def summaryLe_def split: option.split)
  show ?thesis using foldl_snd_le [where f = "passArg name entry g" for g, OF p]
    by (auto simp: callVisit_def summaryLe_def split: option.split)
qed

lemma summaryRound_le: "summaryLe s (snd (summaryRound fns s))"
proof -
  have "summaryLe (snd cs) (snd (case x of (name, entry) \<Rightarrow> foldl (callVisit name entry) cs (walkAST (fe_Body entry))))"
    for cs and x :: "string \<times> fnEntry"
    by (cases x) (simp add: foldl_snd_le callVisit_le)
  from foldl_snd_le [where cs = "(False, s)" and xs = fns, OF this] show ?thesis by (simp add: summaryRound_def)
qed

section \<open>The fixpoint\<close>

lemma summaryFix_returns: "\<exists>r. summaryFix fns s = Some r"
  unfolding summaryFix_def
proof (rule measure_while_option_Some [where P = "\<lambda>_. True" and f = "\<lambda>(c, s). 2 * summaryRank fns s + of_bool c"])
  fix cs :: "bool \<times> allocSummary" assume "fst cs"
  then show "True \<and> (case (case cs of (_, s) \<Rightarrow> summaryRound fns s) of (c, s) \<Rightarrow> 2 * summaryRank fns s + of_bool c)
      < (case cs of (c, s) \<Rightarrow> 2 * summaryRank fns s + of_bool c)"
    using summaryRound_reports [of fns "snd cs"] by (cases cs) (auto simp: reports_def split: prod.splits)
qed simp

lemma summaryFix_result:
  assumes "summaryFix fns s = Some r" and "summarySound fns s0 s"
  shows "summaryRound fns (snd r) = (False, snd r)" and "summarySound fns s0 (snd r)" and "summaryLe s (snd r)"
proof -
  let ?P = "\<lambda>cs. (fst cs \<or> summaryRound fns (snd cs) = (False, snd cs)) \<and> summarySound fns s0 (snd cs) \<and> summaryLe s (snd cs)"
  have "?P r"
  proof (rule while_option_rule [where P = ?P, OF _ assms(1) [unfolded summaryFix_def]])
    fix cs assume "?P cs" "fst cs"
    obtain c t where cs: "cs = (c, t)" by (cases cs)
    have q: "fst (summaryRound fns t) \<or> summaryRound fns t = (False, t)"
      using summaryRound_reports [of fns t] by (auto simp: reports_def)
    then show "?P (case cs of (_, s) \<Rightarrow> summaryRound fns s)"
      using \<open>?P cs\<close> cs summaryRound_sound [of fns s0 t] summaryRound_le [of t fns] summaryLe_trans [of s t] by auto
  qed (use assms(2) in auto)
  moreover have "\<not> fst r" using while_option_stop [OF assms(1) [unfolded summaryFix_def]] .
  ultimately show "summaryRound fns (snd r) = (False, snd r)" "summarySound fns s0 (snd r)" "summaryLe s (snd r)" by auto
qed

lemma quiet_frees:
  assumes q: "summaryRound fns s = (False, s)" and d: "summaryLe (directSummary fns s0) s" and "freesParam fns s0 f i"
  shows "freesAt s f i"
  using assms(3)
proof (induction rule: freesParam.induct)
  case (kept f i)
  then show ?case using d directSummary_le [of s0 fns] by (auto simp: summaryLe_def)
next
  case (direct f e n c a i)
  then show ?case using d directSummary_frees [OF direct(1-5), of s0] by (auto simp: summaryLe_def)
next
  case (passed f e n c args g j a k)
  have "foldl (passArg f e g) (False, s) (zip [0..<length args] args) = (False, s)"
    using summaryRound_quiet(2) [of fns s f e n] q passed(1-4) by (simp add: callVisit_def)
  moreover have "(j, args ! j) \<in> set (zip [0..<length args] args)" using passed(6) by (force simp: set_zip)
  ultimately have "passArg f e g (False, s) (j, args ! j) = (False, s)"
    using reports_quiet [of _ fns "passArg f e g"] passArg_reports [OF passed(1)] by blast
  then show ?case using passed by (auto simp: passArg_def split: if_splits)
qed

lemma quiet_returns:
  assumes q: "summaryRound fns s = (False, s)" and d: "summaryLe (directSummary fns s0) s" and "returnsFresh fns s0 f"
  shows "f \<in> set (sumReturns s)"
  using assms(3)
proof (induction rule: returnsFresh.induct)
  case (kept f)
  then show ?case using d directSummary_le [of s0 fns] by (auto simp: summaryLe_def)
next
  case (direct f e n v)
  then show ?case using d directSummary_returns [OF direct(1-4), of s0] by (auto simp: summaryLe_def)
next
  case (forwarded f e n v c args g)
  have "asCall n = None" using forwarded(3) by (cases n rule: asReturn.cases) auto
  then show ?case using summaryRound_quiet(2) [of fns s f e n] q forwarded
    by (auto simp: callVisit_def split: if_splits)
qed

text \<open>C22: the pre-pass of the dataflow analysis always ends, and its summaries are exact: position \<open>i\<close> is recorded
  as freed by \<open>f\<close> just when the body of \<open>f\<close> contains \<open>mem::free\<close> of that parameter or passes it to a
  function at a position recorded as freed, and \<open>f\<close> is recorded as returning an allocation just when it returns
  one or the result of such a function (or when an earlier run had recorded it).\<close>

theorem computeManualAllocSummaries_exact:
  "\<exists>r. computeManualAllocSummaries prog s0 = Some r \<and>
     (\<forall>f i. freesAt r f i = freesParam (collectFns prog) s0 f i) \<and>
     set (sumReturns r) = {f. returnsFresh (collectFns prog) s0 f}"
proof -
  let ?fns = "collectFns prog"
  obtain r where r: "summaryFix ?fns (directSummary ?fns s0) = Some r" using summaryFix_returns by blast
  note fixed = summaryFix_result [OF r directSummary_sound]
  have "freesAt (snd r) f i = freesParam ?fns s0 f i" for f i
    using fixed(2) quiet_frees [OF fixed(1,3)] by (auto simp: summarySound_def)
  moreover have "set (sumReturns (snd r)) = {f. returnsFresh ?fns s0 f}"
    using fixed(2) quiet_returns [OF fixed(1,3)] by (auto simp: summarySound_def)
  ultimately show ?thesis using r by (auto simp: computeManualAllocSummaries_def Let_def)
qed

end
