(* ===== verification/TinDfCorrect.thy ===== *)
theory TinDfCorrect
  imports TinDfSummary
begin

text \<open>
  What the facts of the dataflow pass mean for executions.

  \<^item> \<open>exec\<close> is a big-step semantics of the statements on 64-bit integers and booleans: declarations, assignments,
    branches, loops, \<open>break\<close> and \<open>return\<close>.
  \<^item> The locale \<open>value_domain\<close> says what the join of one lattice has to satisfy for the join of two maps to be sound; it
    is interpreted on nil facts, constants and intervals.
  \<^item> Constant propagation is sound for well-scoped programs without \<open>break\<close>, and concrete programs show where it is not.
\<close>

section \<open>Executions\<close>

datatype cval = VInt int | VBool bool | VOther

type_synonym store = "string \<Rightarrow> cval"

definition evalBin :: "string \<Rightarrow> cval \<Rightarrow> cval \<Rightarrow> cval option" where
  "evalBin op a b =
     (case (a, b) of
        (VInt i, VInt j) \<Rightarrow>
          if op = ''+'' then Some (VInt (wrap64 (i + j)))
          else if op = ''-'' then Some (VInt (wrap64 (i - j)))
          else if op = ''*'' then Some (VInt (wrap64 (i * j)))
          else if op = ''/'' then if j = 0 \<or> i = minInt64 \<and> j = -1 then None else Some (VInt (goDiv i j))
          else if op = ''%'' then if j = 0 \<or> i = minInt64 \<and> j = -1 then None else Some (VInt (goRem i j))
          else map_option VBool (cmpOp op i j)
      | (VBool i, VBool j) \<Rightarrow>
          if op = ''=='' then Some (VBool (i = j)) else if op = ''!='' then Some (VBool (i \<noteq> j)) else None
      | _ \<Rightarrow> None)"

definition evalUnary :: "string \<Rightarrow> cval \<Rightarrow> cval option" where
  "evalUnary op v =
     (case v of
        VInt i \<Rightarrow> if op = ''-'' then Some (VInt (wrap64 (- i))) else None
      | VBool b \<Rightarrow> if op = ''!'' \<or> op = ''not'' then Some (VBool (\<not> b)) else None
      | VOther \<Rightarrow> None)"

text \<open>\<open>None\<close> is a run-time error or an expression outside the fragment.\<close>

definition evalConn :: "string \<Rightarrow> cval \<Rightarrow> cval option \<Rightarrow> cval option" where
  "evalConn op v r =
     (case v of
        VBool b \<Rightarrow> if b = (op = ''||'') then Some (VBool b) else (case r of Some (VBool c) \<Rightarrow> Some (VBool c) | _ \<Rightarrow> None)
      | _ \<Rightarrow> None)"

function evalE :: "store \<Rightarrow> Node \<Rightarrow> cval option" where
  "evalE \<sigma> n =
     (case asIntLit n of Some v \<Rightarrow> Some (VInt v)
      | None \<Rightarrow> (case asBoolLit n of Some b \<Rightarrow> Some (VBool b)
      | None \<Rightarrow> (case asIdent n of Some x \<Rightarrow> Some (\<sigma> x)
      | None \<Rightarrow> (case asBin n of
          Some (l, op, r) \<Rightarrow>
            (case evalE \<sigma> l of
               None \<Rightarrow> None
             | Some a \<Rightarrow>
               if op = ''&&'' \<or> op = ''||'' then evalConn op a (evalE \<sigma> r)
               else (case evalE \<sigma> r of None \<Rightarrow> None | Some b \<Rightarrow> evalBin op a b))
      | None \<Rightarrow> (case asUnary n of
          Some (op, e) \<Rightarrow> (case evalE \<sigma> e of None \<Rightarrow> None | Some v \<Rightarrow> evalUnary op v)
      | None \<Rightarrow> None)))))"
  by pat_completeness auto
termination
  by (relation "measure (\<lambda>(\<sigma>, n). size n)") (auto dest: asBin_size asUnary_size)

declare evalE.simps [simp del]

datatype outcome = Normal store | Broke store | Returned

datatype task =
    TStmt Node
  | TSeq "Node list"
  | TElifs "(Node \<times> Node list) list" "Node list option"
  | TLoop "Node option" "Node option" "Node list"

definition condHolds :: "Node option \<Rightarrow> store \<Rightarrow> bool" where
  "condHolds cond \<sigma> \<longleftrightarrow> (case cond of None \<Rightarrow> True | Some c \<Rightarrow> evalE \<sigma> c = Some (VBool True))"

definition augOp :: "string \<Rightarrow> string option" where
  "augOp op = (if op = ''+='' then Some ''+'' else if op = ''-='' then Some ''-'' else if op = ''*='' then Some ''*'' else None)"

definition postOp :: "string \<Rightarrow> string option" where
  "postOp op = (if op = ''++'' then Some ''+'' else if op = ''--'' then Some ''-'' else None)"

abbreviation elifsOf :: "Node ElseIfClause list \<Rightarrow> (Node \<times> Node list) list" where
  "elifsOf eis \<equiv> map (\<lambda>ei. case ei of ElseIfClause ec eb \<Rightarrow> (ec, blockStmts eb)) eis"

abbreviation optStmts :: "Node Block option \<Rightarrow> Node list" where
  "optStmts b \<equiv> (case b of Some bl \<Rightarrow> blockStmts bl | None \<Rightarrow> [])"

inductive exec :: "task \<Rightarrow> store \<Rightarrow> outcome \<Rightarrow> bool" where
  seq_nil: "exec (TSeq []) \<sigma> (Normal \<sigma>)"
| seq_cons: "exec (TStmt s) \<sigma> (Normal \<sigma>1) \<Longrightarrow> exec (TSeq ss) \<sigma>1 r \<Longrightarrow> exec (TSeq (s # ss)) \<sigma> r"
| seq_stop: "exec (TStmt s) \<sigma> r \<Longrightarrow> (\<And>\<sigma>1. r \<noteq> Normal \<sigma>1) \<Longrightarrow> exec (TSeq (s # ss)) \<sigma> r"
| block: "exec (TSeq ss) \<sigma> r \<Longrightarrow> exec (TStmt (NBlock (Block p ss b))) \<sigma> r"
| var_decl: "evalE \<sigma> e = Some v \<Longrightarrow> exec (TStmt (NDecl p (VarDecl c x t (Some e)))) \<sigma> (Normal (\<sigma>(x := v)))"
| var_zero: "exec (TStmt (NDecl p (VarDecl c x (Some (SimpleType ''i64'')) None))) \<sigma> (Normal (\<sigma>(x := VInt 0)))"
| assign: "asIdent t = Some x \<Longrightarrow> evalE \<sigma> e = Some v \<Longrightarrow> exec (TStmt (NStmt p (AssignStmt t e))) \<sigma> (Normal (\<sigma>(x := v)))"
| aug_assign: "asIdent t = Some x \<Longrightarrow> augOp op = Some bop \<Longrightarrow> evalE \<sigma> e = Some w \<Longrightarrow> evalBin bop (\<sigma> x) w = Some v \<Longrightarrow>
    exec (TStmt (NStmt p (AugAssignStmt t op e))) \<sigma> (Normal (\<sigma>(x := v)))"
| postfix: "asIdent e = Some x \<Longrightarrow> postOp op = Some bop \<Longrightarrow> evalBin bop (\<sigma> x) (VInt 1) = Some v \<Longrightarrow>
    exec (TStmt (NStmt p (PostfixStmt e op))) \<sigma> (Normal (\<sigma>(x := v)))"
| expr_stmt: "evalE \<sigma> e = Some v \<Longrightarrow> exec (TStmt (NStmt p (ExprStmt e))) \<sigma> (Normal \<sigma>)"
| echo: "evalE \<sigma> e = Some v \<Longrightarrow> exec (TStmt (NStmt p (EchoStmt e))) \<sigma> (Normal \<sigma>)"
| return: "exec (TStmt (NStmt p (ReturnStmt v))) \<sigma> Returned"
| break: "exec (TStmt (NLeaf p BreakStmt)) \<sigma> (Broke \<sigma>)"
| if_true: "evalE \<sigma> c = Some (VBool True) \<Longrightarrow> exec (TSeq (blockStmts t)) \<sigma> r \<Longrightarrow>
    exec (TStmt (NStmt p (IfStmt c t eis e))) \<sigma> r"
| if_false: "evalE \<sigma> c = Some (VBool False) \<Longrightarrow> exec (TElifs (elifsOf eis) (map_option blockStmts e)) \<sigma> r \<Longrightarrow>
    exec (TStmt (NStmt p (IfStmt c t eis e))) \<sigma> r"
| else_none: "exec (TElifs [] None) \<sigma> (Normal \<sigma>)"
| else_some: "exec (TSeq ss) \<sigma> r \<Longrightarrow> exec (TElifs [] (Some ss)) \<sigma> r"
| elif_true: "evalE \<sigma> c = Some (VBool True) \<Longrightarrow> exec (TSeq ss) \<sigma> r \<Longrightarrow> exec (TElifs ((c, ss) # eis) e) \<sigma> r"
| elif_false: "evalE \<sigma> c = Some (VBool False) \<Longrightarrow> exec (TElifs eis e) \<sigma> r \<Longrightarrow> exec (TElifs ((c, ss) # eis) e) \<sigma> r"
| for_init: "k \<noteq> ForIn \<Longrightarrow> exec (TStmt i) \<sigma> (Normal \<sigma>1) \<Longrightarrow> exec (TLoop cond post (optStmts body)) \<sigma>1 r \<Longrightarrow>
    exec (TStmt (NStmt p (ForStmt k x t br (Some i) cond post iter body))) \<sigma> r"
| for_plain: "k \<noteq> ForIn \<Longrightarrow> exec (TLoop cond post (optStmts body)) \<sigma> r \<Longrightarrow>
    exec (TStmt (NStmt p (ForStmt k x t br None cond post iter body))) \<sigma> r"
| loop_exit: "evalE \<sigma> c = Some (VBool False) \<Longrightarrow> exec (TLoop (Some c) post body) \<sigma> (Normal \<sigma>)"
| loop_step: "condHolds cond \<sigma> \<Longrightarrow> exec (TSeq body) \<sigma> (Normal \<sigma>1) \<Longrightarrow> exec (TStmt q) \<sigma>1 (Normal \<sigma>2) \<Longrightarrow>
    exec (TLoop cond (Some q) body) \<sigma>2 r \<Longrightarrow> exec (TLoop cond (Some q) body) \<sigma> r"
| loop_plain: "condHolds cond \<sigma> \<Longrightarrow> exec (TSeq body) \<sigma> (Normal \<sigma>1) \<Longrightarrow>
    exec (TLoop cond None body) \<sigma>1 r \<Longrightarrow> exec (TLoop cond None body) \<sigma> r"
| loop_break: "condHolds cond \<sigma> \<Longrightarrow> exec (TSeq body) \<sigma> (Broke \<sigma>1) \<Longrightarrow> exec (TLoop cond post body) \<sigma> (Normal \<sigma>1)"
| loop_return: "condHolds cond \<sigma> \<Longrightarrow> exec (TSeq body) \<sigma> Returned \<Longrightarrow> exec (TLoop cond post body) \<sigma> Returned"

section \<open>Joins of maps\<close>

text \<open>\<open>\<gamma> f\<close> are the values that the fact \<open>f\<close> allows; \<open>fits\<close> is what the join needs of its operands.\<close>

locale value_domain =
  fixes \<gamma> :: "'f \<Rightarrow> 'v set" and join :: "'f \<Rightarrow> 'f \<Rightarrow> 'f" and fits :: "'f \<Rightarrow> 'f \<Rightarrow> bool"
  assumes join_left: "fits a b \<Longrightarrow> \<gamma> a \<subseteq> \<gamma> (join a b)"
    and join_right: "fits a b \<Longrightarrow> \<gamma> b \<subseteq> \<gamma> (join a b)"
begin

definition tracks :: "string set \<Rightarrow> (string \<Rightarrow> 'v) \<Rightarrow> 'f smap \<Rightarrow> bool" where
  "tracks V \<sigma> m \<longleftrightarrow> (\<forall>x \<in> V. \<exists>f. map_of m x = Some f \<and> \<sigma> x \<in> \<gamma> f)"

definition fitting :: "'f smap \<Rightarrow> 'f smap \<Rightarrow> bool" where
  "fitting a b \<longleftrightarrow> (\<forall>x f g. map_of a x = Some f \<longrightarrow> map_of b x = Some g \<longrightarrow> fits f g)"

lemma tracks_mono: "tracks V \<sigma> m \<Longrightarrow> W \<subseteq> V \<Longrightarrow> tracks W \<sigma> m"
  by (auto simp: tracks_def)

lemma tracks_update: "tracks V \<sigma> m \<Longrightarrow> v \<in> \<gamma> f \<Longrightarrow> tracks (insert x V) (\<sigma>(x := v)) (AList.update x f m)"
  by (auto simp: tracks_def update_conv')

lemma tracks_left:
  assumes "tracks V \<sigma> a" and "fitting a b"
  shows "tracks V \<sigma> (mergeEither join a b)"
  unfolding tracks_def map_of_mergeEither
proof
  fix x assume "x \<in> V"
  with assms(1) obtain f where f: "map_of a x = Some f" "\<sigma> x \<in> \<gamma> f" by (auto simp: tracks_def)
  show "\<exists>h. (case (map_of a x, map_of b x) of (Some v, Some w) \<Rightarrow> Some (join v w) | (Some v, None) \<Rightarrow> Some v | (None, w) \<Rightarrow> w) = Some h \<and> \<sigma> x \<in> \<gamma> h"
    using f join_left [of f] assms(2) by (cases "map_of b x") (auto simp: fitting_def)
qed

lemma tracks_right:
  assumes "tracks V \<sigma> b" and "fitting a b"
  shows "tracks V \<sigma> (mergeEither join a b)"
  unfolding tracks_def map_of_mergeEither
proof
  fix x assume "x \<in> V"
  with assms(1) obtain f where f: "map_of b x = Some f" "\<sigma> x \<in> \<gamma> f" by (auto simp: tracks_def)
  show "\<exists>h. (case (map_of a x, map_of b x) of (Some v, Some w) \<Rightarrow> Some (join v w) | (Some v, None) \<Rightarrow> Some v | (None, w) \<Rightarrow> w) = Some h \<and> \<sigma> x \<in> \<gamma> h"
    using f join_right [of _ f] assms(2) by (cases "map_of a x") (auto simp: fitting_def)
qed

end

fun gammaNil :: "nilFact \<Rightarrow> bool set" where
  "gammaNil nilTop = {}"
| "gammaNil nilIsNil = {True}"
| "gammaNil nilNonNil = {False}"
| "gammaNil nilBottom = UNIV"

fun gammaConst :: "constFact \<Rightarrow> cval set" where
  "gammaConst cTop = {}"
| "gammaConst (cInt i) = {VInt i}"
| "gammaConst (cBool b) = {VBool b}"
| "gammaConst cBottom = UNIV"

interpretation nilDom: value_domain gammaNil mergeNil "\<lambda>_ _. True"
proof unfold_locales
  show "gammaNil a \<subseteq> gammaNil (mergeNil a b)" "gammaNil b \<subseteq> gammaNil (mergeNil a b)" for a b
    by (cases a; cases b; simp add: mergeNil_def)+
qed

interpretation constDom: value_domain gammaConst mergeConst "\<lambda>_ _. True"
proof unfold_locales
  show "gammaConst a \<subseteq> gammaConst (mergeConst a b)" "gammaConst b \<subseteq> gammaConst (mergeConst a b)" for a b
    by (cases a; cases b; simp add: mergeConst_def)+
qed

interpretation ivDom: value_domain "\<lambda>iv. {x. mem iv x}" unionInterval "\<lambda>a b. iv_ok a \<and> iv_ok b \<and> joinSpan a b < 2 ^ 63"
proof unfold_locales
qed (use union_sound in blast)+

section \<open>The join of two states\<close>

text \<open>A state describes a store \<open>\<sigma>\<close> and the nil-ness \<open>\<nu>\<close> of the names \<open>V\<close> in scope.\<close>

definition describes :: "string set \<Rightarrow> store \<Rightarrow> (string \<Rightarrow> bool) \<Rightarrow> dfState \<Rightarrow> bool" where
  "describes V \<sigma> \<nu> st \<longleftrightarrow> \<not> dfDead st \<and> nilDom.tracks V \<nu> (dfNil st) \<and> constDom.tracks V \<sigma> (dfCnst st) \<and>
     (\<forall>x iv i. map_of (dfIntv st) x = Some iv \<longrightarrow> \<sigma> x = VInt i \<longrightarrow> mem iv i) \<and>
     (\<forall>x. flag (dfNotZero st) x \<longrightarrow> \<sigma> x \<noteq> VInt 0)"

definition wfState :: "dfState \<Rightarrow> bool" where
  "wfState st \<longleftrightarrow> distinct (map fst (dfIntv st)) \<and> distinct (map fst (dfNotZero st)) \<and>
     (\<forall>x iv. map_of (dfIntv st) x = Some iv \<longrightarrow> iv_ok iv)"

text \<open>The ranges of every name are close enough for their union.\<close>

definition joinable :: "dfState \<Rightarrow> dfState \<Rightarrow> bool" where
  "joinable a b \<longleftrightarrow> (\<forall>x f g. map_of (dfIntv a) x = Some f \<longrightarrow> map_of (dfIntv b) x = Some g \<longrightarrow> joinSpan f g < 2 ^ 63)"

lemma fitting_trivial [simp]: "nilDom.fitting a b" "constDom.fitting c d"
  by (auto simp: nilDom.fitting_def constDom.fitting_def)

lemma mergeStates_describes:
  assumes "wfState a" and "wfState b" and "joinable a b" and "describes V \<sigma> \<nu> a \<or> describes V \<sigma> \<nu> b"
  shows "describes V \<sigma> \<nu> (mergeStates a b)"
proof (cases "dfDead a \<or> dfDead b")
  case True
  then show ?thesis using assms(4) by (auto simp: describes_def mergeStates_def)
next
  case False
  have iv: "mem (unionInterval f g) i" if "map_of (dfIntv a) x = Some f" "map_of (dfIntv b) x = Some g" "mem f i \<or> mem g i" for x f g i
    using ivDom.join_left [of f g] ivDom.join_right [of f g] assms(1-3) that by (auto simp: wfState_def joinable_def)
  have d: "distinct (map fst (dfIntv a))" "distinct (map fst (dfNotZero a))" using assms(1) by (auto simp: wfState_def)
  have "\<forall>x iv i. map_of (mergeIntervals (dfIntv a) (dfIntv b)) x = Some iv \<longrightarrow> \<sigma> x = VInt i \<longrightarrow> mem iv i"
    using assms(4) iv unfolding map_of_mergeIntervals [OF d(1)] by (auto simp: describes_def split: option.splits)
  moreover have "\<forall>x. flag (mergeMust (dfNotZero a) (dfNotZero b)) x \<longrightarrow> \<sigma> x \<noteq> VInt 0"
    using assms(4) unfolding flag_mergeMust [OF d(2)] by (auto simp: describes_def)
  moreover have "nilDom.tracks V \<nu> (mergeEither mergeNil (dfNil a) (dfNil b))" "constDom.tracks V \<sigma> (mergeEither mergeConst (dfCnst a) (dfCnst b))"
    using assms(4) by (auto simp: describes_def intro: nilDom.tracks_left nilDom.tracks_right constDom.tracks_left constDom.tracks_right)
  ultimately show ?thesis using False by (simp add: describes_def mergeStates_def)
qed

section \<open>Expressions\<close>

text \<open>The expressions of the fragment: literals, names in scope and operators, without remainders (whose
  folding reads the intervals).\<close>

function exprOk :: "string set \<Rightarrow> Node \<Rightarrow> bool" where
  "exprOk V n =
     (case asIntLit n of Some v \<Rightarrow> True
      | None \<Rightarrow> (case asBoolLit n of Some b \<Rightarrow> True
      | None \<Rightarrow> (case asIdent n of Some x \<Rightarrow> x \<in> V
      | None \<Rightarrow> (case asBin n of Some (l, op, r) \<Rightarrow> op \<noteq> ''%'' \<and> exprOk V l \<and> exprOk V r
      | None \<Rightarrow> (case asUnary n of Some (op, e) \<Rightarrow> exprOk V e | None \<Rightarrow> False)))))"
  by pat_completeness auto
termination
  by (relation "measure (\<lambda>(V, n). size n)") (auto dest: asBin_size asUnary_size)

declare exprOk.simps [simp del]

text \<open>The shapes of such an expression.\<close>

lemma exprOk_cases [consumes 1, case_names int bool ident bin unary]:
  assumes "exprOk V n"
  obtains (int) v where "asIntLit n = Some v"
  | (bool) b where "asIntLit n = None" "asBoolLit n = Some b"
  | (ident) x where "asIntLit n = None" "asBoolLit n = None" "asIdent n = Some x" "x \<in> V"
  | (bin) l op r where "asIntLit n = None" "asBoolLit n = None" "asIdent n = None" "asBin n = Some (l, op, r)"
      "op \<noteq> ''%''" "exprOk V l" "exprOk V r"
  | (unary) op e where "asIntLit n = None" "asBoolLit n = None" "asIdent n = None" "asBin n = None" "asUnary n = Some (op, e)" "exprOk V e"
  using assms unfolding exprOk.simps [of V n] by (auto split: option.splits)

lemma foldBinConst_sound:
  assumes "a \<in> gammaConst f" and "b \<in> gammaConst g" and "evalBin op a b = Some v"
  shows "v \<in> gammaConst (foldBinConst op f g)"
  using assms by (cases f; cases g) (auto simp: foldBinConst_def evalBin_def split: if_splits cval.splits)

lemma foldConn_sound:
  assumes "a \<in> gammaConst f" and "\<And>b. r = Some b \<Longrightarrow> b \<in> gammaConst g" and "evalConn op a r = Some v" and "op = ''&&'' \<or> op = ''||''"
  shows "v \<in> gammaConst (foldBinConst op f g)"
  using assms by (cases f; cases g) (auto simp: foldBinConst_def evalConn_def split: if_splits cval.splits option.splits)

lemma foldUnaryConst_sound:
  assumes "a \<in> gammaConst f" and "evalUnary op a = Some v"
  shows "v \<in> gammaConst (foldUnaryConst op f)"
  using assms by (cases f) (auto simp: foldUnaryConst_def evalUnary_def split: if_splits)

lemma dfEvalNode_sound:
  assumes "exprOk V n" and "constDom.tracks V \<sigma> (dfCnst st)" and "evalE \<sigma> n = Some v"
  shows "v \<in> gammaConst (dfEvalNode env st n)"
  using assms(1,3)
proof (induction n arbitrary: v rule: measure_induct_rule [where f = size])
  case (less n)
  from less.prems(1) show ?case
  proof (cases rule: exprOk_cases)
    case (ident x)
    then show ?thesis using assms(2) less.prems(2) by (auto simp: constDom.tracks_def dfEvalNode.simps [of _ _ n] evalE.simps [of _ n])
  next
    case (bin l op r)
    note sz = asBin_size [OF bin(4)]
    have l: "evalE \<sigma> l = Some a \<Longrightarrow> a \<in> gammaConst (dfEvalNode env st l)" for a using less.IH [of l] sz bin by blast
    have r: "evalE \<sigma> r = Some a \<Longrightarrow> a \<in> gammaConst (dfEvalNode env st r)" for a using less.IH [of r] sz bin by blast
    have n: "dfEvalNode env st n = foldBinConst op (dfEvalNode env st l) (dfEvalNode env st r)"
      using bin by (simp add: dfEvalNode.simps [of _ _ n] stridedModulo_def)
    show ?thesis using less.prems(2) bin l r unfolding n
      by (auto simp: evalE.simps [of _ n] intro: foldConn_sound foldBinConst_sound split: option.splits if_splits)
  next
    case (unary op e)
    then show ?thesis using less.prems(2) less.IH [of e] asUnary_size [OF unary(5)]
      by (auto simp: dfEvalNode.simps [of _ _ n] evalE.simps [of _ n] intro: foldUnaryConst_sound split: option.splits)
  qed (use less.prems(2) in \<open>simp_all add: dfEvalNode.simps [of _ _ n] evalE.simps [of _ n]\<close>)
qed

lemma exprOk_walk: "exprOk V n \<Longrightarrow> m \<in> set (walkAST n) \<Longrightarrow> asAddressOf m = None \<and> asCall m = None"
proof (induction n rule: measure_induct_rule [where f = size])
  case (less n)
  from less.prems(1) show ?case
  proof (cases rule: exprOk_cases)
    case (int v)
    then show ?thesis using less.prems(2) by (cases n rule: asIntLit.cases) (auto simp: walkAST.simps [of "NLeaf _ _"] walkAST.simps [of "NExpr _ _"])
  next
    case (bool b)
    then show ?thesis using less.prems(2) by (cases n rule: asBoolLit.cases) (auto simp: walkAST.simps [of "NLeaf _ _"] walkAST.simps [of "NExpr _ _"])
  next
    case (ident x)
    then show ?thesis using less.prems(2) by (cases n rule: asIdent.cases) (auto simp: walkAST.simps [of "NLeaf _ _"] walkAST.simps [of "NExpr _ _"])
  next
    case (bin l op r)
    then have "m = n \<and> asAddressOf n = None \<and> asCall n = None \<or> m \<in> set (walkAST l) \<or> m \<in> set (walkAST r)"
      using less.prems(2) by (cases n rule: asBin.cases) (auto simp: walkAST.simps [of "NLeaf _ _"] walkAST.simps [of "NExpr _ _"])
    then show ?thesis using less.IH [of l] less.IH [of r] asBin_size [OF bin(4)] bin(6,7) by auto
  next
    case (unary op e)
    then have "m = n \<and> asAddressOf n = None \<and> asCall n = None \<or> m \<in> set (walkAST e)"
      using less.prems(2) by (cases n rule: asUnary.cases) (auto simp: walkAST.simps [of "NLeaf _ _"] walkAST.simps [of "NExpr _ _"])
    then show ?thesis using less.IH [of e] asUnary_size [OF unary(5)] unary(6) by auto
  qed
qed

lemma foldl_moveAlloc [simp]:
  "dfCnst (foldl (\<lambda>s x. moveAlloc a x s) st xs) = dfCnst st" "dfDead (foldl (\<lambda>s x. moveAlloc a x s) st xs) = dfDead st"
  by (induction xs arbitrary: st) (auto simp: moveAlloc_def setAlloc_def)

text \<open>An expression of the fragment lets no name escape.\<close>

lemma dfApplyEscapes_ok [simp]:
  assumes "exprOk V e"
  shows "dfCnst (dfApplyEscapes env (Some e) st) = dfCnst st" and "dfDead (dfApplyEscapes env (Some e) st) = dfDead st"
proof -
  have "concat (map fst (map (escapesOf env) (walkAST e))) = []"
    using exprOk_walk [OF assms] by (auto simp: escapesOf_def)
  then show "dfCnst (dfApplyEscapes env (Some e) st) = dfCnst st" "dfDead (dfApplyEscapes env (Some e) st) = dfDead st"
    by (auto simp: dfApplyEscapes_def Let_def simp del: concat_eq_Nil_conv)
qed

section \<open>Statements\<close>

text \<open>The fragment: every name is declared before it is used and is not declared twice on a path, initializers are given,
  and there is no \<open>break\<close>.\<close>

fun declared :: "Node \<Rightarrow> string set" where
  "declared (NDecl _ (VarDecl _ x _ _)) = {x}"
| "declared _ = {}"

inductive wellScoped :: "string set \<Rightarrow> task \<Rightarrow> bool" where
  seq_nil: "wellScoped V (TSeq [])"
| seq_cons: "wellScoped V (TStmt s) \<Longrightarrow> wellScoped (declared s \<union> V) (TSeq ss) \<Longrightarrow> wellScoped V (TSeq (s # ss))"
| block: "wellScoped V (TSeq ss) \<Longrightarrow> wellScoped V (TStmt (NBlock (Block p ss b)))"
| var_decl: "exprOk V e \<Longrightarrow> x \<notin> V \<Longrightarrow> wellScoped V (TStmt (NDecl p (VarDecl c x t (Some e))))"
| assign: "asIdent t = Some x \<Longrightarrow> x \<in> V \<Longrightarrow> exprOk V e \<Longrightarrow> wellScoped V (TStmt (NStmt p (AssignStmt t e)))"
| aug_assign: "asIdent t = Some x \<Longrightarrow> x \<in> V \<Longrightarrow> exprOk V e \<Longrightarrow> wellScoped V (TStmt (NStmt p (AugAssignStmt t op e)))"
| postfix: "asIdent e = Some x \<Longrightarrow> x \<in> V \<Longrightarrow> wellScoped V (TStmt (NStmt p (PostfixStmt e op)))"
| expr_stmt: "exprOk V e \<Longrightarrow> wellScoped V (TStmt (NStmt p (ExprStmt e)))"
| echo: "exprOk V e \<Longrightarrow> wellScoped V (TStmt (NStmt p (EchoStmt e)))"
| return: "wellScoped V (TStmt (NStmt p (ReturnStmt v)))"
| if_stmt: "exprOk V c \<Longrightarrow> wellScoped V (TSeq (blockStmts t)) \<Longrightarrow> wellScoped V (TElifs (elifsOf eis) (map_option blockStmts e)) \<Longrightarrow>
    wellScoped V (TStmt (NStmt p (IfStmt c t eis e)))"
| else_none: "wellScoped V (TElifs [] None)"
| else_some: "wellScoped V (TSeq ss) \<Longrightarrow> wellScoped V (TElifs [] (Some ss))"
| elif: "exprOk V c \<Longrightarrow> wellScoped V (TSeq ss) \<Longrightarrow> wellScoped V (TElifs eis e) \<Longrightarrow> wellScoped V (TElifs ((c, ss) # eis) e)"
| for_init: "k \<noteq> ForIn \<Longrightarrow> wellScoped V (TStmt i) \<Longrightarrow> wellScoped (declared i \<union> V) (TLoop cond post (optStmts body)) \<Longrightarrow>
    wellScoped V (TStmt (NStmt p (ForStmt k x t br (Some i) cond post iter body)))"
| for_plain: "k \<noteq> ForIn \<Longrightarrow> wellScoped V (TLoop cond post (optStmts body)) \<Longrightarrow>
    wellScoped V (TStmt (NStmt p (ForStmt k x t br None cond post iter body)))"
| loop_post: "list_all (exprOk V) (optList cond) \<Longrightarrow> wellScoped V (TSeq body) \<Longrightarrow> wellScoped V (TStmt q) \<Longrightarrow> wellScoped V (TLoop cond (Some q) body)"
| loop_plain: "list_all (exprOk V) (optList cond) \<Longrightarrow> wellScoped V (TSeq body) \<Longrightarrow> wellScoped V (TLoop cond None body)"

inductive_cases wellScoped_seqE: "wellScoped V (TSeq (s # ss))"
inductive_cases wellScoped_blockE: "wellScoped V (TStmt (NBlock (Block p ss b)))"
inductive_cases wellScoped_varE: "wellScoped V (TStmt (NDecl p (VarDecl c x t v)))"
inductive_cases wellScoped_assignE: "wellScoped V (TStmt (NStmt p (AssignStmt t e)))"
inductive_cases wellScoped_augE: "wellScoped V (TStmt (NStmt p (AugAssignStmt t op e)))"
inductive_cases wellScoped_postfixE: "wellScoped V (TStmt (NStmt p (PostfixStmt e op)))"
inductive_cases wellScoped_exprE: "wellScoped V (TStmt (NStmt p (ExprStmt e)))"
inductive_cases wellScoped_echoE: "wellScoped V (TStmt (NStmt p (EchoStmt e)))"
inductive_cases wellScoped_ifE: "wellScoped V (TStmt (NStmt p (IfStmt c t eis e)))"
inductive_cases wellScoped_elseE: "wellScoped V (TElifs [] (Some ss))"
inductive_cases wellScoped_elifE: "wellScoped V (TElifs ((c, ss) # eis) e)"
inductive_cases wellScoped_forE: "wellScoped V (TStmt (NStmt p (ForStmt k x t br i cond post iter body)))"
inductive_cases wellScoped_loopE: "wellScoped V (TLoop cond post body)"
inductive_cases wellScoped_breakE: "wellScoped V (TStmt (NLeaf p BreakStmt))"

text \<open>The constants of the state after each simple statement.\<close>

lemma cnst_setters [simp]:
  "dfCnst (setNil x f st) = dfCnst st" "dfCnst (setIntv x iv st) = dfCnst st" "dfCnst (delIntv x st) = dfCnst st"
  "dfCnst (setFloat x fp st) = dfCnst st" "dfCnst (delUninit x st) = dfCnst st" "dfCnst (delProofs x st) = dfCnst st"
  "dfCnst (setNotZero x st) = dfCnst st" "dfCnst (setBoundsChecked x st) = dfCnst st" "dfCnst (setAlloc x a st) = dfCnst st"
  "dfCnst (setCnst x c st) = AList.update x c (dfCnst st)"
  by (simp_all add: setNil_def setIntv_def delIntv_def setFloat_def delUninit_def delProofs_def setNotZero_def setBoundsChecked_def
    setAlloc_def setCnst_def split: option.split)

lemma dead_setters [simp]:
  "dfDead (setNil x f st) = dfDead st" "dfDead (setIntv x iv st) = dfDead st" "dfDead (delIntv x st) = dfDead st"
  "dfDead (setFloat x fp st) = dfDead st" "dfDead (delUninit x st) = dfDead st" "dfDead (delProofs x st) = dfDead st"
  "dfDead (setNotZero x st) = dfDead st" "dfDead (setBoundsChecked x st) = dfDead st" "dfDead (setAlloc x a st) = dfDead st"
  "dfDead (setCnst x c st) = dfDead st"
  by (simp_all add: setNil_def setIntv_def delIntv_def setFloat_def delUninit_def delProofs_def setNotZero_def setBoundsChecked_def
    setAlloc_def setCnst_def split: option.split)

lemma cnst_VarDecl:
  "dfCnst (snd (dfWalkVarDecl env p x t v ctx st)) = AList.update x (dfEval env v st) (dfCnst (dfApplyEscapes env v st))"
  "dfDead (snd (dfWalkVarDecl env p x t v ctx st)) = dfDead (dfApplyEscapes env v st)"
  by (simp_all add: dfWalkVarDecl_def Let_def split: option.split)

lemma cnst_Reassign [simp]: "dfCnst (snd (dfReassignAlloc env p x v ctx st)) = dfCnst st" "dfDead (snd (dfReassignAlloc env p x v ctx st)) = dfDead st"
  by (simp_all add: dfReassignAlloc_def Let_def)

lemma cnst_Assign:
  assumes "asIdent t = Some x"
  shows "dfCnst (snd (dfWalkAssign env p t v ctx st)) = AList.update x (dfEval env (Some v) st) (dfCnst (dfApplyEscapes env (Some v) st))"
    and "dfDead (snd (dfWalkAssign env p t v ctx st)) = dfDead (dfApplyEscapes env (Some v) st)"
  using assms by (simp_all add: dfWalkAssign_def Let_def case_prod_beta)

lemma cnst_Shift [simp]: "dfCnst (dfShiftVar x d st) = dfCnst st" "dfDead (dfShiftVar x d st) = dfDead st"
  by (simp_all add: dfShiftVar_def split: option.split)

lemma cnst_Touch [simp]: "dfCnst (dfTouchVar x st) = dfCnst st" "dfDead (dfTouchVar x st) = dfDead st"
  by (simp_all add: dfTouchVar_def)

lemma cnst_AugAssign:
  assumes "asIdent t = Some x"
  shows "dfCnst (snd (dfWalkAugAssign env p t op v ctx st)) = AList.update x cBottom (dfCnst (dfApplyEscapes env (Some v) st))"
    and "dfDead (snd (dfWalkAugAssign env p t op v ctx st)) = dfDead (dfApplyEscapes env (Some v) st)"
  using assms by (simp_all add: dfWalkAugAssign_def Let_def)

lemma cnst_Postfix:
  assumes "asIdent e = Some x"
  shows "dfCnst (snd (dfWalkPostfix env p e op ctx st)) = AList.update x cBottom (dfCnst st)"
    and "dfDead (snd (dfWalkPostfix env p e op ctx st)) = dfDead st"
  using assms by (simp_all add: dfWalkPostfix_def Let_def)

lemma cnst_ExprStmt:
  assumes "exprOk V e"
  shows "dfCnst (snd (dfWalkExprStmt env e ctx st)) = dfCnst st" and "dfDead (snd (dfWalkExprStmt env e ctx st)) = dfDead st"
proof -
  have "asCall e = None" using exprOk_walk [OF assms, of e] by (simp add: walkAST.simps [of e])
  then show "dfCnst (snd (dfWalkExprStmt env e ctx st)) = dfCnst st" "dfDead (snd (dfWalkExprStmt env e ctx st)) = dfDead st"
    using assms by (simp_all add: dfWalkExprStmt_def isDeinitCall_def isManualFreeCall_def)
qed

definition sameCnst :: "dfState \<Rightarrow> dfState \<times> dfState \<Rightarrow> bool" where
  "sameCnst st ab \<longleftrightarrow> dfCnst (fst ab) = dfCnst st \<and> dfCnst (snd ab) = dfCnst st \<and> dfDead (fst ab) = dfDead st \<and> dfDead (snd ab) = dfDead st"

lemma sameCnst_pair [simp]: "sameCnst st (a, b) \<longleftrightarrow> dfCnst a = dfCnst st \<and> dfCnst b = dfCnst st \<and> dfDead a = dfDead st \<and> dfDead b = dfDead st"
  by (simp add: sameCnst_def)

lemma narrowNotZero_same: "sameCnst st ab \<Longrightarrow> sameCnst st (narrowNotZero x op c ab)"
  by (cases ab) (simp add: narrowNotZero_def sameCnst_def)

lemma narrowOnCond_same: "sameCnst st (narrowOnCond cond st)"
proof (cases "asBin cond")
  case (Some lor)
  obtain l op r where lor: "lor = (l, op, r)" by (cases lor)
  have cmp: "sameCnst st (let (thenIv, elseIv) = narrowIntervalCmp cur op' c;
        th = (if isSet thenIv then setIntv x thenIv st else st); el = (if isSet elseIv then setIntv x elseIv st else st);
        (th', el') = narrowNotZero x op' c (th, el) in
      (if (op' = ''<'' \<or> op' = ''<='') \<and> c > 0 then setBoundsChecked x th' else th', el'))" for cur op' c x
  proof -
    obtain t e where te: "narrowIntervalCmp cur op' c = (t, e)" by (cases "narrowIntervalCmp cur op' c")
    have "sameCnst st (narrowNotZero x op' c (if isSet t then setIntv x t st else st, if isSet e then setIntv x e st else st))"
      by (intro narrowNotZero_same) (simp add: sameCnst_def)
    then show ?thesis unfolding te by (auto simp: sameCnst_def Let_def split: prod.split)
  qed
  show ?thesis unfolding narrowOnCond_def Some lor option.case prod.case Let_def
    by (simp add: cmp [unfolded Let_def] split: cmpSubject.split option.split)
qed (simp add: narrowOnCond_def sameCnst_def)

lemma narrowOnCond_cnst [simp]:
  "dfCnst (fst (narrowOnCond c st)) = dfCnst st" "dfCnst (snd (narrowOnCond c st)) = dfCnst st"
  "dfDead (fst (narrowOnCond c st)) = dfDead st" "dfDead (snd (narrowOnCond c st)) = dfDead st"
  using narrowOnCond_same [of st c] by (simp_all add: sameCnst_def)

section \<open>Soundness of constant propagation\<close>

definition knows :: "string set \<Rightarrow> store \<Rightarrow> dfState \<Rightarrow> bool" where
  "knows V \<sigma> st \<longleftrightarrow> constDom.tracks V \<sigma> (dfCnst st) \<and> \<not> dfDead st"

lemma knows_mono: "knows V \<sigma> st \<Longrightarrow> W \<subseteq> V \<Longrightarrow> knows W \<sigma> st"
  by (auto simp: knows_def intro: constDom.tracks_mono)

lemma knows_left: "knows V \<sigma> a \<Longrightarrow> knows V \<sigma> (mergeStates a b)"
  by (auto simp: knows_def mergeStates_def constDom.tracks_left)

lemma knows_right: "knows V \<sigma> b \<Longrightarrow> knows V \<sigma> (mergeStates a b)"
  by (auto simp: knows_def mergeStates_def constDom.tracks_right)

lemma knows_cong: "knows V \<sigma> a \<Longrightarrow> (\<And>x. x \<in> V \<Longrightarrow> map_of (dfCnst b) x = map_of (dfCnst a) x) \<Longrightarrow> dfDead b = dfDead a \<Longrightarrow> knows V \<sigma> b"
  by (simp add: knows_def constDom.tracks_def)

lemma knows_update:
  assumes "knows V \<sigma> st" and "v \<in> gammaConst f" and "dfCnst st' = AList.update x f (dfCnst st)" and "dfDead st' = dfDead st"
  shows "knows (insert x V) (\<sigma>(x := v)) st'"
  using assms constDom.tracks_update [of V \<sigma> "dfCnst st" v f x] by (simp add: knows_def)

lemma knows_narrow [simp]: "knows V \<sigma> (fst (narrowOnCond c st)) = knows V \<sigma> st" "knows V \<sigma> (snd (narrowOnCond c st)) = knows V \<sigma> st"
  by (simp_all add: knows_def)

lemma knows_bodyEntry [simp]: "knows V \<sigma> (bodyEntry cond st) = knows V \<sigma> st"
  by (simp add: bodyEntry_def split: option.split)

lemma walkElifs_then: "knows V \<sigma> th \<Longrightarrow> knows V \<sigma> (fst (snd (walkElifs env wb eis ctx th el)))"
proof (induction eis arbitrary: ctx th el)
  case (Cons ei eis)
  then show ?case by (cases ei) (simp add: Let_def case_prod_beta knows_left)
qed simp

text \<open>The walk of the statements that hold statements.\<close>

lemma walk_block: "dfWalkStmt env (NBlock (Block p ss b)) ctx st = walkSeq (dfWalkStmt env) ss ctx st"
  by (simp add: dfWalkStmt.simps [of _ "NBlock _"])

definition elifsResult :: "dfEnv \<Rightarrow> (Node \<times> Node list) list \<Rightarrow> Node list option \<Rightarrow> dfCtx \<Rightarrow> dfState \<Rightarrow> dfState \<Rightarrow> dfState" where
  "elifsResult env eis el ctx th st =
     (case walkElifs env (\<lambda>b. walkSeq (dfWalkStmt env) b) eis ctx th st of
        (ctx3, th2, el2) \<Rightarrow> mergeStates th2 (case el of Some b \<Rightarrow> snd (walkSeq (dfWalkStmt env) b ctx3 el2) | None \<Rightarrow> el2))"

lemma walk_if:
  "\<exists>ctx2. snd (dfWalkStmt env (NStmt p (IfStmt c t eis e)) ctx st) =
     elifsResult env (elifsOf eis) (map_option blockStmts e) ctx2
       (snd (walkSeq (dfWalkStmt env) (blockStmts t) (checkIfCond env p c st ctx) (fst (narrowOnCond c st)))) (snd (narrowOnCond c st))"
  unfolding dfWalkStmt.simps [of _ "NStmt p (IfStmt c t eis e)"] elifsResult_def
  by (auto simp: Let_def case_prod_beta split: option.split)

lemma walk_for:
  assumes "k \<noteq> ForIn"
  shows "dfWalkStmt env (NStmt p (ForStmt k x t br i cond post iter body)) ctx st =
     (case (case i of Some j \<Rightarrow> dfWalkStmt env j ctx st | None \<Rightarrow> (ctx, st)) of
        (ctx1, st1) \<Rightarrow> loopWalk env cond (walkSeq (dfWalkStmt env) (optStmts body)) (map_option (dfWalkStmt env) post) ctx1 st1)"
  unfolding dfWalkStmt.simps [of _ "NStmt p (ForStmt k x t br i cond post iter body)"]
  using assms by (simp add: Let_def map_option_case split: option.split)

lemma walk_simple:
  "dfWalkStmt env (NDecl p (VarDecl c x t v)) ctx st = dfWalkVarDecl env p x t v ctx st"
  "dfWalkStmt env (NStmt p (AssignStmt tg w)) ctx st = dfWalkAssign env p tg w ctx st"
  "dfWalkStmt env (NStmt p (AugAssignStmt tg op w)) ctx st = dfWalkAugAssign env p tg op w ctx st"
  "dfWalkStmt env (NStmt p (PostfixStmt w op)) ctx st = dfWalkPostfix env p w op ctx st"
  "dfWalkStmt env (NStmt p (ExprStmt w)) ctx st = dfWalkExprStmt env w ctx st"
  "dfWalkStmt env (NStmt p (EchoStmt w)) ctx st = (dfCheckExpr env (Some w) st ctx, dfApplyEscapes env (Some w) st)"
  by (simp_all add: dfWalkStmt.simps [of _ "NDecl _ _"] dfWalkStmt.simps [of _ "NStmt _ _"])

text \<open>One round of a loop, and what it means for a state to be stable under it.\<close>

definition roundState :: "Node option \<Rightarrow> walk \<Rightarrow> walk option \<Rightarrow> dfCtx \<Rightarrow> dfState \<Rightarrow> dfState" where
  "roundState cond wb wp ctx prev =
     (case wb ctx (bodyEntry cond prev) of
        (c, b) \<Rightarrow> (case wp of Some w \<Rightarrow> if \<not> dfDead b then snd (w c b) else b | None \<Rightarrow> b))"

definition stable :: "string set \<Rightarrow> Node option \<Rightarrow> walk \<Rightarrow> walk option \<Rightarrow> dfState \<Rightarrow> bool" where
  "stable V cond wb wp p \<longleftrightarrow> (\<exists>ctx. \<forall>x \<in> V. map_of (dfCnst (mergeStates p (roundState cond wb wp ctx p))) x = map_of (dfCnst p) x)"

lemma loopRound_cnst:
  "dfCnst (snd (loopRound env cond wb wp w ctx p)) = dfCnst (mergeStates p (roundState cond wb wp (dfCheckExpr env cond p ctx) p))"
  "dfDead (snd (loopRound env cond wb wp w ctx p)) = dfDead (mergeStates p (roundState cond wb wp (dfCheckExpr env cond p ctx) p))"
  by (auto simp: loopRound_def roundState_def widenStates_def Let_def case_prod_beta split: option.split)

lemma loopRound_knows: "knows V \<sigma> p \<Longrightarrow> knows V \<sigma> (snd (loopRound env cond wb wp w ctx p))"
  using knows_left [of V \<sigma> p] by (simp add: knows_def loopRound_cnst)

lemma statesEqual_cnst: "statesEqual a b \<Longrightarrow> map_of (dfCnst a) x = Some f \<Longrightarrow> map_of (dfCnst b) x = Some f"
  by (auto simp: statesEqual_def mapsEqual_def list_all_iff dest: map_of_SomeD)

lemma loopFix_knows: "knows V \<sigma> p \<Longrightarrow> loopFix env cond wb wp i n ctx p = (ctx', q, c) \<Longrightarrow> knows V \<sigma> q"
proof (induction n arbitrary: i ctx p)
  case (Suc n)
  obtain ctx1 m where m: "loopRound env cond wb wp (i \<ge> 1) ctx p = (ctx1, m)" by (cases "loopRound env cond wb wp (i \<ge> 1) ctx p")
  have "knows V \<sigma> m" using loopRound_knows [OF Suc.prems(1), of env cond wb wp "i \<ge> 1" ctx] m by simp
  then show ?case using Suc.prems(2) Suc.IH [of m "Suc i" ctx1] m by (auto split: if_splits)
qed simp

lemma loopFix_stable:
  assumes "knows V \<sigma> p" and "loopFix env cond wb wp i n ctx p = (ctx', q, True)"
  shows "\<exists>p'. knows V \<sigma> p' \<and> stable V cond wb wp p' \<and> (\<forall>x \<in> V. map_of (dfCnst q) x = map_of (dfCnst p') x) \<and> dfDead q = dfDead p'"
  using assms
proof (induction n arbitrary: i ctx p)
  case (Suc n)
  obtain ctx1 m where m: "loopRound env cond wb wp (i \<ge> 1) ctx p = (ctx1, m)" by (cases "loopRound env cond wb wp (i \<ge> 1) ctx p")
  have km: "knows V \<sigma> m" using loopRound_knows [OF Suc.prems(1), of env cond wb wp "i \<ge> 1" ctx] m by simp
  show ?case
  proof (cases "statesEqual p m")
    case True
    have e: "map_of (dfCnst m) x = map_of (dfCnst p) x" if "x \<in> V" for x
      using Suc.prems(1) that statesEqual_cnst [OF True, of x] by (auto simp: knows_def constDom.tracks_def)
    have "stable V cond wb wp p"
      unfolding stable_def using e loopRound_cnst(1) [of env cond wb wp "i \<ge> 1" ctx p] m by (metis snd_conv)
    moreover have "dfDead m = dfDead p" using True by (simp add: statesEqual_def)
    ultimately show ?thesis using Suc.prems e m True by auto
  next
    case False
    then show ?thesis using Suc.IH [OF km, of "Suc i" ctx1] Suc.prems(2) m by simp
  qed
qed simp

lemma knows_bottomised: "knows V \<sigma> p \<Longrightarrow> knows V \<sigma>' (bottomised p)"
proof -
  have "map_of (map (\<lambda>(k, _). (k, cBottom)) m) x = map_option (\<lambda>_. cBottom) (map_of m x)" for m :: "constFact smap" and x
    using map_of_mapVal [of "\<lambda>_ _. cBottom" m x] by simp
  moreover assume "knows V \<sigma> p"
  ultimately show ?thesis by (fastforce simp: knows_def constDom.tracks_def bottomised_def newDFState_def)
qed

lemma no_break: "exec task \<sigma> r \<Longrightarrow> wellScoped V task \<Longrightarrow> r \<noteq> Broke \<sigma>'"
proof (induction arbitrary: V rule: exec.induct)
  case (seq_stop s \<sigma> r ss)
  then show ?case by (blast elim: wellScoped_seqE)
next
  case (for_init k i \<sigma> \<sigma>1 cond post body r p x t br iter)
  then show ?case by (blast elim: wellScoped_forE)
next
  case (for_plain k cond post body \<sigma> r p x t br iter)
  then show ?case by (blast elim: wellScoped_forE)
qed (auto elim!: wellScoped_seqE wellScoped_blockE wellScoped_ifE wellScoped_elseE wellScoped_elifE wellScoped_breakE)

fun soundAt :: "dfEnv \<Rightarrow> string set \<Rightarrow> task \<Rightarrow> store \<Rightarrow> store \<Rightarrow> bool" where
  "soundAt env V (TStmt n) \<sigma> \<sigma>' = (\<forall>ctx st. knows V \<sigma> st \<longrightarrow> knows (declared n \<union> V) \<sigma>' (snd (dfWalkStmt env n ctx st)))"
| "soundAt env V (TSeq ss) \<sigma> \<sigma>' = (\<forall>ctx st. knows V \<sigma> st \<longrightarrow> knows V \<sigma>' (snd (walkSeq (dfWalkStmt env) ss ctx st)))"
| "soundAt env V (TElifs eis el) \<sigma> \<sigma>' = (\<forall>ctx th st. knows V \<sigma> st \<longrightarrow> knows V \<sigma>' (elifsResult env eis el ctx th st))"
| "soundAt env V (TLoop cond post body) \<sigma> \<sigma>' = (\<forall>p. knows V \<sigma> p \<longrightarrow>
     stable V cond (walkSeq (dfWalkStmt env) body) (map_option (dfWalkStmt env) post) p \<longrightarrow> knows V \<sigma>' p)"

text \<open>A loop whose rounds are sound is sound.\<close>

lemma loopWalk_sound:
  assumes "soundAt env V (TLoop cond post body) \<sigma> \<sigma>'" and "knows V \<sigma> st"
  shows "knows V \<sigma>' (snd (loopWalk env cond (walkSeq (dfWalkStmt env) body) (map_option (dfWalkStmt env) post) ctx st))"
proof -
  let ?wb = "walkSeq (dfWalkStmt env) body" and ?wp = "map_option (dfWalkStmt env) post"
  obtain ctx1 q c where f: "loopFix env cond ?wb ?wp 0 maxIter (ctx\<lparr>dfSuppressWarnings := Suc (dfSuppressWarnings ctx)\<rparr>) st = (ctx1, q, c)"
    by (metis prod_cases3)
  show ?thesis
  proof (cases c)
    case True
    then have f': "loopFix env cond ?wb ?wp 0 maxIter (ctx\<lparr>dfSuppressWarnings := Suc (dfSuppressWarnings ctx)\<rparr>) st = (ctx1, q, True)"
      using f by simp
    from loopFix_stable [OF assms(2) f'] obtain p where p: "knows V \<sigma> p" "stable V cond ?wb ?wp p"
      "\<forall>x \<in> V. map_of (dfCnst q) x = map_of (dfCnst p) x" "dfDead q = dfDead p" by blast
    then have "knows V \<sigma>' p" using assms(1) by simp
    then have "knows V \<sigma>' q" using p(3,4) by (auto intro: knows_cong)
    then show ?thesis using f True by (simp add: loopWalk_def Let_def)
  next
    case False
    then show ?thesis using f knows_bottomised [OF loopFix_knows [OF assms(2) f]] by (simp add: loopWalk_def Let_def)
  qed
qed

lemma elifsResult_then: "knows V \<sigma> th \<Longrightarrow> knows V \<sigma> (elifsResult env eis el ctx th st)"
  using walkElifs_then [of V \<sigma> th env "\<lambda>b. walkSeq (dfWalkStmt env) b" eis ctx st]
  by (auto simp: elifsResult_def knows_left split: prod.split)

lemma elifsResult_cons:
  "\<exists>ctx2. elifsResult env ((c, b) # eis) el ctx th st =
     elifsResult env eis el ctx2 (mergeStates th (snd (walkSeq (dfWalkStmt env) b (dfCheckExpr env (Some c) st ctx) (fst (narrowOnCond c st)))))
       (snd (narrowOnCond c st))"
  by (auto simp: elifsResult_def Let_def case_prod_beta)

lemma stable_step:
  assumes "stable V cond wb wp p" and "\<And>ctx. knows V \<sigma>' (roundState cond wb wp ctx p)" and "knows V \<sigma> p"
  shows "knows V \<sigma>' p"
proof -
  obtain ctx where c: "\<forall>x \<in> V. map_of (dfCnst (mergeStates p (roundState cond wb wp ctx p))) x = map_of (dfCnst p) x"
    using assms(1) by (auto simp: stable_def)
  have "knows V \<sigma>' (mergeStates p (roundState cond wb wp ctx p))" by (rule knows_right) (rule assms(2))
  then show ?thesis using c assms(3) by (auto simp: knows_def constDom.tracks_def)
qed

lemma exec_sound:
  assumes "exec task \<sigma> r" and "r = Normal \<sigma>'" and "wellScoped V task"
  shows "soundAt env V task \<sigma> \<sigma>'"
  using assms
proof (induction arbitrary: V \<sigma>' rule: exec.induct)
  case (seq_cons s \<sigma> \<sigma>1 ss r)
  have s: "wellScoped V (TStmt s)" "wellScoped (declared s \<union> V) (TSeq ss)" using seq_cons.prems(2) by (auto elim: wellScoped_seqE)
  show ?case
    unfolding soundAt.simps
  proof (intro allI impI)
    fix ctx st assume k: "knows V \<sigma> st"
    have "knows (declared s \<union> V) \<sigma>1 (snd (dfWalkStmt env s ctx st))" using seq_cons.IH(1) [OF refl s(1)] k by simp
    then have "knows (declared s \<union> V) \<sigma>' (snd (walkSeq (dfWalkStmt env) ss (fst (dfWalkStmt env s ctx st)) (snd (dfWalkStmt env s ctx st))))"
      using seq_cons.IH(2) [OF seq_cons.prems(1) s(2)] by simp
    then show "knows V \<sigma>' (snd (walkSeq (dfWalkStmt env) (s # ss) ctx st))"
      using k by (auto simp: case_prod_beta knows_def elim: constDom.tracks_mono)
  qed
next
  case (block ss \<sigma> r p b)
  then show ?case by (auto simp: walk_block elim: wellScoped_blockE)
next
  case (var_decl \<sigma> e v p c x t)
  have e: "exprOk V e" using var_decl.prems(2) by (auto elim: wellScoped_varE)
  have v: "v \<in> gammaConst (dfEval env (Some e) st)" if "knows V \<sigma> st" for st
    using dfEvalNode_sound [OF e _ var_decl(1), of st env] that by (simp add: knows_def dfEval_def)
  show ?case
    unfolding soundAt.simps
  proof (intro allI impI)
    fix ctx st assume k: "knows V \<sigma> st"
    show "knows (declared (NDecl p (VarDecl c x t (Some e))) \<union> V) \<sigma>' (snd (dfWalkStmt env (NDecl p (VarDecl c x t (Some e))) ctx st))"
      using knows_update [OF k v [OF k], of "snd (dfWalkVarDecl env p x t (Some e) ctx st)" x] e var_decl.prems(1)
      by (simp add: walk_simple cnst_VarDecl)
  qed
next
  case (var_zero p c x \<sigma>)
  then show ?case by (auto elim: wellScoped_varE)
next
  case (assign t x \<sigma> e v p)
  have e: "exprOk V e" "x \<in> V" using assign.prems(2) assign(1) by (auto elim: wellScoped_assignE)
  have v: "v \<in> gammaConst (dfEval env (Some e) st)" if "knows V \<sigma> st" for st
    using dfEvalNode_sound [OF e(1) _ assign(2), of st env] that by (simp add: knows_def dfEval_def)
  have "knows V \<sigma>' (snd (dfWalkAssign env p t e ctx st))" if k: "knows V \<sigma> st" for ctx st
    using knows_update [OF k v [OF k], of "snd (dfWalkAssign env p t e ctx st)" x] e assign(1) assign.prems(1)
    by (simp add: cnst_Assign insert_absorb)
  then show ?case by (simp add: walk_simple)
next
  case (aug_assign t x op bop \<sigma> e w v p)
  have e: "exprOk V e" "x \<in> V" using aug_assign.prems(2) aug_assign(1) by (auto elim: wellScoped_augE)
  have "knows V \<sigma>' (snd (dfWalkAugAssign env p t op e ctx st))" if k: "knows V \<sigma> st" for ctx st
    using knows_update [OF k, of v cBottom "snd (dfWalkAugAssign env p t op e ctx st)" x] e aug_assign(1) aug_assign.prems(1)
    by (simp add: cnst_AugAssign insert_absorb)
  then show ?case by (simp add: walk_simple)
next
  case (postfix e x op bop \<sigma> v p)
  have x: "x \<in> V" using postfix.prems(2) postfix(1) by (auto elim: wellScoped_postfixE)
  have "knows V \<sigma>' (snd (dfWalkPostfix env p e op ctx st))" if k: "knows V \<sigma> st" for ctx st
    using knows_update [OF k, of v cBottom "snd (dfWalkPostfix env p e op ctx st)" x] x postfix(1) postfix.prems(1)
    by (simp add: cnst_Postfix insert_absorb)
  then show ?case by (simp add: walk_simple)
next
  case (expr_stmt \<sigma> e v p)
  then have e: "exprOk V e" by (auto elim: wellScoped_exprE)
  then show ?case using expr_stmt.prems(1) by (auto simp: walk_simple cnst_ExprStmt [OF e] knows_def)
next
  case (echo \<sigma> e v p)
  then have e: "exprOk V e" by (auto elim: wellScoped_echoE)
  then show ?case using echo.prems(1) by (auto simp: walk_simple knows_def)
next
  case (if_true \<sigma> c t r p eis e)
  have "soundAt env V (TSeq (blockStmts t)) \<sigma> \<sigma>'" using if_true by (auto elim: wellScoped_ifE)
  then show ?case using walk_if [of env p c t eis e] elifsResult_then by (auto; metis knows_narrow(1))
next
  case (if_false \<sigma> c eis e r p t)
  have "soundAt env V (TElifs (elifsOf eis) (map_option blockStmts e)) \<sigma> \<sigma>'" using if_false by (auto elim: wellScoped_ifE)
  then show ?case using walk_if [of env p c t eis e] by (auto; metis knows_narrow(2))
next
  case (else_some ss \<sigma> r)
  then show ?case by (auto simp: elifsResult_def knows_right elim: wellScoped_elseE)
next
  case (elif_true \<sigma> c ss r eis e)
  have "soundAt env V (TSeq ss) \<sigma> \<sigma>'" using elif_true by (auto elim: wellScoped_elifE)
  then show ?case using elifsResult_cons [of env c ss eis e] elifsResult_then knows_right by (auto; metis knows_narrow(1))
next
  case (elif_false \<sigma> c eis e r ss)
  have "soundAt env V (TElifs eis e) \<sigma> \<sigma>'" using elif_false by (auto elim: wellScoped_elifE)
  then show ?case using elifsResult_cons [of env c ss eis e] by (auto; metis knows_narrow(2))
next
  case (for_init k i \<sigma> \<sigma>1 cond post body r p x t br iter)
  have s: "wellScoped V (TStmt i)" "wellScoped (declared i \<union> V) (TLoop cond post (optStmts body))"
    using for_init.prems(2) by (auto elim: wellScoped_forE)
  have "soundAt env V (TStmt i) \<sigma> \<sigma>1" "soundAt env (declared i \<union> V) (TLoop cond post (optStmts body)) \<sigma>1 \<sigma>'"
    using for_init.IH s for_init.prems(1) by auto
  note k = this
  have "knows V \<sigma>' (snd (loopWalk env cond (walkSeq (dfWalkStmt env) (optStmts body)) (map_option (dfWalkStmt env) post)
      (fst (dfWalkStmt env i ctx st)) (snd (dfWalkStmt env i ctx st))))" if "knows V \<sigma> st" for ctx st
    using loopWalk_sound [OF k(2), of "snd (dfWalkStmt env i ctx st)"] k(1) that by (auto intro: knows_mono)
  then show ?case by (simp add: walk_for [OF for_init(1)] case_prod_beta)
next
  case (for_plain k cond post body \<sigma> r p x t br iter)
  have "soundAt env V (TLoop cond post (optStmts body)) \<sigma> \<sigma>'" using for_plain by (auto elim: wellScoped_forE)
  then show ?case using loopWalk_sound by (auto simp: walk_for [OF for_plain(1)])
next
  case (loop_step cond \<sigma> body \<sigma>1 q \<sigma>2 r)
  have s: "wellScoped V (TSeq body)" "wellScoped V (TStmt q)" using loop_step.prems(2) by (auto elim: wellScoped_loopE)
  have k: "soundAt env V (TSeq body) \<sigma> \<sigma>1" "soundAt env V (TStmt q) \<sigma>1 \<sigma>2" "soundAt env V (TLoop cond (Some q) body) \<sigma>2 \<sigma>'"
    using loop_step.IH s loop_step.prems by auto
  have "knows V \<sigma>2 (roundState cond (walkSeq (dfWalkStmt env) body) (Some (dfWalkStmt env q)) ctx p)" if kp: "knows V \<sigma> p" for p ctx
  proof -
    obtain c b where cb: "walkSeq (dfWalkStmt env) body ctx (bodyEntry cond p) = (c, b)" by (cases "walkSeq (dfWalkStmt env) body ctx (bodyEntry cond p)")
    have "knows V \<sigma>1 (snd (walkSeq (dfWalkStmt env) body ctx (bodyEntry cond p)))" using k(1) kp by simp
    then have b: "knows V \<sigma>1 b" by (simp add: cb)
    then have "knows (declared q \<union> V) \<sigma>2 (snd (dfWalkStmt env q c b))" using k(2) by simp
    then have "knows V \<sigma>2 (snd (dfWalkStmt env q c b))" by (rule knows_mono) simp
    then show ?thesis using b by (simp add: roundState_def cb knows_def)
  qed
  then show ?case using k(3) stable_step [where \<sigma>' = \<sigma>2] by auto
next
  case (loop_plain cond \<sigma> body \<sigma>1 r)
  have s: "wellScoped V (TSeq body)" using loop_plain.prems(2) by (auto elim: wellScoped_loopE)
  have k: "soundAt env V (TSeq body) \<sigma> \<sigma>1" "soundAt env V (TLoop cond None body) \<sigma>1 \<sigma>'"
    using loop_plain.IH s loop_plain.prems by auto
  have "knows V \<sigma>1 (roundState cond (walkSeq (dfWalkStmt env) body) None ctx p)" if "knows V \<sigma> p" for p ctx
    using k(1) that by (simp add: roundState_def case_prod_beta)
  then show ?case using k(2) stable_step [where \<sigma>' = \<sigma>1] by auto
next
  case (loop_break cond \<sigma> body \<sigma>1 post)
  then have "wellScoped V (TSeq body)" by (auto elim: wellScoped_loopE)
  then show ?case using no_break [OF loop_break(2)] by blast
qed (auto simp: elifsResult_def knows_right)

section \<open>Results\<close>


definition stateX :: "int \<Rightarrow> dfState" where
  "stateX i = newDFState\<lparr>dfNil := [(''x'', nilBottom)], dfCnst := [(''x'', cInt i)], dfIntv := [(''x'', singletonIv i)]\<rparr>"



definition floatOps0 :: float_ops where
  "floatOps0 = \<lparr>fo_add = (\<lambda>a b. a), fo_sub = (\<lambda>a b. a), fo_mul = (\<lambda>a b. a), fo_div = (\<lambda>a b. a), fo_neg = (\<lambda>a. a),
     fo_ofInt = (\<lambda>i. 0), fo_shortest = (\<lambda>a. None)\<rparr>"

definition env0 :: dfEnv where
  "env0 = \<lparr>foldExpr = (\<lambda>n. foldUnknown), floatOps = floatOps0, paramFrees = [], returnsAlloc = [], structFieldsByName = [],
     funcRetTypes = [], andersenPts = None, dfCurFnName = ''f''\<rparr>"

definition ctx0 :: dfCtx where
  "ctx0 = \<lparr>dfWarnings = [], dfSuppressWarnings = 0, manualAllocSites = [], dfSkipIndexCheck = []\<rparr>"

abbreviation iLit :: "int \<Rightarrow> Node" where "iLit i \<equiv> NLeaf noPos (IntLit i None)"
abbreviation idn :: "string \<Rightarrow> Node" where "idn x \<equiv> NLeaf noPos (Identifier x)"
abbreviation cmpE :: "Node \<Rightarrow> string \<Rightarrow> Node \<Rightarrow> Node" where "cmpE l op r \<equiv> NExpr noPos (BinExpr l op r)"
abbreviation blk :: "Node list \<Rightarrow> Node Block" where "blk ss \<equiv> Block noPos ss False"
abbreviation letS :: "string \<Rightarrow> Node \<Rightarrow> Node" where "letS x e \<equiv> NDecl noPos (VarDecl False x None (Some e))"
abbreviation setS :: "string \<Rightarrow> Node \<Rightarrow> Node" where "setS x e \<equiv> NStmt noPos (AssignStmt (idn x) e)"
abbreviation ifS :: "Node \<Rightarrow> Node list \<Rightarrow> Node" where "ifS c ss \<equiv> NStmt noPos (IfStmt c (blk ss) [] None)"
abbreviation whileS :: "Node option \<Rightarrow> Node list \<Rightarrow> Node" where
  "whileS c ss \<equiv> NStmt noPos (ForStmt ForWhile [] None False None c None None (Some (blk ss)))"

text \<open>\<open>let y = 1; for y < 1 { x = y }\<close>\<close>

definition loopProg :: Node where
  "loopProg = NBlock (blk [letS ''y'' (iLit 1), whileS (Some (cmpE (idn ''y'') ''<'' (iLit 1))) [setS ''x'' (idn ''y'')]])"

lemma evalE_lit: "evalE \<sigma> (iLit i) = Some (VInt i)" "evalE \<sigma> (idn x) = Some (\<sigma> x)"
  by (simp_all add: evalE.simps [of _ "NLeaf _ _"])

lemma exprOk_lit: "exprOk V (iLit i)" "exprOk V (idn x) \<longleftrightarrow> x \<in> V" "exprOk V (cmpE l op r) \<longleftrightarrow> op \<noteq> ''%'' \<and> exprOk V l \<and> exprOk V r"
  by (simp_all add: exprOk.simps [of _ "NLeaf _ _"] exprOk.simps [of _ "NExpr _ _"])

lemma evalE_cmp: "op \<noteq> ''&&'' \<Longrightarrow> op \<noteq> ''||'' \<Longrightarrow> evalE \<sigma> l = Some a \<Longrightarrow> evalE \<sigma> r = Some b \<Longrightarrow> evalE \<sigma> (cmpE l op r) = evalBin op a b"
  by (simp add: evalE.simps [of _ "NExpr _ _"])

lemma loopProg_exec: "exec (TStmt loopProg) (\<lambda>_. VInt 7) (Normal ((\<lambda>_. VInt 7)(''y'' := VInt 1)))"
  unfolding loopProg_def
  by (rule exec.block, rule exec.seq_cons, rule exec.var_decl, rule evalE_lit, rule exec.seq_cons, rule exec.for_plain, simp,
    rule exec.loop_exit, subst evalE_cmp, simp, simp, rule evalE_lit, rule evalE_lit, simp add: evalBin_def, rule exec.seq_nil)

lemma loopProg_scoped: "wellScoped {''x''} (TStmt loopProg)"
  unfolding loopProg_def by (auto intro!: wellScoped.intros simp: exprOk_lit)


text \<open>The checks of expressions report other things than constant conditions.\<close>

definition noBool :: "dfCtx \<Rightarrow> bool" where
  "noBool ctx \<longleftrightarrow> (\<forall>p as. (DiagBoolAnalysis, p, as) \<notin> set (dfWarnings ctx))"

lemma noBool_warn [simp]: "d \<noteq> DiagBoolAnalysis \<Longrightarrow> noBool (warn d p as ctx) = noBool ctx"
  by (auto simp: noBool_def warn_def)

lemma noBool_if [simp]: "noBool (if b then c else d) = (if b then noBool c else noBool d)"
  by simp

lemma noBool_nil: "noBool (warnUncheckedNil env p x ctx) = noBool ctx"
  by (simp add: warnUncheckedNil_def)

lemma noBool_deref: "noBool (checkDeref env st p x ctx) = noBool ctx"
  by (simp add: checkDeref_def Let_def noBool_nil)

lemma noBool_field: "noBool (checkField env st p x ctx) = noBool ctx"
  by (simp add: checkField_def Let_def noBool_nil)

lemma noBool_index: "noBool (dfCheckUncheckedIndex env n e i st ctx) = noBool ctx"
  by (simp add: dfCheckUncheckedIndex_def split: foldedValue.split)

lemma noBool_div: "noBool (dfCheckUncheckedDiv env p op r st ctx) = noBool ctx"
  by (simp add: dfCheckUncheckedDiv_def split: foldedValue.split)

lemma noBool_precision: "noBool (dfCheckFloatPrecision env p l op r st ctx) = noBool ctx"
  by (simp add: dfCheckFloatPrecision_def Let_def split: option.split prod.split)

lemma noBool_visit: "noBool (dfCheckVisit env st ctx n) = noBool ctx"
  unfolding dfCheckVisit_def
  by (simp add: noBool_deref noBool_field noBool_index noBool_div noBool_precision split: option.split prod.split)

lemma noBool_foldl: "(\<And>c x. noBool (f c x) = noBool c) \<Longrightarrow> noBool (foldl f ctx xs) = noBool ctx"
  by (induction xs arbitrary: ctx) auto

lemma noBool_useBefore: "noBool (dfCheckUseBeforeAssignNode st ctx n) = noBool ctx"
proof (induction st ctx n rule: dfCheckUseBeforeAssignNode.induct)
  case (1 st ctx n)
  have "noBool (foldl (\<lambda>c m. dfCheckUseBeforeAssignNode st c m) c ms) = noBool c" if "set ms \<subseteq> set (useChildren n)" "asIdent n = None" for c ms
    using that 1 by (induction ms arbitrary: c) auto
  then show ?case by (simp add: dfCheckUseBeforeAssignNode.simps [of _ _ n] split: option.split)
qed

lemma noBool_checkExpr: "noBool (dfCheckExpr env e st ctx) = noBool ctx"
  by (simp add: dfCheckExpr_def dfCheckUseBeforeAssign_def noBool_useBefore noBool_foldl noBool_visit split: option.split)

lemma noBool_single: "noBool (checkSingleCmp c st ctx) = noBool ctx"
  by (simp add: checkSingleCmp_def case_prod_beta split: option.split cmpSubject.split)

lemma noBool_impossible: "noBool (fst (checkImpossibleCmpIn c st ctx)) = noBool ctx"
proof (induction c arbitrary: st ctx rule: measure_induct_rule [where f = size])
  case (less c)
  show ?case
  proof (cases "asBin c")
    case None
    then show ?thesis by (subst checkImpossibleCmpIn.simps) (simp add: noBool_single)
  next
    case (Some lor)
    obtain l op r where lor: "lor = (l, op, r)" by (cases lor)
    have "noBool (fst (checkImpossibleCmpIn l s k)) = noBool k" "noBool (fst (checkImpossibleCmpIn r s k)) = noBool k" for s k
      using asBin_size [OF Some [unfolded lor]] less.IH [of l s k] less.IH [of r s k] by simp_all
    then show ?thesis unfolding checkImpossibleCmpIn.simps [of c] Some lor
      by (simp add: noBool_single split: prod.split) (metis fst_conv)
  qed
qed



definition breakProg :: "Node list" where
  "breakProg = [letS ''x'' (iLit 0), whileS None [setS ''x'' (iLit 5), NLeaf noPos BreakStmt]]"




text \<open>A declaration without an initializer sets the variable to zero, but its fact is the one of unreachable code: after
  \<open>let x i64; if c { x = 5 }\<close> the pass holds \<open>x = 5\<close>.\<close>

definition zeroProg :: "Node list" where
  "zeroProg = [NDecl noPos (VarDecl False ''x'' (Some (SimpleType ''i64'')) None), ifS (idn ''c'') [setS ''x'' (iLit 5)]]"

lemma uninitialized_taken_as_assigned:
  "exec (TSeq zeroProg) (\<lambda>_. VBool False) (Normal ((\<lambda>_. VBool False)(''x'' := VInt 0))) \<and>
   (DiagBoolAnalysis, noPos, [''true'']) \<in>
     set (dfWarnings (fst (dfWalkStmt env0 (NBlock (blk (zeroProg @ [ifS (cmpE (idn ''x'') ''=='' (iLit 5)) []]))) ctx0 newDFState)))"
proof
  have "exec (TStmt (ifS (idn ''c'') [setS ''x'' (iLit 5)])) ((\<lambda>_. VBool False)(''x'' := VInt 0)) (Normal ((\<lambda>_. VBool False)(''x'' := VInt 0)))"
    by (intro exec.if_false) (auto simp: evalE_lit intro: exec.else_none)
  then show "exec (TSeq zeroProg) (\<lambda>_. VBool False) (Normal ((\<lambda>_. VBool False)(''x'' := VInt 0)))"
    unfolding zeroProg_def by (rule exec.seq_cons [OF exec.var_zero exec.seq_cons [OF _ exec.seq_nil]])
qed code_simp

end
