(* ===== verification/TinLiveness.thy ===== *)
theory TinLiveness
  imports TinFold "HOL-Library.Multiset" "HOL-Library.AList"
begin

text \<open>
  Implicit moves (\<^verbatim>\<open>src/codegen/liveness.go\<close>): the identifiers that are the single read of a local binding.

  A Go map from names is an association list, a set of names a list.  The code tells two occurrences of an identifier
  apart by their addresses, the model by their positions.  \<open>liveVisit\<close> is what \<open>implicitMoveState.walk\<close> does at a node before it goes on,
  \<open>liveChildren\<close> the calls it makes then, each with the increment of the loop depth and whether it enters a captured body.
\<close>

section \<open>The analysis\<close>

record implicitMoveState =
  bindingDecls :: "(string \<times> Pos) list"
  reads :: "(string \<times> Node list) list"
  captureNames :: "string list"
  mutated :: "string list"

definition addRead :: "string \<Rightarrow> Node list \<Rightarrow> implicitMoveState \<Rightarrow> implicitMoveState" where
  "addRead x ids s = s\<lparr>reads := AList.update x ((case map_of (reads s) x of Some old \<Rightarrow> old | None \<Rightarrow> []) @ ids) (reads s)\<rparr>"

definition addMutated :: "Node \<Rightarrow> implicitMoveState \<Rightarrow> implicitMoveState" where
  "addMutated t s = (case asIdent t of Some x \<Rightarrow> s\<lparr>mutated := List.insert x (mutated s)\<rparr> | None \<Rightarrow> s)"

definition liveIdent :: "Node \<Rightarrow> string \<Rightarrow> nat \<Rightarrow> bool \<Rightarrow> implicitMoveState \<Rightarrow> implicitMoveState" where
  "liveIdent n x loopDepth inCapture s =
     (if x = [] then s
      else if inCapture then s\<lparr>captureNames := List.insert x (captureNames s)\<rparr>
      else if loopDepth = 0 then addRead x [n] s
      else addRead x [n, n] s)"

fun liveStmtVisit :: "Node Stmt \<Rightarrow> implicitMoveState \<Rightarrow> implicitMoveState" where
  "liveStmtVisit (AssignStmt t _) s = addMutated t s"
| "liveStmtVisit (AugAssignStmt t _ _) s = addMutated t s"
| "liveStmtVisit (PostfixStmt e _) s = addMutated e s"
| "liveStmtVisit _ s = s"

definition liveVisit :: "Node \<Rightarrow> nat \<Rightarrow> bool \<Rightarrow> implicitMoveState \<Rightarrow> implicitMoveState" where
  "liveVisit n loopDepth inCapture s =
     (case n of
        NDecl p (VarDecl _ x _ _) \<Rightarrow> if x \<noteq> [] \<and> \<not> inCapture then s\<lparr>bindingDecls := AList.update x p (bindingDecls s)\<rparr> else s
      | NLeaf _ (Identifier x) \<Rightarrow> liveIdent n x loopDepth inCapture s
      | NStmt _ st \<Rightarrow> liveStmtVisit st s
      | _ \<Rightarrow> s)"

type_synonym edge = "Node \<times> nat \<times> bool"

abbreviation plain :: "Node list \<Rightarrow> edge list" where
  "plain ns \<equiv> map (\<lambda>m. (m, 0, False)) ns"

abbreviation looped :: "Node list \<Rightarrow> edge list" where
  "looped ns \<equiv> map (\<lambda>m. (m, 1, False)) ns"

abbreviation captured :: "Node list \<Rightarrow> edge list" where
  "captured ns \<equiv> map (\<lambda>m. (m, 0, True)) ns"

fun caseBody :: "Node MatchCase \<Rightarrow> Node" where
  "caseBody (MatchCase _ _ _ _ _ b) = NBlock b"

fun liveStmtChildren :: "Node Stmt \<Rightarrow> edge list option" where
  "liveStmtChildren (AssignStmt t v) = Some (plain [t, v])"
| "liveStmtChildren (AugAssignStmt t _ v) = Some (plain [t, v])"
| "liveStmtChildren (PostfixStmt _ _) = Some []"
| "liveStmtChildren (DeferStmt c) = Some (captured [c])"
| "liveStmtChildren (ForStmt _ _ _ _ _ cond _ _ body) = Some (looped (optList cond @ optBlock body))"
| "liveStmtChildren (IfStmt c t eis e) = Some (plain ([c, NBlock t] @ concat (map elseIfChildren eis) @ optBlock e))"
| "liveStmtChildren (MatchStmt e _ cs d) = Some (plain ([e] @ map caseBody cs @ optBlock d))"
| "liveStmtChildren _ = None"

fun liveExprChildren :: "Node Expr \<Rightarrow> edge list option" where
  "liveExprChildren (LambdaExpr _ _ _ b _) = Some (captured [b])"
| "liveExprChildren (SpawnExpr c b) = Some (captured (optList c @ optBlock b))"
| "liveExprChildren _ = None"

text \<open>The default case of the switch walks every node below, at any depth.\<close>

definition liveChildren :: "Node \<Rightarrow> edge list" where
  "liveChildren n =
     (let generic = plain (tl (walkAST n)) in
      case n of
        NDecl _ (VarDecl _ _ _ v) \<Rightarrow> plain (optList v)
      | NLeaf _ (Identifier _) \<Rightarrow> []
      | NStmt _ s \<Rightarrow> (case liveStmtChildren s of Some es \<Rightarrow> es | None \<Rightarrow> generic)
      | NExpr _ e \<Rightarrow> (case liveExprChildren e of Some es \<Rightarrow> es | None \<Rightarrow> generic)
      | NBlock (Block _ ss _) \<Rightarrow> plain ss
      | _ \<Rightarrow> generic)"

lemma walkAST_smaller: "m \<in> set (tl (walkAST n)) \<Longrightarrow> size m < size n"
proof (induction n rule: measure_induct_rule [where f = size])
  case (less n)
  then obtain c where c: "c \<in> set (walkChildren n)" "m \<in> set (walkAST c)" by (auto simp: walkAST.simps [of n])
  have "m = c \<or> m \<in> set (tl (walkAST c))" using c(2) by (simp add: walkAST.simps [of c])
  then show ?case using less.IH [of c] walkChildren_size [OF c(1)] by auto
qed

lemma caseBody_mem: "caseBody c \<in> set (matchCaseChildren c)"
  by (cases c) simp

lemma liveChildren_walkChildren:
  assumes "(m, d, c) \<in> set (liveChildren n)"
  shows "m \<in> set (walkChildren n) \<or> m \<in> set (tl (walkAST n))"
proof -
  have s: "m \<in> set (stmtChildren s)" if "(m, d, c) \<in> set es" "liveStmtChildren s = Some es" for s es
    using that by (cases s rule: liveStmtChildren.cases) (use caseBody_mem in fastforce)+
  have e: "m \<in> set (exprChildren e)" if "(m, d, c) \<in> set es" "liveExprChildren e = Some es" for e es
    using that by (cases e rule: liveExprChildren.cases) auto
  show ?thesis using assms s e
    by (auto simp: liveChildren_def Let_def split: Node.splits Decl.splits Leaf.splits option.splits Block.splits)
qed

lemma liveChildren_size: "e \<in> set (liveChildren n) \<Longrightarrow> size (fst e) < size n"
  using liveChildren_walkChildren [of "fst e" "fst (snd e)" "snd (snd e)" n] walkChildren_size walkAST_smaller by auto

function implicitMoveState_walk :: "Node \<Rightarrow> nat \<Rightarrow> bool \<Rightarrow> implicitMoveState \<Rightarrow> implicitMoveState" where
  "implicitMoveState_walk n loopDepth inCapture s =
     foldl (\<lambda>t e. implicitMoveState_walk (fst e) (loopDepth + fst (snd e)) (inCapture \<or> snd (snd e)) t)
       (liveVisit n loopDepth inCapture s) (liveChildren n)"
  by pat_completeness auto
termination
  by (relation "measure (\<lambda>(n, d, c, s). size n)") (auto dest: liveChildren_size)

declare implicitMoveState_walk.simps [simp del]

lemma implicitMoveState_walk_code [code]:
  "implicitMoveState_walk n loopDepth inCapture s =
     (case liveChildren n of
        [] \<Rightarrow> liveVisit n loopDepth inCapture s
      | e # es \<Rightarrow> foldl (\<lambda>t e. implicitMoveState_walk (fst e) (loopDepth + fst (snd e)) (inCapture \<or> snd (snd e)) t)
          (liveVisit n loopDepth inCapture s) (e # es))"
  by (simp add: implicitMoveState_walk.simps [of n] split: list.split)

definition noMoves :: implicitMoveState where
  "noMoves = \<lparr>bindingDecls = [], reads = [], captureNames = [], mutated = []\<rparr>"

definition computeImplicitMoveSites :: "Node \<Rightarrow> Node list" where
  "computeImplicitMoveSites body =
     (let s = implicitMoveState_walk body 0 False noMoves in
      concat (map (\<lambda>(name, ids).
        if map_of (bindingDecls s) name = None then []
        else if name \<in> set (captureNames s) \<or> name \<in> set (mutated s) then []
        else if length ids \<noteq> 1 then []
        else [hd ids]) (reads s)))"

section \<open>A reference traversal\<close>

text \<open>Every node once, with the number of loops around it and whether it is in a lambda, a spawned or a deferred body.
  The iterable of a loop is included.\<close>

fun stmtEdges :: "Node Stmt \<Rightarrow> edge list" where
  "stmtEdges (ForStmt _ _ _ _ init cond post iter body) =
     plain (optList init) @ looped (optList cond) @ looped (optList post) @ plain (optList iter) @ looped (optBlock body)"
| "stmtEdges (DeferStmt c) = captured [c]"
| "stmtEdges s = plain (stmtChildren s)"

fun exprEdges :: "Node Expr \<Rightarrow> edge list" where
  "exprEdges (LambdaExpr _ _ _ b _) = captured [b]"
| "exprEdges (SpawnExpr c b) = captured (optList c @ optBlock b)"
| "exprEdges e = plain (exprChildren e)"

definition edges :: "Node \<Rightarrow> edge list" where
  "edges n = (case n of NStmt _ s \<Rightarrow> stmtEdges s | NExpr _ e \<Rightarrow> exprEdges e | _ \<Rightarrow> plain (walkChildren n))"

text \<open>The parts that \<open>implicitMoveState.walk\<close> does not enter.\<close>

fun patAndGuard :: "Node MatchCase \<Rightarrow> Node list" where
  "patAndGuard (MatchCase _ pat _ _ g _) = optList pat @ optList g"

fun stmtSkipped :: "Node Stmt \<Rightarrow> edge list" where
  "stmtSkipped (ForStmt _ _ _ _ init _ post iter _) = plain (optList init) @ looped (optList post) @ plain (optList iter)"
| "stmtSkipped (MatchStmt _ _ cs _) = plain (concat (map patAndGuard cs))"
| "stmtSkipped (PostfixStmt e _) = plain [e]"
| "stmtSkipped _ = []"

definition skipped :: "Node \<Rightarrow> edge list" where
  "skipped n = (case n of NStmt _ s \<Rightarrow> stmtSkipped s | _ \<Rightarrow> [])"

lemma edges_size: "e \<in> set (edges n) \<Longrightarrow> size (fst e) < size n"
proof -
  obtain m d c where e: "e = (m, d, c)" by (cases e)
  have s: "(m, d, c) \<in> set (stmtEdges s) \<Longrightarrow> size m \<le> size_Stmt size s" for s
    using stmtChildren_size [of m s] by (cases s rule: stmtEdges.cases) auto
  have x: "(m, d, c) \<in> set (exprEdges e) \<Longrightarrow> size m \<le> size_Expr size e" for e
    using exprChildren_size [of m e] by (cases e rule: exprEdges.cases) auto
  show "e \<in> set (edges n) \<Longrightarrow> size (fst e) < size n"
    using e s x walkChildren_size [of m n] by (cases n) (auto simp: edges_def less_Suc_eq_le)
qed

function occs :: "Node \<Rightarrow> nat \<Rightarrow> bool \<Rightarrow> edge list" where
  "occs n d c = (n, d, c) # concat (map (\<lambda>e. occs (fst e) (d + fst (snd e)) (c \<or> snd (snd e))) (edges n))"
  by pat_completeness auto
termination
  by (relation "measure (\<lambda>(n, d, c). size n)") (auto simp: edges_size)

declare occs.simps [simp del]

function visits :: "Node \<Rightarrow> nat \<Rightarrow> bool \<Rightarrow> edge list" where
  "visits n d c = (n, d, c) # concat (map (\<lambda>e. visits (fst e) (d + fst (snd e)) (c \<or> snd (snd e))) (liveChildren n))"
  by pat_completeness auto
termination
  by (relation "measure (\<lambda>(n, d, c). size n)") (auto simp: liveChildren_size)

declare visits.simps [simp del]

lemma foldl_concat_map: "foldl (\<lambda>t e. foldl f t (g e)) s es = foldl f s (concat (map g es))"
  by (induction es arbitrary: s) auto

lemma walk_visits: "implicitMoveState_walk n d c s = foldl (\<lambda>t e. liveVisit (fst e) (fst (snd e)) (snd (snd e)) t) s (visits n d c)"
proof (induction n d c s rule: implicitMoveState_walk.induct)
  case (1 n d c s)
  let ?f = "\<lambda>t e. liveVisit (fst e) (fst (snd e)) (snd (snd e)) t"
  have "foldl (\<lambda>t e. implicitMoveState_walk (fst e) (d + fst (snd e)) (c \<or> snd (snd e)) t) s es =
      foldl (\<lambda>t e. foldl ?f t (visits (fst e) (d + fst (snd e)) (c \<or> snd (snd e)))) s es" if "set es \<subseteq> set (liveChildren n)" for s es
    using that 1 by (induction es arbitrary: s) auto
  then show ?case
    by (simp add: implicitMoveState_walk.simps [of n] visits.simps [of n] foldl_concat_map case_prod_beta)
qed

section \<open>Every occurrence is visited\<close>

lemma sum_list_subset:
  fixes F G :: "'a \<Rightarrow> 'b multiset"
  assumes "\<And>e. e \<in> set es \<Longrightarrow> F e \<subseteq># G e"
  shows "(\<Sum>e \<leftarrow> es. F e) \<subseteq># (\<Sum>e \<leftarrow> es. G e)"
  using assms by (induction es) (auto intro: subset_mset.add_mono)

lemma sum_list_mset_mono:
  fixes F :: "'a \<Rightarrow> 'b multiset"
  assumes "mset es \<subseteq># mset fs"
  shows "(\<Sum>e \<leftarrow> es. F e) \<subseteq># (\<Sum>e \<leftarrow> fs. F e)"
proof -
  have s: "(\<Sum>e \<leftarrow> xs. F e) = \<Sum>\<^sub># (image_mset F (mset xs))" for xs
    by (metis mset_map sum_mset_sum_list)
  obtain K where "mset fs = mset es + K" using assms by (metis subset_mset.le_iff_add)
  then show ?thesis unfolding s by simp
qed

lemma mset_concat_filter: "filter_mset P (mset (concat (map W es))) = (\<Sum>e \<leftarrow> es. filter_mset P (mset (W e)))"
  by (induction es) auto

lemma children_in_walk: "mset (walkChildren n) \<subseteq># mset (tl (walkAST n))"
proof -
  have "mset cs \<subseteq># mset (concat (map walkAST cs))" for cs
  proof (induction cs)
    case (Cons m cs)
    have "{#m#} \<subseteq># mset (walkAST m)" by (simp add: walkAST.simps [of m])
    from subset_mset.add_mono [OF this Cons.IH] show ?case by simp
  qed simp
  then show ?thesis by (simp add: walkAST.simps [of n])
qed

lemma match_children: "mset (concat (map matchCaseChildren cs)) = mset (map caseBody cs) + mset (concat (map patAndGuard cs))"
proof (induction cs)
  case (Cons c cs)
  then show ?case by (cases c) simp
qed simp

lemma plain_mono: "mset ns \<subseteq># mset ms \<Longrightarrow> mset (plain ns) \<subseteq># mset (plain ms)"
  by (simp add: image_mset_subseteq_mono)

lemma match_edges: "mset (plain (concat (map matchCaseChildren cs))) = mset (plain (map caseBody cs)) + mset (plain (concat (map patAndGuard cs)))"
  using arg_cong [OF match_children [of cs], of "image_mset (\<lambda>m. (m, 0, False))"] by (simp only: mset_map image_mset_union)

lemma stmt_edges_live: "liveStmtChildren s = Some es \<Longrightarrow> mset (stmtEdges s) \<subseteq># mset es + mset (stmtSkipped s)"
proof (cases s rule: liveStmtChildren.cases)
  case (7 e t cs d)
  assume "liveStmtChildren s = Some es"
  then have es: "mset es = {#(e, 0, False)#} + mset (plain (map caseBody cs)) + mset (plain (optBlock d))" using 7 by auto
  have "mset (stmtEdges s) = {#(e, 0, False)#} + mset (plain (concat (map matchCaseChildren cs))) + mset (plain (optBlock d))" using 7 by simp
  then show ?thesis using 7 unfolding es match_edges by simp
qed auto

lemma edges_live: "mset (edges n) \<subseteq># mset (liveChildren n) + mset (skipped n)"
proof -
  have generic: "mset (plain (walkChildren n)) \<subseteq># mset (plain (tl (walkAST n))) + X" for X
    using plain_mono [OF children_in_walk] by (rule subset_mset.order_trans) simp
  show ?thesis
  proof (cases n)
    case (NStmt p s)
    show ?thesis
    proof (cases "liveStmtChildren s")
      case None
      then have "stmtEdges s = plain (stmtChildren s)" by (cases s rule: liveStmtChildren.cases) auto
      then show ?thesis using None NStmt generic by (simp add: edges_def liveChildren_def Let_def)
    next
      case (Some es)
      then show ?thesis using NStmt stmt_edges_live [OF Some] by (simp add: edges_def liveChildren_def skipped_def Let_def)
    qed
  next
    case (NExpr p e)
    show ?thesis
    proof (cases "liveExprChildren e")
      case None
      then have "exprEdges e = plain (exprChildren e)" by (cases e rule: liveExprChildren.cases) auto
      then show ?thesis using None NExpr generic by (simp add: edges_def liveChildren_def Let_def)
    next
      case (Some es)
      then show ?thesis using NExpr by (cases e rule: liveExprChildren.cases) (auto simp: edges_def liveChildren_def)
    qed
  next
    case (NDecl p d)
    show ?thesis
    proof (cases "\<exists>c x t v. d = VarDecl c x t v")
      case True
      then show ?thesis using NDecl by (auto simp: edges_def liveChildren_def)
    next
      case False
      then have "liveChildren n = plain (tl (walkAST n))" using NDecl by (cases d) (auto simp: liveChildren_def)
      then show ?thesis using generic NDecl by (simp add: edges_def)
    qed
  next
    case (NLeaf p l)
    then show ?thesis by (simp add: edges_def)
  next
    case (NFunc f)
    then show ?thesis using generic by (simp add: edges_def liveChildren_def Let_def)
  next
    case (NBlock b)
    then show ?thesis by (cases b) (simp add: edges_def liveChildren_def)
  qed
qed

text \<open>A kind of node that does not occur in a part that the walk skips is visited wherever it occurs.\<close>

definition nodesOf :: "Node \<Rightarrow> Node set" where
  "nodesOf n = fst ` set (occs n 0 False)"

definition unskipped :: "(Node \<Rightarrow> bool) \<Rightarrow> Node \<Rightarrow> bool" where
  "unskipped P n \<longleftrightarrow> (\<forall>m \<in> nodesOf n. \<forall>e \<in> set (skipped m). \<forall>j \<in> nodesOf (fst e). \<not> P j)"

lemma nodes_occs: "fst ` set (occs n d c) = nodesOf n"
proof -
  have "fst ` set (occs n d c) = fst ` set (occs n d' c')" for d c d' c'
  proof (induction n arbitrary: d c d' c' rule: measure_induct_rule [where f = size])
    case (less n)
    have "fst ` (\<Union>e \<in> set (edges n). set (occs (fst e) (d + fst (snd e)) (c \<or> snd (snd e)))) =
        fst ` (\<Union>e \<in> set (edges n). set (occs (fst e) (d' + fst (snd e)) (c' \<or> snd (snd e))))"
      unfolding image_UN by (intro SUP_cong refl less edges_size)
    then show ?case by (simp add: occs.simps [of n])
  qed
  then show ?thesis by (simp add: nodesOf_def)
qed

lemma nodesOf_unfold: "nodesOf n = insert n (\<Union>e \<in> set (edges n). nodesOf (fst e))"
  unfolding nodesOf_def [of n] by (simp add: occs.simps [of n] image_UN nodes_occs)

lemma nodesOf_self [simp]: "n \<in> nodesOf n"
  using nodesOf_unfold [of n] by simp

lemma nodesOf_trans: "m \<in> nodesOf n \<Longrightarrow> nodesOf m \<subseteq> nodesOf n"
proof (induction n rule: measure_induct_rule [where f = size])
  case (less n)
  show ?case
  proof (cases "m = n")
    case False
    then obtain e where e: "e \<in> set (edges n)" "m \<in> nodesOf (fst e)" using less.prems nodesOf_unfold [of n] by auto
    then have "nodesOf m \<subseteq> nodesOf (fst e)" using less.IH edges_size by blast
    then show ?thesis using e(1) nodesOf_unfold [of n] by auto
  qed simp
qed

lemma exprEdges_eq: "exprEdges e = captured (exprChildren e) \<or> exprEdges e = plain (exprChildren e)"
  by (cases e rule: exprEdges.cases) auto

lemma stmtEdges_eq:
  "stmtEdges s = captured (stmtChildren s) \<or> stmtEdges s = plain (stmtChildren s) \<or> set (stmtChildren s) \<subseteq> fst ` set (stmtEdges s)"
  by (cases s rule: stmtEdges.cases) (auto simp: image_Un image_image)

lemma children_edges: "m \<in> set (walkChildren n) \<Longrightarrow> m \<in> fst ` set (edges n)"
proof -
  have s: "m \<in> fst ` set (stmtEdges s)" if "m \<in> set (stmtChildren s)" for s
    using stmtEdges_eq [of s] that by (elim disjE) (simp_all add: image_image, blast)
  have e: "m \<in> fst ` set (exprEdges e)" if "m \<in> set (exprChildren e)" for e
    using exprEdges_eq [of e] that by (elim disjE) (simp_all add: image_image)
  show "m \<in> set (walkChildren n) \<Longrightarrow> m \<in> fst ` set (edges n)"
    using s e by (cases n rule: walkChildren.cases) (simp_all add: edges_def image_image)
qed

lemma walkAST_nodes: "set (walkAST n) \<subseteq> nodesOf n"
proof (induction n rule: measure_induct_rule [where f = size])
  case (less n)
  have "set (walkAST m) \<subseteq> nodesOf n" if m: "m \<in> set (walkChildren n)" for m
  proof -
    obtain e where "e \<in> set (edges n)" "m = fst e" using children_edges [OF m] by auto
    then show ?thesis using less.IH [OF walkChildren_size [OF m]] nodesOf_unfold [of n] by auto
  qed
  then show ?case by (auto simp: walkAST.simps [of n])
qed

lemma liveChildren_nodes:
  assumes "e \<in> set (liveChildren n)"
  shows "fst e \<in> nodesOf n"
proof -
  consider "fst e \<in> set (walkChildren n)" | "fst e \<in> set (tl (walkAST n))"
    using assms liveChildren_walkChildren [of "fst e" "fst (snd e)" "snd (snd e)" n] by auto
  then show ?thesis
  proof cases
    case 1
    then obtain k where "k \<in> set (edges n)" "fst e = fst k" using children_edges by blast
    then have "nodesOf (fst e) \<subseteq> nodesOf n" using nodesOf_unfold [of n] by auto
    then show ?thesis using nodesOf_self [of "fst e"] by auto
  next
    case 2
    then have "fst e \<in> set (walkAST n)" by (simp add: walkAST.simps [of n])
    then show ?thesis using walkAST_nodes by blast
  qed
qed

lemma visits_nodes: "fst ` set (visits n d c) \<subseteq> nodesOf n"
proof (induction n arbitrary: d c rule: measure_induct_rule [where f = size])
  case (less n)
  have "fst ` set (visits (fst e) i k) \<subseteq> nodesOf n" if e: "e \<in> set (liveChildren n)" for e i k
    using less.IH [OF liveChildren_size [OF e], of i k] nodesOf_trans [OF liveChildren_nodes [OF e]] by blast
  then have "(\<Union>e \<in> set (liveChildren n). fst ` set (visits (fst e) (d + fst (snd e)) (c \<or> snd (snd e)))) \<subseteq> nodesOf n"
    by (intro UN_least)
  then show ?case by (simp add: visits.simps [of n] image_UN)
qed

lemma unskipped_node: "unskipped P n \<Longrightarrow> m \<in> nodesOf n \<Longrightarrow> unskipped P m"
  unfolding unskipped_def using nodesOf_trans by blast

lemma skipped_none:
  assumes "unskipped P n" and "e \<in> set (skipped n)"
  shows "filter_mset (\<lambda>e. P (fst e)) (mset (occs (fst e) d c)) = {#}"
proof -
  have "\<not> P j" if "j \<in> nodesOf (fst e)" for j
    using assms(1) [unfolded unskipped_def, rule_format, OF nodesOf_self assms(2) that] .
  then have "\<not> P (fst x)" if "x \<in> set (occs (fst e) d c)" for x using that nodes_occs [of "fst e" d c] by blast
  then show ?thesis by (simp add: filter_mset_eq_conv)
qed

lemma sum_list_empty: "(\<And>e. e \<in> set es \<Longrightarrow> F e = {#}) \<Longrightarrow> (\<Sum>e \<leftarrow> es. F e) = {#}"
  by (induction es) auto

lemma occs_visited:
  assumes "unskipped P n"
  shows "filter_mset (\<lambda>e. P (fst e)) (mset (occs n d c)) \<subseteq># filter_mset (\<lambda>e. P (fst e)) (mset (visits n d c))"
  using assms
proof (induction n arbitrary: d c rule: measure_induct_rule [where f = size])
  case (less n)
  let ?W = "\<lambda>f e. filter_mset (\<lambda>e. P (fst e)) (mset (f (fst e) (d + fst (snd e)) (c \<or> snd (snd e))))"
  have "(\<Sum>e \<leftarrow> edges n. ?W occs e) \<subseteq># (\<Sum>e \<leftarrow> liveChildren n @ skipped n. ?W occs e)"
    by (rule sum_list_mset_mono) (simp add: edges_live)
  also have "\<dots> = (\<Sum>e \<leftarrow> liveChildren n. ?W occs e)"
    using sum_list_empty [of "skipped n" "?W occs"] skipped_none [OF less.prems] by simp
  also have "\<dots> \<subseteq># (\<Sum>e \<leftarrow> liveChildren n. ?W visits e)"
    by (intro sum_list_subset less.IH liveChildren_size unskipped_node [OF less.prems] liveChildren_nodes)
  finally show ?case
    by (simp add: occs.simps [of n] visits.simps [of n] mset_concat_filter)
qed

section \<open>What the state records\<close>

definition readsOf :: "implicitMoveState \<Rightarrow> string \<Rightarrow> Node list" where
  "readsOf s x = (case map_of (reads s) x of Some ids \<Rightarrow> ids | None \<Rightarrow> [])"

definition contrib :: "string \<Rightarrow> edge \<Rightarrow> Node list" where
  "contrib x e = (if asIdent (fst e) = Some x \<and> \<not> snd (snd e) then if fst (snd e) = 0 then [fst e] else [fst e, fst e] else [])"

fun assignedBy :: "Node \<Rightarrow> string option" where
  "assignedBy (NStmt _ (AssignStmt t _)) = asIdent t"
| "assignedBy (NStmt _ (AugAssignStmt t _ _)) = asIdent t"
| "assignedBy (NStmt _ (PostfixStmt e _)) = asIdent e"
| "assignedBy _ = None"

lemma liveVisit_ident: "asIdent m = Some y \<Longrightarrow> liveVisit m d c s = liveIdent m y d c s"
  by (cases m rule: asIdent.cases) (auto simp: liveVisit_def)

lemma liveStmtVisit_eq: "liveStmtVisit st s = (case assignedBy (NStmt p st) of Some x \<Rightarrow> s\<lparr>mutated := List.insert x (mutated s)\<rparr> | None \<Rightarrow> s)"
  by (cases st) (auto simp: addMutated_def)

lemma liveVisit_other:
  assumes "asIdent m = None"
  shows "reads (liveVisit m d c s) = reads s" and "captureNames (liveVisit m d c s) = captureNames s"
    and "set (mutated (liveVisit m d c s)) = set (mutated s) \<union> set_option (assignedBy m)"
proof -
  have "reads (liveVisit m d c s) = reads s \<and> captureNames (liveVisit m d c s) = captureNames s \<and>
      set (mutated (liveVisit m d c s)) = set (mutated s) \<union> set_option (assignedBy m)"
  proof (cases m)
    case (NLeaf p l)
    then show ?thesis using assms by (cases l) (auto simp: liveVisit_def)
  next
    case (NDecl p dd)
    then show ?thesis by (cases dd) (auto simp: liveVisit_def)
  next
    case (NStmt p st)
    then show ?thesis by (auto simp: liveVisit_def liveStmtVisit_eq [of _ _ p] split: option.split)
  qed (auto simp: liveVisit_def)
  then show "reads (liveVisit m d c s) = reads s" "captureNames (liveVisit m d c s) = captureNames s"
    "set (mutated (liveVisit m d c s)) = set (mutated s) \<union> set_option (assignedBy m)" by auto
qed

lemma assignedBy_ident: "asIdent m = Some y \<Longrightarrow> assignedBy m = None"
  by (cases m rule: asIdent.cases) auto

lemma liveVisit_state:
  assumes "x \<noteq> []"
  shows "readsOf (liveVisit m d c s) x = readsOf s x @ contrib x (m, d, c)"
    and "x \<in> set (captureNames (liveVisit m d c s)) \<longleftrightarrow> x \<in> set (captureNames s) \<or> asIdent m = Some x \<and> c"
    and "x \<in> set (mutated (liveVisit m d c s)) \<longleftrightarrow> x \<in> set (mutated s) \<or> assignedBy m = Some x"
    and "distinct (map fst (reads s)) \<Longrightarrow> distinct (map fst (reads (liveVisit m d c s)))"
proof -
  have "readsOf (liveVisit m d c s) x = readsOf s x @ contrib x (m, d, c) \<and>
    (x \<in> set (captureNames (liveVisit m d c s)) \<longleftrightarrow> x \<in> set (captureNames s) \<or> asIdent m = Some x \<and> c) \<and>
    (x \<in> set (mutated (liveVisit m d c s)) \<longleftrightarrow> x \<in> set (mutated s) \<or> assignedBy m = Some x) \<and>
    (distinct (map fst (reads s)) \<longrightarrow> distinct (map fst (reads (liveVisit m d c s))))"
  proof (cases "asIdent m")
    case None
    then show ?thesis using liveVisit_other [OF None] by (auto simp: readsOf_def contrib_def)
  next
    case (Some y)
    then show ?thesis using assms assignedBy_ident [OF Some]
      by (auto simp: liveVisit_ident liveIdent_def addRead_def readsOf_def contrib_def update_conv' distinct_update split: option.split)
  qed
  then show "readsOf (liveVisit m d c s) x = readsOf s x @ contrib x (m, d, c)"
    "x \<in> set (captureNames (liveVisit m d c s)) \<longleftrightarrow> x \<in> set (captureNames s) \<or> asIdent m = Some x \<and> c"
    "x \<in> set (mutated (liveVisit m d c s)) \<longleftrightarrow> x \<in> set (mutated s) \<or> assignedBy m = Some x"
    "distinct (map fst (reads s)) \<Longrightarrow> distinct (map fst (reads (liveVisit m d c s)))" by auto
qed

definition runVisits :: "edge list \<Rightarrow> implicitMoveState \<Rightarrow> implicitMoveState" where
  "runVisits es s = foldl (\<lambda>t e. liveVisit (fst e) (fst (snd e)) (snd (snd e)) t) s es"

lemma runVisits_state:
  assumes "x \<noteq> []" and "distinct (map fst (reads s))"
  shows "readsOf (runVisits es s) x = readsOf s x @ concat (map (contrib x) es) \<and>
    (x \<in> set (captureNames (runVisits es s)) \<longleftrightarrow> x \<in> set (captureNames s) \<or> (\<exists>e \<in> set es. asIdent (fst e) = Some x \<and> snd (snd e))) \<and>
    (x \<in> set (mutated (runVisits es s)) \<longleftrightarrow> x \<in> set (mutated s) \<or> (\<exists>e \<in> set es. assignedBy (fst e) = Some x)) \<and>
    distinct (map fst (reads (runVisits es s)))"
  using assms(2)
proof (induction es arbitrary: s)
  case (Cons e es)
  let ?t = "liveVisit (fst e) (fst (snd e)) (snd (snd e)) s"
  have r: "runVisits (e # es) s = runVisits es ?t" by (simp add: runVisits_def)
  show ?case using Cons.IH [OF liveVisit_state(4) [OF assms(1) Cons.prems], of "fst e" "fst (snd e)" "snd (snd e)"]
    unfolding r liveVisit_state(1-3) [OF assms(1)] by (auto simp del: distinct_map)
qed (simp add: runVisits_def)

lemma reads_named:
  assumes "(x, ids) \<in> set (reads (runVisits es noMoves))"
  shows "x \<noteq> []"
proof -
  have "map_of (reads (runVisits es s)) x \<noteq> None \<Longrightarrow> x \<noteq> [] \<or> map_of (reads s) x \<noteq> None" for s
  proof (induction es arbitrary: s)
    case (Cons e es)
    let ?t = "liveVisit (fst e) (fst (snd e)) (snd (snd e)) s"
    have r: "runVisits (e # es) s = runVisits es ?t" by (simp add: runVisits_def)
    have "x \<noteq> [] \<or> map_of (reads s) x \<noteq> None" if "map_of (reads ?t) x \<noteq> None"
      using that liveVisit_other(1) [of "fst e"]
      by (cases "asIdent (fst e)") (auto simp: liveVisit_ident liveIdent_def addRead_def update_conv' split: if_splits)
    then show ?case using Cons.IH [of ?t] Cons.prems unfolding r by blast
  qed (simp add: runVisits_def)
  from this [of noMoves] show ?thesis using assms weak_map_of_SomeI by (fastforce simp: noMoves_def)
qed

section \<open>Results\<close>

lemma single_contrib:
  assumes "concat (map (contrib x) es) = [i]" and "\<not> (\<exists>e \<in> set es. asIdent (fst e) = Some x \<and> snd (snd e))"
  shows "filter (\<lambda>e. asIdent (fst e) = Some x) es = [(i, 0, False)]"
  using assms
proof (induction es)
  case (Cons e es)
  show ?case
  proof (cases "asIdent (fst e) = Some x")
    case True
    then have c: "contrib x e = [i]" "concat (map (contrib x) es) = []" using Cons.prems by (auto simp: contrib_def split: if_splits)
    have "\<forall>e \<in> set es. contrib x e = []" using c(2) by simp
    then have "filter (\<lambda>e. asIdent (fst e) = Some x) es = []"
      using Cons.prems(2) by (fastforce simp: contrib_def filter_empty_conv split: if_splits)
    moreover have "e = (i, 0, False)" using c(1) True by (cases e) (auto simp: contrib_def split: if_splits)
    ultimately show ?thesis using True by simp
  next
    case False
    then show ?thesis using Cons by (simp add: contrib_def)
  qed
qed simp

lemma assigned_mentions: "assignedBy j = Some x \<Longrightarrow> \<exists>t \<in> nodesOf j. asIdent t = Some x"
proof -
  assume a: "assignedBy j = Some x"
  then have "\<exists>e \<in> set (edges j). asIdent (fst e) = Some x" by (cases j rule: assignedBy.cases) (auto simp: edges_def)
  then show ?thesis using nodesOf_unfold [of j] nodesOf_self by blast
qed

lemma unskipped_assigned: "unskipped (\<lambda>m. asIdent m = Some x) n \<Longrightarrow> unskipped (\<lambda>m. assignedBy m = Some x) n"
  unfolding unskipped_def using assigned_mentions nodesOf_trans by blast

text \<open>C28: an implicit move is a single use.  When \<open>computeImplicitMoveSites\<close> selects an occurrence of \<open>x\<close>, and \<open>x\<close> is not
  mentioned in the parts that the walk skips (initializers, post statements and iterables of loops, patterns and guards of
  a \<open>match\<close>, operands of \<open>++\<close> and \<open>--\<close>), that occurrence is the only one in the body, it is in no loop and in no lambda, spawned or
  deferred body, and \<open>x\<close> is not assigned.\<close>

theorem implicit_move_single_use:
  assumes "i \<in> set (computeImplicitMoveSites body)" and "asIdent i = Some x" and "unskipped (\<lambda>m. asIdent m = Some x) body"
  shows "filter (\<lambda>e. asIdent (fst e) = Some x) (occs body 0 False) = [(i, 0, False)] \<and> (\<forall>m \<in> nodesOf body. assignedBy m \<noteq> Some x)"
proof -
  let ?vs = "visits body 0 False" and ?s = "runVisits (visits body 0 False) noMoves"
  have s: "implicitMoveState_walk body 0 False noMoves = ?s" by (simp add: walk_visits runVisits_def)
  have d0: "distinct (map fst (reads noMoves))" by (simp add: noMoves_def)
  from assms(1) obtain y ids where y: "(y, ids) \<in> set (reads ?s)" "y \<notin> set (captureNames ?s)" "y \<notin> set (mutated ?s)" "ids = [i]"
    unfolding computeImplicitMoveSites_def s by (auto simp: Let_def length_Suc_conv split: if_splits)
  have yn: "y \<noteq> []" by (rule reads_named [OF y(1)])
  note st = runVisits_state [OF yn d0, of ?vs]
  have "readsOf ?s y = [i]" using y(1,4) st by (auto simp: readsOf_def simp del: distinct_map)
  then have c: "concat (map (contrib y) ?vs) = [i]" using st by (simp add: readsOf_def noMoves_def)
  have nc: "\<not> (\<exists>e \<in> set ?vs. asIdent (fst e) = Some y \<and> snd (snd e))" using y(2) st by blast
  note f = single_contrib [OF c nc]
  have "(i, 0, False) \<in> set (filter (\<lambda>e. asIdent (fst e) = Some y) ?vs)" unfolding f by simp
  then have "asIdent i = Some y" and v: "(i, 0, False) \<in> set ?vs" by auto
  with assms(2) have xy: "y = x" by simp
  have "filter_mset (\<lambda>e. asIdent (fst e) = Some x) (mset (occs body 0 False)) \<subseteq># {#(i, 0, False)#}"
    using occs_visited [OF assms(3), of 0 False] f [unfolded xy] by (metis mset_filter mset_single_iff_right)
  moreover have "filter_mset (\<lambda>e. asIdent (fst e) = Some x) (mset (occs body 0 False)) \<noteq> {#}"
  proof -
    have "i \<in> nodesOf body" using v visits_nodes [of body 0 False] by force
    then obtain e where "e \<in> set (occs body 0 False)" "fst e = i" unfolding nodesOf_def by blast
    then show ?thesis using assms(2) by (auto simp: filter_mset_eq_conv)
  qed
  ultimately have "filter (\<lambda>e. asIdent (fst e) = Some x) (occs body 0 False) = [(i, 0, False)]"
    using nonempty_subseteq_mset_eq_single by (metis mset_filter mset_single_iff_right)
  moreover have "assignedBy m \<noteq> Some x" if m: "m \<in> nodesOf body" for m
  proof
    assume a: "assignedBy m = Some x"
    obtain e where "e \<in> set (occs body 0 False)" "fst e = m" using m unfolding nodesOf_def by blast
    then have "e \<in># filter_mset (\<lambda>e. assignedBy (fst e) = Some x) (mset (occs body 0 False))" using a by simp
    then have "e \<in> set ?vs" "assignedBy (fst e) = Some x"
      using mset_subset_eqD [OF occs_visited [OF unskipped_assigned [OF assms(3)], of 0 False]] by auto
    then show False using y(3) st xy by blast
  qed
  ultimately show ?thesis by blast
qed
text \<open>\<open>let x = 1; let y = f(x)\<close>: the argument is a move.\<close>

abbreviation idAt :: "int \<Rightarrow> string \<Rightarrow> Node" where
  "idAt l x \<equiv> NLeaf \<lparr>Line = l, Col = 1\<rparr> (Identifier x)"

abbreviation callAt :: "int \<Rightarrow> string \<Rightarrow> string \<Rightarrow> Node" where
  "callAt l f x \<equiv> NExpr noPos (CallExpr (idAt l f) [] [idAt l x] False)"

abbreviation letCall :: "int \<Rightarrow> string \<Rightarrow> string \<Rightarrow> Node" where
  "letCall l f x \<equiv> NDecl noPos (VarDecl False ''z'' None (Some (callAt l f x)))"

abbreviation letOne :: "string \<Rightarrow> Node" where
  "letOne x \<equiv> NDecl noPos (VarDecl False x None (Some (NLeaf noPos (IntLit 1 None))))"

definition moveBody :: Node where
  "moveBody = NBlock (Block noPos [letOne ''x'', letCall 2 ''f'' ''x''] False)"

lemma moveBody_nodes: "\<forall>m \<in> nodesOf moveBody. skipped m = []"
  by (simp add: moveBody_def nodesOf_unfold [of "NBlock _"] nodesOf_unfold [of "NDecl _ _"] nodesOf_unfold [of "NStmt _ _"]
    nodesOf_unfold [of "NExpr _ _"] nodesOf_unfold [of "NLeaf _ _"] edges_def skipped_def)

theorem implicit_move_single_use_witness:
  "filter (\<lambda>e. asIdent (fst e) = Some ''x'') (occs moveBody 0 False) = [(idAt 2 ''x'', 0, False)] \<and>
   Some ''x'' \<notin> assignedBy ` nodesOf moveBody"
proof -
  have "idAt 2 ''x'' \<in> set (computeImplicitMoveSites moveBody)" by code_simp
  moreover have "unskipped (\<lambda>m. asIdent m = Some ''x'') moveBody" using moveBody_nodes by (simp add: unskipped_def)
  ultimately show ?thesis using implicit_move_single_use [of "idAt 2 ''x''" moveBody "''x''"] by auto
qed


text \<open>A call that is a statement of its own never qualifies: the default case walks the argument once below the statement and once
  below the call, and counts two reads.\<close>

lemma call_statement_not_moved:
  "computeImplicitMoveSites (NBlock (Block noPos [letOne ''x'', NStmt noPos (ExprStmt (callAt 2 ''f'' ''x''))] False)) = []"
  by code_simp

end
