(* ===== verification/TinCycles.thy ===== *)
theory TinCycles
  imports TinAst "HOL-Library.AList"
begin

text \<open>
  Reference cycles between structs (\<^verbatim>\<open>src/codegen/cycles.go\<close>): the graph of struct fields, Tarjan's algorithm for its
  strongly connected components, and the rules for the fields of a cycle.

  A declaration is its name and its fields.  The registries of types are parameters: \<open>aliasTypeFor\<close> gives the type of an alias,
  \<open>structTypeFor\<close> says which names are structs (both include the canonical spelling of the name).  Go ranges over the map of the
  graph in an order it does not fix: \<open>order\<close> is that order, a parameter.  The top of the stack is the head of the list.
\<close>

section \<open>The graph\<close>

record cycleEdge =
  ce_to :: string
  ce_fieldName :: string
  ce_isWeak :: bool
  ce_isOwn :: bool

type_synonym adjacency = "(string \<times> cycleEdge list) list"

definition edgesOf :: "adjacency \<Rightarrow> string \<Rightarrow> cycleEdge list" where
  "edgesOf adj v = (case map_of adj v of Some es \<Rightarrow> es | None \<Rightarrow> [])"

text \<open>Aliases are followed without a guard, so the function need not return: \<open>None\<close> is not returning.\<close>

partial_function (option) structNameFromTinType ::
  "(string \<Rightarrow> TypeExpr option) \<Rightarrow> (string \<Rightarrow> bool) \<Rightarrow> TypeExpr \<Rightarrow> string option" where
  "structNameFromTinType aliasTypeFor structTypeFor t =
     (case t of
        SimpleType name \<Rightarrow>
          (case aliasTypeFor name of
             Some alias \<Rightarrow> structNameFromTinType aliasTypeFor structTypeFor alias
           | None \<Rightarrow> if structTypeFor name then Some name else Some [])
      | ArrayType e _ \<Rightarrow> structNameFromTinType aliasTypeFor structTypeFor e
      | PointerType e _ _ \<Rightarrow> structNameFromTinType aliasTypeFor structTypeFor e
      | _ \<Rightarrow> Some [])"

lemma structNameFromTinType_code [code]:
  "structNameFromTinType al st (SimpleType n) =
     (case al n of Some alias \<Rightarrow> structNameFromTinType al st alias | None \<Rightarrow> if st n then Some n else Some [])"
  "structNameFromTinType al st (ArrayType e i) = structNameFromTinType al st e"
  "structNameFromTinType al st (PointerType e c v) = structNameFromTinType al st e"
  by (subst structNameFromTinType.simps, simp)+

definition fieldTarget :: "(string \<Rightarrow> TypeExpr option) \<Rightarrow> (string \<Rightarrow> bool) \<Rightarrow> StructField \<Rightarrow> string option" where
  "fieldTarget al st f = (case sf_Type f of None \<Rightarrow> Some [] | Some t \<Rightarrow> structNameFromTinType al st t)"

definition fieldEdge :: "StructField \<Rightarrow> string \<Rightarrow> cycleEdge list" where
  "fieldEdge f target =
     (if target = [] then []
      else [\<lparr>ce_to = target, ce_fieldName = sf_Name f, ce_isWeak = sf_IsWeak f, ce_isOwn = sf_IsOwn f\<rparr>])"

definition declEdges :: "(string \<Rightarrow> TypeExpr option) \<Rightarrow> (string \<Rightarrow> bool) \<Rightarrow> StructField list \<Rightarrow> cycleEdge list option" where
  "declEdges al st fs = map_option concat (those (map (\<lambda>f. map_option (fieldEdge f) (fieldTarget al st f)) fs))"

definition addDecl ::
  "(string \<Rightarrow> TypeExpr option) \<Rightarrow> (string \<Rightarrow> bool) \<Rightarrow> adjacency option \<Rightarrow> string \<times> StructField list \<Rightarrow> adjacency option" where
  "addDecl al st adj d =
     (case (adj, declEdges al st (snd d)) of
        (Some a, Some es) \<Rightarrow> Some (AList.update (fst d) (edgesOf a (fst d) @ es) a)
      | _ \<Rightarrow> None)"

definition buildAdjacency ::
  "(string \<Rightarrow> TypeExpr option) \<Rightarrow> (string \<Rightarrow> bool) \<Rightarrow> (string \<times> StructField list) list \<Rightarrow> adjacency option" where
  "buildAdjacency al st decls = foldl (addDecl al st) (Some []) decls"

section \<open>Tarjan's algorithm\<close>

record tarjan =
  t_index :: "string \<rightharpoonup> nat"
  t_lowlink :: "string \<rightharpoonup> nat"
  t_onStack :: "string \<Rightarrow> bool"
  t_stack :: "string list"
  t_idx :: nat
  t_sccs :: "string list list"

definition tarjan0 :: tarjan where
  "tarjan0 = \<lparr>t_index = Map.empty, t_lowlink = Map.empty, t_onStack = (\<lambda>_. False), t_stack = [], t_idx = 0, t_sccs = []\<rparr>"

definition orZero :: "nat option \<Rightarrow> nat" where
  "orZero n = (case n of Some k \<Rightarrow> k | None \<Rightarrow> 0)"

definition enter :: "string \<Rightarrow> tarjan \<Rightarrow> tarjan" where
  "enter v s = s\<lparr>t_index := (t_index s)(v \<mapsto> t_idx s), t_lowlink := (t_lowlink s)(v \<mapsto> t_idx s), t_idx := t_idx s + 1,
                 t_stack := v # t_stack s, t_onStack := (t_onStack s)(v := True)\<rparr>"

definition lower :: "string \<Rightarrow> nat \<Rightarrow> tarjan \<Rightarrow> tarjan" where
  "lower v n s = (if n < orZero (t_lowlink s v) then s\<lparr>t_lowlink := (t_lowlink s)(v \<mapsto> n)\<rparr> else s)"

text \<open>The loop that pops the stack down to \<open>v\<close>; on an empty stack the code would panic.\<close>

fun popUntil :: "string \<Rightarrow> string list \<Rightarrow> (string list \<times> string list) option" where
  "popUntil v [] = None"
| "popUntil v (w # st) = (if w = v then Some ([w], st) else map_option (\<lambda>(scc, st'). (w # scc, st')) (popUntil v st))"

definition finish :: "string \<Rightarrow> tarjan \<Rightarrow> tarjan option" where
  "finish v s =
     (if t_lowlink s v = t_index s v then
        (case popUntil v (t_stack s) of
           None \<Rightarrow> None
         | Some (scc, st) \<Rightarrow> Some (s\<lparr>t_stack := st, t_onStack := (\<lambda>x. x \<notin> set scc \<and> t_onStack s x), t_sccs := t_sccs s @ [scc]\<rparr>))
      else Some s)"

text \<open>The recursion is bounded by fuel; \<open>tarjanSccs\<close> gives one more than the number of names, which is enough.\<close>

fun strongConnect :: "nat \<Rightarrow> adjacency \<Rightarrow> string \<Rightarrow> tarjan \<Rightarrow> tarjan option"
and visitEdges :: "nat \<Rightarrow> adjacency \<Rightarrow> string \<Rightarrow> cycleEdge list \<Rightarrow> tarjan \<Rightarrow> tarjan option" where
  "strongConnect 0 adj v s = None"
| "strongConnect (Suc n) adj v s =
     (case visitEdges n adj v (edgesOf adj v) (enter v s) of None \<Rightarrow> None | Some s' \<Rightarrow> finish v s')"
| "visitEdges n adj v [] s = Some s"
| "visitEdges n adj v (e # es) s =
     (let w = ce_to e in
      if t_index s w = None then
        (case strongConnect n adj w s of
           None \<Rightarrow> None
         | Some s' \<Rightarrow> visitEdges n adj v es (lower v (orZero (t_lowlink s' w)) s'))
      else if t_onStack s w then visitEdges n adj v es (lower v (orZero (t_index s w)) s)
      else visitEdges n adj v es s)"

fun connectAll :: "nat \<Rightarrow> adjacency \<Rightarrow> string list \<Rightarrow> tarjan \<Rightarrow> tarjan option" where
  "connectAll n adj [] s = Some s"
| "connectAll n adj (name # names) s =
     (if t_index s name = None then
        (case strongConnect n adj name s of None \<Rightarrow> None | Some s' \<Rightarrow> connectAll n adj names s')
      else connectAll n adj names s)"

definition allNames :: "adjacency \<Rightarrow> string list" where
  "allNames adj = remdups (map fst adj @ concat (map (\<lambda>(v, es). map ce_to es) adj))"

definition tarjanSccs :: "(string list \<Rightarrow> string list) \<Rightarrow> adjacency \<Rightarrow> string list list option" where
  "tarjanSccs order adj = map_option t_sccs (connectAll (length (allNames adj) + 1) adj (order (map fst adj)) tarjan0)"

section \<open>The rules\<close>

datatype cycleError = NoBreakingField "string list" "(string \<times> string) option" | AllWeak "string list"

definition isCycle :: "adjacency \<Rightarrow> string list \<Rightarrow> bool" where
  "isCycle adj scc \<longleftrightarrow> length scc > 1 \<or> (length scc = 1 \<and> list_ex (\<lambda>e. ce_to e = scc ! 0) (edgesOf adj (scc ! 0)))"

definition innerEdges :: "adjacency \<Rightarrow> string list \<Rightarrow> string \<Rightarrow> cycleEdge list" where
  "innerEdges adj scc n = filter (\<lambda>e. ce_to e \<in> set scc) (edgesOf adj n)"

definition sccEdges :: "adjacency \<Rightarrow> string list \<Rightarrow> cycleEdge list" where
  "sccEdges adj scc = concat (map (innerEdges adj scc) scc)"

definition weakCount :: "cycleEdge list \<Rightarrow> nat" where
  "weakCount es = length (filter ce_isWeak es)"

definition ownCount :: "cycleEdge list \<Rightarrow> nat" where
  "ownCount es = length (filter (\<lambda>e. \<not> ce_isWeak e \<and> ce_isOwn e) es)"

definition strongCount :: "cycleEdge list \<Rightarrow> nat" where
  "strongCount es = length (filter (\<lambda>e. \<not> ce_isWeak e \<and> \<not> ce_isOwn e) es)"

fun suggestion :: "adjacency \<Rightarrow> string list \<Rightarrow> string list \<Rightarrow> (string \<times> string) option" where
  "suggestion adj scc [] = None"
| "suggestion adj scc (n # ns) =
     (case find (\<lambda>e. \<not> ce_isWeak e \<and> \<not> ce_isOwn e \<and> ce_fieldName e \<noteq> []) (innerEdges adj scc n) of
        Some e \<Rightarrow> Some (n, ce_fieldName e)
      | None \<Rightarrow> suggestion adj scc ns)"

definition validateScc :: "adjacency \<Rightarrow> string list \<Rightarrow> cycleError option" where
  "validateScc adj scc =
     (if \<not> isCycle adj scc then None
      else let es = sccEdges adj scc in
        if weakCount es = 0 \<and> ownCount es = 0 then Some (NoBreakingField scc (suggestion adj scc scc))
        else if strongCount es = 0 \<and> ownCount es = 0 then Some (AllWeak scc)
        else None)"

fun firstViolation :: "adjacency \<Rightarrow> string list list \<Rightarrow> cycleError option" where
  "firstViolation adj [] = None"
| "firstViolation adj (scc # sccs) = (case validateScc adj scc of Some e \<Rightarrow> Some e | None \<Rightarrow> firstViolation adj sccs)"

text \<open>\<open>Some None\<close> is \<open>nil\<close>, \<open>Some (Some e)\<close> an error, \<open>None\<close> that the function does not return.\<close>

definition checkStructCycles ::
  "(string list \<Rightarrow> string list) \<Rightarrow> (string \<Rightarrow> TypeExpr option) \<Rightarrow> (string \<Rightarrow> bool) \<Rightarrow> (string \<times> StructField list) list \<Rightarrow> cycleError option option" where
  "checkStructCycles order al st decls =
     (case buildAdjacency al st decls of
        None \<Rightarrow> None
      | Some adj \<Rightarrow> map_option (firstViolation adj) (tarjanSccs order adj))"

definition errorText :: "cycleError \<Rightarrow> string" where
  "errorText e =
     (case e of
        NoBreakingField scc sug \<Rightarrow>
          ''reference cycle detected: '' @ commaJoin '' -> '' scc @ [CHR 0x0A, CHR 0x09] @
          ''at least one field in the cycle must be marked `weak` or `own`'' @
          (case sug of
             None \<Rightarrow> []
           | Some (n, f) \<Rightarrow> [CHR 0x0A, CHR 0x09] @ ''hint: marking '' @ n @ ''.'' @ f @
               '' as `weak` (cycle-breaking, non-owning) or `own` (owning, kept alive while '' @ n @ '' is alive) breaks the cycle'')
      | AllWeak scc \<Rightarrow>
          ''all fields in reference cycle are weak: '' @ commaJoin '' -> '' scc @ [CHR 0x0A, CHR 0x09] @
          ''at least one field in the cycle must be strong (`own` or plain strong)'')"

end
