(* ===== verification/TinCyclesCorrect.thy ===== *)
theory TinCyclesCorrect
  imports TinCycles
begin

text \<open>
  Correctness of the cycle check: the algorithm returns the strongly connected components of the graph of fields, and the check
  reports an error exactly when some component breaks the rules.
\<close>

section \<open>Reachability\<close>

definition edgeRel :: "adjacency \<Rightarrow> (string \<times> string) set" where
  "edgeRel adj = {(a, ce_to e) | a e. e \<in> set (edgesOf adj a)}"

definition sccClass :: "('a \<times> 'a) set \<Rightarrow> 'a \<Rightarrow> 'a set" where
  "sccClass E v = {w. (v, w) \<in> E\<^sup>* \<and> (w, v) \<in> E\<^sup>*}"

lemma exit_edge:
  "(a, b) \<in> E\<^sup>* \<Longrightarrow> a \<in> A \<Longrightarrow> b \<notin> A \<Longrightarrow> \<exists>x y. x \<in> A \<and> y \<notin> A \<and> (x, y) \<in> E \<and> (y, b) \<in> E\<^sup>*"
  by (induction rule: converse_rtrancl_induct) blast+

lemma closed_rtrancl: "(a, b) \<in> E\<^sup>* \<Longrightarrow> a \<in> A \<Longrightarrow> E `` A \<subseteq> A \<Longrightarrow> b \<in> A"
  by (induction rule: rtrancl_induct) blast+

lemma sccClass_cong: "w \<in> sccClass E v \<Longrightarrow> sccClass E w = sccClass E v"
  by (auto simp: sccClass_def)

section \<open>The state of the search\<close>

definition doneNodes :: "tarjan \<Rightarrow> string set" where
  "doneNodes s = \<Union> (set ` set (t_sccs s))"

abbreviation ix :: "tarjan \<Rightarrow> string \<Rightarrow> nat" where
  "ix s x \<equiv> the (t_index s x)"

text \<open>The invariant; \<open>G\<close> are the names whose call of \<open>strongConnect\<close> has not returned.\<close>

definition searching :: "(string \<times> string) set \<Rightarrow> string set \<Rightarrow> tarjan \<Rightarrow> bool" where
  "searching E G s \<longleftrightarrow>
     distinct (t_stack s) \<and> sorted_wrt (\<lambda>x y. ix s y < ix s x) (t_stack s) \<and>
     dom (t_index s) = set (t_stack s) \<union> doneNodes s \<and> set (t_stack s) \<inter> doneNodes s = {} \<and>
     (\<forall>x \<in> dom (t_index s). ix s x < t_idx s) \<and> (\<forall>x. t_onStack s x \<longleftrightarrow> x \<in> set (t_stack s)) \<and>
     (\<forall>c \<in> set (t_sccs s). c \<noteq> [] \<and> distinct c \<and> (\<forall>v \<in> set c. set c = sccClass E v)) \<and>
     E `` doneNodes s \<subseteq> doneNodes s \<and> E `` (dom (t_index s) - G) \<subseteq> dom (t_index s) \<and> G \<subseteq> set (t_stack s) \<and>
     (\<forall>g \<in> G. \<forall>x \<in> set (t_stack s). ix s g \<le> ix s x \<longrightarrow> (g, x) \<in> E\<^sup>*) \<and>
     (\<forall>x \<in> set (t_stack s). \<exists>g \<in> G. (x, g) \<in> E\<^sup>* \<and> ix s g \<le> ix s x)"

lemma searching_lower [simp]: "searching E G (lower v n s) = searching E G s"
  by (simp add: lower_def searching_def doneNodes_def)

lemma searching0: "searching E {} tarjan0"
  by (simp add: searching_def tarjan0_def doneNodes_def)

lemma searchingD:
  assumes "searching E G s"
  shows "distinct (t_stack s)" and "sorted_wrt (\<lambda>x y. ix s y < ix s x) (t_stack s)"
    and "dom (t_index s) = set (t_stack s) \<union> doneNodes s" and "set (t_stack s) \<inter> doneNodes s = {}"
    and "\<And>x. x \<in> dom (t_index s) \<Longrightarrow> ix s x < t_idx s" and "\<And>x. t_onStack s x \<longleftrightarrow> x \<in> set (t_stack s)"
    and "\<And>c. c \<in> set (t_sccs s) \<Longrightarrow> c \<noteq> [] \<and> distinct c \<and> (\<forall>v \<in> set c. set c = sccClass E v)"
    and "E `` doneNodes s \<subseteq> doneNodes s" and "E `` (dom (t_index s) - G) \<subseteq> dom (t_index s)" and "G \<subseteq> set (t_stack s)"
    and "\<And>g x. g \<in> G \<Longrightarrow> x \<in> set (t_stack s) \<Longrightarrow> ix s g \<le> ix s x \<Longrightarrow> (g, x) \<in> E\<^sup>*"
    and "\<And>x. x \<in> set (t_stack s) \<Longrightarrow> \<exists>g \<in> G. (x, g) \<in> E\<^sup>* \<and> ix s g \<le> ix s x"
proof -
  note c = assms [unfolded searching_def]
  show "distinct (t_stack s)" using c by (elim conjE)
  show "sorted_wrt (\<lambda>x y. ix s y < ix s x) (t_stack s)" using c by (elim conjE)
  show "dom (t_index s) = set (t_stack s) \<union> doneNodes s" using c by (elim conjE)
  show "set (t_stack s) \<inter> doneNodes s = {}" using c by (elim conjE)
  show "\<And>x. x \<in> dom (t_index s) \<Longrightarrow> ix s x < t_idx s" using c by (elim conjE) (erule (1) bspec)
  show "\<And>x. t_onStack s x \<longleftrightarrow> x \<in> set (t_stack s)" using c by (elim conjE) (erule spec)
  show "\<And>c. c \<in> set (t_sccs s) \<Longrightarrow> c \<noteq> [] \<and> distinct c \<and> (\<forall>v \<in> set c. set c = sccClass E v)"
    using c by (elim conjE) (erule (1) bspec)
  show "E `` doneNodes s \<subseteq> doneNodes s" using c by (elim conjE)
  show "E `` (dom (t_index s) - G) \<subseteq> dom (t_index s)" using c by (elim conjE)
  show "G \<subseteq> set (t_stack s)" using c by (elim conjE)
  show "\<And>g x. g \<in> G \<Longrightarrow> x \<in> set (t_stack s) \<Longrightarrow> ix s g \<le> ix s x \<Longrightarrow> (g, x) \<in> E\<^sup>*"
    using c by (elim conjE) (drule (1) bspec, drule (1) bspec, erule (1) mp)
  show "\<And>x. x \<in> set (t_stack s) \<Longrightarrow> \<exists>g \<in> G. (x, g) \<in> E\<^sup>* \<and> ix s g \<le> ix s x"
    using c by (elim conjE) (erule (1) bspec)
qed

lemma searching_enter:
  assumes s: "searching E G s" and v: "t_index s v = None" and r: "\<forall>g \<in> G. (g, v) \<in> E\<^sup>*"
  shows "searching E (insert v G) (enter v s)"
proof -
  note d = searchingD [OF s]
  have fresh: "v \<notin> set (t_stack s)" "v \<notin> doneNodes s" "v \<notin> dom (t_index s)" using d(3) v by auto
  have ixe: "ix (enter v s) x = (if x = v then t_idx s else ix s x)" for x by (simp add: enter_def)
  have simps: "t_stack (enter v s) = v # t_stack s" "t_idx (enter v s) = t_idx s + 1" "t_sccs (enter v s) = t_sccs s"
    "doneNodes (enter v s) = doneNodes s" "dom (t_index (enter v s)) = insert v (dom (t_index s))"
    "t_onStack (enter v s) = (t_onStack s)(v := True)"
    by (simp_all add: enter_def doneNodes_def)
  have st: "x \<noteq> v \<and> ix s x < t_idx s" if "x \<in> set (t_stack s)" for x using that fresh d(3,5) by blast
  have g: "g \<noteq> v" if "g \<in> G" for g using that d(10) fresh by blast
  show ?thesis
    unfolding searching_def simps ixe
  proof (intro conjI)
    show "distinct (v # t_stack s)" using d(1) fresh by simp
    have "sorted_wrt (\<lambda>x y. (if y = v then t_idx s else ix s y) < (if x = v then t_idx s else ix s x)) (t_stack s)"
      by (rule sorted_wrt_mono_rel [OF _ d(2)]) (use st in auto)
    then show "sorted_wrt (\<lambda>x y. (if y = v then t_idx s else ix s y) < (if x = v then t_idx s else ix s x)) (v # t_stack s)"
      using st by simp
    show "insert v (dom (t_index s)) = set (v # t_stack s) \<union> doneNodes s" using d(3) by simp
    show "set (v # t_stack s) \<inter> doneNodes s = {}" using d(4) fresh by simp
    show "\<forall>x \<in> insert v (dom (t_index s)). (if x = v then t_idx s else ix s x) < t_idx s + 1" using d(5) less_Suc_eq by auto
    show "\<forall>x. ((t_onStack s)(v := True)) x \<longleftrightarrow> x \<in> set (v # t_stack s)" using d(6) by simp
    show "\<forall>c \<in> set (t_sccs s). c \<noteq> [] \<and> distinct c \<and> (\<forall>v \<in> set c. set c = sccClass E v)" using d(7) by blast
    show "E `` doneNodes s \<subseteq> doneNodes s" by (rule d(8))
    show "E `` (insert v (dom (t_index s)) - insert v G) \<subseteq> insert v (dom (t_index s))" using d(9) by blast
    show "insert v G \<subseteq> set (v # t_stack s)" using d(10) by auto
    show "\<forall>h \<in> insert v G. \<forall>x \<in> set (v # t_stack s).
        (if h = v then t_idx s else ix s h) \<le> (if x = v then t_idx s else ix s x) \<longrightarrow> (h, x) \<in> E\<^sup>*"
      using st g r d(11) by (auto split: if_splits dest: leD)
    show "\<forall>x \<in> set (v # t_stack s). \<exists>h \<in> insert v G. (x, h) \<in> E\<^sup>* \<and>
        (if h = v then t_idx s else ix s h) \<le> (if x = v then t_idx s else ix s x)"
      using st g d(12) by (auto; metis)
  qed
qed

text \<open>The state while the edges of \<open>v\<close> are visited: \<open>S0\<close> is the stack below \<open>v\<close>, \<open>W\<close> are the targets visited so far, and no edge found so far leads
  below the lowlink of \<open>v\<close>.\<close>

definition exploring :: "(string \<times> string) set \<Rightarrow> string set \<Rightarrow> string list \<Rightarrow> string \<Rightarrow> string set \<Rightarrow> tarjan \<Rightarrow> bool" where
  "exploring E G S0 v W s \<longleftrightarrow>
     searching E (insert v G) s \<and> G \<subseteq> set S0 \<and> (\<forall>g \<in> G. (g, v) \<in> E\<^sup>*) \<and>
     (\<exists>new low. t_stack s = new @ v # S0 \<and> t_lowlink s v = Some low \<and> low \<le> ix s v \<and>
        (\<exists>y \<in> set (v # S0). ix s y = low \<and> (v, y) \<in> E\<^sup>*) \<and>
        (\<forall>x \<in> set new. \<forall>y \<in> set S0. (x, y) \<in> E \<longrightarrow> low \<le> ix s y) \<and>
        (\<forall>w \<in> W. w \<in> dom (t_index s) \<and> (w \<in> set S0 \<longrightarrow> low \<le> ix s w)))"

lemma exploringE:
  assumes "exploring E G S0 v W s"
  obtains new low where "searching E (insert v G) s" and "G \<subseteq> set S0" and "\<forall>g \<in> G. (g, v) \<in> E\<^sup>*" and "t_stack s = new @ v # S0"
    and "t_lowlink s v = Some low" and "low \<le> ix s v" and "\<exists>y \<in> set (v # S0). ix s y = low \<and> (v, y) \<in> E\<^sup>*"
    and "\<forall>x \<in> set new. \<forall>y \<in> set S0. (x, y) \<in> E \<longrightarrow> low \<le> ix s y"
    and "\<forall>w \<in> W. w \<in> dom (t_index s) \<and> (w \<in> set S0 \<longrightarrow> low \<le> ix s w)"
  using assms unfolding exploring_def by blast

lemma stack_order:
  assumes "searching E G s" and "t_stack s = new @ v # S0"
  shows "x \<in> set new \<Longrightarrow> ix s v < ix s x" and "y \<in> set S0 \<Longrightarrow> ix s y < ix s v"
    and "v \<notin> set new" and "v \<notin> set S0" and "set new \<inter> set S0 = {}"
  using searchingD(1,2) [OF assms(1)] unfolding assms(2) by (auto simp: sorted_wrt_append)

lemma keep_component:
  assumes s: "searching E (insert v G) s" and st: "t_stack s = new @ v # S0" and G: "G \<subseteq> set S0"
    and y: "y \<in> set S0" "(v, y) \<in> E\<^sup>*" and succ: "E `` {v} \<subseteq> dom (t_index s)"
  shows "searching E G s"
proof -
  note d = searchingD [OF s] and ord = stack_order [OF s st]
  obtain g where g: "g \<in> insert v G" "(y, g) \<in> E\<^sup>*" "ix s g \<le> ix s y" using d(12) [of y] y(1) st by auto
  with ord(2) [OF y(1)] have gG: "g \<in> G" by auto
  have back_to: "\<exists>h \<in> G. (x, h) \<in> E\<^sup>* \<and> ix s h \<le> ix s x" if x: "x \<in> set (t_stack s)" for x
  proof -
    obtain h where h: "h \<in> insert v G" "(x, h) \<in> E\<^sup>*" "ix s h \<le> ix s x" using d(12) [OF x] by blast
    show ?thesis
    proof (cases "h = v")
      case True
      with h y(2) g(2) have "(x, g) \<in> E\<^sup>*" by (meson rtrancl_trans)
      moreover have "ix s g \<le> ix s x" using h(3) True g(3) ord(2) [OF y(1)] by simp
      ultimately show ?thesis using gG by blast
    qed (use h in blast)
  qed
  have blk: "E `` (dom (t_index s) - G) \<subseteq> dom (t_index s)" using d(9) succ by blast
  show ?thesis
    unfolding searching_def using d(1-8,11) blk back_to G st by (intro conjI) auto
qed

lemma pop_component:
  assumes s: "searching E (insert v G) s" and st: "t_stack s = new @ v # S0" and G: "G \<subseteq> set S0"
    and succ: "E `` {v} \<subseteq> dom (t_index s)"
    and low: "\<forall>x \<in> set (new @ [v]). \<forall>y \<in> set S0. (x, y) \<notin> E"
  shows "searching E G (s\<lparr>t_stack := S0, t_onStack := (\<lambda>x. x \<notin> set (new @ [v]) \<and> t_onStack s x), t_sccs := t_sccs s @ [new @ [v]]\<rparr>)"
proof -
  note d = searchingD [OF s] and ord = stack_order [OF s st]
  let ?A = "set (new @ [v])" and ?s = "s\<lparr>t_stack := S0, t_onStack := (\<lambda>x. x \<notin> set (new @ [v]) \<and> t_onStack s x), t_sccs := t_sccs s @ [new @ [v]]\<rparr>"
  have stk: "set (t_stack s) = ?A \<union> set S0" "?A \<inter> set S0 = {}" using st ord by auto
  have dn: "doneNodes ?s = doneNodes s \<union> ?A" by (auto simp: doneNodes_def)
  have exit_done: "y \<in> doneNodes s" if "x \<in> ?A" "(x, y) \<in> E" "y \<notin> ?A" for x y
  proof -
    have "x \<notin> G" if "x \<noteq> v" using G stk(2) \<open>x \<in> ?A\<close> by blast
    then have "y \<in> dom (t_index s)" using that succ d(3,9) stk(1) by (cases "x = v") blast+
    moreover have "y \<notin> set S0" using low that by blast
    ultimately show ?thesis using d(3) stk(1) that(3) by blast
  qed
  have stuck: "y \<in> doneNodes s" if "x \<in> ?A" "(x, y) \<in> E\<^sup>*" "y \<notin> ?A" for x y
    using exit_edge [OF that(2,1,3)] exit_done closed_rtrancl [OF _ _ d(8)] by metis
  have apart: "?A \<inter> doneNodes s = {}" "set S0 \<inter> doneNodes s = {}" using d(4) stk(1) by auto
  have from_v: "(v, x) \<in> E\<^sup>*" if "x \<in> ?A" for x using that d(11) [of v x] ord(1) stk(1) by (auto intro: less_imp_le)
  have to_v: "(x, v) \<in> E\<^sup>*" if x: "x \<in> ?A" for x
  proof -
    obtain g where g: "g \<in> insert v G" "(x, g) \<in> E\<^sup>*" using d(12) [of x] x stk(1) by blast
    have "g \<notin> G" using stuck [OF x g(2)] G stk(2) apart by blast
    with g show ?thesis by blast
  qed
  have cls: "sccClass E v = ?A"
  proof
    show "?A \<subseteq> sccClass E v" using from_v to_v by (auto simp: sccClass_def)
    show "sccClass E v \<subseteq> ?A"
    proof
      fix w assume w: "w \<in> sccClass E v"
      then have "(v, w) \<in> E\<^sup>*" "(w, v) \<in> E\<^sup>*" by (simp_all add: sccClass_def)
      then show "w \<in> ?A" using stuck [of v w] closed_rtrancl [OF _ _ d(8), of w v] apart by auto
    qed
  qed
  have cls': "set (new @ [v]) = sccClass E u" if "u \<in> ?A" for u using sccClass_cong [of u E v] that cls by simp
  show ?thesis
    unfolding searching_def dn
  proof (intro conjI)
    show "distinct (t_stack ?s)" using d(1) st by simp
    show "sorted_wrt (\<lambda>x y. ix ?s y < ix ?s x) (t_stack ?s)" using d(2) st by (simp add: sorted_wrt_append)
    show "dom (t_index ?s) = set (t_stack ?s) \<union> (doneNodes s \<union> ?A)" using d(3) stk(1) by auto
    show "set (t_stack ?s) \<inter> (doneNodes s \<union> ?A) = {}" using apart stk(2) by auto
    show "\<forall>x \<in> dom (t_index ?s). ix ?s x < t_idx ?s" using d(5) by simp
    show "\<forall>x. t_onStack ?s x \<longleftrightarrow> x \<in> set (t_stack ?s)" using d(6) stk by auto
    show "\<forall>c \<in> set (t_sccs ?s). c \<noteq> [] \<and> distinct c \<and> (\<forall>v \<in> set c. set c = sccClass E v)"
      using d(1,7) st cls' by simp
    show "E `` (doneNodes s \<union> ?A) \<subseteq> doneNodes s \<union> ?A" using d(8) exit_done by blast
    show "E `` (dom (t_index ?s) - G) \<subseteq> dom (t_index ?s)" using d(9) succ by auto
    show "G \<subseteq> set (t_stack ?s)" using G by simp
    show "\<forall>g \<in> G. \<forall>x \<in> set (t_stack ?s). ix ?s g \<le> ix ?s x \<longrightarrow> (g, x) \<in> E\<^sup>*" using d(11) stk(1) by simp
    show "\<forall>x \<in> set (t_stack ?s). \<exists>g \<in> G. (x, g) \<in> E\<^sup>* \<and> ix ?s g \<le> ix ?s x"
    proof
      fix x assume x: "x \<in> set (t_stack ?s)"
      then obtain g where "g \<in> insert v G" "(x, g) \<in> E\<^sup>*" "ix s g \<le> ix s x" using d(12) [of x] stk(1) by auto
      moreover have "ix s x < ix s v" using ord(2) x by simp
      ultimately show "\<exists>g \<in> G. (x, g) \<in> E\<^sup>* \<and> ix ?s g \<le> ix ?s x" by auto
    qed
  qed
qed

subsection \<open>One call\<close>

definition connected :: "(string \<times> string) set \<Rightarrow> string \<Rightarrow> tarjan \<Rightarrow> tarjan \<Rightarrow> bool" where
  "connected E v s s' \<longleftrightarrow>
     t_index s \<subseteq>\<^sub>m t_index s' \<and> v \<in> dom (t_index s') \<and> (\<forall>x \<in> dom (t_index s). t_lowlink s' x = t_lowlink s x) \<and>
     (\<exists>new l. t_stack s' = new @ t_stack s \<and> t_lowlink s' v = Some l \<and>
        (t_idx s \<le> l \<or> (\<exists>y \<in> set (t_stack s). ix s y = l \<and> (v, y) \<in> E\<^sup>*)) \<and>
        (\<forall>x \<in> set new. \<forall>y \<in> set (t_stack s). (x, y) \<in> E \<longrightarrow> l \<le> ix s y))"

lemma index_le: "t_index s \<subseteq>\<^sub>m t_index s' \<Longrightarrow> x \<in> dom (t_index s) \<Longrightarrow> t_index s' x = t_index s x"
  by (simp add: map_le_def)

lemma start_exploring:
  assumes "searching E G s" and "t_index s v = None" and "\<forall>g \<in> G. (g, v) \<in> E\<^sup>*"
  shows "exploring E G (t_stack s) v {} (enter v s)"
  unfolding exploring_def using searching_enter [OF assms] searchingD(10) [OF assms(1)] assms(3) by (simp add: enter_def)

lemma popUntil_split: "v \<notin> set new \<Longrightarrow> popUntil v (new @ v # S0) = Some (new @ [v], S0)"
  by (induction new) auto

lemma end_exploring:
  assumes e: "exploring E G S0 v (E `` {v}) s"
  shows "\<exists>s' new low. finish v s = Some s' \<and> searching E G s' \<and> t_index s' = t_index s \<and> t_lowlink s' = t_lowlink s \<and>
    t_stack s' = new @ S0 \<and> t_lowlink s v = Some low \<and> (low = ix s v \<or> (\<exists>y \<in> set S0. ix s y = low \<and> (v, y) \<in> E\<^sup>*)) \<and>
    (\<forall>x \<in> set new. \<forall>y \<in> set S0. (x, y) \<in> E \<longrightarrow> low \<le> ix s y)"
proof -
  from e obtain new low where s: "searching E (insert v G) s" and G: "G \<subseteq> set S0" and st: "t_stack s = new @ v # S0"
      and low: "t_lowlink s v = Some low" "low \<le> ix s v" and y: "\<exists>y \<in> set (v # S0). ix s y = low \<and> (v, y) \<in> E\<^sup>*"
      and new: "\<forall>x \<in> set new. \<forall>y \<in> set S0. (x, y) \<in> E \<longrightarrow> low \<le> ix s y"
      and W: "\<forall>w \<in> E `` {v}. w \<in> dom (t_index s) \<and> (w \<in> set S0 \<longrightarrow> low \<le> ix s w)"
    by (rule exploringE)
  have edges: "\<forall>x \<in> set (new @ [v]). \<forall>y \<in> set S0. (x, y) \<in> E \<longrightarrow> low \<le> ix s y" using new W by auto
  have succ: "E `` {v} \<subseteq> dom (t_index s)" using W by blast
  note ord = stack_order [OF s st]
  have "v \<in> dom (t_index s)" using searchingD(3) [OF s] st by simp
  then have v: "t_index s v = Some (ix s v)" by auto
  show ?thesis
  proof (cases "low = ix s v")
    case True
    have "\<forall>x \<in> set (new @ [v]). \<forall>y \<in> set S0. (x, y) \<notin> E" using edges ord(2) True by (meson leD)
    note p = pop_component [OF s st G succ this]
    have "finish v s = Some (s\<lparr>t_stack := S0, t_onStack := (\<lambda>x. x \<notin> set (new @ [v]) \<and> t_onStack s x), t_sccs := t_sccs s @ [new @ [v]]\<rparr>)"
      using True low(1) v st ord(3) by (simp add: finish_def popUntil_split)
    then show ?thesis using p True low(1)
      by (intro exI [of _ "s\<lparr>t_stack := S0, t_onStack := (\<lambda>x. x \<notin> set (new @ [v]) \<and> t_onStack s x), t_sccs := t_sccs s @ [new @ [v]]\<rparr>"]
        exI [of _ "[]"] exI [of _ low]) simp
  next
    case False
    with y obtain y where y: "y \<in> set S0" "ix s y = low" "(v, y) \<in> E\<^sup>*" by auto
    have "t_lowlink s v \<noteq> t_index s v" using False low(1) v by (metis option.inject)
    then have "finish v s = Some s" by (simp add: finish_def)
    then show ?thesis
      using keep_component [OF s st G y(1,3) succ] low(1) st edges y by (intro exI [of _ s] exI [of _ "new @ [v]"] exI [of _ low]) auto
  qed
qed

lemma lower_simps [simp]:
  "t_index (lower v n s) = t_index s" "t_stack (lower v n s) = t_stack s" "t_lowlink s v = Some l \<Longrightarrow> t_lowlink (lower v n s) v = Some (min l n)"
  "x \<noteq> v \<Longrightarrow> t_lowlink (lower v n s) x = t_lowlink s x" "t_onStack (lower v n s) = t_onStack s"
  by (auto simp: lower_def orZero_def)

lemma visit_new:
  assumes e: "exploring E G S0 v W s" and vw: "(v, w) \<in> E" and w: "t_index s w = None"
    and s': "searching E (insert v G) s'" and c: "connected E w s s'"
  shows "exploring E G S0 v (insert w W) (lower v (orZero (t_lowlink s' w)) s')"
proof -
  from e obtain new low where s: "searching E (insert v G) s" and G: "G \<subseteq> set S0" "\<forall>g \<in> G. (g, v) \<in> E\<^sup>*" and st: "t_stack s = new @ v # S0"
      and low: "t_lowlink s v = Some low" "low \<le> ix s v" and y: "\<exists>y \<in> set (v # S0). ix s y = low \<and> (v, y) \<in> E\<^sup>*"
      and edges: "\<forall>x \<in> set new. \<forall>y \<in> set S0. (x, y) \<in> E \<longrightarrow> low \<le> ix s y"
      and W: "\<forall>w \<in> W. w \<in> dom (t_index s) \<and> (w \<in> set S0 \<longrightarrow> low \<le> ix s w)"
    by (rule exploringE)
  from c obtain new2 l where ext: "t_index s \<subseteq>\<^sub>m t_index s'" and w': "w \<in> dom (t_index s')" and ll: "\<forall>x \<in> dom (t_index s). t_lowlink s' x = t_lowlink s x"
      and st': "t_stack s' = new2 @ t_stack s" and l: "t_lowlink s' w = Some l"
      and ly: "t_idx s \<le> l \<or> (\<exists>y \<in> set (t_stack s). ix s y = l \<and> (w, y) \<in> E\<^sup>*)"
      and edges2: "\<forall>x \<in> set new2. \<forall>y \<in> set (t_stack s). (x, y) \<in> E \<longrightarrow> l \<le> ix s y"
    unfolding connected_def by blast
  note d = searchingD [OF s] and ord = stack_order [OF s st]
  have stk: "set (t_stack s) \<subseteq> dom (t_index s)" "v \<in> dom (t_index s)" "set S0 \<subseteq> set (t_stack s)" using d(3) st by auto
  have ixs: "ix s' x = ix s x" if "x \<in> dom (t_index s)" for x using index_le [OF ext that] by simp
  have lv: "t_lowlink s' v = Some low" using ll stk(2) low(1) by simp
  have y': "\<exists>y \<in> set (v # S0). ix s y = min low l \<and> (v, y) \<in> E\<^sup>*"
  proof (cases "low \<le> l")
    case False
    then have "\<not> t_idx s \<le> l" using d(5) [OF stk(2)] low(2) by simp
    with ly obtain z where z: "z \<in> set (t_stack s)" "ix s z = l" "(w, z) \<in> E\<^sup>*" by blast
    have "z \<in> set S0" using z(1,2) False low(2) ord(1) [of z] st by auto
    then show ?thesis using z vw False by (auto intro: converse_rtrancl_into_rtrancl simp: min_def)
  qed (use y in \<open>simp add: min_def\<close>)
  show ?thesis
    unfolding exploring_def
  proof (intro conjI exI [of _ "new2 @ new"] exI [of _ "min low l"])
    show "t_stack (lower v (orZero (t_lowlink s' w)) s') = (new2 @ new) @ v # S0" using st' st by simp
    show "t_lowlink (lower v (orZero (t_lowlink s' w)) s') v = Some (min low l)" using lv l by (simp add: orZero_def)
    show "min low l \<le> ix (lower v (orZero (t_lowlink s' w)) s') v" using low(2) ixs stk(2) by simp
    show "\<exists>y \<in> set (v # S0). ix (lower v (orZero (t_lowlink s' w)) s') y = min low l \<and> (v, y) \<in> E\<^sup>*"
      using y' ixs stk by (simp add: subset_iff)
    show "\<forall>x \<in> set (new2 @ new). \<forall>y \<in> set S0. (x, y) \<in> E \<longrightarrow> min low l \<le> ix (lower v (orZero (t_lowlink s' w)) s') y"
      using edges edges2 ixs stk by (auto simp: subset_iff min_le_iff_disj)
    show "\<forall>u \<in> insert w W. u \<in> dom (t_index (lower v (orZero (t_lowlink s' w)) s')) \<and>
        (u \<in> set S0 \<longrightarrow> min low l \<le> ix (lower v (orZero (t_lowlink s' w)) s') u)"
    proof
      fix u assume u: "u \<in> insert w W"
      have "w \<notin> set S0" using w stk by auto
      moreover have "dom (t_index s) \<subseteq> dom (t_index s')" by (rule map_le_implies_dom_le [OF ext])
      moreover have "u \<in> dom (t_index s')" using u W w' calculation(2) by blast
      ultimately show "u \<in> dom (t_index (lower v (orZero (t_lowlink s' w)) s')) \<and>
          (u \<in> set S0 \<longrightarrow> min low l \<le> ix (lower v (orZero (t_lowlink s' w)) s') u)"
        using u W ixs [of u] by (cases "u = w") (simp_all add: min_le_iff_disj)
    qed
  qed (use s' G in simp_all)
qed

lemma visit_seen:
  assumes e: "exploring E G S0 v W s" and vw: "(v, w) \<in> E" and w: "t_index s w \<noteq> None"
  shows "exploring E G S0 v (insert w W) (if t_onStack s w then lower v (orZero (t_index s w)) s else s)"
proof -
  from e obtain new low where s: "searching E (insert v G) s" and G: "G \<subseteq> set S0" "\<forall>g \<in> G. (g, v) \<in> E\<^sup>*" and st: "t_stack s = new @ v # S0"
      and low: "t_lowlink s v = Some low" "low \<le> ix s v" and y: "\<exists>y \<in> set (v # S0). ix s y = low \<and> (v, y) \<in> E\<^sup>*"
      and edges: "\<forall>x \<in> set new. \<forall>y \<in> set S0. (x, y) \<in> E \<longrightarrow> low \<le> ix s y"
      and W: "\<forall>w \<in> W. w \<in> dom (t_index s) \<and> (w \<in> set S0 \<longrightarrow> low \<le> ix s w)"
    by (rule exploringE)
  note d = searchingD [OF s] and ord = stack_order [OF s st]
  obtain k where k: "t_index s w = Some k" using w by blast
  show ?thesis
  proof (cases "t_onStack s w")
    case False
    then have "w \<notin> set S0" using d(6) [of w] st by auto
    then show ?thesis using False s G st low y edges W k unfolding exploring_def by auto
  next
    case True
    have y': "\<exists>y \<in> set (v # S0). ix s y = min low k \<and> (v, y) \<in> E\<^sup>*"
    proof (cases "low \<le> k")
      case False
      then have "w \<in> set S0" using True d(6) [of w] st low(2) ord(1) [of w] k by auto
      then show ?thesis using False k vw by (intro bexI [of _ w]) auto
    qed (use y in \<open>simp add: min_def\<close>)
    have "exploring E G S0 v (insert w W) (lower v k s)"
      unfolding exploring_def
      by (intro conjI exI [of _ new] exI [of _ "min low k"]) (use s G st low y' edges W k in \<open>auto simp: min_le_iff_disj\<close>)
    then show ?thesis using True k by (simp add: orZero_def)
  qed
qed

subsection \<open>The recursion\<close>

lemma edgeRelI: "e \<in> set (edgesOf adj v) \<Longrightarrow> (v, ce_to e) \<in> edgeRel adj"
  by (auto simp: edgeRel_def)

lemma edgeRel_image: "edgeRel adj `` {v} = ce_to ` set (edgesOf adj v)"
  by (auto simp: edgeRel_def)

lemma call_correct:
  assumes s: "searching E G s" "t_index s v = None" "\<forall>g \<in> G. (g, v) \<in> E\<^sup>*"
    and x: "exploring E G (t_stack s) v (E `` {v}) s1" "t_index (enter v s) \<subseteq>\<^sub>m t_index s1"
      "\<forall>x \<in> dom (t_index (enter v s)) - {v}. t_lowlink s1 x = t_lowlink (enter v s) x"
  shows "\<exists>s'. finish v s1 = Some s' \<and> searching E G s' \<and> connected E v s s'"
proof -
  from end_exploring [OF x(1)] obtain s' new low where f: "finish v s1 = Some s'" "searching E G s'" "t_index s' = t_index s1"
      "t_lowlink s' = t_lowlink s1" "t_stack s' = new @ t_stack s" "t_lowlink s1 v = Some low"
      and l: "low = ix s1 v \<or> (\<exists>y \<in> set (t_stack s). ix s1 y = low \<and> (v, y) \<in> E\<^sup>*)"
      and e: "\<forall>x \<in> set new. \<forall>y \<in> set (t_stack s). (x, y) \<in> E \<longrightarrow> low \<le> ix s1 y" by blast
  have dome: "dom (t_index (enter v s)) = insert v (dom (t_index s))" by (simp add: enter_def)
  have idx: "t_index s1 x = (if x = v then Some (t_idx s) else t_index s x)" if "x \<in> insert v (dom (t_index s))" for x
    using index_le [OF x(2), of x] that dome by (simp add: enter_def)
  have stk: "x \<in> dom (t_index s) \<and> x \<noteq> v" if "x \<in> set (t_stack s)" for x using that searchingD(3) [OF s(1)] s(2) by auto
  have "connected E v s s'"
    unfolding connected_def f(3,4)
  proof (intro conjI exI [of _ new] exI [of _ low])
    show "t_index s \<subseteq>\<^sub>m t_index s1" using idx s(2) by (auto simp: map_le_def)
    show "v \<in> dom (t_index s1)" using idx [of v] by auto
    show "\<forall>x \<in> dom (t_index s). t_lowlink s1 x = t_lowlink s x" using x(3) dome s(2) by (auto simp: enter_def)
    show "t_idx s \<le> low \<or> (\<exists>y \<in> set (t_stack s). ix s y = low \<and> (v, y) \<in> E\<^sup>*)"
      using l idx stk by (metis insertCI order_refl option.sel)
    show "\<forall>x \<in> set new. \<forall>y \<in> set (t_stack s). (x, y) \<in> E \<longrightarrow> low \<le> ix s y"
      using e idx stk by (metis insertCI)
  qed (use f in simp_all)
  with f show ?thesis by blast
qed

lemma card_fewer: "finite N \<Longrightarrow> A \<subseteq> B \<Longrightarrow> card (N - A) \<le> n \<Longrightarrow> card (N - B) \<le> n"
  by (meson Diff_mono card_mono finite_Diff order_refl order_trans)

lemma search_correct:
  fixes N :: "string set"
  shows "finite N \<Longrightarrow> edgeRel adj `` N \<subseteq> N \<Longrightarrow> searching (edgeRel adj) G s \<Longrightarrow> t_index s v = None \<Longrightarrow>
      \<forall>g \<in> G. (g, v) \<in> (edgeRel adj)\<^sup>* \<Longrightarrow> v \<in> N \<Longrightarrow> card (N - dom (t_index s)) \<le> n \<Longrightarrow>
      \<exists>s'. strongConnect n adj v s = Some s' \<and> searching (edgeRel adj) G s' \<and> connected (edgeRel adj) v s s'"
    and "finite N \<Longrightarrow> edgeRel adj `` N \<subseteq> N \<Longrightarrow> exploring (edgeRel adj) G S0 v W s \<Longrightarrow> \<forall>e \<in> set es. (v, ce_to e) \<in> edgeRel adj \<Longrightarrow> v \<in> N \<Longrightarrow>
      card (N - dom (t_index s)) \<le> n \<Longrightarrow>
      \<exists>s'. visitEdges n adj v es s = Some s' \<and> exploring (edgeRel adj) G S0 v (W \<union> ce_to ` set es) s' \<and>
        t_index s \<subseteq>\<^sub>m t_index s' \<and> (\<forall>x \<in> dom (t_index s) - {v}. t_lowlink s' x = t_lowlink s x)"
proof (induction n adj v s and n adj v es s arbitrary: G and G S0 W rule: strongConnect_visitEdges.induct)
  case (1 adj v s)
  then have "v \<in> N - dom (t_index s)" by auto
  then have "0 < card (N - dom (t_index s))" using 1(1) by (auto simp: card_gt_0_iff)
  with 1(7) show ?case by linarith
next
  case (2 n adj v s)
  have v: "v \<in> N - dom (t_index s)" using 2 by auto
  have "N - dom (t_index (enter v s)) = (N - dom (t_index s)) - {v}" by (auto simp: enter_def)
  then have c: "card (N - dom (t_index (enter v s))) \<le> n" using 2(2,8) v by simp
  have "\<forall>e \<in> set (edgesOf adj v). (v, ce_to e) \<in> edgeRel adj" by (simp add: edgeRelI)
  from 2(1) [OF 2(2,3) start_exploring [OF 2(4-6)] this 2(7) c] obtain s1 where
    s1: "visitEdges n adj v (edgesOf adj v) (enter v s) = Some s1" "exploring (edgeRel adj) G (t_stack s) v (edgeRel adj `` {v}) s1"
      "t_index (enter v s) \<subseteq>\<^sub>m t_index s1" "\<forall>x \<in> dom (t_index (enter v s)) - {v}. t_lowlink s1 x = t_lowlink (enter v s) x"
    by (auto simp: edgeRel_image)
  from call_correct [OF 2(4-6) s1(2-4)] s1(1) show ?case by auto
next
  case (3 n adj v s)
  then show ?case by simp
next
  case (4 n adj v e es s)
  let ?w = "ce_to e"
  have vw: "(v, ?w) \<in> edgeRel adj" and es: "\<forall>e \<in> set es. (v, ce_to e) \<in> edgeRel adj" using "4.prems"(4) by simp_all
  have w: "?w \<in> N" using vw "4.prems"(2,5) by blast
  have W: "insert ?w W \<union> ce_to ` set es = W \<union> ce_to ` set (e # es)" by auto
  show ?case
  proof (cases "t_index s ?w = None")
    case True
    have s: "searching (edgeRel adj) (insert v G) s" and r: "\<forall>g \<in> G. (g, v) \<in> (edgeRel adj)\<^sup>*"
      using "4.prems"(3) by (simp_all add: exploring_def)
    have "\<forall>g \<in> insert v G. (g, ?w) \<in> (edgeRel adj)\<^sup>*" using r vw by (auto intro: rtrancl_into_rtrancl)
    from "4.IH"(1) [OF refl True "4.prems"(1,2) s True this w "4.prems"(6)] obtain s1 where
      s1: "strongConnect n adj ?w s = Some s1" "searching (edgeRel adj) (insert v G) s1" "connected (edgeRel adj) ?w s s1" by blast
    let ?s2 = "lower v (orZero (t_lowlink s1 ?w)) s1"
    have ext: "t_index s \<subseteq>\<^sub>m t_index s1" and ll: "\<forall>x \<in> dom (t_index s). t_lowlink s1 x = t_lowlink s x" using s1(3) by (auto simp: connected_def)
    have dom: "dom (t_index s) \<subseteq> dom (t_index s1)" by (rule map_le_implies_dom_le [OF ext])
    have "card (N - dom (t_index ?s2)) \<le> n" using card_fewer [OF "4.prems"(1) dom "4.prems"(6)] by simp
    from "4.IH"(2) [OF refl True s1(1) "4.prems"(1,2) visit_new [OF "4.prems"(3) vw True s1(2,3)] es "4.prems"(5) this] obtain s3 where
      s3: "visitEdges n adj v es ?s2 = Some s3" "exploring (edgeRel adj) G S0 v (insert ?w W \<union> ce_to ` set es) s3"
        "t_index ?s2 \<subseteq>\<^sub>m t_index s3" "\<forall>x \<in> dom (t_index ?s2) - {v}. t_lowlink s3 x = t_lowlink ?s2 x" by blast
    have "t_index s \<subseteq>\<^sub>m t_index s3" using map_le_trans [OF ext] s3(3) by simp
    moreover have "\<forall>x \<in> dom (t_index s) - {v}. t_lowlink s3 x = t_lowlink s x"
    proof
      fix x assume x: "x \<in> dom (t_index s) - {v}"
      then have "x \<in> dom (t_index ?s2) - {v}" using dom by (simp only: lower_simps) blast
      then show "t_lowlink s3 x = t_lowlink s x" using s3(4) ll x by simp
    qed
    ultimately show ?thesis using True s1(1) s3(1,2) unfolding W by (simp add: Let_def)
  next
    case False
    let ?s2 = "if t_onStack s ?w then lower v (orZero (t_index s ?w)) s else s"
    have idx: "t_index ?s2 = t_index s" by simp
    have ll: "\<forall>x \<in> dom (t_index s) - {v}. t_lowlink ?s2 x = t_lowlink s x" by simp
    have c: "card (N - dom (t_index ?s2)) \<le> n" unfolding idx by (rule "4.prems"(6))
    have "\<exists>s'. visitEdges n adj v es ?s2 = Some s' \<and> exploring (edgeRel adj) G S0 v (insert ?w W \<union> ce_to ` set es) s' \<and>
        t_index ?s2 \<subseteq>\<^sub>m t_index s' \<and> (\<forall>x \<in> dom (t_index ?s2) - {v}. t_lowlink s' x = t_lowlink ?s2 x)"
      using "4.IH"(3) [OF refl False _ "4.prems"(1,2) _ es "4.prems"(5), of G S0 "insert ?w W"]
        "4.IH"(4) [OF refl False _ "4.prems"(1,2) _ es "4.prems"(5), of G S0 "insert ?w W"]
        visit_seen [OF "4.prems"(3) vw False] c by (cases "t_onStack s ?w") simp_all
    then obtain s3 where
      s3: "visitEdges n adj v es ?s2 = Some s3" "exploring (edgeRel adj) G S0 v (insert ?w W \<union> ce_to ` set es) s3"
        "t_index ?s2 \<subseteq>\<^sub>m t_index s3" "\<forall>x \<in> dom (t_index ?s2) - {v}. t_lowlink s3 x = t_lowlink ?s2 x" by blast
    show ?thesis using False s3 ll unfolding W idx by (cases "t_onStack s ?w") (auto simp: Let_def)
  qed
qed

lemma connectAll_correct:
  assumes "finite N" and "edgeRel adj `` N \<subseteq> N"
  shows "searching (edgeRel adj) {} s \<Longrightarrow> set names \<subseteq> N \<Longrightarrow> card (N - dom (t_index s)) \<le> n \<Longrightarrow>
    \<exists>s'. connectAll n adj names s = Some s' \<and> searching (edgeRel adj) {} s' \<and> dom (t_index s) \<union> set names \<subseteq> dom (t_index s')"
proof (induction names arbitrary: s)
  case Nil
  then show ?case by simp
next
  case (Cons v names)
  show ?case
  proof (cases "t_index s v = None")
    case True
    from search_correct(1) [OF assms Cons.prems(1) True _ _ Cons.prems(3)] Cons.prems(2) obtain s1 where
      s1: "strongConnect n adj v s = Some s1" "searching (edgeRel adj) {} s1" "connected (edgeRel adj) v s s1" by auto
    have d: "insert v (dom (t_index s)) \<subseteq> dom (t_index s1)"
      using s1(3) map_le_implies_dom_le [of "t_index s" "t_index s1"] by (auto simp: connected_def)
    have "card (N - dom (t_index s1)) \<le> n" by (rule card_fewer [OF assms(1) _ Cons.prems(3)]) (use d in blast)
    with Cons.IH [OF s1(2)] Cons.prems(2) obtain s2 where s2: "connectAll n adj names s1 = Some s2" "searching (edgeRel adj) {} s2"
      "dom (t_index s1) \<union> set names \<subseteq> dom (t_index s2)" by auto
    have "connectAll n adj (v # names) s = Some s2" using True s1(1) s2(1) by simp
    moreover have "dom (t_index s) \<union> set (v # names) \<subseteq> dom (t_index s2)" using d s2(3) by (simp only: list.set) blast
    ultimately show ?thesis using s2(2) by blast
  next
    case False
    then have v: "v \<in> dom (t_index s)" by blast
    from Cons.IH [OF Cons.prems(1)] Cons.prems(2,3) obtain s2 where s2: "connectAll n adj names s = Some s2"
      "searching (edgeRel adj) {} s2" "dom (t_index s) \<union> set names \<subseteq> dom (t_index s2)" by auto
    have "dom (t_index s) \<union> set (v # names) \<subseteq> dom (t_index s2)" using v s2(3) by (simp only: list.set) blast
    then show ?thesis using False s2(1,2) by (simp only: connectAll.simps if_False) blast
  qed
qed

lemma edges_in_allNames: "(a, b) \<in> edgeRel adj \<Longrightarrow> a \<in> set (map fst adj) \<and> b \<in> set (allNames adj)"
proof (cases "map_of adj a")
  case None
  moreover assume "(a, b) \<in> edgeRel adj"
  ultimately show ?thesis by (simp add: edgeRel_def edgesOf_def)
next
  case (Some es)
  moreover assume "(a, b) \<in> edgeRel adj"
  ultimately have b: "b \<in> ce_to ` set es" by (auto simp: edgeRel_def edgesOf_def)
  have m: "(a, es) \<in> set adj" using Some by (rule map_of_SomeD)
  then have "a \<in> set (map fst adj)" by force
  moreover have "b \<in> set (allNames adj)" using m b unfolding allNames_def by fastforce
  ultimately show ?thesis ..
qed

lemma tarjanSccs_correct:
  assumes o: "set (order (map fst adj)) = set (map fst adj)"
  shows "\<exists>sccs. tarjanSccs order adj = Some sccs \<and> set (map fst adj) \<subseteq> \<Union> (set ` set sccs) \<and>
     (\<forall>c \<in> set sccs. c \<noteq> [] \<and> distinct c \<and> (\<forall>v \<in> set c. set c = sccClass (edgeRel adj) v))"
proof -
  let ?N = "set (allNames adj)"
  have e: "edgeRel adj `` ?N \<subseteq> ?N" using edges_in_allNames by blast
  have n: "set (order (map fst adj)) \<subseteq> ?N" unfolding o by (auto simp: allNames_def)
  have c: "card (?N - dom (t_index tarjan0)) \<le> length (allNames adj) + 1"
    using card_length [of "allNames adj"] by (simp add: tarjan0_def)
  obtain s where s: "connectAll (length (allNames adj) + 1) adj (order (map fst adj)) tarjan0 = Some s"
      "searching (edgeRel adj) {} s" "set (order (map fst adj)) \<subseteq> dom (t_index s)"
    using connectAll_correct [OF finite_set e searching0 n c] by blast
  have "t_stack s = []" using searchingD(12) [OF s(2)] by (cases "t_stack s") auto
  then have "dom (t_index s) = \<Union> (set ` set (t_sccs s))" using searchingD(3) [OF s(2)] by (simp add: doneNodes_def)
  then show ?thesis using s(1,3) searchingD(7) [OF s(2)] unfolding o by (simp add: tarjanSccs_def)
qed

section \<open>The verdict\<close>

text \<open>What the rules need of the components: the interface between the search and the check.\<close>

locale scc_cover =
  fixes E :: "('a \<times> 'a) set" and names :: "'a set" and sccs :: "'a list list"
  assumes component: "c \<in> set sccs \<Longrightarrow> v \<in> set c \<Longrightarrow> set c = sccClass E v"
    and nonempty: "[] \<notin> set sccs"
    and dist: "c \<in> set sccs \<Longrightarrow> distinct c"
    and cover: "names \<subseteq> \<Union> (set ` set sccs)"
begin

lemma cyclic_iff:
  assumes c: "c \<in> set sccs" and v: "v \<in> set c"
  shows "(v, v) \<in> E\<^sup>+ \<longleftrightarrow> length c > 1 \<or> (v, v) \<in> E"
proof
  assume "(v, v) \<in> E\<^sup>+"
  then obtain w where w: "(v, w) \<in> E" "(w, v) \<in> E\<^sup>*" by (meson tranclD)
  then have "w \<in> set c" using component [OF c v] by (auto simp: sccClass_def)
  then show "length c > 1 \<or> (v, v) \<in> E" using w(1) v by (cases "w = v") (cases c; auto)+
next
  assume a: "length c > 1 \<or> (v, v) \<in> E"
  show "(v, v) \<in> E\<^sup>+"
  proof (cases "(v, v) \<in> E")
    case False
    with a obtain x y zs where xy: "c = x # y # zs" by (cases c; cases "tl c") auto
    then have "x \<noteq> y" using dist [OF c] by simp
    then obtain w where "w \<in> set c" "w \<noteq> v" using xy by (cases "x = v") auto
    then have "(v, w) \<in> E\<^sup>+" "(w, v) \<in> E\<^sup>+" using component [OF c v] by (auto simp: sccClass_def rtrancl_eq_or_trancl)
    then show ?thesis by (rule trancl_trans)
  qed blast
qed

lemma component_of: "v \<in> names \<Longrightarrow> \<exists>c \<in> set sccs. v \<in> set c"
  using cover by blast

lemma member: "c \<in> set sccs \<Longrightarrow> \<exists>v. v \<in> set c"
  using nonempty by (cases c) auto

end


lemma tarjanSccs_cover:
  assumes "set (order (map fst adj)) = set (map fst adj)"
  shows "\<exists>sccs. tarjanSccs order adj = Some sccs \<and> scc_cover (edgeRel adj) (set (map fst adj)) sccs"
  using tarjanSccs_correct [where order = order and adj = adj, OF assms] by (auto simp: scc_cover_def)

interpretation structs: scc_cover "edgeRel adj" "set (map fst adj)" "the (tarjanSccs id adj)" for adj
  using tarjanSccs_cover [of id adj] by auto

section \<open>The graph of the declarations\<close>

definition fieldRef ::
  "(string \<Rightarrow> TypeExpr option) \<Rightarrow> (string \<Rightarrow> bool) \<Rightarrow> (string \<times> StructField list) list \<Rightarrow> string \<Rightarrow> cycleEdge \<Rightarrow> bool" where
  "fieldRef al st decls n e \<longleftrightarrow>
     (\<exists>fs f. (n, fs) \<in> set decls \<and> f \<in> set fs \<and> fieldTarget al st f = Some (ce_to e) \<and> ce_to e \<noteq> [] \<and>
             ce_fieldName e = sf_Name f \<and> ce_isWeak e = sf_IsWeak f \<and> ce_isOwn e = sf_IsOwn f)"

definition fieldGraph ::
  "(string \<Rightarrow> TypeExpr option) \<Rightarrow> (string \<Rightarrow> bool) \<Rightarrow> (string \<times> StructField list) list \<Rightarrow> (string \<times> string) set" where
  "fieldGraph al st decls = {(n, ce_to e) | n e. fieldRef al st decls n e}"

definition resolvable :: "(string \<Rightarrow> TypeExpr option) \<Rightarrow> (string \<Rightarrow> bool) \<Rightarrow> (string \<times> StructField list) list \<Rightarrow> bool" where
  "resolvable al st decls \<longleftrightarrow> (\<forall>(n, fs) \<in> set decls. \<forall>f \<in> set fs. fieldTarget al st f \<noteq> None)"

lemma those_map: "those (map g xs) = (if \<forall>x \<in> set xs. g x \<noteq> None then Some (map (the \<circ> g) xs) else None)"
  by (induction xs) (auto split: option.splits)

lemma declEdges_Some:
  "\<forall>f \<in> set fs. fieldTarget al st f \<noteq> None \<Longrightarrow>
   declEdges al st fs = Some (concat (map (\<lambda>f. fieldEdge f (the (fieldTarget al st f))) fs))"
proof -
  assume a: "\<forall>f \<in> set fs. fieldTarget al st f \<noteq> None"
  then have "map (the \<circ> (\<lambda>f. map_option (fieldEdge f) (fieldTarget al st f))) fs = map (\<lambda>f. fieldEdge f (the (fieldTarget al st f))) fs"
    by (auto simp: option.map_sel)
  then have m: "concat (map (the \<circ> (\<lambda>f. map_option (fieldEdge f) (fieldTarget al st f))) fs) =
      concat (map (\<lambda>f. fieldEdge f (the (fieldTarget al st f))) fs)" by (rule arg_cong)
  have "\<forall>f \<in> set fs. map_option (fieldEdge f) (fieldTarget al st f) \<noteq> None" using a by simp
  then show ?thesis unfolding declEdges_def those_map by (simp add: m del: map_eq_conv not_None_eq)
qed

lemma declEdges_mem:
  assumes "\<forall>f \<in> set fs. fieldTarget al st f \<noteq> None"
  shows "\<exists>es. declEdges al st fs = Some es \<and> (\<forall>e. e \<in> set es \<longleftrightarrow> fieldRef al st [(n, fs)] n e)"
proof -
  have "fieldRef al st [(n, fs)] n e \<longleftrightarrow> (\<exists>f \<in> set fs. e \<in> set (fieldEdge f (the (fieldTarget al st f))))" for e
  proof -
    have "e \<in> set (fieldEdge f (the (fieldTarget al st f))) \<longleftrightarrow>
        fieldTarget al st f = Some (ce_to e) \<and> ce_to e \<noteq> [] \<and>
        ce_fieldName e = sf_Name f \<and> ce_isWeak e = sf_IsWeak f \<and> ce_isOwn e = sf_IsOwn f" if "f \<in> set fs" for f
      using bspec [OF assms that] by (cases e) (auto simp: fieldEdge_def)
    then show ?thesis by (auto simp: fieldRef_def)
  qed
  then show ?thesis using declEdges_Some [OF assms] by simp
qed

lemma edgesOf_update: "edgesOf (AList.update k es a) n = (if n = k then es else edgesOf a n)"
  by (simp add: edgesOf_def update_conv')

lemma buildAdjacency_snoc: "buildAdjacency al st (ds @ [d]) = addDecl al st (buildAdjacency al st ds) d"
  by (simp add: buildAdjacency_def)

lemma buildAdjacency_edges:
  "resolvable al st decls \<Longrightarrow>
   \<exists>adj. buildAdjacency al st decls = Some adj \<and> set (map fst adj) = fst ` set decls \<and>
         (\<forall>n e. e \<in> set (edgesOf adj n) \<longleftrightarrow> fieldRef al st decls n e)"
proof (induction decls rule: rev_induct)
  case Nil
  then show ?case by (simp add: buildAdjacency_def edgesOf_def fieldRef_def)
next
  case (snoc d ds)
  obtain k fs where d: "d = (k, fs)" by (cases d)
  have r: "resolvable al st ds" "\<forall>f \<in> set fs. fieldTarget al st f \<noteq> None" using snoc.prems d by (auto simp: resolvable_def)
  obtain a where a: "buildAdjacency al st ds = Some a" "set (map fst a) = fst ` set ds"
    "\<And>n e. e \<in> set (edgesOf a n) \<longleftrightarrow> fieldRef al st ds n e" using snoc.IH [OF r(1)] by blast
  obtain es where es: "declEdges al st fs = Some es" "\<And>e. e \<in> set es \<longleftrightarrow> fieldRef al st [(k, fs)] k e"
    using declEdges_mem [OF r(2), of k] by blast
  have "fieldRef al st (ds @ [d]) n e \<longleftrightarrow> fieldRef al st ds n e \<or> n = k \<and> fieldRef al st [(k, fs)] k e" for n e
    unfolding fieldRef_def d by auto
  then have "e \<in> set (edgesOf (AList.update k (edgesOf a k @ es) a) n) \<longleftrightarrow> fieldRef al st (ds @ [d]) n e" for n e
    by (auto simp: edgesOf_update a(3) es(2))
  moreover have "set (map fst (AList.update k (edgesOf a k @ es) a)) = fst ` set (ds @ [d])"
    using a(2) by (simp add: dom_update d)
  ultimately show ?case using a(1) es(1) by (simp add: buildAdjacency_snoc addDecl_def d)
qed

lemma addDecl_None: "foldl (addDecl al st) None decls = None"
  by (induction decls) (simp_all add: addDecl_def)

section \<open>The rules, on the graph\<close>

definition cycleFields ::
  "(string \<Rightarrow> TypeExpr option) \<Rightarrow> (string \<Rightarrow> bool) \<Rightarrow> (string \<times> StructField list) list \<Rightarrow> string \<Rightarrow> cycleEdge set" where
  "cycleFields al st decls a =
     {e. \<exists>n \<in> sccClass (fieldGraph al st decls) a. fieldRef al st decls n e \<and> ce_to e \<in> sccClass (fieldGraph al st decls) a}"

definition ownerless ::
  "(string \<Rightarrow> TypeExpr option) \<Rightarrow> (string \<Rightarrow> bool) \<Rightarrow> (string \<times> StructField list) list \<Rightarrow> string \<Rightarrow> bool" where
  "ownerless al st decls a \<longleftrightarrow> (a, a) \<in> (fieldGraph al st decls)\<^sup>+ \<and> (\<forall>e \<in> cycleFields al st decls a. ce_isWeak e)"

definition leaking ::
  "(string \<Rightarrow> TypeExpr option) \<Rightarrow> (string \<Rightarrow> bool) \<Rightarrow> (string \<times> StructField list) list \<Rightarrow> string \<Rightarrow> bool" where
  "leaking al st decls a \<longleftrightarrow>
     (a, a) \<in> (fieldGraph al st decls)\<^sup>+ \<and> (\<forall>e \<in> cycleFields al st decls a. \<not> ce_isWeak e \<and> \<not> ce_isOwn e)"

lemma counts:
  "weakCount es = 0 \<longleftrightarrow> (\<forall>e \<in> set es. \<not> ce_isWeak e)" "ownCount es = 0 \<longleftrightarrow> (\<forall>e \<in> set es. ce_isWeak e \<or> \<not> ce_isOwn e)"
  "strongCount es = 0 \<longleftrightarrow> (\<forall>e \<in> set es. ce_isWeak e \<or> ce_isOwn e)"
  by (auto simp: weakCount_def ownCount_def strongCount_def filter_empty_conv)

lemma isCycle_iff:
  assumes "scc_cover (edgeRel adj) N sccs" and "c \<in> set sccs" and "v \<in> set c"
  shows "isCycle adj c \<longleftrightarrow> (v, v) \<in> (edgeRel adj)\<^sup>+"
proof -
  have "isCycle adj c \<longleftrightarrow> length c > 1 \<or> (v, v) \<in> edgeRel adj"
    using assms(3) by (cases c; cases "tl c") (auto simp: isCycle_def edgeRel_def list_ex_iff)
  then show ?thesis using scc_cover.cyclic_iff [OF assms] by simp
qed

lemma firstViolation_cases:
  "(firstViolation adj sccs = None \<longleftrightarrow> (\<forall>c \<in> set sccs. validateScc adj c = None)) \<and>
   (\<forall>e. firstViolation adj sccs = Some e \<longrightarrow> (\<exists>c \<in> set sccs. validateScc adj c = Some e))"
  by (induction sccs) (auto split: option.splits)

definition reported :: "cycleError \<Rightarrow> string list" where
  "reported e = (case e of NoBreakingField scc _ \<Rightarrow> scc | AllWeak scc \<Rightarrow> scc)"

lemma validateScc_iff:
  assumes adj: "\<forall>n e. e \<in> set (edgesOf adj n) \<longleftrightarrow> fieldRef al st decls n e"
    and cover: "scc_cover (edgeRel adj) N sccs" and c: "c \<in> set sccs" and v: "v \<in> set c"
  shows "validateScc adj c =
    (if leaking al st decls v then Some (NoBreakingField c (suggestion adj c c))
     else if ownerless al st decls v then Some (AllWeak c) else None)"
proof -
  have E: "edgeRel adj = fieldGraph al st decls" using adj by (auto simp: edgeRel_def fieldGraph_def)
  have cls: "set c = sccClass (fieldGraph al st decls) v" using scc_cover.component [OF cover c v] E by simp
  have es: "set (sccEdges adj c) = cycleFields al st decls v"
    using adj cls by (auto simp: sccEdges_def innerEdges_def cycleFields_def)
  show ?thesis
    unfolding validateScc_def Let_def isCycle_iff [OF cover c v] counts es leaking_def ownerless_def E by auto
qed

definition pointerField :: "string \<Rightarrow> string \<Rightarrow> bool \<Rightarrow> StructField" where
  "pointerField n t weak =
     \<lparr>sf_Pos = noPos, sf_Name = n, sf_Type = Some (PointerType (SimpleType t) False False), sf_Tags = [], sf_IsForward = False,
      sf_IsWeak = weak, sf_IsOwn = False, sf_IsConst = False, sf_IsVar = False\<rparr>"

definition parentChild :: "(string \<times> StructField list) list" where
  "parentChild = [(''Parent'', [pointerField ''child'' ''Child'' False]), (''Child'', [pointerField ''parent'' ''Parent'' True])]"

text \<open>
  C34: When every field's type resolves, \<open>checkStructCycles\<close> returns, whatever the order in which Go ranges over the graph.  It returns
  \<open>nil\<close> exactly when no struct lies on a cycle whose component has only plain strong fields or only weak fields, and the structs of
  a reported error are such a component.
\<close>

theorem checkStructCycles_exact:
  assumes r: "resolvable al st decls" and o: "\<forall>names. set (order names) = set names"
  shows "\<exists>verdict. checkStructCycles order al st decls = Some verdict \<and>
    (verdict = None \<longleftrightarrow> (\<nexists>a. leaking al st decls a \<or> ownerless al st decls a)) \<and>
    (\<forall>scc sug. verdict = Some (NoBreakingField scc sug) \<longrightarrow>
       (\<exists>a. set scc = sccClass (fieldGraph al st decls) a \<and> leaking al st decls a)) \<and>
    (\<forall>scc. verdict = Some (AllWeak scc) \<longrightarrow>
       (\<exists>a. set scc = sccClass (fieldGraph al st decls) a \<and> ownerless al st decls a \<and> \<not> leaking al st decls a))"
proof -
  obtain adj where adj: "buildAdjacency al st decls = Some adj" "set (map fst adj) = fst ` set decls"
    "\<forall>n e. e \<in> set (edgesOf adj n) \<longleftrightarrow> fieldRef al st decls n e" using buildAdjacency_edges [OF r] by blast
  obtain sccs where s: "tarjanSccs order adj = Some sccs" and cover: "scc_cover (edgeRel adj) (set (map fst adj)) sccs"
    using tarjanSccs_cover [of order adj] o by blast
  have E: "edgeRel adj = fieldGraph al st decls" using adj(3) by (auto simp: edgeRel_def fieldGraph_def)
  note cls = scc_cover.component [OF cover, unfolded E] and v = validateScc_iff [OF adj(3) cover]
    and m = scc_cover.member [OF cover]
  have named: "a \<in> set (map fst adj)" if "leaking al st decls a \<or> ownerless al st decls a" for a
  proof -
    have "(a, a) \<in> (edgeRel adj)\<^sup>+" using that by (auto simp: leaking_def ownerless_def E)
    then show ?thesis by (meson edges_in_allNames tranclD)
  qed
  have None: "firstViolation adj sccs = None \<longleftrightarrow> (\<nexists>a. leaking al st decls a \<or> ownerless al st decls a)"
    using firstViolation_cases [of adj sccs] v m scc_cover.component_of [OF cover] named
    by (metis option.distinct(1))
  have Some: "\<exists>a. set (reported e) = sccClass (fieldGraph al st decls) a \<and>
      (case e of NoBreakingField _ _ \<Rightarrow> leaking al st decls a | AllWeak _ \<Rightarrow> ownerless al st decls a \<and> \<not> leaking al st decls a)"
    if fv: "firstViolation adj sccs = Some e" for e
  proof -
    obtain c where "c \<in> set sccs" "validateScc adj c = Some e" using fv firstViolation_cases [of adj sccs] by blast
    moreover from this(1) obtain a where "a \<in> set c" using m by blast
    ultimately have c: "c \<in> set sccs" "validateScc adj c = Some e" "a \<in> set c" .
    then show ?thesis using v [OF c(1,3)] cls [OF c(1,3)] by (auto simp: reported_def split: if_splits)
  qed
  show ?thesis using None Some by (fastforce simp: checkStructCycles_def adj(1) s reported_def)
qed

theorem checkStructCycles_exact_witness:
  "resolvable (\<lambda>_. None) (\<lambda>_. True) parentChild \<and> checkStructCycles rev (\<lambda>_. None) (\<lambda>_. True) parentChild = Some None \<and>
   (\<nexists>a. leaking (\<lambda>_. None) (\<lambda>_. True) parentChild a \<or> ownerless (\<lambda>_. None) (\<lambda>_. True) parentChild a)"
proof -
  have r: "resolvable (\<lambda>_. None) (\<lambda>_. True) parentChild"
    by (simp add: resolvable_def parentChild_def fieldTarget_def pointerField_def structNameFromTinType.simps)
  have e: "checkStructCycles rev (\<lambda>_. None) (\<lambda>_. True) parentChild = Some None" by code_simp
  from checkStructCycles_exact [OF r, of rev] e r show ?thesis by auto
qed

section \<open>Behaviour worth knowing\<close>

text \<open>An alias that leads to itself is followed for ever.\<close>

lemma structNameFromTinType_loops: "al n = Some (SimpleType n) \<Longrightarrow> structNameFromTinType al st (SimpleType n) = None"
proof -
  assume a: "al n = Some (SimpleType n)"
  have "a = al \<longrightarrow> t \<noteq> SimpleType n" if "structNameFromTinType a st t = Some r" for a t r
    using structNameFromTinType.raw_induct [OF _ that, of "\<lambda>a _ t _. a = al \<longrightarrow> t \<noteq> SimpleType n"] \<open>al n = Some (SimpleType n)\<close>
    by (fastforce split: TypeExpr.splits option.splits)
  then show ?thesis by (metis not_None_eq)
qed

text \<open>
  The rules are read per component, not per cycle: two structs that own each other are accepted as soon as a weak field elsewhere
  ties a third one into their component.
\<close>

lemma strong_pair_accepted:
  "checkStructCycles id (\<lambda>_. None) (\<lambda>_. True)
     [(''A'', [pointerField ''b'' ''B'' False, pointerField ''c'' ''C'' True]), (''B'', [pointerField ''a'' ''A'' False]),
      (''C'', [pointerField ''a'' ''A'' False])] = Some None"
  "checkStructCycles id (\<lambda>_. None) (\<lambda>_. True)
     [(''A'', [pointerField ''b'' ''B'' False]), (''B'', [pointerField ''a'' ''A'' False])] =
   Some (Some (NoBreakingField [''B'', ''A''] (Some (''B'', ''a''))))"
  by code_simp+

end
