(* ===== verification/TinParser.thy ===== *)
theory TinParser
  imports TinLexer TinAst
begin

text \<open>
  The parser's state and navigation (\<^verbatim>\<open>src/parser/parser.go\<close>).

  A method of \<open>Parser\<close> is a function from the state before the call to a \<open>presult\<close>: a value and the state after the call, an error
  and the state it leaves (callers that ignore an error continue from it), or \<open>PDiverge\<close> when the call has not returned within the
  fuel.  Tests such as \<open>p.check\<close> are functions of the state, \<open>p.advance\<close> is \<open>advanceP\<close> and the token it returns \<open>peekP\<close> of the
  state before.  The names that the lexer uses too end in \<open>P\<close>.

  An error keeps the format string and the arguments of \<open>fmt.Errorf\<close>.  A \<open>for\<close> loop that only skips tokens is written in closed
  form, any other loop is \<open>loopP\<close> with fuel.
\<close>

section \<open>The state\<close>

record Parser =
  ps_tokens :: "Token list"
  ps_pos :: nat
  ps_file :: string
  ps_warnings :: "string list"
  ps_noParensMacros :: "string \<rightharpoonup> string"
  ps_noWarnAwaitMatchGuards :: bool
  ps_continuationDedents :: int
  ps_suppressPostfixCast :: int
  ps_pendingLambdaDedents :: int
  ps_blockDepth :: int

datatype parse_error =
    ErrAt string int int string "string list"
  | ErrPlain string "string list"
  | ErrLexer string "string list" lex_error
  | ErrParser string "string list" parse_error

datatype 'a presult = POk 'a Parser | PErr parse_error Parser | PDiverge

type_synonym 'a parser = "Parser \<Rightarrow> 'a presult"

definition returnP :: "'a \<Rightarrow> 'a parser" where
  "returnP x s = POk x s"

definition divergeP :: "'a parser" where
  "divergeP s = PDiverge"

definition bindP :: "'a parser \<Rightarrow> ('a \<Rightarrow> 'b parser) \<Rightarrow> 'b parser" where
  "bindP f g s = (case f s of POk x s' \<Rightarrow> g x s' | PErr e s' \<Rightarrow> PErr e s' | PDiverge \<Rightarrow> PDiverge)"

text \<open>A loop whose body returns \<open>Inl\<close> to continue and \<open>Inr\<close> to leave it.\<close>

fun loopP :: "nat \<Rightarrow> ('a \<Rightarrow> ('a + 'b) parser) \<Rightarrow> 'a \<Rightarrow> 'b parser" where
  "loopP 0 body acc s = PDiverge"
| "loopP (Suc n) body acc s =
     (case body acc s of
        POk (Inl acc') s' \<Rightarrow> loopP n body acc' s'
      | POk (Inr r) s' \<Rightarrow> POk r s'
      | PErr e s' \<Rightarrow> PErr e s'
      | PDiverge \<Rightarrow> PDiverge)"

section \<open>Tokens\<close>

definition eofToken :: Token where
  "eofToken = \<lparr>tok_Type = EOF, tok_Literal = [], tok_Line = 0, tok_Col = 0\<rparr>"

definition peekAtP :: "nat \<Rightarrow> Parser \<Rightarrow> Token" where
  "peekAtP offset s =
     (let i = ps_pos s + offset in if i \<ge> length (ps_tokens s) then eofToken else ps_tokens s ! i)"

definition peekP :: "Parser \<Rightarrow> Token" where
  "peekP s = (if ps_pos s \<ge> length (ps_tokens s) then eofToken else ps_tokens s ! ps_pos s)"

definition advanceP :: "Parser \<Rightarrow> Parser" where
  "advanceP s = (if ps_pos s < length (ps_tokens s) then s\<lparr>ps_pos := ps_pos s + 1\<rparr> else s)"

definition checkP :: "TokenType \<Rightarrow> Parser \<Rightarrow> bool" where
  "checkP t s \<longleftrightarrow> tok_Type (peekP s) = t"

definition matchP :: "TokenType list \<Rightarrow> Parser \<Rightarrow> bool" where
  "matchP ts s \<longleftrightarrow> tok_Type (peekP s) \<in> set ts"

definition nextIs :: "nat \<Rightarrow> TokenType \<Rightarrow> Parser \<Rightarrow> bool" where
  "nextIs offset t s \<longleftrightarrow> tok_Type (peekAtP offset s) = t"

definition litIs :: "string \<Rightarrow> Parser \<Rightarrow> bool" where
  "litIs l s \<longleftrightarrow> tok_Literal (peekP s) = l"

definition tokPos :: "Token \<Rightarrow> Pos" where
  "tokPos t = \<lparr>Line = tok_Line t, Col = tok_Col t\<rparr>"

definition curPos :: "Parser \<Rightarrow> Pos" where
  "curPos s = tokPos (peekP s)"

text \<open>\<open>if p.check(t) { p.advance() }\<close>, and \<open>for p.match(ts...) { p.advance() }\<close>.\<close>

definition skipTok :: "TokenType \<Rightarrow> Parser \<Rightarrow> Parser" where
  "skipTok t s = (if checkP t s then advanceP s else s)"

definition skipAll :: "TokenType list \<Rightarrow> Parser \<Rightarrow> Parser" where
  "skipAll ts s =
     s\<lparr>ps_pos := ps_pos s + length (takeWhile (\<lambda>t. tok_Type t \<in> set ts) (drop (ps_pos s) (ps_tokens s)))\<rparr>"

text \<open>\<open>for n > 0 && p.check(lexer.DEDENT) { p.advance(); n-- }\<close>: how often the loop runs.\<close>

definition owedDedents :: "int \<Rightarrow> Parser \<Rightarrow> nat" where
  "owedDedents n s = min (nat n) (length (takeWhile (\<lambda>t. tok_Type t = DEDENT) (drop (ps_pos s) (ps_tokens s))))"

definition drainDedents :: "int \<Rightarrow> Parser \<Rightarrow> Parser" where
  "drainDedents n s = s\<lparr>ps_pos := ps_pos s + owedDedents n s\<rparr>"

definition drainContinuation :: "Parser \<Rightarrow> Parser" where
  "drainContinuation s =
     (drainDedents (ps_continuationDedents s) s)
       \<lparr>ps_continuationDedents := ps_continuationDedents s - int (owedDedents (ps_continuationDedents s) s)\<rparr>"

definition drainLambda :: "Parser \<Rightarrow> Parser" where
  "drainLambda s =
     (drainDedents (ps_pendingLambdaDedents s) s)
       \<lparr>ps_pendingLambdaDedents := ps_pendingLambdaDedents s - int (owedDedents (ps_pendingLambdaDedents s) s)\<rparr>"

definition skipNewlines :: "Parser \<Rightarrow> Parser" where
  "skipNewlines s = drainLambda (drainContinuation (skipAll [NEWLINE] s))"

definition skipSemisAndNewlines :: "Parser \<Rightarrow> Parser" where
  "skipSemisAndNewlines s = drainLambda (drainContinuation (skipAll [NEWLINE, SEMI] s))"

definition skipWhitespace :: "Parser \<Rightarrow> Parser" where
  "skipWhitespace s = skipAll [NEWLINE, INDENT, DEDENT] s"

text \<open>The end of a continuation that entered \<open>n\<close> indented lines: an optional newline, then the dedents.\<close>

definition closeIndents :: "int \<Rightarrow> Parser \<Rightarrow> Parser" where
  "closeIndents n s = drainDedents n (if n > 0 then skipTok NEWLINE s else s)"

section \<open>Errors and warnings\<close>

definition errAt :: "int \<Rightarrow> int \<Rightarrow> string \<Rightarrow> string list \<Rightarrow> 'a parser" where
  "errAt l c format args s = PErr (ErrAt (ps_file s) l c format args) s"

definition errAtTok :: "Token \<Rightarrow> string \<Rightarrow> string list \<Rightarrow> 'a parser" where
  "errAtTok t format args s = errAt (tok_Line t) (tok_Col t) format args s"

definition errorf :: "string \<Rightarrow> string list \<Rightarrow> 'a parser" where
  "errorf format args s = errAtTok (peekP s) format args s"

definition errPlain :: "string \<Rightarrow> string list \<Rightarrow> 'a parser" where
  "errPlain format args s = PErr (ErrPlain format args) s"

definition warnAt :: "int \<Rightarrow> int \<Rightarrow> string \<Rightarrow> string \<Rightarrow> Parser \<Rightarrow> Parser" where
  "warnAt l c name body s =
     s\<lparr>ps_warnings := ps_warnings s @
       [ps_file s @ '':'' @ sprintf_d l @ '':'' @ sprintf_d c @ '': warning: '' @ body @ '' [-W'' @ name @ '']'']\<rparr>"

definition expectP :: "TokenType \<Rightarrow> Token parser" where
  "expectP t s =
     (let tok = peekP s in
      if tok_Type tok \<noteq> t then
        errAtTok tok ''expected %s, got %s (%q)'' [TokenType_String t, TokenType_String (tok_Type tok), tok_Literal tok] s
      else POk tok (advanceP s))"

section \<open>Decoding of UTF-8\<close>

text \<open>The conversion \<open>[]rune(s)\<close>: a byte that does not start a valid encoding becomes U+FFFD and is consumed alone.\<close>

definition between :: "nat \<Rightarrow> nat \<Rightarrow> nat \<Rightarrow> bool" where
  "between l h b \<longleftrightarrow> l \<le> b \<and> b \<le> h"

definition secondByte :: "nat \<Rightarrow> nat \<Rightarrow> bool" where
  "secondByte a b \<longleftrightarrow>
     between (if a = 0xE0 then 0xA0 else if a = 0xF0 then 0x90 else 0x80) (if a = 0xED then 0x9F else if a = 0xF4 then 0x8F else 0xBF) b"

definition contByte :: "nat \<Rightarrow> bool" where
  "contByte b \<longleftrightarrow> between 0x80 0xBF b"

fun decodeUtf8 :: "string \<Rightarrow> rune list" where
  "decodeUtf8 [] = []"
| "decodeUtf8 (x # r) =
     (let a = of_char x in
      if a < 0x80 then a # decodeUtf8 r
      else if between 0xC2 0xDF a then
        (case r of
           y # r1 \<Rightarrow> if contByte (of_char y) then ((a - 0xC0) * 64 + (of_char y - 0x80)) # decodeUtf8 r1 else 0xFFFD # decodeUtf8 r
         | [] \<Rightarrow> [0xFFFD])
      else if between 0xE0 0xEF a then
        (case r of
           y # z # r1 \<Rightarrow>
             if secondByte a (of_char y) \<and> contByte (of_char z)
             then ((a - 0xE0) * 4096 + (of_char y - 0x80) * 64 + (of_char z - 0x80)) # decodeUtf8 r1 else 0xFFFD # decodeUtf8 r
         | _ \<Rightarrow> 0xFFFD # decodeUtf8 r)
      else if between 0xF0 0xF4 a then
        (case r of
           y # z # w # r1 \<Rightarrow>
             if secondByte a (of_char y) \<and> contByte (of_char z) \<and> contByte (of_char w)
             then ((a - 0xF0) * 262144 + (of_char y - 0x80) * 4096 + (of_char z - 0x80) * 64 + (of_char w - 0x80)) # decodeUtf8 r1
             else 0xFFFD # decodeUtf8 r
         | _ \<Rightarrow> 0xFFFD # decodeUtf8 r)
      else 0xFFFD # decodeUtf8 r)"

section \<open>Macros without parentheses\<close>

text \<open>
  \<open>collectNoParensMacros\<close> scans the tokens for \<open>macro { ... no_parens ... } NAME ( ) = return `body`\<close>.  Each step of the scan is a
  function on the tokens that are left; \<open>None\<close> is \<open>continue\<close>.
\<close>

fun scanTok :: "TokenType \<Rightarrow> Token list \<Rightarrow> (Token \<times> Token list) option" where
  "scanTok t [] = None"
| "scanTok t (x # xs) = (if tok_Type x = t then Some (x, xs) else None)"

definition scanTags :: "Token list \<Rightarrow> (bool \<times> Token list) option" where
  "scanTags ts =
     (let tags = takeWhile (\<lambda>t. tok_Type t \<noteq> RBRACE) ts; rest = drop (length tags) ts;
          hasNoParens = list_ex (\<lambda>t. tok_Type t = CONTROL_TAG \<and> tok_Literal t = ''no_parens'') tags in
      if \<not> hasNoParens \<or> rest = [] then None else Some (hasNoParens, tl rest))"

definition optTok :: "TokenType \<Rightarrow> Token list \<Rightarrow> Token list" where
  "optTok t ts = (case scanTok t ts of Some (_, rest) \<Rightarrow> rest | None \<Rightarrow> ts)"

definition scanMacro :: "Token list \<Rightarrow> (string \<times> string) option" where
  "scanMacro ts =
     Option.bind (scanTok LBRACE ts) (\<lambda>(_, ts).
     Option.bind (scanTags ts) (\<lambda>(_, ts).
     Option.bind (scanTok IDENT ts) (\<lambda>(name, ts).
     Option.bind (scanTok LPAREN (optTok NOT ts)) (\<lambda>(_, ts).
     Option.bind (scanTok RPAREN ts) (\<lambda>(_, ts).
     Option.bind (scanTok ASSIGN ts) (\<lambda>(_, ts).
     Option.bind (scanTok BACKTICK_LIT (optTok KW_RETURN (dropWhile (\<lambda>t. tok_Type t = NEWLINE \<or> tok_Type t = INDENT) ts))) (\<lambda>(body, _).
     Some (tok_Literal name, tok_Literal body))))))))"

fun collectNoParensMacros :: "Token list \<Rightarrow> (string \<rightharpoonup> string) \<Rightarrow> (string \<rightharpoonup> string)" where
  "collectNoParensMacros [] m = m"
| "collectNoParensMacros (t # ts) m =
     collectNoParensMacros ts
       (if tok_Type t \<noteq> KW_MACRO then m
        else case scanMacro ts of None \<Rightarrow> m | Some (name, expansion) \<Rightarrow> m(name \<mapsto> expansion))"

definition NewP :: "Token list \<Rightarrow> string \<Rightarrow> Parser" where
  "NewP toks file =
     \<lparr>ps_tokens = toks, ps_pos = 0, ps_file = file, ps_warnings = [], ps_noParensMacros = collectNoParensMacros toks Map.empty,
      ps_noWarnAwaitMatchGuards = False, ps_continuationDedents = 0, ps_suppressPostfixCast = 0, ps_pendingLambdaDedents = 0,
      ps_blockDepth = 0\<rparr>"

definition SetNoWarnAwaitMatchGuards :: "bool \<Rightarrow> Parser \<Rightarrow> Parser" where
  "SetNoWarnAwaitMatchGuards v s = s\<lparr>ps_noWarnAwaitMatchGuards := v\<rparr>"

definition RegisterNoParensMacro :: "string \<Rightarrow> string \<Rightarrow> Parser \<Rightarrow> Parser" where
  "RegisterNoParensMacro name expansion s = s\<lparr>ps_noParensMacros := (ps_noParensMacros s)(name \<mapsto> expansion)\<rparr>"

text \<open>
  The expansion of such a macro at the current position: the name is consumed, and the tokens of the body, without the \<open>EOF\<close> at
  the end, are put before the tokens that are left.
\<close>

definition expandNoParens :: "unicode_tables \<Rightarrow> string \<Rightarrow> unit parser" where
  "expandNoParens U expansion s =
     (let s = advanceP s in
      case Tokenize U (decodeUtf8 expansion) of
        None \<Rightarrow> PDiverge
      | Some (Inl e) \<Rightarrow> PErr (ErrLexer ''no_parens macro expansion tokenize error: %w'' [] e) s
      | Some (Inr toks) \<Rightarrow>
          (let toks = rev (dropWhile (\<lambda>t. tok_Type t = EOF) (rev toks)) in
           POk () (s\<lparr>ps_tokens := take (ps_pos s) (ps_tokens s) @ toks @ drop (ps_pos s) (ps_tokens s)\<rparr>)))"

section \<open>Tags\<close>

text \<open>The loop over \<open>{#tag #tag@qualifier ...}\<close>; each round consumes the tag.\<close>

function tagLoop :: "string list \<Rightarrow> Parser \<Rightarrow> string list \<times> Parser" where
  "tagLoop tags s =
     (if checkP CONTROL_TAG s then
        (let s1 = advanceP s; name = tok_Literal (peekP s) in
         if checkP AT s1 then
           (let s2 = advanceP s1 in tagLoop (tags @ [name @ ''@'' @ tok_Literal (peekP s2)]) (advanceP s2))
         else tagLoop (tags @ [name]) s1)
      else (tags, s))"
  by pat_completeness auto
termination
  by (relation "measure (\<lambda>(_, s). length (ps_tokens s) - ps_pos s)")
    (auto simp: checkP_def peekP_def eofToken_def advanceP_def Let_def split: if_splits)

definition parseTags :: "Parser \<Rightarrow> string list \<times> Parser" where
  "parseTags s =
     (if checkP LBRACE s \<and> checkP CONTROL_TAG (advanceP s) then
        (let (tags, s) = tagLoop [] (advanceP s) in (tags, skipTok RBRACE s))
      else ([], s))"

definition isValidStructTagScope :: "string \<Rightarrow> bool" where
  "isValidStructTagScope s \<longleftrightarrow> s \<in> set [''fn'', ''method'', ''static_fn'', ''field'']"

function structTagLoop :: "string list \<Rightarrow> ScopedTag list \<Rightarrow> (string list \<times> ScopedTag list) parser" where
  "structTagLoop tags scoped s =
     (if checkP CONTROL_TAG s then
        (let s1 = advanceP s; name = tok_Literal (peekP s) in
         if checkP AT s1 then
           (let s2 = advanceP s1; scopeTok = peekP s2; scope = tok_Literal scopeTok in
            if \<not> isValidStructTagScope scope then
              errAtTok scopeTok ''unknown struct tag scope @%s (valid: @fn, @method, @static_fn, @field)'' [scope] (advanceP s2)
            else structTagLoop tags (scoped @ [\<lparr>st_Name = name, st_Scope = scope\<rparr>]) (advanceP s2))
         else structTagLoop (tags @ [name]) scoped s1)
      else POk (tags, scoped) (skipTok RBRACE s))"
  by pat_completeness auto
termination
  by (relation "measure (\<lambda>(_, _, s). length (ps_tokens s) - ps_pos s)")
    (auto simp: checkP_def peekP_def eofToken_def advanceP_def Let_def split: if_splits)

definition parseStructTags :: "(string list \<times> ScopedTag list) parser" where
  "parseStructTags s =
     (if checkP LBRACE s \<and> checkP CONTROL_TAG (advanceP s) then structTagLoop [] [] (advanceP s) else POk ([], []) s)"

declare tagLoop.simps [simp del] structTagLoop.simps [simp del]

end
