(* ===== verification/TinParseType.thy ===== *)
theory TinParseType
  imports TinParser
begin

text \<open>
  Type expressions, parameters and type parameters (\<^verbatim>\<open>src/parser/types.go\<close>), and the bounds of type parameters
  (\<^verbatim>\<open>src/parser/funcs.go\<close>).  The first argument of a parser is its fuel; every call inside has one less.
\<close>

definition isTypeKeyword :: "Token \<Rightarrow> bool" where
  "isTypeKeyword tok \<longleftrightarrow>
     tok_Type tok = KW_FN \<or>
     tok_Literal tok \<in> set [''i8'', ''i16'', ''i32'', ''i64'', ''u8'', ''u16'', ''u32'', ''u64'', ''f32'', ''f64'', ''bool'', ''char'',
       ''string'', ''atom'', ''any'', ''void'', ''uint32'', ''size_t'']"

definition isTypeToken :: "Token \<Rightarrow> bool" where
  "isTypeToken tok \<longleftrightarrow> isTypeKeyword tok \<or> tok_Type tok \<in> set [STAR, LBRACKET, KW_CONST, LPAREN]"

text \<open>\<open>strconv.Atoi\<close> with its error ignored: 0 for text that is not a decimal number, the nearest \<open>int64\<close> out of range.\<close>

definition decDigit :: "char \<Rightarrow> int option" where
  "decDigit c = (if between 48 57 (of_char c) then Some (of_char c - 48) else None)"

fun decValue :: "int \<Rightarrow> string \<Rightarrow> int option" where
  "decValue acc [] = Some acc"
| "decValue acc (c # cs) = (case decDigit c of None \<Rightarrow> None | Some d \<Rightarrow> decValue (acc * 10 + d) cs)"

definition decimal :: "string \<Rightarrow> int option" where
  "decimal s = (if s = [] then None else decValue 0 s)"

definition clamp64 :: "int \<Rightarrow> int" where
  "clamp64 n = max (- (2 ^ 63)) (min (2 ^ 63 - 1) n)"

definition atoi :: "string \<Rightarrow> int" where
  "atoi s =
     (case s of
        CHR ''-'' # r \<Rightarrow> (case decimal r of Some n \<Rightarrow> clamp64 (- n) | None \<Rightarrow> 0)
      | CHR ''+'' # r \<Rightarrow> (case decimal r of Some n \<Rightarrow> clamp64 n | None \<Rightarrow> 0)
      | _ \<Rightarrow> (case decimal s of Some n \<Rightarrow> clamp64 n | None \<Rightarrow> 0))"

text \<open>The loop \<open>for !p.check(close) && !p.check(lexer.EOF)\<close> over items, with what follows an item.\<close>

definition itemsUntil :: "nat \<Rightarrow> TokenType \<Rightarrow> 'a parser \<Rightarrow> (Parser \<Rightarrow> Parser) \<Rightarrow> 'a list parser" where
  "itemsUntil n close item after =
     loopP n (\<lambda>xs s. if checkP close s \<or> checkP EOF s then POk (Inr xs) s
                     else bindP item (\<lambda>x s. POk (Inl (xs @ [x])) (after s)) s) []"

text \<open>The loop \<open>for p.check(sep)\<close> that collects further items.\<close>

definition itemsWhile :: "nat \<Rightarrow> TokenType \<Rightarrow> 'a parser \<Rightarrow> 'a list \<Rightarrow> 'a list parser" where
  "itemsWhile n sep item =
     loopP n (\<lambda>xs s. if checkP sep s then bindP item (\<lambda>x. returnP (Inl (xs @ [x]))) (advanceP s) else POk (Inr xs) s)"

text \<open>A module-qualified name: \<open>for p.check(lexer.DCOLON)\<close>.\<close>

definition qualifiedName :: "nat \<Rightarrow> string \<Rightarrow> string parser" where
  "qualifiedName n =
     loopP n (\<lambda>name s. if checkP DCOLON s
                       then bindP (expectP IDENT) (\<lambda>part. returnP (Inl (name @ ''::'' @ tok_Literal part))) (advanceP s)
                       else POk (Inr name) s)"

definition wildcardType :: "TypeExpr parser" where
  "wildcardType s =
     (let s = advanceP s in
      if checkP COLON s then bindP (expectP IDENT) (\<lambda>tok. returnP (WildcardType (tok_Literal tok))) (advanceP s)
      else POk (WildcardType []) s)"

text \<open>The size of an array type: \<open>; N\<close>.\<close>

definition arraySize :: "Parser \<Rightarrow> int \<times> Parser" where
  "arraySize s =
     (if checkP SEMI s then
        (let s = advanceP s in if checkP INT_LIT s then (atoi (tok_Literal (peekP s)), advanceP s) else (-1, s))
      else (-1, s))"

definition tupleOrGroup :: "TypeExpr list \<Rightarrow> TypeExpr" where
  "tupleOrGroup ts = (case ts of [t] \<Rightarrow> t | _ \<Rightarrow> GenericType ''Tuple'' ts)"

text \<open>The optional name of a parameter in a function type.\<close>

definition skipParamName :: "Parser \<Rightarrow> Parser" where
  "skipParamName s =
     (let nextTok = peekAtP 1 s in
      if checkP IDENT s \<and> (isTypeToken nextTok \<and> tok_Type nextTok \<noteq> LBRACKET \<or> tok_Type nextTok = IDENT) then advanceP s else s)"

text \<open>The parameters of a function type, with the flag for a variadic one, which ends the list.\<close>

definition funcTypeParams :: "nat \<Rightarrow> TypeExpr parser \<Rightarrow> (TypeExpr list \<times> bool) parser" where
  "funcTypeParams n item =
     loopP n (\<lambda>ps s.
       if checkP RPAREN s \<or> checkP EOF s then POk (Inr (ps, False)) s
       else
         (let s = skipParamName s in
          if checkP DOTDOTDOT s then
            (let s = advanceP s in
             if \<not> checkP RPAREN s then bindP item (\<lambda>t. returnP (Inr (ps @ [t], True))) s else POk (Inr (ps, True)) s)
          else bindP item (\<lambda>t s. POk (Inl (ps @ [t])) (skipTok COMMA s)) s)) []"

fun parseTypeUnion :: "nat \<Rightarrow> TypeExpr parser"
and parseTypeSingle :: "nat \<Rightarrow> TypeExpr parser"
and parseFuncType :: "nat \<Rightarrow> TypeExpr parser" where
  "parseTypeUnion 0 = divergeP"
| "parseTypeUnion (Suc n) =
     bindP (parseTypeSingle n) (\<lambda>first s.
       if \<not> checkP BITOR s then POk first s
       else bindP (itemsWhile n BITOR (parseTypeSingle n) [first]) (\<lambda>ts. returnP (UnionTypeExpr ts)) s)"
| "parseTypeSingle 0 = divergeP"
| "parseTypeSingle (Suc n) =
     (\<lambda>s0. let isVolatile = checkP KW_VOLATILE s0; s1 = skipTok KW_VOLATILE s0;
              isConst = checkP KW_CONST s1; s = skipTok KW_CONST s1 in
      if checkP STAR s then bindP (parseTypeSingle n) (\<lambda>elem. returnP (PointerType elem isConst isVolatile)) (advanceP s)
      else if isVolatile then errPlain ''`volatile` qualifier only applies to pointer types (`volatile *T`)'' [] s
      else if checkP AT s then
        bindP (expectP LBRACKET) (\<lambda>_.
        bindP (itemsUntil n RBRACKET (parseTypeUnion n) (skipTok COMMA)) (\<lambda>elems.
        bindP (expectP RBRACKET) (\<lambda>_. returnP (TupleArrayType elems)))) (advanceP s)
      else if checkP LBRACKET s then
        (let s = advanceP s in
         if checkP RBRACKET s then POk (ArrayType (SimpleType ''void'') (-1)) (advanceP s)
         else
           bindP (parseTypeUnion n) (\<lambda>elem s.
             let (size, s) = arraySize s in bindP (expectP RBRACKET) (\<lambda>_. returnP (ArrayType elem size)) s) s)
      else if checkP KW_FN s then parseFuncType n s
      else if checkP KW_EXTERN s then POk (SimpleType ''void'') (advanceP s)
      else if checkP LPAREN s then
        bindP (parseTypeUnion n) (\<lambda>first.
        bindP (itemsWhile n COMMA (parseTypeUnion n) [first]) (\<lambda>types.
        bindP (expectP RPAREN) (\<lambda>_. returnP (tupleOrGroup types)))) (advanceP s)
      else if checkP IDENT s \<and> litIs ''_'' s then wildcardType s
      else if \<not> checkP IDENT s \<and> \<not> isTypeKeyword (peekP s) then
        errorf ''expected type, got %s (%q)'' [TokenType_String (tok_Type (peekP s)), tok_Literal (peekP s)] s
      else
        bindP (qualifiedName n (tok_Literal (peekP s))) (\<lambda>name s.
          if checkP LBRACKET s then
            bindP (itemsUntil n RBRACKET (parseTypeUnion n) (skipTok COMMA)) (\<lambda>args.
            bindP (expectP RBRACKET) (\<lambda>_. returnP (GenericType name args))) (advanceP s)
          else POk (SimpleType name) s) (advanceP s))"
| "parseFuncType 0 = divergeP"
| "parseFuncType (Suc n) =
     (\<lambda>s. let (tags, s) = parseTags (advanceP s) in
      bindP (expectP LPAREN) (\<lambda>_.
      bindP (funcTypeParams n (parseTypeUnion n)) (\<lambda>(ps, varArgs).
      bindP (expectP RPAREN) (\<lambda>_ s.
        if \<not> matchP [NEWLINE, EOF, RPAREN, COMMA, RBRACKET, ASSIGN, COLON] s then
          bindP (parseTypeSingle n) (\<lambda>ret. returnP (FuncType ps (Some ret) varArgs (''async'' \<in> set tags))) s
        else POk (FuncType ps None varArgs (''async'' \<in> set tags)) s))) s)"

abbreviation parseTypeExpr :: "nat \<Rightarrow> TypeExpr parser" where
  "parseTypeExpr \<equiv> parseTypeUnion"

declare parseTypeUnion.simps(2) [simp del] parseTypeSingle.simps(2) [simp del] parseFuncType.simps(2) [simp del]

text \<open>\<open>ParseType\<close>: a type from its source text.\<close>

definition ParseType :: "unicode_tables \<Rightarrow> nat \<Rightarrow> string \<Rightarrow> TypeExpr presult" where
  "ParseType U n text =
     (case Tokenize U (decodeUtf8 text) of
        None \<Rightarrow> PDiverge
      | Some (Inl e) \<Rightarrow> PErr (ErrLexer ''%w'' [] e) (NewP [] ''<type>'')
      | Some (Inr toks) \<Rightarrow> parseTypeExpr n (NewP toks ''<type>''))"

section \<open>Parameters\<close>

definition emptyParam :: Param where
  "emptyParam = \<lparr>p_Name = [], p_Type = None, p_IsConst = False, p_IsVarArgs = False\<rparr>"

definition paramType :: "nat \<Rightarrow> Param \<Rightarrow> Param parser" where
  "paramType n param s =
     (if \<not> matchP [RPAREN, COMMA, DOTDOTDOT] s then bindP (parseTypeExpr n) (\<lambda>t. returnP (param\<lparr>p_Type := Some t\<rparr>)) s
      else POk param s)"

definition parseParam :: "nat \<Rightarrow> Param parser" where
  "parseParam n s0 =
     (let param = emptyParam\<lparr>p_IsConst := checkP KW_CONST s0\<rparr>; s = skipTok KW_CONST s0 in
      if checkP DOTDOTDOT s then POk (param\<lparr>p_IsVarArgs := True\<rparr>) (advanceP s)
      else if checkP IDENT s \<and> \<not> isTypeKeyword (peekP s) then
        (let candidate = tok_Literal (peekP s); s1 = advanceP s in
         if checkP DOTDOTDOT s1 then POk (param\<lparr>p_Name := candidate, p_IsVarArgs := True\<rparr>) (advanceP s1)
         else if matchP [RPAREN, COMMA] s1 then paramType n param s
         else paramType n (param\<lparr>p_Name := candidate\<rparr>) s1)
      else paramType n param s)"

definition skipSeparator :: "Parser \<Rightarrow> Parser" where
  "skipSeparator s = (if checkP COMMA s then skipWhitespace (advanceP s) else s)"

definition parseParams :: "nat \<Rightarrow> Param list parser" where
  "parseParams n =
     bindP (expectP LPAREN) (\<lambda>_ s.
     bindP (itemsUntil n RPAREN (parseParam n) skipSeparator) (\<lambda>params.
     bindP (expectP RPAREN) (\<lambda>_. returnP params)) (skipWhitespace s))"

text \<open>
  Type parameters \<open>[t, u, _: w]\<close>: the names and the wildcard slots.  A token that is neither an identifier nor a comma is left in
  place by a round of the loop.
\<close>

definition parseTypeParamsWithWildcards :: "nat \<Rightarrow> (string list \<times> string list) parser" where
  "parseTypeParamsWithWildcards n s =
     (if \<not> checkP LBRACKET s then POk ([], []) s
      else
        bindP (loopP n (\<lambda>(params, wildcards) s.
          if checkP RBRACKET s \<or> checkP EOF s then POk (Inr (params, wildcards)) s
          else if checkP IDENT s \<and> litIs ''_'' s then
            (let s = advanceP s in
             if \<not> checkP COLON s then
               errorf ''bare `_` is not allowed in a type-parameter list; use `_: name` to introduce a named wildcard slot'' [] s
             else bindP (expectP IDENT) (\<lambda>tok s. POk (Inl (params, wildcards @ [tok_Literal tok])) (skipTok COMMA s)) (advanceP s))
          else if checkP IDENT s then POk (Inl (params @ [tok_Literal (peekP s)], wildcards)) (skipTok COMMA (advanceP s))
          else POk (Inl (params, wildcards)) (skipTok COMMA s)) ([], [])) (\<lambda>r.
        bindP (expectP RBRACKET) (\<lambda>_. returnP r)) (advanceP s))"

definition parseTypeParams :: "nat \<Rightarrow> string list parser" where
  "parseTypeParams n = bindP (parseTypeParamsWithWildcards n) (\<lambda>(params, _). returnP params)"

text \<open>A call whose error is ignored: the value is then \<open>nil\<close>, the state is the one the error leaves.\<close>

definition ignoreErr :: "'a \<Rightarrow> 'a parser \<Rightarrow> 'a parser" where
  "ignoreErr nil f s = (case f s of PErr _ s' \<Rightarrow> POk nil s' | r \<Rightarrow> r)"

definition parseTypeArgList :: "nat \<Rightarrow> TypeExpr list parser" where
  "parseTypeArgList n s =
     (if \<not> checkP LBRACKET s then POk [] s
      else
        bindP (itemsUntil n RBRACKET (parseTypeExpr n) (skipTok COMMA)) (\<lambda>args.
        bindP (expectP RBRACKET) (\<lambda>_. returnP args)) (advanceP s))"

section \<open>Bounds of type parameters\<close>

fun negateAtom :: "TypeBound \<Rightarrow> TypeBound option" where
  "negateAtom (TBAtom p t neg) = Some (TBAtom p t (\<not> neg))"
| "negateAtom _ = None"

text \<open>The left-associative loops over \<open>||\<close> and over \<open>&&\<close> and \<open>+\<close>.\<close>

definition boundLoop ::
  "nat \<Rightarrow> TokenType list \<Rightarrow> (Pos \<Rightarrow> TypeBound \<Rightarrow> TypeBound \<Rightarrow> TypeBound) \<Rightarrow> TypeBound parser \<Rightarrow> TypeBound parser" where
  "boundLoop n ops mk sub =
     bindP sub (loopP n (\<lambda>left s.
       if matchP ops s then bindP sub (\<lambda>right. returnP (Inl (mk (curPos s) left right))) (advanceP s) else POk (Inr left) s))"

fun parseTypeBound :: "nat \<Rightarrow> TypeBound parser"
and parseTypeBoundAnd :: "nat \<Rightarrow> TypeBound parser"
and parseTypeBoundUnary :: "nat \<Rightarrow> TypeBound parser"
and parseTypeBoundAtom :: "nat \<Rightarrow> TypeBound parser" where
  "parseTypeBound 0 = divergeP"
| "parseTypeBound (Suc n) = boundLoop n [OR] TBOr (parseTypeBoundAnd n)"
| "parseTypeBoundAnd 0 = divergeP"
| "parseTypeBoundAnd (Suc n) = boundLoop n [AND, PLUS] TBAnd (parseTypeBoundUnary n)"
| "parseTypeBoundUnary 0 = divergeP"
| "parseTypeBoundUnary (Suc n) =
     (\<lambda>s. if checkP IDENT s \<and> litIs ''not'' s then
            bindP (parseTypeBoundAtom n) (\<lambda>inner.
              case negateAtom inner of
                Some atom \<Rightarrow> returnP atom
              | None \<Rightarrow> errAt (Line (curPos s)) (Col (curPos s))
                  ''\"not\" in a type bound must apply to a trait name, not a parenthesised expression'' []) (advanceP s)
          else parseTypeBoundAtom n s)"
| "parseTypeBoundAtom 0 = divergeP"
| "parseTypeBoundAtom (Suc n) =
     (\<lambda>s. if checkP LPAREN s then
            bindP (parseTypeBound n) (\<lambda>inner. bindP (expectP RPAREN) (\<lambda>_. returnP inner)) (advanceP s)
          else if \<not> isTypeToken (peekP s) \<and> \<not> checkP IDENT s then
            errAt (Line (curPos s)) (Col (curPos s)) ''expected trait name in type bound'' [] s
          else bindP (parseTypeSingle n) (\<lambda>te. returnP (TBAtom (curPos s) te False)) s)"

text \<open>One clause \<open>t is bound\<close>; \<open>None\<close> when there is none, and an error of the bound is \<open>None\<close> too.\<close>

definition parseConstraint :: "nat \<Rightarrow> TypeConstraint option parser" where
  "parseConstraint n s =
     (if \<not> checkP IDENT s \<or> \<not> nextIs 1 KW_IS s then POk None s
      else
        ignoreErr None (bindP (parseTypeBound n) (\<lambda>bound.
          returnP (Some \<lparr>tc_Pos = curPos s, tc_TypeParam = tok_Literal (peekP s), tc_Bound = bound\<rparr>)))
          (advanceP (advanceP s)))"

definition moreConstraints :: "nat \<Rightarrow> TypeConstraint list \<Rightarrow> TypeConstraint list parser" where
  "moreConstraints n =
     loopP n (\<lambda>cs s.
       if checkP COMMA s then
         bindP (parseConstraint n) (\<lambda>c. returnP (case c of None \<Rightarrow> Inr cs | Some c \<Rightarrow> Inl (cs @ [c]))) (advanceP s)
       else POk (Inr cs) s)"

definition parseTypeConstraints :: "nat \<Rightarrow> TypeConstraint list parser" where
  "parseTypeConstraints n =
     loopP n (\<lambda>cs s.
       if \<not> checkP KW_WHERE s then POk (Inr cs) s
       else
         bindP (parseConstraint n) (\<lambda>c s'.
           case c of
             None \<Rightarrow> POk (Inr cs) (s'\<lparr>ps_pos := ps_pos s\<rparr>)
           | Some c \<Rightarrow> bindP (moreConstraints n (cs @ [c])) (\<lambda>cs. returnP (Inl cs)) s') (advanceP s)) []"

end
