(* ===== verification/TinParseStmt.thy ===== *)
theory TinParseStmt
  imports TinParseType
begin

text \<open>
  Blocks, statements and patterns (\<^verbatim>\<open>src/parser/stmts*.go\<close>, and the bodies and where clauses of \<^verbatim>\<open>src/parser/funcs.go\<close>).

  The methods of the parser call each other in a cycle.  A method takes the record \<open>knots\<close> with the methods that close the cycles;
  \<open>parserKnots\<close> (in \<open>TinParseDecl\<close>) ties them, with one unit of fuel for each round.  The record also has the parameters of the
  model: the Unicode tables of the lexer, \<open>strconv.ParseFloat\<close> and the verb \<open>%q\<close>.

  A statement that may be \<open>nil\<close> is an option.  Where the tree has a \<open>nil\<close> in a place that is not an option (\<open>pass\<close> as an inline body,
  \<open>x[]\<close>, a case without a body), it is the empty block at the position \<open>-1:-1\<close>, which no token has.
\<close>

record knots =
  k_fuel :: nat
  k_tables :: unicode_tables
  k_ParseFloat :: "string \<Rightarrow> float64"
  k_quote :: "string \<Rightarrow> string"
  k_parseExpr :: "Node parser"
  k_parseStatement :: "Node option parser"
  k_parseUnary :: "Node parser"
  k_parsePointerOperand :: "Node parser"
  k_parsePostfixOpt :: "bool \<Rightarrow> Node parser"
  k_parseStructPattern :: "Node parser"
  k_parseTopLevel :: "Node option parser"

section \<open>Nodes\<close>

definition nilBlock :: "Node Block" where
  "nilBlock = Block \<lparr>Line = -1, Col = -1\<rparr> [] False"

definition orNil :: "Node option \<Rightarrow> Node" where
  "orNil n = (case n of Some x \<Rightarrow> x | None \<Rightarrow> NBlock nilBlock)"

definition stmtList :: "Node option \<Rightarrow> Node list" where
  "stmtList n = (case n of Some x \<Rightarrow> [x] | None \<Rightarrow> [])"

definition emptyBlock :: "Node Block" where
  "emptyBlock = Block noPos [] False"

definition blockOf :: "Node list \<Rightarrow> Node Block" where
  "blockOf stmts = Block noPos stmts False"

fun setPos :: "Pos \<Rightarrow> Node \<Rightarrow> Node" where
  "setPos p (NLeaf _ x) = NLeaf p x"
| "setPos p (NDecl _ x) = NDecl p x"
| "setPos p (NStmt _ x) = NStmt p x"
| "setPos p (NExpr _ x) = NExpr p x"
| "setPos p (NFunc (FuncDecl _ a b c d e f g h i j k l)) = NFunc (FuncDecl p a b c d e f g h i j k l)"
| "setPos p (NBlock (Block _ ss e)) = NBlock (Block p ss e)"

definition mapP :: "('a \<Rightarrow> 'b) \<Rightarrow> 'a parser \<Rightarrow> 'b parser" where
  "mapP f p = bindP p (\<lambda>x. returnP (f x))"

text \<open>\<open>nil\<close> when the test of the state fails.\<close>

definition whenP :: "(Parser \<Rightarrow> bool) \<Rightarrow> 'a parser \<Rightarrow> 'a option parser" where
  "whenP test p s = (if test s then mapP Some p s else POk None s)"

section \<open>Blocks\<close>

text \<open>\<open>p.blockDepth++; defer func() { p.blockDepth-- }()\<close>\<close>

definition inBlock :: "'a parser \<Rightarrow> 'a parser" where
  "inBlock f s =
     (case f (s\<lparr>ps_blockDepth := ps_blockDepth s + 1\<rparr>) of
        POk x s' \<Rightarrow> POk x (s'\<lparr>ps_blockDepth := ps_blockDepth s' - 1\<rparr>)
      | PErr e s' \<Rightarrow> PErr e (s'\<lparr>ps_blockDepth := ps_blockDepth s' - 1\<rparr>)
      | PDiverge \<Rightarrow> PDiverge)"

definition owedLambdaDedent :: "Parser \<Rightarrow> Parser" where
  "owedLambdaDedent s =
     skipSemisAndNewlines ((advanceP s)\<lparr>ps_pendingLambdaDedents := ps_pendingLambdaDedents s - 1\<rparr>)"

definition blockStep :: "knots \<Rightarrow> Node list \<times> bool \<Rightarrow> ((Node list \<times> bool) + (Node list \<times> bool)) parser" where
  "blockStep K acc s =
     (let (stmts, sawPassOnly) = acc in
      if checkP DEDENT s \<or> checkP EOF s \<or> checkP COMMA s then POk (Inr acc) s
      else if checkP RPAREN s then POk (Inr acc) (s\<lparr>ps_pendingLambdaDedents := ps_pendingLambdaDedents s + 1\<rparr>)
      else if checkP DEDENT s \<and> ps_pendingLambdaDedents s > 0 then POk (Inl acc) (owedLambdaDedent s)
      else
        (let isPass = checkP KW_PASS s in
         bindP (k_parseStatement K) (\<lambda>stmt s.
           POk (Inl (case stmt of
                       Some x \<Rightarrow> (stmts @ [x], False)
                     | None \<Rightarrow> (stmts, if isPass then sawPassOnly \<or> stmts = [] else sawPassOnly)))
             (skipSemisAndNewlines s)) s))"

definition parseBlock :: "knots \<Rightarrow> Node Block parser" where
  "parseBlock K =
     bindP (expectP INDENT) (\<lambda>_.
     inBlock (\<lambda>s.
       bindP (loopP (k_fuel K) (blockStep K) ([], False)) (\<lambda>(stmts, sawPassOnly) s.
         POk (Block noPos stmts (sawPassOnly \<and> stmts = [])) (skipTok DEDENT s)) (skipSemisAndNewlines s)))"

text \<open>The body after a colon: a block on the next lines, or one statement on the same line.\<close>

definition colonBlock :: "knots \<Rightarrow> Node Block parser" where
  "colonBlock K s =
     (if checkP NEWLINE s then
        (let s = skipNewlines (advanceP s) in if checkP INDENT s then parseBlock K s else POk emptyBlock s)
      else mapP (\<lambda>stmt. blockOf [orNil stmt]) (k_parseStatement K) s)"

text \<open>\<open>parseColonBody\<close>: statements on the same line are separated by semicolons.\<close>

definition parseColonBody :: "knots \<Rightarrow> Node Block parser" where
  "parseColonBody K s =
     (if checkP NEWLINE s then
        (let s = skipNewlines (advanceP s) in if checkP INDENT s then parseBlock K s else POk emptyBlock s)
      else
        mapP blockOf (loopP (k_fuel K) (\<lambda>stmts.
          bindP (k_parseStatement K) (\<lambda>stmt s.
            let stmts = stmts @ stmtList stmt in
            if \<not> checkP SEMI s then POk (Inr stmts) s else POk (Inl stmts) (advanceP s))) []) s)"

section \<open>Patterns\<close>

definition isRenameBinding :: "Parser \<Rightarrow> bool" where
  "isRenameBinding s \<longleftrightarrow>
     checkP IDENT s \<and>
     tok_Type (peekAtP 1 s) \<notin> set [LPAREN, LBRACKET, LBRACE, DOT, DCOLON, PLUS, MINUS, STAR, SLASH, PERCENT, EQEQ, NEQ, LT, GT, LTEQ,
       GTEQ, AND, OR, PIPE, KW_AS]"

definition structPatternField :: "knots \<Rightarrow> Node StructPatternField parser" where
  "structPatternField K s =
     (let name = tok_Literal (peekP s); s1 = advanceP s in
      if name = ''_'' then POk (StructPatternField [] None True []) s1
      else if checkP COLON s1 then
        (let s2 = advanceP s1 in
         if checkP IDENT s2 \<and> nextIs 1 LBRACE s2 then
           mapP (\<lambda>nested. StructPatternField name (Some nested) False []) (k_parseStructPattern K) s2
         else if isRenameBinding s2 then POk (StructPatternField name None False (tok_Literal (peekP s2))) (advanceP s2)
         else mapP (\<lambda>lit. StructPatternField name (Some lit) False []) (k_parseExpr K) s2)
      else POk (StructPatternField name None False []) s1)"

definition parseStructPattern :: "knots \<Rightarrow> Node parser" where
  "parseStructPattern K s =
     bindP (loopP (k_fuel K) (\<lambda>fields s.
       if checkP RBRACE s \<or> checkP EOF s then POk (Inr fields) s
       else
         (let s = skipWhitespace s in
          if checkP RBRACE s \<or> \<not> checkP IDENT s then POk (Inr fields) s
          else bindP (structPatternField K) (\<lambda>f s. POk (Inl (fields @ [f])) (skipTok COMMA (skipWhitespace s))) s)) []) (\<lambda>fields.
     bindP (expectP RBRACE) (\<lambda>_. returnP (NExpr (curPos s) (StructPattern (tok_Literal (peekP s)) fields)))) (advanceP (advanceP s))"

text \<open>The name of an element of an array pattern: \<open>_\<close> is a wildcard.\<close>

definition namedElem :: "bool \<Rightarrow> string \<Rightarrow> ArrayPatternElement" where
  "namedElem isRest l =
     (if l = ''_'' then \<lparr>ape_Name = [], ape_IsRest = isRest, ape_IsWild = True\<rparr>
      else \<lparr>ape_Name = l, ape_IsRest = isRest, ape_IsWild = False\<rparr>)"

definition parseArrayPattern :: "knots \<Rightarrow> Node parser" where
  "parseArrayPattern K s =
     bindP (loopP (k_fuel K) (\<lambda>elems s.
       if checkP RBRACKET s \<or> checkP EOF s then POk (Inr elems) s
       else
         (let s = skipWhitespace s in
          if checkP RBRACKET s then POk (Inr elems) s
          else if checkP DOTDOTDOT s then
            (let s = advanceP s in
             if checkP IDENT s then POk (Inr (elems @ [namedElem True (tok_Literal (peekP s))])) (advanceP s)
             else POk (Inr (elems @ [\<lparr>ape_Name = [], ape_IsRest = True, ape_IsWild = False\<rparr>])) s)
          else if checkP IDENT s then
            POk (Inl (elems @ [namedElem False (tok_Literal (peekP s))])) (skipTok COMMA (skipWhitespace (advanceP s)))
          else errAtTok (peekP s) ''unexpected token in array pattern: %s'' [TokenType_String (tok_Type (peekP s))] s)) []) (\<lambda>elems.
     bindP (expectP RBRACKET) (\<lambda>_. returnP (NLeaf noPos (ArrayPattern elems)))) (advanceP s)"

definition parsePatternElem :: "knots \<Rightarrow> Node parser" where
  "parsePatternElem K s =
     (if checkP LBRACKET s then parseArrayPattern K s
      else if checkP IDENT s \<and> nextIs 1 LBRACE s then parseStructPattern K s
      else if checkP IDENT s then POk (NLeaf (curPos s) (Identifier (tok_Literal (peekP s)))) (advanceP s)
      else mapP (setPos (curPos s)) (k_parseExpr K) s)"

definition parseWherePattern :: "knots \<Rightarrow> Node parser" where
  "parseWherePattern K s0 =
     bindP (expectP LPAREN) (\<lambda>_ s.
       if checkP RPAREN s then
         errAt (Line (curPos s0)) (Col (curPos s0)) ''empty where pattern \"()\" is not allowed; use \"where _:\" for a catch-all'' [] s
       else
         bindP (parsePatternElem K) (\<lambda>first.
         bindP (itemsWhile (k_fuel K) COMMA (parsePatternElem K) [first]) (\<lambda>elems.
         bindP (expectP RPAREN) (\<lambda>_. returnP (case elems of [e] \<Rightarrow> e | _ \<Rightarrow> NExpr noPos (TuplePattern elems))))) s) s0"

section \<open>Where clauses and function bodies\<close>

definition guardP :: "knots \<Rightarrow> Node option parser" where
  "guardP K s = (if checkP KW_IF s then mapP Some (k_parseExpr K) (advanceP s) else POk None s)"

text \<open>What a where clause tests: its condition, its pattern and its guard.\<close>

definition whereTest :: "knots \<Rightarrow> (Node option \<times> Node option \<times> Node option) parser" where
  "whereTest K s =
     (if checkP LPAREN s then bindP (parseWherePattern K) (\<lambda>pat. mapP (\<lambda>g. (None, Some pat, g)) (guardP K)) s
      else if checkP IDENT s \<and> litIs ''_'' s then POk (None, None, None) (advanceP s)
      else if checkP ATOM_LIT s then POk (Some (NLeaf noPos (AtomLit (tok_Literal (peekP s)))), None, None) (advanceP s)
      else mapP (\<lambda>c. (Some c, None, None)) (k_parseExpr K) s)"

definition whereBody :: "knots \<Rightarrow> Node parser" where
  "whereBody K s =
     (if checkP NEWLINE s then
        (let s = skipNewlines (advanceP s) in
         if checkP INDENT s then mapP NBlock (parseBlock K) s else POk (NBlock emptyBlock) s)
      else mapP orNil (k_parseStatement K) s)"

definition parseWhereClause :: "knots \<Rightarrow> Node WhereClause parser" where
  "parseWhereClause K s =
     bindP (expectP KW_WHERE) (\<lambda>_.
     bindP (whereTest K) (\<lambda>(cond, pattern, guard).
     bindP (expectP COLON) (\<lambda>_.
     mapP (WhereClause (curPos s) cond pattern guard) (whereBody K)))) s"

definition parseWhereBlock :: "knots \<Rightarrow> Node parser" where
  "parseWhereBlock K =
     bindP (expectP INDENT) (\<lambda>_ s.
     bindP (loopP (k_fuel K) (\<lambda>clauses s.
       if checkP KW_WHERE s then bindP (parseWhereClause K) (\<lambda>wc s. POk (Inl (clauses @ [wc])) (skipNewlines s)) s
       else POk (Inr clauses) s) []) (\<lambda>clauses s. POk (NStmt noPos (WhereList clauses)) (skipTok DEDENT s)) (skipNewlines s))"

text \<open>The list of where clauses in a statement: at least one.\<close>

definition parseWhereStmt :: "knots \<Rightarrow> Node parser" where
  "parseWhereStmt K =
     mapP (\<lambda>clauses. NStmt noPos (WhereList clauses)) (loopP (k_fuel K) (\<lambda>clauses.
       bindP (parseWhereClause K) (\<lambda>wc s.
         let s = skipNewlines s; clauses = clauses @ [wc] in
         POk (if \<not> checkP KW_WHERE s then Inr clauses else Inl clauses) s)) [])"

definition passBlock :: "Pos \<Rightarrow> Node" where
  "passBlock p = NBlock (Block p [] True)"

definition moreStatements :: "knots \<Rightarrow> Node list \<Rightarrow> Node list parser" where
  "moreStatements K =
     loopP (k_fuel K) (\<lambda>stmts s.
       if \<not> checkP SEMI s then POk (Inr stmts) s
       else
         (let s = advanceP s in
          if checkP NEWLINE s \<or> checkP EOF s \<or> checkP DEDENT s then POk (Inr stmts) s
          else mapP (\<lambda>stmt. Inl (stmts @ stmtList stmt)) (k_parseStatement K) s))"

definition parseFuncBody :: "knots \<Rightarrow> Node option parser" where
  "parseFuncBody K s =
     (if checkP NEWLINE s then
        (let s = skipAll [DEDENT] (skipNewlines (advanceP s)) in
         if checkP INDENT s then
           (if nextIs 1 KW_WHERE s then mapP Some (parseWhereBlock K) s else mapP (Some \<circ> NBlock) (parseBlock K) s)
         else if \<not> checkP EOF s \<and> \<not> checkP DEDENT s \<and> \<not> checkP NEWLINE s then
           (if checkP KW_PASS s then POk (Some (passBlock (curPos s))) (advanceP s) else k_parseStatement K s)
         else POk (Some (NBlock emptyBlock)) s)
      else
        bindP (k_parseStatement K) (\<lambda>first s.
          let first = (if first = None \<and> Line (curPos s) > 0 then Some (passBlock (curPos s)) else first) in
          if \<not> checkP SEMI s then POk first s
          else mapP (\<lambda>stmts. Some (NBlock (blockOf stmts))) (moreStatements K (stmtList first)) s) s)"

text \<open>A lambda; an error in its type parameters is ignored.\<close>

definition parseLambda :: "knots \<Rightarrow> Node parser" where
  "parseLambda K =
     bindP (expectP KW_FN) (\<lambda>_ s.
       let (tags, s) = parseTags s in
       bindP (ignoreErr [] (parseTypeParams (k_fuel K))) (\<lambda>typeParams.
       bindP (parseParams (k_fuel K)) (\<lambda>params.
       bindP (whenP (\<lambda>s. \<not> matchP [ASSIGN, NEWLINE, EOF, COMMA, RPAREN] s) (parseTypeExpr (k_fuel K))) (\<lambda>ret s.
         mapP (\<lambda>body. NExpr noPos (LambdaExpr typeParams params ret (orNil body) tags))
           (if checkP ASSIGN s then (\<lambda>s. parseFuncBody K (advanceP s)) else returnP None) s))) s)"

section \<open>Declarations of variables\<close>

definition optType :: "knots \<Rightarrow> TypeExpr option parser" where
  "optType K = whenP (\<lambda>s. \<not> matchP [ASSIGN, NEWLINE, EOF, SEMI] s) (parseTypeExpr (k_fuel K))"

definition optInit :: "knots \<Rightarrow> Node option parser" where
  "optInit K s = (if checkP ASSIGN s then mapP Some (k_parseExpr K) (advanceP s) else POk None s)"

text \<open>\<open>name [Type] [= expr]\<close>\<close>

definition binding :: "knots \<Rightarrow> (string \<times> TypeExpr option \<times> Node option) parser" where
  "binding K =
     bindP (expectP IDENT) (\<lambda>nameTok.
     bindP (optType K) (\<lambda>typ.
     mapP (\<lambda>val. (tok_Literal nameTok, typ, val)) (optInit K)))"

definition parseVarDecl :: "knots \<Rightarrow> Node parser" where
  "parseVarDecl K s =
     mapP (\<lambda>(name, typ, val). NDecl (curPos s) (VarDecl (checkP KW_CONST s) name typ val)) (binding K) (advanceP s)"

definition parseTopLevelVar :: "knots \<Rightarrow> Node parser" where
  "parseTopLevelVar K s = mapP (\<lambda>(name, typ, val). NDecl noPos (TopLevelVar name typ val False)) (binding K) (advanceP s)"

definition parseTopLevelLetConst :: "knots \<Rightarrow> Node parser" where
  "parseTopLevelLetConst K s =
     mapP (\<lambda>(name, typ, val). NDecl (curPos s) (TopLevelVar name typ val True)) (binding K) (advanceP s)"

definition initValue :: "knots \<Rightarrow> Node parser" where
  "initValue K = bindP (expectP ASSIGN) (\<lambda>_. k_parseExpr K)"

text \<open>Destructuring: the names between the brackets.\<close>

definition destructName :: "string parser" where
  "destructName s =
     (if checkP DOTDOTDOT s then mapP (\<lambda>t. ''...'' @ tok_Literal t) (expectP IDENT) (advanceP s)
      else mapP tok_Literal (expectP IDENT) s)"

definition isRestName :: "string \<Rightarrow> bool" where
  "isRestName n \<longleftrightarrow> length n > 3 \<and> take 3 n = ''...''"

text \<open>The first rest name that is not the last name.\<close>

definition misplacedRest :: "string list \<Rightarrow> string option" where
  "misplacedRest names = find isRestName (butlast names)"

text \<open>The annotation: the types of the elements, the flag for per-slot casts, and a named type.\<close>

definition destructTypes :: "knots \<Rightarrow> (TypeExpr list \<times> bool \<times> TypeExpr option) parser" where
  "destructTypes K s =
     (if checkP AT s then
        mapP (\<lambda>t. case t of TupleArrayType ts \<Rightarrow> (ts, True, None) | _ \<Rightarrow> ([], False, Some t)) (parseTypeExpr (k_fuel K)) s
      else if checkP LBRACKET s then
        bindP (itemsUntil (k_fuel K) RBRACKET (parseTypeExpr (k_fuel K)) (skipTok COMMA)) (\<lambda>ts.
        bindP (expectP RBRACKET) (\<lambda>_.
          returnP (ts, (case ts of [] \<Rightarrow> False | [t] \<Rightarrow> t = SimpleType ''any'' | _ \<Rightarrow> True), None))) (advanceP s)
      else if \<not> checkP ASSIGN s then mapP (\<lambda>t. ([], False, Some t)) (parseTypeExpr (k_fuel K)) s
      else POk ([], False, None) s)"

definition parseArrayDestructDecl :: "knots \<Rightarrow> Pos \<Rightarrow> Node parser" where
  "parseArrayDestructDecl K p s =
     bindP (itemsUntil (k_fuel K) RBRACKET destructName (skipTok COMMA)) (\<lambda>names.
     bindP (expectP RBRACKET) (\<lambda>_ s.
       let restCount = length (filter isRestName names) in
       case misplacedRest names of
         Some n \<Rightarrow> errorf ''rest element '...%s' must be the last in destructuring pattern'' [drop 3 n] s
       | None \<Rightarrow>
           if restCount > 0 \<and> length names \<noteq> 2 then
             errorf ''rest destructuring requires exactly 2 elements (one name + one ...rest)'' [] s
           else
             bindP (destructTypes K) (\<lambda>(elemTypes, isAny, namedType) s.
               let nonRestCount = length names - restCount in
               if length elemTypes > 1 \<and> length elemTypes \<noteq> nonRestCount then
                 errorf ''number of per-slot types (%d) must match number of variables (%d)''
                   [sprintf_d (int (length elemTypes)), sprintf_d (int nonRestCount)] s
               else mapP (\<lambda>val. NDecl p (ArrayDestructDecl names elemTypes isAny namedType val)) (initValue K) s) s)) (advanceP s)"

text \<open>One field of a struct destructuring: its name, the variable, and whether that is an alias.\<close>

definition destructField :: "(string \<times> string \<times> bool) parser" where
  "destructField =
     bindP (expectP IDENT) (\<lambda>nameTok s.
       if checkP COLON s then mapP (\<lambda>v. (tok_Literal nameTok, tok_Literal v, True)) (expectP IDENT) (advanceP s)
       else POk (tok_Literal nameTok, tok_Literal nameTok, False) s)"

definition parseStructDestructDecl :: "knots \<Rightarrow> Pos \<Rightarrow> Node parser" where
  "parseStructDestructDecl K p s =
     bindP (itemsUntil (k_fuel K) RBRACE destructField (skipTok COMMA)) (\<lambda>fields.
     bindP (expectP RBRACE) (\<lambda>_.
     bindP (parseTypeExpr (k_fuel K)) (\<lambda>structType.
     mapP (\<lambda>val. NDecl p (StructDestructDecl (map fst fields)
         (if list_ex (snd \<circ> snd) fields then map (fst \<circ> snd) fields else []) (Some structType) val)) (initValue K)))) (advanceP s)"

definition parseTupleDestructDecl :: "knots \<Rightarrow> bool \<Rightarrow> Pos \<Rightarrow> Node parser" where
  "parseTupleDestructDecl K isConst p s =
     bindP (itemsUntil (k_fuel K) RPAREN (mapP tok_Literal (expectP IDENT)) (skipTok COMMA)) (\<lambda>names.
     bindP (expectP RPAREN) (\<lambda>_.
     mapP (\<lambda>val. NDecl p (TupleDestructDecl isConst names val)) (initValue K))) (advanceP s)"

definition parseLetStmt :: "knots \<Rightarrow> Node parser" where
  "parseLetStmt K s0 =
     (let p = curPos s0; isConst = checkP KW_CONST s0; s = advanceP s0 in
      if checkP LBRACKET s then parseArrayDestructDecl K p s
      else if checkP LBRACE s then parseStructDestructDecl K p s
      else if checkP LPAREN s then parseTupleDestructDecl K isConst p s
      else mapP (\<lambda>(name, typ, val). NDecl p (VarDecl isConst name typ val)) (binding K) s)"

end
