(* ===== verification/TinParseFlow.thy ===== *)
theory TinParseFlow
  imports TinParseStmt
begin

text \<open>
  The statements of the control flow (\<^verbatim>\<open>src/parser/stmts.go\<close>, \<^verbatim>\<open>stmts_expr.go\<close>, \<^verbatim>\<open>stmts_for_match.go\<close>,
  \<^verbatim>\<open>stmts_spawn.go\<close>): return, defer, echo, if, for, match, await match, spawn, assignments.
\<close>

section \<open>Simple statements\<close>

definition parseReturnStmt :: "knots \<Rightarrow> Node parser" where
  "parseReturnStmt K s =
     (let p = curPos s; s = advanceP s in
      if matchP [NEWLINE, DEDENT, EOF, SEMI] s then POk (NStmt p (ReturnStmt None)) s
      else mapP (\<lambda>val. NStmt p (ReturnStmt (Some val))) (k_parseExpr K) s)"

definition parseEchoStmt :: "knots \<Rightarrow> Node parser" where
  "parseEchoStmt K s = mapP (\<lambda>val. NStmt (curPos s) (EchoStmt val)) (k_parseExpr K) (advanceP s)"

definition parseDoBlock :: "knots \<Rightarrow> Node parser" where
  "parseDoBlock K s0 =
     (let (tags, s) = parseTags (advanceP s0) in
      bindP (expectP COLON) (\<lambda>_.
      mapP (\<lambda>body. if tags = [] then NBlock body else NStmt (curPos s0) (TaggedBlock tags body)) (parseColonBody K)) s)"

definition mkCall :: "Pos \<Rightarrow> Node \<Rightarrow> Node list \<Rightarrow> Node" where
  "mkCall p f args = NExpr p (CallExpr f [] args False)"

fun isLambda :: "Node \<Rightarrow> bool" where
  "isLambda (NExpr _ (LambdaExpr _ _ _ _ _)) = True"
| "isLambda _ = False"

definition parseDeferStmt :: "knots \<Rightarrow> Node parser" where
  "parseDeferStmt K s =
     (let s = advanceP s in
      if checkP KW_DO s then
        bindP (expectP COLON) (\<lambda>_.
        mapP (\<lambda>body. NStmt noPos (DeferStmt (mkCall noPos (NExpr noPos (LambdaExpr [] [] None (NBlock body) [])) []))) (colonBlock K))
          (advanceP s)
      else mapP (\<lambda>call. NStmt noPos (DeferStmt (if isLambda call then mkCall noPos call [] else call))) (k_parseExpr K) s)"

definition spawnBody :: "knots \<Rightarrow> Node Block option parser" where
  "spawnBody K s =
     (if checkP NEWLINE s then (let s = advanceP s in if checkP INDENT s then mapP Some (parseBlock K) s else POk None s)
      else mapP (\<lambda>stmt. Some (blockOf [orNil stmt])) (k_parseStatement K) s)"

definition parseSpawnExpr :: "knots \<Rightarrow> Node parser" where
  "parseSpawnExpr K s =
     (let s = advanceP s in
      if checkP KW_DO s then
        bindP (expectP COLON) (\<lambda>_. mapP (\<lambda>block. NExpr noPos (SpawnExpr None block)) (spawnBody K)) (advanceP s)
      else mapP (\<lambda>call. NExpr noPos (SpawnExpr (Some call) None)) (k_parseExpr K) s)"

definition parseSpawnExprStmt :: "knots \<Rightarrow> Node parser" where
  "parseSpawnExprStmt K = mapP (\<lambda>e. NStmt noPos (ExprStmt e)) (parseSpawnExpr K)"

definition augOp :: "TokenType \<Rightarrow> string option" where
  "augOp t =
     map_of [(PLUSEQ, ''+=''), (MINUSEQ, ''-=''), (STAREQ, ''*=''), (SLASHEQ, ''/=''), (PERCENTEQ, ''%=''), (APPENDEQ, ''++='')] t"

definition parseExprStatement :: "knots \<Rightarrow> Node parser" where
  "parseExprStatement K =
     bindP (k_parseExpr K) (\<lambda>expr s.
       if checkP INC s then POk (NStmt (node_Pos expr) (PostfixStmt expr (tok_Literal (peekP s)))) (advanceP s)
       else if checkP ASSIGN s then mapP (\<lambda>val. NStmt (node_Pos expr) (AssignStmt expr val)) (k_parseExpr K) (advanceP s)
       else
         (case augOp (tok_Type (peekP s)) of
            Some aug \<Rightarrow> mapP (\<lambda>val. NStmt (node_Pos expr) (AugAssignStmt expr aug val)) (k_parseExpr K) (advanceP s)
          | None \<Rightarrow> POk (NStmt noPos (ExprStmt expr)) s))"

section \<open>If\<close>

text \<open>The loop over \<open>else if\<close> and \<open>else\<close>.\<close>

definition elseStep :: "knots \<Rightarrow> Node ElseIfClause list \<Rightarrow> (Node ElseIfClause list + Node ElseIfClause list \<times> Node Block option) parser" where
  "elseStep K elifs s =
     (if \<not> checkP KW_ELSE s then POk (Inr (elifs, None)) s
      else
        (let s = advanceP s in
         if checkP KW_IF s then
           bindP (k_parseExpr K) (\<lambda>cond.
           bindP (expectP COLON) (\<lambda>_.
           bindP (colonBlock K) (\<lambda>body s. POk (Inl (elifs @ [ElseIfClause cond body])) (skipNewlines s)))) (advanceP s)
         else bindP (expectP COLON) (\<lambda>_. mapP (\<lambda>body. Inr (elifs, Some body)) (colonBlock K)) s))"

definition parseIfStmt :: "knots \<Rightarrow> Node parser" where
  "parseIfStmt K s0 =
     bindP (k_parseExpr K) (\<lambda>cond.
     bindP (expectP COLON) (\<lambda>_.
     bindP (colonBlock K) (\<lambda>thenBlock s.
     mapP (\<lambda>(elifs, els). NStmt (curPos s0) (IfStmt cond thenBlock elifs els)) (loopP (k_fuel K) (elseStep K) [])
       (skipNewlines s)))) (advanceP s0)"

section \<open>For\<close>

definition forBody :: "knots \<Rightarrow> (Node Block option \<Rightarrow> Node) \<Rightarrow> Node parser" where
  "forBody K mk = bindP (expectP COLON) (\<lambda>_. mapP (\<lambda>body. mk (Some body)) (colonBlock K))"

text \<open>The header after \<open>for let name [type]\<close>: kind, initializer, condition, post statement and iterable.\<close>

definition condAndPost :: "knots \<Rightarrow> Node option \<Rightarrow> (ForKind \<times> Node option \<times> Node option \<times> Node option \<times> Node option) parser" where
  "condAndPost K init =
     bindP (k_parseExpr K) (\<lambda>cond.
     bindP (expectP SEMI) (\<lambda>_.
     mapP (\<lambda>post. (ForCStyle, init, Some cond, Some post, None)) (parseExprStatement K)))"

definition forLetHeader ::
  "knots \<Rightarrow> string \<Rightarrow> TypeExpr option \<Rightarrow> (ForKind \<times> Node option \<times> Node option \<times> Node option \<times> Node option) parser" where
  "forLetHeader K name typ s =
     (if checkP SEMI s then condAndPost K None (advanceP s)
      else if checkP KW_IN s then mapP (\<lambda>iter. (ForIn, None, None, None, Some iter)) (k_parseExpr K) (advanceP s)
      else if checkP ASSIGN s then
        bindP (k_parseExpr K) (\<lambda>initExpr s.
          if checkP SEMI s then condAndPost K (Some (NDecl noPos (VarDecl False name typ (Some initExpr)))) (advanceP s)
          else POk (ForIn, None, None, None, Some initExpr) s) (advanceP s)
      else POk (ForCStyle, None, None, None, None) s)"

definition parseForStmt :: "knots \<Rightarrow> Node parser" where
  "parseForStmt K s0 =
     (let p = curPos s0; s = advanceP s0 in
      if checkP KW_REF s then
        bindP (expectP IDENT) (\<lambda>nameTok.
        bindP (expectP KW_IN) (\<lambda>_.
        bindP (k_parseExpr K) (\<lambda>iter.
        forBody K (\<lambda>body. NStmt p (ForStmt ForIn (tok_Literal nameTok) None True None None None (Some iter) body))))) (advanceP s)
      else if \<not> checkP KW_LET s \<and> checkP IDENT s \<and> (nextIs 1 KW_IN s \<or> nextIs 2 KW_IN s) then
        (let name = tok_Literal (peekP s) in
         bindP (whenP (\<lambda>s. \<not> checkP KW_IN s) (parseTypeExpr (k_fuel K))) (\<lambda>typ.
         bindP (expectP KW_IN) (\<lambda>_.
         bindP (k_parseExpr K) (\<lambda>iter.
         forBody K (\<lambda>body. NStmt p (ForStmt ForIn name typ False None None None (Some iter) body))))) (advanceP s))
      else if \<not> checkP KW_LET s then
        bindP (k_parseExpr K) (\<lambda>cond.
        forBody K (\<lambda>body. NStmt p (ForStmt ForWhile [] None False None (Some cond) None None body))) s
      else
        bindP (expectP IDENT) (\<lambda>nameTok.
        bindP (whenP (\<lambda>s. \<not> matchP [SEMI, KW_IN, ASSIGN, COLON] s) (parseTypeExpr (k_fuel K))) (\<lambda>typ.
        bindP (forLetHeader K (tok_Literal nameTok) typ) (\<lambda>(kind, init, cond, post, iter).
        forBody K (\<lambda>body. NStmt p (ForStmt kind (tok_Literal nameTok) typ False init cond post iter body))))) (advanceP s))"

section \<open>Match\<close>

text \<open>The pattern of a case: pattern, variable and its type.  An error in an expression that starts with an identifier is ignored.\<close>

definition casePattern :: "knots \<Rightarrow> (Node option \<times> string \<times> TypeExpr option) parser" where
  "casePattern K s =
     (if checkP LBRACKET s then mapP (\<lambda>n. (Some n, [], None)) (parseArrayPattern K) s
      else if checkP IDENT s \<and> nextIs 1 LBRACE s then mapP (\<lambda>n. (Some n, [], None)) (parseStructPattern K) s
      else
        (let nextIsUserType = (checkP IDENT s \<and> nextIs 1 IDENT s \<and> nextIs 2 COLON s) in
         if checkP IDENT s \<and> \<not> isTypeKeyword (peekAtP 1 s) \<and> \<not> nextIsUserType then
           mapP (\<lambda>n. (n, [], None)) (ignoreErr None (mapP Some (k_parseExpr K))) s
         else if checkP IDENT s then
           mapP (\<lambda>t. (None, tok_Literal (peekP s), t))
             (whenP (\<lambda>s. \<not> matchP [COLON, NEWLINE] s) (parseTypeExpr (k_fuel K))) (advanceP s)
         else mapP (\<lambda>n. (Some n, [], None)) (k_parseExpr K) s))"

text \<open>The body of a case: a block, nothing, or a statement on the same line, which \<open>mk\<close> turns into the body.\<close>

definition armBody :: "knots \<Rightarrow> (Node option \<Rightarrow> Node Block) \<Rightarrow> Node Block parser" where
  "armBody K mk s =
     (if checkP NEWLINE s then
        (let s = skipNewlines (advanceP s) in if checkP INDENT s then parseBlock K s else POk nilBlock s)
      else if \<not> checkP EOF s \<and> \<not> checkP KW_CASE s \<and> \<not> checkP KW_DEFAULT s then mapP mk (k_parseStatement K) s
      else POk nilBlock s)"

definition parseMatchCase :: "knots \<Rightarrow> Node MatchCase parser" where
  "parseMatchCase K s =
     bindP (expectP KW_CASE) (\<lambda>_.
     bindP (casePattern K) (\<lambda>(pattern, varName, varType).
     bindP (guardP K) (\<lambda>guard.
     bindP (expectP COLON) (\<lambda>_.
     mapP (MatchCase (curPos s) pattern varName varType guard) (armBody K (\<lambda>stmt. blockOf [orNil stmt])))))) s"

text \<open>The default arm; the previous default stays when there is no body.\<close>

definition defaultArm :: "knots \<Rightarrow> Node Block option \<Rightarrow> Node Block option parser" where
  "defaultArm K old =
     bindP (expectP COLON) (\<lambda>_ s.
       if checkP NEWLINE s then
         (let s = skipNewlines (advanceP s) in if checkP INDENT s then mapP Some (parseBlock K) s else POk old s)
       else if \<not> checkP EOF s \<and> \<not> checkP DEDENT s then
         mapP (\<lambda>stmt. case stmt of Some x \<Rightarrow> Some (blockOf [x]) | None \<Rightarrow> old) (k_parseStatement K) s
       else POk old s)"

text \<open>The arms of a match between the indentation tokens: the cases, parsed by \<open>arm\<close>, and the default.\<close>

definition matchArms :: "knots \<Rightarrow> 'c parser \<Rightarrow> ('c list \<times> Node Block option) parser" where
  "matchArms K arm s =
     bindP (loopP (k_fuel K) (\<lambda>(cases, dflt) s.
       if checkP DEDENT s \<or> checkP EOF s then POk (Inr (cases, dflt)) s
       else if checkP KW_DEFAULT s then
         bindP (defaultArm K dflt) (\<lambda>d s. POk (Inl (cases, d)) (skipNewlines s)) (advanceP s)
       else if checkP KW_CASE s then bindP arm (\<lambda>c s. POk (Inl (cases @ [c], dflt)) (skipNewlines s)) s
       else POk (Inr (cases, dflt)) s) ([], None)) (\<lambda>r s. POk r (skipTok DEDENT s)) s"

fun isTypeAssert :: "Node \<Rightarrow> bool" where
  "isTypeAssert (NExpr _ (TypeAssertExpr _ _ isType)) = isType"
| "isTypeAssert _ = False"

definition parseMatchStmt :: "knots \<Rightarrow> Node parser" where
  "parseMatchStmt K s0 =
     bindP (k_parseExpr K) (\<lambda>expr.
     bindP (expectP COLON) (\<lambda>_ s.
       let s = skipNewlines (skipTok NEWLINE s); mk = (\<lambda>(cases, dflt). NStmt (curPos s0) (MatchStmt expr (isTypeAssert expr) cases dflt)) in
       if checkP INDENT s then mapP mk (matchArms K (parseMatchCase K)) (skipNewlines (advanceP s)) else POk (mk ([], None)) s))
       (advanceP s0)"

section \<open>Await match\<close>

text \<open>A list in parentheses with whitespace between the items.\<close>

definition spacedItems :: "nat \<Rightarrow> TokenType \<Rightarrow> 'a parser \<Rightarrow> 'a list parser" where
  "spacedItems n close item =
     loopP n (\<lambda>xs s.
       if checkP close s \<or> checkP EOF s then POk (Inr xs) s
       else
         (let s = skipWhitespace s in
          if checkP close s then POk (Inr xs) s
          else bindP item (\<lambda>x s. POk (Inl (xs @ [x])) (skipTok COMMA (skipWhitespace s))) s)) []"

text \<open>A slot of the pattern: a name, or \<open>None\<close> for \<open>_\<close>.\<close>

definition awaitSlot :: "string option parser" where
  "awaitSlot s =
     (if checkP IDENT s \<and> litIs ''_'' s then POk None (advanceP s)
      else if checkP IDENT s then POk (Some (tok_Literal (peekP s))) (advanceP s)
      else errAtTok (peekP s) ''unexpected token in await match pattern: %s'' [TokenType_String (tok_Type (peekP s))] s)"

definition bindSlots :: "string option list \<Rightarrow> (nat \<times> string) list" where
  "bindSlots slots = List.map_filter (\<lambda>(i, x). map_option (Pair i) x) (enumerate 0 slots)"

definition parseAwaitMatchCase :: "knots \<Rightarrow> nat \<Rightarrow> Node AwaitMatchCase parser" where
  "parseAwaitMatchCase K nFutures s0 =
     (let p = curPos s0 in
      bindP (expectP KW_CASE) (\<lambda>_ s.
        if \<not> checkP LPAREN s then errAtTok (peekP s) ''await match case must use a tuple pattern (...)'' [] s
        else
          bindP (spacedItems (k_fuel K) RPAREN awaitSlot) (\<lambda>slots.
          bindP (expectP RPAREN) (\<lambda>_.
            if length slots \<noteq> nFutures then
              errAt (Line p) (Col p) ''await match pattern length %d does not match futures tuple length %d''
                [sprintf_d (int (length slots)), sprintf_d (int nFutures)]
            else
              (case bindSlots slots of
                 [] \<Rightarrow> errAt (Line p) (Col p) ''await match case has no binding slot; use 'default:' for an unconditional arm'' []
               | [(i, name)] \<Rightarrow>
                   bindP (guardP K) (\<lambda>guard.
                   bindP (expectP COLON) (\<lambda>_.
                   mapP (AwaitMatchCase p (int i) name guard)
                     (armBody K (\<lambda>stmt. case stmt of Some x \<Rightarrow> blockOf [x] | None \<Rightarrow> nilBlock))))
               | _ \<Rightarrow> errAt (Line p) (Col p)
                   ''await match case must have exactly one binding slot; found multiple non-wildcard slots'' []))) (advanceP s)) s0)"

fun isGuarded :: "Node AwaitMatchCase \<Rightarrow> bool" where
  "isGuarded (AwaitMatchCase _ _ _ guard _) = (guard \<noteq> None)"

definition awaitMatchWarning :: "Token \<Rightarrow> Node AwaitMatchCase list \<times> Node Block option \<Rightarrow> Parser \<Rightarrow> Parser" where
  "awaitMatchWarning awaitTok arms s =
     (if snd arms = None \<and> \<not> ps_noWarnAwaitMatchGuards s \<and> fst arms \<noteq> [] \<and> list_all isGuarded (fst arms) then
        warnAt (tok_Line awaitTok) (tok_Col awaitTok) ''await-match-guards''
          ''every await match arm has a guard and there is no default arm - if all futures complete without a passing guard, the program will panic at runtime; hint: add a 'default:' arm or remove at least one guard'' s
      else s)"

definition parseAwaitMatchStmt :: "knots \<Rightarrow> Node parser" where
  "parseAwaitMatchStmt K s0 =
     (let awaitTok = peekP s0; s = advanceP (advanceP s0) in
      if \<not> checkP LPAREN s then
        errAtTok (peekP s) ''await match requires an inline tuple (...); variable and computed tuples are not yet supported'' [] s
      else
        bindP (spacedItems (k_fuel K) RPAREN (k_parseExpr K)) (\<lambda>futures.
        bindP (expectP RPAREN) (\<lambda>_ s.
          if futures = [] then errAtTok awaitTok ''await match requires at least one future in the tuple'' [] s
          else
            bindP (expectP COLON) (\<lambda>_ s.
              let s = skipNewlines (skipTok NEWLINE s) in
              if \<not> checkP INDENT s then errAtTok (peekP s) ''expected indented block after await match'' [] s
              else
                bindP (matchArms K (parseAwaitMatchCase K (length futures))) (\<lambda>arms s.
                  POk (NStmt noPos (AwaitMatchStmt futures (fst arms) (snd arms))) (awaitMatchWarning awaitTok arms s))
                  (skipNewlines (advanceP s))) s)) (advanceP s))"

end
