(* ===== verification/TinParseExpr.thy ===== *)
theory TinParseExpr
  imports TinParseFlow
begin

text \<open>
  Expressions (\<^verbatim>\<open>src/parser/exprs*.go\<close>) and the interpolation of strings (\<^verbatim>\<open>src/parser/types.go\<close>).
\<close>

section \<open>Integer literals\<close>

text \<open>
  \<open>strconv.ParseInt\<close> and \<open>ParseUint\<close> with base 0: the prefix chooses the base, and a leading \<open>0\<close> is octal.  The literal of a token has
  no separators, because the lexer drops them.
\<close>

definition digitVal :: "char \<Rightarrow> int" where
  "digitVal c =
     (let n = of_char c in
      if between 48 57 n then int n - 48 else if between 97 122 n then int n - 87 else if between 65 90 n then int n - 55 else 99)"

fun baseValue :: "int \<Rightarrow> int \<Rightarrow> string \<Rightarrow> int option" where
  "baseValue b acc [] = Some acc"
| "baseValue b acc (c # cs) = (if digitVal c < b then baseValue b (acc * b + digitVal c) cs else None)"

definition prefixBase :: "string \<Rightarrow> int option" where
  "prefixBase s =
     (case s of
        CHR ''0'' # c # _ \<Rightarrow>
          if c = CHR ''b'' \<or> c = CHR ''B'' then Some 2 else if c = CHR ''o'' \<or> c = CHR ''O'' then Some 8
          else if c = CHR ''x'' \<or> c = CHR ''X'' then Some 16 else None
      | _ \<Rightarrow> None)"

definition parseBase0 :: "string \<Rightarrow> int option" where
  "parseBase0 s =
     (case s of
        [] \<Rightarrow> None
      | CHR ''0'' # r \<Rightarrow>
          (case prefixBase s of
             Some b \<Rightarrow> if length s \<ge> 3 then baseValue b 0 (drop 2 s) else baseValue 8 0 r
           | None \<Rightarrow> baseValue 8 0 r)
      | _ \<Rightarrow> baseValue 10 0 s)"

text \<open>\<open>big.Int.SetString\<close> with the base of the prefix, 10 without one.\<close>

definition setString :: "int \<Rightarrow> string \<Rightarrow> int option" where
  "setString b s = (if s = [] then None else baseValue b 0 s)"

definition bigIntLit :: "string \<Rightarrow> int option" where
  "bigIntLit lit = (case prefixBase lit of Some b \<Rightarrow> setString b (drop 2 lit) | None \<Rightarrow> setString 10 lit)"

definition parseIntLitToken :: "string \<Rightarrow> Leaf" where
  "parseIntLitToken lit =
     (case parseBase0 lit of
        Some v \<Rightarrow>
          if v < 2 ^ 64 then IntLit (wrap64 v) None
          else (case bigIntLit lit of Some b \<Rightarrow> IntLit (wrap64 (b mod 2 ^ 64)) (Some b) | None \<Rightarrow> IntLit 0 None)
      | None \<Rightarrow> (case bigIntLit lit of Some b \<Rightarrow> IntLit (wrap64 (b mod 2 ^ 64)) (Some b) | None \<Rightarrow> IntLit 0 None))"

section \<open>Types written as expressions\<close>

definition joinScope :: "string list \<Rightarrow> string" where
  "joinScope path = commaJoin ''::'' path"

fun typeExprSourceForm :: "TypeExpr \<Rightarrow> string" where
  "typeExprSourceForm (SimpleType n) = n"
| "typeExprSourceForm (PointerType e _ _) = ''*'' @ typeExprSourceForm e"
| "typeExprSourceForm (ArrayType e n) = (if n < 0 then ''[]'' @ typeExprSourceForm e else [])"
| "typeExprSourceForm (GenericType n ps) = n @ ''['' @ commaJoin '','' (map typeExprSourceForm ps) @ '']''"
| "typeExprSourceForm (FuncType ps ret _ isAsync) =
     (if isAsync then ''fn#async'' else ''fn'') @ ''('' @ commaJoin '','' (map typeExprSourceForm ps) @ '')'' @
     (case ret of None \<Rightarrow> [] | Some r \<Rightarrow> if r = VoidType then [] else typeExprSourceForm r)"
| "typeExprSourceForm _ = []"

fun typeNodeToString :: "Node \<Rightarrow> string" where
  "typeNodeToString (NLeaf _ (Identifier n)) = n"
| "typeNodeToString (NLeaf _ (ScopeAccess path)) = joinScope path"
| "typeNodeToString (NExpr _ (IndexExpr e i)) =
     (let base = typeNodeToString e; arg = typeNodeToString i in
      if base = [] then [] else if arg = [] then [] else base @ ''['' @ arg @ '']'')"
| "typeNodeToString (NLeaf _ (TypeRefNode t)) = typeExprSourceForm t"
| "typeNodeToString _ = []"

fun splitComma :: "string \<Rightarrow> string list" where
  "splitComma [] = [[]]"
| "splitComma (c # cs) =
     (if c = CHR '','' then [] # splitComma cs else (case splitComma cs of w # ws \<Rightarrow> (c # w) # ws | [] \<Rightarrow> [[c]]))"

definition isSpace :: "char \<Rightarrow> bool" where
  "isSpace c \<longleftrightarrow> (of_char c :: nat) \<in> set [9, 10, 11, 12, 13, 32]"

definition trimSpace :: "string \<Rightarrow> string" where
  "trimSpace s = rev (dropWhile isSpace (rev (dropWhile isSpace s)))"

definition splitTypes :: "string \<Rightarrow> TypeExpr list" where
  "splitTypes names = map (\<lambda>part. SimpleType (trimSpace part)) (splitComma names)"

fun typeName :: "Node \<Rightarrow> string option" where
  "typeName (NLeaf _ (Identifier n)) = Some n"
| "typeName (NLeaf _ (ScopeAccess path)) = Some (joinScope path)"
| "typeName _ = None"

fun typeNodeToTypeExpr :: "Node \<Rightarrow> TypeExpr option" where
  "typeNodeToTypeExpr (NLeaf _ (Identifier n)) = Some (SimpleType n)"
| "typeNodeToTypeExpr (NLeaf _ (ScopeAccess path)) = Some (SimpleType (joinScope path))"
| "typeNodeToTypeExpr (NLeaf _ (TypeRefNode t)) = Some t"
| "typeNodeToTypeExpr (NExpr _ (IndexExpr e i)) =
     (case typeName e of
        None \<Rightarrow> None
      | Some baseName \<Rightarrow>
          if baseName = [] then None
          else (case asIdent i of
                  Some n \<Rightarrow>
                    if CHR '','' \<in> set n then Some (GenericType baseName (splitTypes n))
                    else map_option (\<lambda>t. GenericType baseName [t]) (typeNodeToTypeExpr i)
                | None \<Rightarrow> map_option (\<lambda>t. GenericType baseName [t]) (typeNodeToTypeExpr i)))"
| "typeNodeToTypeExpr _ = None"

text \<open>The type arguments of an index expression; its index is the argument here.\<close>

definition indexExprTypeArgs :: "Node \<Rightarrow> TypeExpr list" where
  "indexExprTypeArgs index =
     (case asIdent index of
        Some n \<Rightarrow> splitTypes n
      | None \<Rightarrow> (case typeNodeToTypeExpr index of Some t \<Rightarrow> [t] | None \<Rightarrow> []))"

section \<open>String interpolation\<close>

text \<open>The index of the format colon, which is not part of \<open>::\<close>; the argument counts the characters before.\<close>

fun findFormatColon :: "nat \<Rightarrow> string \<Rightarrow> nat option" where
  "findFormatColon i [] = None"
| "findFormatColon i [c] = (if c = CHR '':'' then Some i else None)"
| "findFormatColon i (c # d # cs) =
     (if c = CHR '':'' then (if d = CHR '':'' then findFormatColon (i + 2) cs else Some i) else findFormatColon (i + 1) (d # cs))"

definition splitFormat :: "string \<Rightarrow> string \<times> string" where
  "splitFormat exprSrc =
     (case findFormatColon 0 exprSrc of Some i \<Rightarrow> (take i exprSrc, drop (i + 1) exprSrc) | None \<Rightarrow> (exprSrc, []))"

text \<open>\<open>strings.ReplaceAll(s, "\\{", "{")\<close>, and the same for the closing brace.\<close>

fun unescape :: "char \<Rightarrow> string \<Rightarrow> string" where
  "unescape brace [] = []"
| "unescape brace [c] = [c]"
| "unescape brace (c # d # cs) =
     (if c = CHR 0x5C \<and> d = brace then brace # unescape brace cs else c # unescape brace (d # cs))"

definition unescapeBraces :: "string \<Rightarrow> string" where
  "unescapeBraces s = unescape (CHR ''}'') (unescape (CHR ''{'') s)"

text \<open>The expression of a slot, in a parser of its own.\<close>

definition interpExpr :: "knots \<Rightarrow> string \<Rightarrow> Node parser" where
  "interpExpr K exprSrc s =
     (case Tokenize (k_tables K) (decodeUtf8 exprSrc) of
        None \<Rightarrow> PDiverge
      | Some (Inl e) \<Rightarrow> PErr (ErrLexer ''interpolation error in {%s}: %w'' [exprSrc] e) s
      | Some (Inr toks) \<Rightarrow>
          (case k_parseExpr K (NewP toks ''<interp>'') of
             POk expr _ \<Rightarrow> POk expr s
           | PErr e _ \<Rightarrow> PErr (ErrParser ''interpolation error in {%s}: %w'' [exprSrc] e) s
           | PDiverge \<Rightarrow> PDiverge))"

definition litPart :: "string \<Rightarrow> Node StringPart" where
  "litPart str = StringPart False str None []"

definition exprPart :: "knots \<Rightarrow> string \<Rightarrow> Node StringPart parser" where
  "exprPart K slot =
     (let (exprSrc, fmtSpec) = splitFormat slot in mapP (\<lambda>e. StringPart True [] (Some e) fmtSpec) (interpExpr K exprSrc))"

fun isExprPart :: "Node StringPart \<Rightarrow> bool" where
  "isExprPart (StringPart b _ _ _) = b"

fun partText :: "Node StringPart \<Rightarrow> string" where
  "partText (StringPart _ str _ _) = str"

text \<open>One round: the text that is left, and the parts so far.  Every round but the last shortens the text.\<close>

definition interpStep ::
  "knots \<Rightarrow> string \<times> Node StringPart list \<Rightarrow> ((string \<times> Node StringPart list) + Node StringPart list) parser" where
  "interpStep K acc s =
     (let (text, parts) = acc; pre = takeWhile (\<lambda>c. c \<noteq> CHR ''{'') text; rest = drop (length pre + 1) text in
      if text = [] then POk (Inr parts) s
      else if pre = text then POk (Inr (parts @ [litPart (unescapeBraces text)])) s
      else if pre \<noteq> [] \<and> last pre = CHR 0x5C then
        POk (Inl (rest, parts @ [litPart (unescapeBraces (butlast pre) @ ''{'')])) s
      else
        (let parts = (if pre \<noteq> [] then parts @ [litPart (unescapeBraces pre)] else parts);
             slot = takeWhile (\<lambda>c. c \<noteq> CHR ''}'') rest in
         if slot = rest then POk (Inr (parts @ [litPart (''{'' @ rest)])) s
         else mapP (\<lambda>part. Inl (drop (length slot + 1) rest, parts @ [part])) (exprPart K slot) s))"

definition interpolated :: "Node StringPart list \<Rightarrow> Node" where
  "interpolated parts =
     (if list_all (\<lambda>p. \<not> isExprPart p) parts then NLeaf noPos (StringLit (concat (map partText parts)))
      else NExpr noPos (InterpolatedString parts))"

definition parseStringInterp :: "knots \<Rightarrow> string \<Rightarrow> Node parser" where
  "parseStringInterp K text s =
     (if CHR ''{'' \<notin> set text then POk (NLeaf noPos (StringLit (unescapeBraces text))) s
      else mapP interpolated (loopP (length text + 1) (interpStep K) (text, [])) s)"

text \<open>
  \<open>ParseBacktickInterp\<close>: a brace after a character of an identifier is text, and braces nest.  The state is the text that is left,
  the last character before it, the literal text not yet flushed and the parts.
\<close>

definition isIdentCont :: "char \<Rightarrow> bool" where
  "isIdentCont c \<longleftrightarrow> (let n = of_char c in between 97 122 n \<or> between 65 90 n \<or> between 48 57 n \<or> c = CHR ''_'')"

definition flushLiteral :: "string \<Rightarrow> Node StringPart list \<Rightarrow> Node StringPart list" where
  "flushLiteral lit parts = (if lit \<noteq> [] then parts @ [litPart lit] else parts)"

text \<open>The text up to the brace that closes depth \<open>d\<close>, and the text after it.\<close>

fun matchBrace :: "nat \<Rightarrow> string \<Rightarrow> (string \<times> string) option" where
  "matchBrace d [] = None"
| "matchBrace d (c # cs) =
     (if c = CHR ''}'' \<and> d = 1 then Some ([], cs)
      else map_option (\<lambda>(slot, rest). (c # slot, rest))
             (matchBrace (if c = CHR ''{'' then d + 1 else if c = CHR ''}'' then d - 1 else d) cs))"

definition backtickStep ::
  "knots \<Rightarrow> string \<times> char option \<times> string \<times> Node StringPart list \<Rightarrow>
   ((string \<times> char option \<times> string \<times> Node StringPart list) + Node StringPart list) parser" where
  "backtickStep K acc s =
     (let (text, prev, lit, parts) = acc in
      case text of
        [] \<Rightarrow> POk (Inr (flushLiteral lit parts)) s
      | c # cs \<Rightarrow>
          if c = CHR 0x5C \<and> cs \<noteq> [] \<and> (hd cs = CHR ''{'' \<or> hd cs = CHR ''}'') then
            POk (Inl (tl cs, Some (hd cs), [], flushLiteral lit parts @ [litPart [hd cs]])) s
          else if c \<noteq> CHR ''{'' \<or> (prev \<noteq> None \<and> isIdentCont (the prev)) then POk (Inl (cs, Some c, lit @ [c], parts)) s
          else
            (case matchBrace 1 cs of
               None \<Rightarrow> POk (Inr (flushLiteral text (flushLiteral lit parts))) s
             | Some (slot, rest) \<Rightarrow>
                 mapP (\<lambda>part. Inl (rest, Some (CHR ''}''), [], flushLiteral lit parts @ [part])) (exprPart K slot) s))"

definition ParseBacktickInterp :: "knots \<Rightarrow> string \<Rightarrow> Node parser" where
  "ParseBacktickInterp K text s =
     (if CHR ''{'' \<notin> set text then POk (NLeaf noPos (StringLit text)) s
      else
        mapP (\<lambda>parts.
          case parts of
            [] \<Rightarrow> NLeaf noPos (StringLit text)
          | [p] \<Rightarrow> if isExprPart p then NExpr noPos (InterpolatedString parts) else NLeaf noPos (StringLit (partText p))
          | _ \<Rightarrow> NExpr noPos (InterpolatedString parts))
          (loopP (length text + 1) (backtickStep K) (text, None, [], [])) s)"

section \<open>Literals and lists\<close>

definition skipSpaced :: "Parser \<Rightarrow> Parser" where
  "skipSpaced s = skipSeparator (skipWhitespace s)"

definition parseArgList :: "knots \<Rightarrow> Node list parser" where
  "parseArgList K =
     bindP (expectP LPAREN) (\<lambda>_ s.
     bindP (itemsUntil (k_fuel K) RPAREN (k_parseExpr K) skipSpaced) (\<lambda>args.
     bindP (expectP RPAREN) (\<lambda>_. returnP args)) (skipWhitespace s))"

definition commaThenSpace :: "Parser \<Rightarrow> Parser" where
  "commaThenSpace s = skipWhitespace (skipTok COMMA s)"

definition parseArrayLit :: "knots \<Rightarrow> Node parser" where
  "parseArrayLit K s =
     (let s = skipWhitespace (advanceP s) in
      if checkP RBRACKET s then POk (NExpr noPos (ArrayLit [])) (advanceP s)
      else
        bindP (k_parseExpr K) (\<lambda>first s.
          if checkP SEMI s then
            bindP (expectP INT_LIT) (\<lambda>countTok.
            bindP (expectP RBRACKET) (\<lambda>_. returnP (NExpr noPos (ArrayFillLit first (atoi (tok_Literal countTok)))))) (advanceP s)
          else
            bindP (itemsUntil (k_fuel K) RBRACKET (k_parseExpr K) commaThenSpace) (\<lambda>elems.
            bindP (expectP RBRACKET) (\<lambda>_. returnP (NExpr noPos (ArrayLit (first # elems))))) (commaThenSpace s)) s)"

text \<open>An element of a struct literal: \<open>name: value\<close>, or a value.\<close>

definition structLitItem :: "knots \<Rightarrow> (Node StructLitField + Node) parser" where
  "structLitItem K s =
     (if checkP IDENT s \<and> nextIs 1 COLON s then
        mapP (\<lambda>val. Inl (StructLitField (tok_Literal (peekP s)) val)) (k_parseExpr K) (advanceP (advanceP s))
      else mapP Inr (k_parseExpr K) s)"

definition lefts :: "('a + 'b) list \<Rightarrow> 'a list" where
  "lefts xs = List.map_filter (\<lambda>x. case x of Inl a \<Rightarrow> Some a | Inr _ \<Rightarrow> None) xs"

definition rights :: "('a + 'b) list \<Rightarrow> 'b list" where
  "rights xs = List.map_filter (\<lambda>x. case x of Inl _ \<Rightarrow> None | Inr b \<Rightarrow> Some b) xs"

text \<open>\<open>parseStructLit\<close>; the type arguments are those the caller sets on the literal.\<close>

definition parseStructLit :: "knots \<Rightarrow> string \<Rightarrow> TypeExpr list \<Rightarrow> Node parser" where
  "parseStructLit K name typeArgs s =
     bindP (itemsUntil (k_fuel K) RBRACE (structLitItem K) commaThenSpace) (\<lambda>items.
     bindP (expectP RBRACE) (\<lambda>_. returnP (NExpr (curPos s) (StructLit name typeArgs (lefts items) (rights items)))))
       (skipWhitespace (advanceP s))"

definition maybeWrapSuffix :: "knots \<Rightarrow> Node \<Rightarrow> Pos \<Rightarrow> Node parser" where
  "maybeWrapSuffix K lit p s0 =
     (if \<not> checkP SUFFIX_IDENT s0 then POk lit s0
      else
        (let suf = tok_Literal (peekP s0); s = advanceP s0; mk = (\<lambda>extra. NExpr p (SuffixCallExpr suf lit extra)) in
         if checkP LPAREN s then
           bindP (itemsUntil (k_fuel K) RPAREN (k_parseExpr K) (skipTok COMMA)) (\<lambda>extra.
           bindP (expectP RPAREN) (\<lambda>_. returnP (mk extra))) (advanceP s)
         else POk (mk []) s))"

section \<open>Primary expressions\<close>

text \<open>\<open>keyword ( type )\<close> and \<open>keyword ( expr, expr, ... )\<close>.\<close>

definition typeOperand :: "knots \<Rightarrow> (TypeExpr \<Rightarrow> Node) \<Rightarrow> Node parser" where
  "typeOperand K mk =
     bindP (expectP LPAREN) (\<lambda>_.
     bindP (parseTypeExpr (k_fuel K)) (\<lambda>typ.
     bindP (expectP RPAREN) (\<lambda>_. returnP (mk typ))))"

definition unaryOperand :: "knots \<Rightarrow> (Node \<Rightarrow> Node Expr) \<Rightarrow> Node parser" where
  "unaryOperand K mk =
     bindP (expectP LPAREN) (\<lambda>_.
     bindP (k_parseExpr K) (\<lambda>inner.
     bindP (expectP RPAREN) (\<lambda>_. returnP (NExpr noPos (mk inner)))))"

definition binaryOperand :: "knots \<Rightarrow> (Node \<Rightarrow> Node \<Rightarrow> Node Expr) \<Rightarrow> Node parser" where
  "binaryOperand K mk =
     bindP (expectP LPAREN) (\<lambda>_.
     bindP (k_parseExpr K) (\<lambda>expr.
     bindP (expectP COMMA) (\<lambda>_.
     bindP (k_parseExpr K) (\<lambda>field.
     bindP (expectP RPAREN) (\<lambda>_. returnP (NExpr noPos (mk expr field)))))))"

definition ternaryOperand :: "knots \<Rightarrow> (Node \<Rightarrow> Node \<Rightarrow> Node \<Rightarrow> Node Expr) \<Rightarrow> Node parser" where
  "ternaryOperand K mk =
     bindP (expectP LPAREN) (\<lambda>_.
     bindP (k_parseExpr K) (\<lambda>expr.
     bindP (expectP COMMA) (\<lambda>_.
     bindP (k_parseExpr K) (\<lambda>field.
     bindP (expectP COMMA) (\<lambda>_.
     bindP (k_parseExpr K) (\<lambda>val.
     bindP (expectP RPAREN) (\<lambda>_. returnP (NExpr noPos (mk expr field val)))))))))"

definition parseDefault :: "knots \<Rightarrow> Node parser" where
  "parseDefault K =
     bindP (expectP LPAREN) (\<lambda>_ s.
       if checkP KW_TYPEOF s then
         bindP (k_parseExpr K) (\<lambda>inner. bindP (expectP RPAREN) (\<lambda>_. returnP (NExpr noPos (DefaultExpr None (Some inner))))) s
       else
         bindP (parseTypeExpr (k_fuel K)) (\<lambda>typ. bindP (expectP RPAREN) (\<lambda>_. returnP (NExpr noPos (DefaultExpr (Some typ) None)))) s)"

text \<open>\<open>@'X'\<close> and \<open>@N\<close>.\<close>

definition parseAt :: "Node parser" where
  "parseAt s =
     (let next = peekP s; l = tok_Literal next in
      if tok_Type next = CHAR_LIT then POk (NLeaf noPos (CharLit (case l of c # _ \<Rightarrow> of_char c | [] \<Rightarrow> 0))) (advanceP s)
      else if tok_Type next = INT_LIT then POk (NLeaf noPos (parseIntLitToken l)) (advanceP s)
      else errAtTok next (CHR 0x27 # ''@'' @ CHR 0x27 # '' must be followed by a char or integer literal, got %q'') [l] s)"

text \<open>The postfix casts are allowed again between parentheses; the counter is restored on return.\<close>

definition withCasts :: "'a parser \<Rightarrow> 'a parser" where
  "withCasts f s =
     (case f (s\<lparr>ps_suppressPostfixCast := 0\<rparr>) of
        POk x s' \<Rightarrow> POk x (s'\<lparr>ps_suppressPostfixCast := ps_suppressPostfixCast s\<rparr>)
      | PErr e s' \<Rightarrow> PErr e (s'\<lparr>ps_suppressPostfixCast := ps_suppressPostfixCast s\<rparr>)
      | PDiverge \<Rightarrow> PDiverge)"

definition parseBlockStmts :: "knots \<Rightarrow> Node list \<Rightarrow> Node parser" where
  "parseBlockStmts K first =
     bindP (loopP (k_fuel K) (\<lambda>stmts s.
       if checkP RPAREN s \<or> checkP EOF s then POk (Inr stmts) s
       else if checkP SEMI s \<or> checkP NEWLINE s then POk (Inl stmts) (advanceP s)
       else mapP (\<lambda>stmt. Inl (stmts @ stmtList stmt)) (k_parseStatement K) s) first) (\<lambda>stmts.
     bindP (expectP RPAREN) (\<lambda>_. returnP (NBlock (blockOf stmts))))"

definition parseParens :: "knots \<Rightarrow> Node parser" where
  "parseParens K s =
     (if matchP [KW_LET, KW_RETURN, KW_DEFER, KW_FOR] s then parseBlockStmts K [] s
      else
        bindP (k_parseExpr K) (\<lambda>inner s.
          if checkP SEMI s then parseBlockStmts K [NStmt noPos (ExprStmt inner)] (advanceP s)
          else if checkP COMMA s then
            bindP (itemsWhile (k_fuel K) COMMA (k_parseExpr K) [inner]) (\<lambda>elems.
            bindP (expectP RPAREN) (\<lambda>_. returnP (NExpr noPos (TupleLit elems)))) s
          else bindP (expectP RPAREN) (\<lambda>_. returnP inner) s) s)"

text \<open>
  An identifier: a try expression, a struct literal, a generic struct literal (tried first, and undone when no brace follows), or
  the name.
\<close>

definition parseIdentifier :: "knots \<Rightarrow> Node parser" where
  "parseIdentifier K s0 =
     (let tok = peekP s0; name = tok_Literal tok; s = advanceP s0; ident = NLeaf (tokPos tok) (Identifier name) in
      if tok_Type tok = IDENT \<and> name = ''try'' \<and> \<not> nextIs 1 NOT s0 then
        mapP (\<lambda>inner. NExpr (tokPos tok) (TryExpr inner)) (k_parseExpr K) s
      else if checkP LBRACE s then parseStructLit K name [] s
      else if checkP LBRACKET s then
        (case parseTypeArgList (k_fuel K) s of
           POk typeArgs s' \<Rightarrow>
             if checkP LBRACE s' then parseStructLit K name typeArgs s' else POk ident (s'\<lparr>ps_pos := ps_pos s\<rparr>)
         | PErr _ s' \<Rightarrow> POk ident (s'\<lparr>ps_pos := ps_pos s\<rparr>)
         | PDiverge \<Rightarrow> PDiverge)
      else POk ident s)"

text \<open>\<open>move name\<close> and \<open>ref name\<close>: the keyword, the node, and the two messages.\<close>

definition bareName :: "Token \<Rightarrow> (string \<Rightarrow> Leaf) \<Rightarrow> string \<Rightarrow> string \<Rightarrow> Node parser" where
  "bareName kwTok mk errIdent errPartial s =
     (let idTok = peekP s in
      if tok_Type idTok \<noteq> IDENT then errAtTok idTok errIdent [TokenType_String (tok_Type idTok)] s
      else
        (let s = advanceP s; t = TokenType_String (tok_Type (peekP s)) in
         if matchP [DOT, LBRACKET, LPAREN] s then errAtTok (peekP s) errPartial [tok_Literal idTok, t, tok_Literal idTok, t] s
         else POk (NLeaf (tokPos kwTok) (mk (tok_Literal idTok))) s))"

definition describeToken :: "knots \<Rightarrow> Token \<Rightarrow> string" where
  "describeToken K tok =
     (let t = tok_Type tok; l = tok_Literal tok in
      if t = NEWLINE then ''end of line'' else if t = INDENT then ''an indented block'' else if t = DEDENT then ''a dedent''
      else if t = EOF then ''end of file'' else if t = IDENT then ''identifier '' @ k_quote K l
      else if l \<noteq> [] then k_quote K l else TokenType_String t)"

definition suggestForToken :: "Token \<Rightarrow> string" where
  "suggestForToken tok =
     (let t = tok_Type tok; l = tok_Literal tok in
      if l = ''switch'' then ''did you mean `match`?''
      else if l = ''elif'' \<or> l = ''elseif'' then ''use `else if` instead''
      else if l = ''while'' then ''use `for cond:` for a conditional loop''
      else if l = ''func'' \<or> l = ''function'' \<or> l = ''def'' then ''use `fn`''
      else if t = COMMA then ''trailing comma not allowed here''
      else if t = INDENT then ''unexpected indentation; the previous line probably needs a `:` or this block is mis-aligned''
      else if t = DEDENT then ''the block ended sooner than expected''
      else if t = NEWLINE then ''expected the rest of an expression on this line''
      else ''expected an expression'')"

definition parseLiteral :: "knots \<Rightarrow> Node parser" where
  "parseLiteral K s0 =
     (let tok = peekP s0; t = tok_Type tok; l = tok_Literal tok; p = curPos s0; s = advanceP s0 in
      if t = INT_LIT then maybeWrapSuffix K (NLeaf p (parseIntLitToken l)) p s
      else if t = FLOAT_LIT then maybeWrapSuffix K (NLeaf p (FloatLit (k_ParseFloat K l))) p s
      else if t = STRING_LIT then
        (if checkP SUFFIX_IDENT s then maybeWrapSuffix K (NLeaf p (StringLit (unescapeBraces l))) p s
         else bindP (parseStringInterp K l) (\<lambda>str. maybeWrapSuffix K str p) s)
      else if t = BOOL_LIT then maybeWrapSuffix K (NLeaf p (BoolLit (l = ''true''))) p s
      else if t = BACKTICK_LIT then POk (NLeaf noPos (BacktickLit l)) s
      else if t = ATOM_LIT then POk (NLeaf noPos (AtomLit l)) s
      else POk (NLeaf noPos NilLit) s)"

definition parseOperator :: "knots \<Rightarrow> TokenType \<Rightarrow> Node parser" where
  "parseOperator K t =
     (if t = KW_SIZEOF then typeOperand K (\<lambda>typ. NLeaf noPos (SizeofExpr typ))
      else if t = KW_ISRC then typeOperand K (\<lambda>typ. NLeaf noPos (IsRCExpr typ))
      else if t = KW_TYPEOF then unaryOperand K TypeofExpr
      else if t = KW_TRAITOF then unaryOperand K TraitofExpr
      else if t = KW_FIELDNAMES then unaryOperand K FieldnamesExpr
      else if t = KW_FIELDTYPES then unaryOperand K FieldtypesExpr
      else if t = KW_FIELDTAG then binaryOperand K FieldtagExpr
      else if t = KW_GETFIELD then binaryOperand K GetfieldExpr
      else if t = KW_SETFIELD then ternaryOperand K SetfieldExpr
      else if t = KW_ADDR then unaryOperand K AddrExpr
      else parseDefault K)"

definition parsePrimary :: "knots \<Rightarrow> Node parser" where
  "parsePrimary K s =
     (let tok = peekP s; t = tok_Type tok in
      if t \<in> set [INT_LIT, FLOAT_LIT, STRING_LIT, BACKTICK_LIT, BOOL_LIT, ATOM_LIT, KW_NIL] then parseLiteral K s
      else if t = AT then parseAt (advanceP s)
      else if t = KW_MATCH then parseMatchStmt K s
      else if t = KW_FN then parseLambda K s
      else if t \<in> set [KW_SIZEOF, KW_ISRC, KW_TYPEOF, KW_TRAITOF, KW_FIELDNAMES, KW_FIELDTYPES, KW_FIELDTAG, KW_GETFIELD, KW_SETFIELD,
                      KW_ADDR, KW_DEFAULT] then parseOperator K t (advanceP s)
      else if t = LPAREN then withCasts (parseParens K) (advanceP s)
      else if t = LBRACKET then parseArrayLit K s
      else if t \<in> set [IDENT, KW_FORWARD, KW_OVERRIDE] then parseIdentifier K s
      else if t = KW_LET then parseVarDecl K s
      else if t = KW_SPAWN then parseSpawnExpr K s
      else if t = KW_AWAIT then mapP (\<lambda>fut. NExpr (tokPos tok) (AwaitExpr fut)) (k_parsePostfixOpt K True) (advanceP s)
      else if t = KW_MOVE then
        bareName tok MoveExpr ''`move` expects an identifier (the local binding being moved); got %s''
          ''`move` expects a bare identifier; partial moves (`move %s%s...`) are not supported. Extract first: `let v = %s%s...; move v`''
          (advanceP s)
      else if t = KW_REF then
        bareName tok RefExpr ''`ref` expects an identifier (the binding being borrowed); got %s''
          ''`ref` expects a bare identifier; partial refs (`ref %s%s...`) are not supported. Extract first: `let v = %s%s...; ref v`''
          (advanceP s)
      else if t = KW_YIELD then POk (NLeaf noPos YieldStmt) (advanceP s)
      else if isTypeKeyword tok then POk (NLeaf (tokPos tok) (Identifier (tok_Literal tok))) (advanceP s)
      else errorf ''unexpected token %s here; %s'' [describeToken K tok, suggestForToken tok] s)"

end
