(* ===== verification/TinParseOps.thy ===== *)
theory TinParseOps
  imports TinParseExpr
begin

text \<open>
  Postfix chains, unary and binary operators (\<^verbatim>\<open>src/parser/exprs_unary.go\<close>, \<^verbatim>\<open>src/parser/exprs.go\<close>): one definition for
  each level of precedence.
\<close>

section \<open>Casts\<close>

definition parseAsSuffix :: "knots \<Rightarrow> Node \<Rightarrow> Node parser" where
  "parseAsSuffix K expr s = mapP (\<lambda>typ. NExpr (node_Pos expr) (AsExpr expr typ)) (parseTypeExpr (k_fuel K)) (advanceP s)"

definition parseIsSuffix :: "knots \<Rightarrow> Node \<Rightarrow> Node parser" where
  "parseIsSuffix K expr s0 =
     (let s = advanceP s0 in
      if checkP IDENT s \<and> nextIs 1 LPAREN s then
        (let p = curPos s; ctorName = tok_Literal (peekP s) in
         bindP (expectP LPAREN) (\<lambda>_.
         bindP (itemsUntil (k_fuel K) RPAREN (k_parseExpr K) (skipTok COMMA)) (\<lambda>args.
         bindP (expectP RPAREN) (\<lambda>_.
           returnP (NExpr noPos (IsExpr expr [] None (Some (mkCall p (NLeaf p (Identifier ctorName)) args))))))) (advanceP s))
      else
        (let named = checkP IDENT s \<and> isTypeToken (peekAtP 1 s); varName = (if named then tok_Literal (peekP s) else []) in
         mapP (\<lambda>typ. NExpr noPos (IsExpr expr varName typ None))
           (whenP (\<lambda>s. \<not> matchP [NEWLINE, COLON, EOF] s) (parseTypeExpr (k_fuel K))) (if named then advanceP s else s)))"

definition applyPostfixCasts :: "knots \<Rightarrow> Node \<Rightarrow> Node parser" where
  "applyPostfixCasts K =
     loopP (k_fuel K) (\<lambda>expr s.
       if checkP KW_AS s then mapP Inl (parseAsSuffix K expr) s
       else if checkP KW_IS s then mapP Inl (parseIsSuffix K expr) s
       else POk (Inr expr) s)"

section \<open>Postfix chains\<close>

text \<open>
  A round of the postfix loop has the expression and the number of indented lines entered.  It continues with \<open>Inl\<close>; \<open>Inr\<close> leaves
  the loop, with \<open>Some n\<close> when the dedents of \<open>n\<close> lines are still to be consumed, and with \<open>None\<close> where the method returns at once.
\<close>

type_synonym postfix = "(Node \<times> int + Node \<times> int option) parser"

text \<open>A newline and an optional indentation after \<open>.\<close>, \<open>->\<close> and \<open>::\<close>.\<close>

definition lineCont :: "int \<Rightarrow> Parser \<Rightarrow> int \<times> Parser" where
  "lineCont n s =
     (if checkP NEWLINE s then (let s = advanceP s in if checkP INDENT s then (n + 1, advanceP s) else (n, s)) else (n, s))"

definition afterCall :: "bool \<Rightarrow> Node \<Rightarrow> int \<Rightarrow> (Node \<times> int + Node \<times> int option)" where
  "afterCall stopAfterCall expr n = (if stopAfterCall then Inr (expr, Some n) else Inl (expr, n))"

text \<open>The field after \<open>.\<close> or \<open>->\<close>, with the arguments of a method call.\<close>

definition fieldSuffix :: "knots \<Rightarrow> bool \<Rightarrow> bool \<Rightarrow> Node \<Rightarrow> int \<Rightarrow> postfix" where
  "fieldSuffix K stop isPtr expr n =
     bindP (expectP IDENT) (\<lambda>field s.
       let fa = NExpr (tokPos field) (FieldAccess expr (tok_Literal field) isPtr) in
       if checkP LPAREN s then mapP (\<lambda>args. afterCall stop (mkCall (tokPos field) fa args) n) (parseArgList K) s
       else POk (Inl (fa, n)) s)"

definition dotSuffix :: "knots \<Rightarrow> bool \<Rightarrow> Node \<Rightarrow> int \<Rightarrow> postfix" where
  "dotSuffix K stop expr n0 s0 =
     (let (n, s) = lineCont n0 s0 in
      if checkP LPAREN s then
        (let s = advanceP s in
         if checkP KW_TYPE s \<or> litIs ''type'' s then
           bindP (expectP RPAREN) (\<lambda>_. returnP (Inl (NExpr noPos (TypeAssertExpr expr None True), n))) (advanceP s)
         else
           bindP (parseTypeExpr (k_fuel K)) (\<lambda>typ.
           bindP (expectP RPAREN) (\<lambda>_. returnP (Inl (NExpr noPos (TypeAssertExpr expr (Some typ) False), n)))) s)
      else fieldSuffix K stop False expr n s)"

definition arrowSuffix :: "knots \<Rightarrow> bool \<Rightarrow> Node \<Rightarrow> int \<Rightarrow> postfix" where
  "arrowSuffix K stop expr n0 s0 = (let (n, s) = lineCont n0 s0 in fieldSuffix K stop True expr n s)"

text \<open>After a scope access: a call, a struct literal where \<open>allowLit\<close>, or the access itself.\<close>

definition scopeTail :: "knots \<Rightarrow> bool \<Rightarrow> bool \<Rightarrow> Pos \<Rightarrow> string list \<Rightarrow> Token \<Rightarrow> int \<Rightarrow> postfix" where
  "scopeTail K stop allowLit p path field n s =
     (let sa = NLeaf p (ScopeAccess path) in
      if checkP LPAREN s then mapP (\<lambda>args. afterCall stop (mkCall (tokPos field) sa args) n) (parseArgList K) s
      else if allowLit \<and> checkP LBRACE s then mapP (\<lambda>lit. Inl (lit, n)) (parseStructLit K (joinScope path) []) s
      else POk (Inl (sa, n)) s)"

definition scopeSuffix :: "knots \<Rightarrow> bool \<Rightarrow> Node \<Rightarrow> int \<Rightarrow> postfix" where
  "scopeSuffix K stop expr n0 s0 =
     (let (n, s) = lineCont n0 s0 in
      bindP (expectP IDENT) (\<lambda>field s.
        let f = tok_Literal field in
        case expr of
          NLeaf p (ScopeAccess path) \<Rightarrow> scopeTail K stop True p (path @ [f]) field n s
        | NLeaf _ (Identifier name) \<Rightarrow> scopeTail K stop True (tokPos field) [name, f] field n s
        | NExpr _ (IndexExpr e i) \<Rightarrow>
            (case typeName e of
               None \<Rightarrow> POk (Inl (expr, n)) s
             | Some tn \<Rightarrow>
                 if tn = [] then POk (Inl (expr, n)) s
                 else
                   (let argStr = typeNodeToString i; tn = (if argStr \<noteq> [] then tn @ ''['' @ argStr @ '']'' else tn) in
                    scopeTail K stop False (tokPos field) [tn, f] field n s))
        | _ \<Rightarrow> POk (Inl (expr, n)) s) s)"

text \<open>The struct literal that may follow an index expression whose base is a name.\<close>

definition genericLit :: "knots \<Rightarrow> Node \<Rightarrow> Node \<Rightarrow> Node \<Rightarrow> int \<Rightarrow> postfix" where
  "genericLit K idx base index n s =
     (if checkP LBRACE s then
        (case typeName base of
           Some baseName \<Rightarrow> mapP (\<lambda>lit. Inl (lit, n)) (parseStructLit K baseName (indexExprTypeArgs index)) s
         | None \<Rightarrow> POk (Inl (idx, n)) s)
      else POk (Inl (idx, n)) s)"

definition indexStart :: "knots \<Rightarrow> Node \<Rightarrow> Node option parser" where
  "indexStart K expr s =
     (if \<not> checkP COLON s \<and> \<not> checkP RBRACKET s then
        (if checkP KW_FN s then mapP (\<lambda>te. Some (NLeaf (node_Pos expr) (TypeRefNode te))) (parseFuncType (k_fuel K)) s
         else mapP Some (k_parseExpr K) s)
      else POk None s)"

text \<open>The names of the type arguments after the first; what is not an identifier is dropped.\<close>

definition identNames :: "Node list \<Rightarrow> string list" where
  "identNames ns = List.map_filter asIdent ns"

definition indexSuffix :: "knots \<Rightarrow> Node \<Rightarrow> int \<Rightarrow> postfix" where
  "indexSuffix K expr n =
     bindP (indexStart K expr) (\<lambda>start s.
       if checkP COMMA s then
         bindP (itemsWhile (k_fuel K) COMMA (k_parseExpr K) (stmtList start)) (\<lambda>args.
         bindP (expectP RBRACKET) (\<lambda>_.
           let index = NLeaf noPos (Identifier (commaJoin '','' (identNames args))) in
           genericLit K (NExpr noPos (IndexExpr expr index)) expr index n)) s
       else if checkP COLON s then
         bindP (whenP (\<lambda>s. \<not> checkP RBRACKET s) (k_parseExpr K)) (\<lambda>end.
         bindP (expectP RBRACKET) (\<lambda>_. returnP (Inl (NExpr noPos (SliceExpr expr start end), n)))) (advanceP s)
       else
         bindP (expectP RBRACKET) (\<lambda>_.
           genericLit K (NExpr (node_Pos expr) (IndexExpr expr (orNil start))) expr (orNil start) n) s)"

fun bang :: "Node \<Rightarrow> Node" where
  "bang (NLeaf p (Identifier name)) = NLeaf p (Identifier (name @ ''!''))"
| "bang (NLeaf p (ScopeAccess path)) =
     NLeaf p (ScopeAccess (if path = [] then path else butlast path @ [last path @ ''!'']))"
| "bang n = n"

definition postfixSwitch :: "knots \<Rightarrow> bool \<Rightarrow> Node \<Rightarrow> int \<Rightarrow> postfix" where
  "postfixSwitch K stop expr n s =
     (if checkP DOT s then dotSuffix K stop expr n (advanceP s)
      else if checkP ARROW s then arrowSuffix K stop expr n (advanceP s)
      else if checkP DCOLON s then scopeSuffix K stop expr n (advanceP s)
      else if checkP LBRACKET s then indexSuffix K expr n (advanceP s)
      else if checkP NOT s then
        (if \<not> nextIs 1 LPAREN s then POk (Inr (expr, None)) s
         else mapP (\<lambda>args. afterCall stop (mkCall noPos (bang expr) args) n) (parseArgList K) (advanceP s))
      else if checkP LPAREN s then mapP (\<lambda>args. afterCall stop (mkCall (curPos s) expr args) n) (parseArgList K) s
      else if checkP KW_AS s then
        (if ps_suppressPostfixCast s > 0 then POk (Inr (expr, None)) s else mapP (\<lambda>e. Inl (e, n)) (parseAsSuffix K expr) s)
      else if checkP KW_IS s then
        (if ps_suppressPostfixCast s > 0 then POk (Inr (expr, None)) s else mapP (\<lambda>e. Inl (e, n)) (parseIsSuffix K expr) s)
      else POk (Inr (expr, Some n)) s)"

text \<open>A newline continues the chain only before \<open>.\<close> or \<open>->\<close>; otherwise the position is restored.\<close>

definition postfixStep :: "knots \<Rightarrow> bool \<Rightarrow> Node \<times> int \<Rightarrow> postfix" where
  "postfixStep K stop acc s =
     (let (expr, n) = acc in
      if checkP NEWLINE s then
        (let (n', s') = lineCont n s in
         if \<not> checkP DOT s' \<and> \<not> checkP ARROW s' then POk (Inr (expr, Some n)) s else postfixSwitch K stop expr n' s')
      else postfixSwitch K stop expr n s)"

definition parsePostfixOpt :: "knots \<Rightarrow> bool \<Rightarrow> Node parser" where
  "parsePostfixOpt K stopAfterCall =
     bindP (parsePrimary K) (\<lambda>expr.
     bindP (loopP (k_fuel K) (postfixStep K stopAfterCall) (expr, 0)) (\<lambda>(expr, owed) s.
       case owed of None \<Rightarrow> POk expr s | Some n \<Rightarrow> POk expr (closeIndents n s)))"

definition parsePostfix :: "knots \<Rightarrow> Node parser" where
  "parsePostfix K = parsePostfixOpt K False"

text \<open>\<open>p.suppressPostfixCast++; defer func() { p.suppressPostfixCast-- }()\<close>\<close>

definition withoutCasts :: "'a parser \<Rightarrow> 'a parser" where
  "withoutCasts f s =
     (case f (s\<lparr>ps_suppressPostfixCast := ps_suppressPostfixCast s + 1\<rparr>) of
        POk x s' \<Rightarrow> POk x (s'\<lparr>ps_suppressPostfixCast := ps_suppressPostfixCast s' - 1\<rparr>)
      | PErr e s' \<Rightarrow> PErr e (s'\<lparr>ps_suppressPostfixCast := ps_suppressPostfixCast s' - 1\<rparr>)
      | PDiverge \<Rightarrow> PDiverge)"

definition parsePostfixNoCast :: "knots \<Rightarrow> Node parser" where
  "parsePostfixNoCast K = withoutCasts (parsePostfix K)"

section \<open>Unary operators\<close>

definition parsePointerOperand :: "knots \<Rightarrow> Node parser" where
  "parsePointerOperand K s =
     (if checkP STAR s then mapP (\<lambda>e. NExpr noPos (DerefExpr e)) (k_parsePointerOperand K) (advanceP s)
      else if checkP AMP s then mapP (\<lambda>e. NExpr noPos (AddressOfExpr e)) (k_parsePointerOperand K) (advanceP s)
      else parsePostfixNoCast K s)"

definition parseUnary :: "knots \<Rightarrow> Node parser" where
  "parseUnary K s =
     (if matchP [NOT, MINUS, TILDE] s then
        mapP (\<lambda>e. NExpr (curPos s) (UnaryExpr (tok_Literal (peekP s)) e False)) (k_parseUnary K) (advanceP s)
      else if checkP STAR s then
        bindP (parsePointerOperand K) (\<lambda>e. applyPostfixCasts K (NExpr (curPos s) (DerefExpr e))) (advanceP s)
      else if checkP AMP s then
        bindP (parsePointerOperand K) (\<lambda>e. applyPostfixCasts K (NExpr (curPos s) (AddressOfExpr e))) (advanceP s)
      else parsePostfix K s)"

section \<open>Binary operators\<close>

text \<open>\<open>for p.check(lexer.INDENT) { p.advance(); p.continuationDedents++ }\<close>\<close>

definition enterIndents :: "Parser \<Rightarrow> Parser" where
  "enterIndents s =
     (let k = length (takeWhile (\<lambda>t. tok_Type t = INDENT) (drop (ps_pos s) (ps_tokens s))) in
      s\<lparr>ps_pos := ps_pos s + k, ps_continuationDedents := ps_continuationDedents s + int k\<rparr>)"

text \<open>The state at the operator, when there is one: on this line or, with \<open>allowLeading\<close>, at the start of the next.\<close>

definition binaryOp :: "bool \<Rightarrow> TokenType list \<Rightarrow> Parser \<Rightarrow> Parser option" where
  "binaryOp allowLeading ops s =
     (if matchP ops s then Some s
      else if allowLeading \<and> checkP NEWLINE s then
        (let s' = enterIndents (advanceP s) in if matchP ops s' then Some s' else None)
      else None)"

definition mkBin :: "Token \<Rightarrow> Node \<Rightarrow> Node \<Rightarrow> Node" where
  "mkBin opTok left right = NExpr (tokPos opTok) (BinExpr left (tok_Literal opTok) right)"

definition parseBinaryImpl :: "knots \<Rightarrow> Node parser \<Rightarrow> bool \<Rightarrow> TokenType list \<Rightarrow> Node parser" where
  "parseBinaryImpl K sub allowLeading ops =
     bindP sub (loopP (k_fuel K) (\<lambda>left s.
       case binaryOp allowLeading ops s of
         None \<Rightarrow> POk (Inr left) s
       | Some s1 \<Rightarrow>
           (let s2 = advanceP s1; s3 = (if checkP NEWLINE s2 then enterIndents (advanceP s2) else s2) in
            mapP (\<lambda>right. Inl (mkBin (peekP s1) left right)) sub s3)))"

definition parseBinary :: "knots \<Rightarrow> Node parser \<Rightarrow> TokenType list \<Rightarrow> Node parser" where
  "parseBinary K sub ops = parseBinaryImpl K sub False ops"

definition parseBinaryAllowLeading :: "knots \<Rightarrow> Node parser \<Rightarrow> TokenType list \<Rightarrow> Node parser" where
  "parseBinaryAllowLeading K sub ops = parseBinaryImpl K sub True ops"

definition parseMultiplicative :: "knots \<Rightarrow> Node parser" where
  "parseMultiplicative K = parseBinary K (parseUnary K) [STAR, SLASH, PERCENT]"

definition isExprStart :: "Token \<Rightarrow> bool" where
  "isExprStart tok \<longleftrightarrow>
     tok_Type tok \<in> set [IDENT, INT_LIT, FLOAT_LIT, STRING_LIT, BACKTICK_LIT, BOOL_LIT, CHAR_LIT, AT, LPAREN, LBRACKET, MINUS, NOT,
       STAR, AMP, KW_FN, KW_SIZEOF, KW_ADDR, KW_TYPEOF, KW_TRAITOF, KW_FIELDNAMES, KW_FIELDTYPES, KW_FIELDTAG, KW_GETFIELD,
       KW_SETFIELD, KW_ISRC, KW_NIL] \<or> isTypeKeyword tok"

text \<open>The state at the next additive operator and the number of indented lines entered.\<close>

definition additiveOp :: "int \<Rightarrow> Parser \<Rightarrow> (Parser \<times> int) option" where
  "additiveOp n s =
     (if matchP [PLUS, MINUS, INC] s then (if checkP INC s \<and> \<not> isExprStart (peekAtP 1 s) then None else Some (s, n))
      else if checkP NEWLINE s then
        (let s1 = advanceP s in
         if checkP INDENT s1 then (let s2 = advanceP s1 in if matchP [PLUS, MINUS] s2 then Some (s2, n + 1) else None)
         else if n > 0 \<and> matchP [PLUS, MINUS] s1 then Some (s1, n) else None)
      else None)"

definition parseAdditive :: "knots \<Rightarrow> Node parser" where
  "parseAdditive K =
     bindP (parseMultiplicative K) (\<lambda>left.
       loopP (k_fuel K) (\<lambda>(left, n) s.
         case additiveOp n s of
           None \<Rightarrow> POk (Inr left) (closeIndents n s)
         | Some (s1, n1) \<Rightarrow> mapP (\<lambda>right. Inl (mkBin (peekP s1) left right, n1)) (parseMultiplicative K) (advanceP s1)) (left, 0))"

definition parseShift :: "knots \<Rightarrow> Node parser" where
  "parseShift K = parseBinaryAllowLeading K (parseAdditive K) [SHL, SHR]"

definition parseComparison :: "knots \<Rightarrow> Node parser" where
  "parseComparison K = parseBinaryAllowLeading K (parseShift K) [LT, LTEQ, GT, GTEQ]"

definition parseEquality :: "knots \<Rightarrow> Node parser" where
  "parseEquality K = parseBinaryAllowLeading K (parseComparison K) [EQEQ, NEQ]"

definition parseBitAnd :: "knots \<Rightarrow> Node parser" where
  "parseBitAnd K = parseBinary K (parseEquality K) [AMP]"

definition parseBitXor :: "knots \<Rightarrow> Node parser" where
  "parseBitXor K = parseBinaryAllowLeading K (parseBitAnd K) [XOR]"

definition parseBitOr :: "knots \<Rightarrow> Node parser" where
  "parseBitOr K = parseBinaryAllowLeading K (parseBitXor K) [BITOR]"

definition parseAnd :: "knots \<Rightarrow> Node parser" where
  "parseAnd K = parseBinaryAllowLeading K (parseBitOr K) [AND]"

definition parseOr :: "knots \<Rightarrow> Node parser" where
  "parseOr K = parseBinaryAllowLeading K (parseAnd K) [OR]"

definition parseTernary :: "knots \<Rightarrow> Node parser" where
  "parseTernary K =
     bindP (parseOr K) (\<lambda>cond s.
       if checkP QUESTION s then
         (let (n, s) = lineCont 0 (advanceP s) in
          bindP (parseOr K) (\<lambda>then' s.
          bindP (expectP COLON) (\<lambda>_ s.
          bindP (parseOr K) (\<lambda>els s. POk (NExpr noPos (TernaryExpr cond then' els)) (closeIndents n s))
            (skipWhitespace s)) (skipWhitespace s)) s)
       else POk cond s)"

definition parseRange :: "knots \<Rightarrow> Node parser" where
  "parseRange K =
     bindP (parseTernary K) (\<lambda>left s.
       if checkP RANGE s then mapP (\<lambda>right. NExpr (curPos s) (BinExpr left ''..'' right)) (parseTernary K) (advanceP s)
       else POk left s)"

text \<open>The state after the next \<open>|>\<close>, on this line or at the start of the next.\<close>

definition pipeOp :: "int \<Rightarrow> Parser \<Rightarrow> (Parser \<times> int) option" where
  "pipeOp n s =
     (if checkP PIPE s then Some (advanceP s, n)
      else if checkP NEWLINE s then
        (let (n', s') = lineCont n s in if checkP PIPE s' then Some (advanceP s', n') else None)
      else None)"

definition parsePipe :: "knots \<Rightarrow> Node parser" where
  "parsePipe K =
     bindP (parseRange K) (\<lambda>left.
       loopP (k_fuel K) (\<lambda>(left, n) s.
         case pipeOp n s of
           None \<Rightarrow> POk (Inr left) (closeIndents n s)
         | Some (s1, n1) \<Rightarrow> mapP (\<lambda>right. Inl (NExpr noPos (PipeExpr left right), n1)) (parseTernary K) s1) (left, 0))"

definition parseExpr :: "knots \<Rightarrow> Node parser" where
  "parseExpr K = parsePipe K"

definition ParseExpr :: "knots \<Rightarrow> Node parser" where
  "ParseExpr K s = parseExpr K (skipNewlines s)"

end
