(* ===== verification/TinParseDecl.thy ===== *)
theory TinParseDecl
  imports TinParseOps
begin

text \<open>
  Declarations (\<^verbatim>\<open>src/parser/decls.go\<close>, \<^verbatim>\<open>src/parser/funcs.go\<close>), the statement and top-level switches and the entry
  points (\<^verbatim>\<open>src/parser/stmts.go\<close>, \<^verbatim>\<open>src/parser/parser.go\<close>).
\<close>

section \<open>Functions\<close>

text \<open>
  \<open>collectTypeArgs\<close>: the index after the bracket that closes the first one, on the tokens from the first bracket on.  The scan stops
  before \<open>EOF\<close>.
\<close>

fun bracketEnd :: "int \<Rightarrow> Token list \<Rightarrow> nat" where
  "bracketEnd depth [] = 0"
| "bracketEnd depth (t # ts) =
     (if tok_Type t = LBRACKET then Suc (bracketEnd (depth + 1) ts)
      else if tok_Type t = RBRACKET then (if depth = 1 then 1 else Suc (bracketEnd (depth - 1) ts))
      else if tok_Type t = EOF then 0
      else Suc (bracketEnd depth ts))"

definition collectTypeArgs :: "Parser \<Rightarrow> string \<times> Parser" where
  "collectTypeArgs s =
     (if \<not> checkP LBRACKET s then ([], s)
      else
        (let rest = drop (ps_pos s) (ps_tokens s); k = bracketEnd 0 rest in
         (concat (map tok_Literal (take k rest)), s\<lparr>ps_pos := ps_pos s + k\<rparr>)))"

definition isContextualNameKeyword :: "Token \<Rightarrow> bool" where
  "isContextualNameKeyword tok \<longleftrightarrow> tok_Type tok \<in> set [KW_FORWARD, KW_OVERRIDE]"

text \<open>The segments of \<open>::module::trait\<close>, after the leading \<open>::\<close>.\<close>

definition aliasSegments :: "nat \<Rightarrow> string list parser" where
  "aliasSegments n =
     loopP n (\<lambda>segs s.
       if checkP IDENT s then
         (let segs = segs @ [tok_Literal (peekP s)]; s = advanceP s in
          if checkP DCOLON s then POk (Inl segs) (advanceP s) else POk (Inr segs) s)
       else POk (Inr segs) s) []"

text \<open>The segments \<open>module::trait\<close> before the last \<open>::\<close>.\<close>

definition pathSegments :: "nat \<Rightarrow> string list \<Rightarrow> string list parser" where
  "pathSegments n =
     loopP n (\<lambda>segs s.
       if checkP DCOLON s \<and> nextIs 1 IDENT s \<and> nextIs 2 DCOLON s then
         (let s = advanceP s in POk (Inl (segs @ [tok_Literal (peekP s)])) (advanceP s))
       else POk (Inr segs) s)"

text \<open>The name of a function and the trait that qualifies it.\<close>

definition funcName :: "knots \<Rightarrow> (string \<times> string) parser" where
  "funcName K s =
     (if checkP DCOLON s then
        bindP (aliasSegments (k_fuel K)) (\<lambda>segs s.
          if segs = [] then POk ([], []) s
          else (let (ta, s) = collectTypeArgs s in POk (last segs, joinScope segs @ ta) s)) (advanceP s)
      else if checkP IDENT s \<or> isContextualNameKeyword (peekP s) then
        bindP (pathSegments (k_fuel K) [tok_Literal (peekP s)]) (\<lambda>segs s'.
          let (ta, s'') = collectTypeArgs s' in
          if checkP DCOLON s'' \<and> nextIs 1 IDENT s'' then
            (let s2 = advanceP s'' in POk (tok_Literal (peekP s2), joinScope segs @ ta) (advanceP s2))
          else POk (tok_Literal (peekP s), []) (advanceP s)) (advanceP s)
      else POk ([], []) s)"

definition parseFuncDecl :: "knots \<Rightarrow> string list \<Rightarrow> bool \<Rightarrow> Node FuncDecl parser" where
  "parseFuncDecl K tags0 isStatic s0 =
     bindP (expectP KW_FN) (\<lambda>_ s.
       let (moreTags, s) = parseTags s; tags = tags0 @ moreTags; p = curPos s0 in
       bindP (funcName K) (\<lambda>(name, qual).
       bindP (ignoreErr [] (parseTypeParams (k_fuel K))) (\<lambda>typeParams.
       bindP (parseParams (k_fuel K)) (\<lambda>params.
       bindP (whenP (\<lambda>s. \<not> matchP [ASSIGN, NEWLINE, EOF, COMMA, RPAREN, KW_WHERE] s) (parseTypeExpr (k_fuel K))) (\<lambda>ret.
       bindP (parseTypeConstraints (k_fuel K)) (\<lambda>cs s.
         let fd = (\<lambda>body tags ext virt. FuncDecl p name qual typeParams cs params ret body tags isStatic ext virt False) in
         if \<not> checkP ASSIGN s then POk (fd None tags [] False) s
         else
           (let s = advanceP s in
            if checkP KW_VIRTUAL s then POk (fd None tags [] True) (advanceP s)
            else if checkP KW_EXTERN s then
              bindP (expectP LPAREN) (\<lambda>_ s.
                if \<not> checkP STRING_LIT s then
                  errAtTok (peekP s) ''extern symbol must be a string literal, e.g. extern(\"name\")'' [] s
                else
                  bindP (expectP RPAREN) (\<lambda>_ s'.
                    let (more, s') = parseTags s' in POk (fd None (tags @ more) (tok_Literal (peekP s)) False) s')
                    (advanceP s)) (advanceP s)
            else mapP (\<lambda>body. fd body tags [] False) (parseFuncBody K) s)))))) s) s0"

section \<open>Structs\<close>

definition traitList :: "knots \<Rightarrow> TypeExpr list parser" where
  "traitList K s =
     (if checkP LPAREN s then
        bindP (itemsUntil (k_fuel K) RPAREN (parseTypeExpr (k_fuel K)) skipSpaced) (\<lambda>impls.
        bindP (expectP RPAREN) (\<lambda>_. returnP impls)) (skipWhitespace (advanceP s))
      else POk [] s)"

definition fieldTags :: "nat \<Rightarrow> string list parser" where
  "fieldTags n =
     loopP n (\<lambda>tags s.
       if checkP AT s then mapP (\<lambda>t. Inl (tags @ [tok_Literal t])) (expectP STRING_LIT) (advanceP s) else POk (Inr tags) s) []"

text \<open>The ownership modifiers \<open>weak\<close> and \<open>own\<close>.\<close>

definition ownership :: "Parser \<Rightarrow> bool \<times> bool \<times> Parser" where
  "ownership s =
     (if checkP KW_WEAK s then (True, False, advanceP s) else if checkP KW_OWN s then (False, True, advanceP s) else (False, False, s))"

text \<open>\<open>const\<close> or \<open>var\<close> before the name of a field.\<close>

definition mutability :: "Parser \<Rightarrow> bool \<times> bool \<times> Parser" where
  "mutability s =
     (if checkP KW_CONST s \<and> nextIs 1 IDENT s then (True, False, advanceP s)
      else if checkP KW_VAR s \<and> nextIs 1 IDENT s then (False, True, advanceP s)
      else (False, False, s))"

definition parseStructField :: "knots \<Rightarrow> StructField parser" where
  "parseStructField K s =
     (let (isConst, isVar, s) = mutability s in
      bindP (expectP IDENT) (\<lambda>nameTok s.
        let (isWeak, isOwn, s) = ownership s in
        bindP (whenP (\<lambda>s. \<not> matchP [NEWLINE, DEDENT, EOF] s) (parseTypeExpr (k_fuel K))) (\<lambda>typ s.
          let isForward = checkP KW_FORWARD s in
          mapP (\<lambda>tags. \<lparr>sf_Pos = tokPos nameTok, sf_Name = tok_Literal nameTok, sf_Type = typ, sf_Tags = tags, sf_IsForward = isForward,
                        sf_IsWeak = isWeak, sf_IsOwn = isOwn, sf_IsConst = isConst, sf_IsVar = isVar\<rparr>)
            (fieldTags (k_fuel K)) (skipTok KW_FORWARD s)) s) s)"

text \<open>A method without \<open>this\<close> as its first parameter is static.\<close>

fun autoStatic :: "Node FuncDecl \<Rightarrow> Node FuncDecl" where
  "autoStatic (FuncDecl p n q tp cs ps r b t isStatic ext virt w) =
     FuncDecl p n q tp cs ps r b t (isStatic \<or> ((ps = [] \<or> p_Name (hd ps) \<noteq> ''this'') \<and> \<not> virt)) ext virt w"

definition parseStructItem :: "knots \<Rightarrow> (StructField + Node FuncDecl) parser" where
  "parseStructItem K s0 =
     (let isStatic = checkP KW_STATIC s0; s = skipTok KW_STATIC s0 in
      if checkP KW_FN s then mapP (\<lambda>fn. Inr (autoStatic fn)) (parseFuncDecl K [] isStatic) s
      else mapP Inl (parseStructField K) s)"

text \<open>The indented lines after \<open>=\<close>: the items between \<open>INDENT\<close> and \<open>DEDENT\<close>, each followed by newlines.\<close>

definition indented :: "nat \<Rightarrow> ('a list \<Rightarrow> 'a list parser) \<Rightarrow> 'a list parser" where
  "indented n item s =
     (if checkP NEWLINE s then
        (let s = skipNewlines (advanceP s) in
         if checkP INDENT s then
           bindP (loopP n (\<lambda>xs s.
             if checkP DEDENT s \<or> checkP EOF s then POk (Inr xs) s
             else bindP (item xs) (\<lambda>xs s. POk (Inl xs) (skipNewlines s)) s) []) (\<lambda>xs s. POk xs (skipTok DEDENT s))
             (skipNewlines (advanceP s))
         else POk [] s)
      else POk [] s)"

definition structItem :: "knots \<Rightarrow> (StructField + Node FuncDecl) list \<Rightarrow> (StructField + Node FuncDecl) list parser" where
  "structItem K items s =
     (if checkP KW_PASS s then POk items (advanceP s) else mapP (\<lambda>x. items @ [x]) (parseStructItem K) s)"

definition parseStructDecl :: "knots \<Rightarrow> string list \<Rightarrow> Node parser" where
  "parseStructDecl K tags0 s0 =
     bindP parseStructTags (\<lambda>(moreTags, scoped).
     bindP (expectP IDENT) (\<lambda>nameTok.
     bindP (parseTypeParamsWithWildcards (k_fuel K)) (\<lambda>(typeParams, wildcards).
     bindP (traitList K) (\<lambda>impls.
     bindP (parseTypeConstraints (k_fuel K)) (\<lambda>cs.
     bindP (expectP ASSIGN) (\<lambda>_ s.
       if \<not> checkP NEWLINE s \<and> \<not> checkP EOF s then
         errAtTok (peekP s) ''struct %s: body must start on the next line, indented; inline %q is not supported -- write each field on its own indented line''
           [tok_Literal nameTok, ''struct Name = field type''] s
       else
         mapP (\<lambda>items. NDecl noPos (StructDecl (tok_Literal nameTok) typeParams wildcards cs (lefts items) (rights items) impls
             (tags0 @ moreTags) scoped)) (indented (k_fuel K) (structItem K)) s)))))) (advanceP s0)"

section \<open>Traits, type aliases, enumerations, unions\<close>

text \<open>A line of a trait: a method, a forward field, or a token that is skipped.\<close>

definition traitItem :: "knots \<Rightarrow> (StructField + Node FuncDecl) list \<Rightarrow> (StructField + Node FuncDecl) list parser" where
  "traitItem K items s =
     (if checkP KW_FN s then mapP (\<lambda>fn. items @ [Inr fn]) (parseFuncDecl K [] False) s
      else if checkP IDENT s \<or> matchP [KW_CONST, KW_VAR] s \<and> nextIs 1 IDENT s then
        (let isConst = checkP KW_CONST s; isVar = checkP KW_VAR s; s = (if isConst \<or> isVar then advanceP s else s);
             name = tok_Literal (peekP s) in
         bindP (parseTypeExpr (k_fuel K)) (\<lambda>typ s.
           POk (items @ [Inl \<lparr>sf_Pos = noPos, sf_Name = name, sf_Type = Some typ, sf_Tags = [], sf_IsForward = False, sf_IsWeak = False,
                  sf_IsOwn = False, sf_IsConst = isConst, sf_IsVar = isVar\<rparr>]) (skipTok KW_FORWARD s)) (advanceP s))
      else POk items (advanceP s))"

definition parseTraitDecl :: "knots \<Rightarrow> Node parser" where
  "parseTraitDecl K s0 =
     (let s = advanceP s0; mk = (\<lambda>name tps ms fs isAlias isStatic typ. NDecl noPos (TraitDecl name tps ms fs isAlias isStatic typ)) in
      bindP (ignoreErr [] (parseTypeParams (k_fuel K))) (\<lambda>_.
      bindP (expectP IDENT) (\<lambda>nameTok.
      bindP (ignoreErr [] (parseTypeParams (k_fuel K))) (\<lambda>tps s.
        let name = tok_Literal nameTok in
        if checkP KW_AS s then
          (let s = advanceP s; isStatic = checkP KW_STATIC s in
           mapP (\<lambda>typ. mk name tps [] [] True isStatic (Some typ)) (parseTypeExpr (k_fuel K)) (skipTok KW_STATIC s))
        else if \<not> checkP ASSIGN s then POk (mk name tps [] [] False False None) s
        else
          (let s = advanceP s in
           if checkP KW_FN s then mapP (\<lambda>fn. mk name tps [fn] [] False False None) (parseFuncDecl K [] False) s
           else mapP (\<lambda>items. mk name tps (rights items) (lefts items) False False None) (indented (k_fuel K) (traitItem K)) s)))) s)"

text \<open>A line that is not a function leaves the parser where it is.\<close>

definition overrideItem :: "knots \<Rightarrow> Node FuncDecl list \<Rightarrow> Node FuncDecl list parser" where
  "overrideItem K fns s =
     (if checkP KW_FN s then mapP (\<lambda>fn. fns @ [fn]) (parseFuncDecl K [] False) s else POk fns s)"

definition parseTypeDecl :: "knots \<Rightarrow> Node parser" where
  "parseTypeDecl K s0 =
     bindP (expectP IDENT) (\<lambda>nameTok.
     bindP (ignoreErr [] (parseTypeParams (k_fuel K))) (\<lambda>tps.
     bindP (expectP ASSIGN) (\<lambda>_.
     bindP (parseTypeExpr (k_fuel K)) (\<lambda>typ.
     bindP (parseTypeConstraints (k_fuel K)) (\<lambda>cs s.
       mapP (\<lambda>fns. NDecl noPos (TypeDecl (tok_Literal nameTok) tps cs (Some typ) fns))
         (if checkP KW_OVERRIDE s then
            (\<lambda>s. bindP (expectP ASSIGN) (\<lambda>_. indented (k_fuel K) (overrideItem K)) (advanceP s))
          else returnP []) s))))) (advanceP s0)"

definition parseEnumMember :: "knots \<Rightarrow> bool \<Rightarrow> Node EnumMember parser" where
  "parseEnumMember K isAtom =
     bindP (if isAtom then (\<lambda>s. if matchP [ATOM_LIT, IDENT] s then POk (tok_Literal (peekP s)) (advanceP s) else POk [] s)
            else mapP tok_Literal (expectP IDENT)) (\<lambda>name s.
     bindP (if checkP COLON s then (\<lambda>s. mapP Some (k_parseExpr K) (advanceP s)) else returnP None) (\<lambda>val s.
       POk (EnumMember name val isAtom) (skipTok COMMA s)) s)"

definition parseEnumDecl :: "knots \<Rightarrow> Node parser" where
  "parseEnumDecl K s0 =
     (let s = advanceP s0; isAtom = (checkP IDENT s \<and> litIs ''atom'' s) in
      bindP (if isAtom then (\<lambda>s. POk None (advanceP s))
             else if isTypeKeyword (peekP s) then ignoreErr None (mapP Some (parseTypeExpr (k_fuel K))) else returnP None) (\<lambda>baseType.
      bindP (expectP IDENT) (\<lambda>nameTok.
      bindP (expectP ASSIGN) (\<lambda>_.
      mapP (\<lambda>ms. NDecl noPos (EnumDecl baseType isAtom (tok_Literal nameTok) ms))
        (indented (k_fuel K) (\<lambda>ms. mapP (\<lambda>m. ms @ [m]) (parseEnumMember K isAtom)))))) s)"

definition unionMember :: "knots \<Rightarrow> UnionMember parser" where
  "unionMember K s =
     (let named = checkP IDENT s \<and> \<not> isTypeKeyword (peekP s) \<and> (isTypeToken (peekP (advanceP s)) \<or> checkP IDENT (advanceP s)) in
      mapP (\<lambda>typ. \<lparr>um_FieldName = (if named then tok_Literal (peekP s) else []), um_Type = Some typ\<rparr>)
        (parseTypeSingle (k_fuel K)) (if named then advanceP s else s))"

text \<open>\<open>IsNamed\<close> is set when a member has a name, which is never empty.\<close>

definition parseUnionDecl :: "knots \<Rightarrow> Node parser" where
  "parseUnionDecl K s0 =
     bindP (expectP IDENT) (\<lambda>nameTok.
     bindP (expectP ASSIGN) (\<lambda>_.
     bindP (unionMember K) (\<lambda>first.
     mapP (\<lambda>ms. NLeaf noPos (UnionDecl (tok_Literal nameTok) ms (list_ex (\<lambda>m. um_FieldName m \<noteq> []) ms)))
       (itemsWhile (k_fuel K) BITOR (unionMember K) [first])))) (advanceP s0)"

section \<open>Data types\<close>

definition isNamedDataField :: "Parser \<Rightarrow> bool" where
  "isNamedDataField s \<longleftrightarrow>
     checkP IDENT s \<and>
     (tok_Type (peekAtP 1 s) \<in> set [KW_OWN, KW_WEAK, STAR, LBRACKET, IDENT] \<or> isTypeKeyword (peekAtP 1 s))"

definition parseDataVariantField :: "knots \<Rightarrow> StructField parser" where
  "parseDataVariantField K s =
     (let named = isNamedDataField s; name = (if named then tok_Literal (peekP s) else []);
          (isWeak, isOwn, s) = ownership (if named then advanceP s else s) in
      mapP (\<lambda>typ. \<lparr>sf_Pos = noPos, sf_Name = name, sf_Type = Some typ, sf_Tags = [], sf_IsForward = False, sf_IsWeak = isWeak,
                   sf_IsOwn = isOwn, sf_IsConst = False, sf_IsVar = False\<rparr>) (parseTypeExpr (k_fuel K)) s)"

definition parseDataVariant :: "knots \<Rightarrow> DataVariant parser" where
  "parseDataVariant K s0 =
     bindP (expectP IDENT) (\<lambda>nameTok s.
       let v = \<lparr>dv_Pos = curPos s0, dv_Name = tok_Literal nameTok, dv_Fields = []\<rparr> in
       if \<not> checkP LPAREN s then POk v s
       else
         bindP (itemsUntil (k_fuel K) RPAREN (parseDataVariantField K) skipSpaced) (\<lambda>fs.
         bindP (expectP RPAREN) (\<lambda>_. returnP (v\<lparr>dv_Fields := fs\<rparr>))) (skipWhitespace (advanceP s))) s0"

definition dataItem :: "knots \<Rightarrow> string \<Rightarrow> (DataVariant + Node FuncDecl) list \<Rightarrow> (DataVariant + Node FuncDecl) list parser" where
  "dataItem K name items s0 =
     (let isStatic = checkP KW_STATIC s0; s = skipTok KW_STATIC s0 in
      if checkP KW_FN s then mapP (\<lambda>fn. items @ [Inr fn]) (parseFuncDecl K [] isStatic) s
      else if isStatic then errAtTok (peekP s) ''data %s: `static` must be followed by `fn`'' [name] s
      else mapP (\<lambda>v. items @ [Inl v]) (parseDataVariant K) s)"

definition parseDataDecl :: "knots \<Rightarrow> Node parser" where
  "parseDataDecl K s0 =
     bindP (expectP IDENT) (\<lambda>nameTok.
     bindP (parseTypeParamsWithWildcards (k_fuel K)) (\<lambda>(typeParams, wildcards).
     bindP (traitList K) (\<lambda>impls.
     bindP (parseTypeConstraints (k_fuel K)) (\<lambda>cs.
     bindP (expectP ASSIGN) (\<lambda>_ s.
       let name = tok_Literal nameTok in
       if \<not> checkP NEWLINE s then errAtTok (peekP s) (''data %s: expected newline after '=''@ [CHR 0x27]) [name] s
       else
         (let s1 = skipNewlines (advanceP s) in
          if \<not> checkP INDENT s1 then errAtTok (peekP s1) ''data %s: expected indented variant list'' [name] s1
          else
            bindP (indented (k_fuel K) (dataItem K name)) (\<lambda>items s.
              let vs = lefts items in
              if vs = [] then errAtTok nameTok ''data %s: at least one variant is required'' [name] s
              else if list_all (\<lambda>v. dv_Fields v = []) vs then
                errAtTok nameTok ''data %s: at least one variant must carry a payload; use \"enum\" for pure-nullary sums'' [name] s
              else POk (NDecl noPos (DataDecl name typeParams wildcards cs vs impls (rights items))) s) s)))))) (advanceP s0)"

end
