(* ===== verification/TinParseProgram.thy ===== *)
theory TinParseProgram
  imports TinParseDecl
begin

text \<open>
  Imports, exports, tests and macros (\<^verbatim>\<open>src/parser/decls.go\<close>), the switches over statements and top-level declarations, and the
  entry points (\<^verbatim>\<open>src/parser/stmts.go\<close>, \<^verbatim>\<open>src/parser/parser.go\<close>).  \<open>parserKnots\<close> ties the methods together.
\<close>

section \<open>Imports, exports, tests and macros\<close>

text \<open>A name with an optional \<open>!\<close>.\<close>

definition bangName :: "Parser \<Rightarrow> string \<times> Parser" where
  "bangName s =
     (let name = tok_Literal (peekP s); s = advanceP s in
      if checkP NOT s then (name @ ''!'', advanceP s) else (name, s))"

text \<open>The names of a selective import; a token that is neither a name nor a comma stays.\<close>

definition importNames :: "nat \<Rightarrow> string list parser" where
  "importNames n =
     loopP n (\<lambda>names s.
       if checkP RBRACE s \<or> checkP EOF s then POk (Inr names) s
       else if checkP IDENT s then (let (name, s) = bangName s in POk (Inl (names @ [name])) (skipTok COMMA s))
       else POk (Inl names) (skipTok COMMA s)) []"

definition pathParts :: "nat \<Rightarrow> string list \<Rightarrow> string list parser" where
  "pathParts n =
     loopP n (\<lambda>parts s.
       if checkP DCOLON s then (let s = advanceP s in POk (Inl (parts @ [tok_Literal (peekP s)])) (advanceP s))
       else POk (Inr parts) s)"

text \<open>A module path or a file: the path, and whether it is a file.\<close>

definition modulePath :: "nat \<Rightarrow> (string \<times> bool) parser" where
  "modulePath n s =
     (if checkP STRING_LIT s then POk (tok_Literal (peekP s), True) (advanceP s)
      else
        mapP (\<lambda>parts. (joinScope parts, False))
          (pathParts n (if checkP IDENT s then [tok_Literal (peekP s)] else [])) (skipTok IDENT s))"

definition parseUseImport :: "knots \<Rightarrow> UseImport parser" where
  "parseUseImport K s0 =
     (let l = (if checkP IDENT s0 then tok_Literal (peekP s0) else []); s = skipTok IDENT s0 in
      bindP (if checkP LPAREN s then
               (\<lambda>s. let s = advanceP s; name = (if checkP STRING_LIT s then tok_Literal (peekP s) else l) in
                    bindP (expectP RPAREN) (\<lambda>_. returnP name) (skipTok STRING_LIT s))
             else returnP l) (\<lambda>ext s.
        mapP (\<lambda>typ. \<lparr>ui_ExternName = ext, ui_LocalName = l, ui_Type = typ\<rparr>)
          (if checkP KW_AS s then (\<lambda>s. mapP Some (parseTypeExpr (k_fuel K)) (advanceP s)) else returnP None) s) s)"

definition parseUseDecl :: "knots \<Rightarrow> Node parser" where
  "parseUseDecl K s0 =
     (let s = advanceP s0 in
      if checkP LBRACE s then
        bindP (importNames (k_fuel K)) (\<lambda>names.
        bindP (expectP RBRACE) (\<lambda>_ s.
          if \<not> checkP IDENT s \<or> \<not> litIs ''from'' s then
            errAtTok (peekP s) ''expected 'from' after import list, got %q'' [tok_Literal (peekP s)] s
          else mapP (\<lambda>(path, isFile). NLeaf noPos (UseDecl path False [] isFile names True)) (modulePath (k_fuel K)) (advanceP s))) (advanceP s)
      else if checkP KW_EXTERN s then
        bindP (expectP LPAREN) (\<lambda>_ s.
        bindP (itemsUntil (k_fuel K) RPAREN (parseUseImport K) commaThenSpace) (\<lambda>imports'.
        bindP (expectP RPAREN) (\<lambda>_. returnP (NLeaf noPos (UseDecl [] True imports' False [] False)))) (skipWhitespace s)) (advanceP s)
      else mapP (\<lambda>(path, isFile). NLeaf noPos (UseDecl path False [] isFile [] False)) (modulePath (k_fuel K)) s)"

definition exportNames :: "nat \<Rightarrow> string list parser" where
  "exportNames n =
     loopP n (\<lambda>names s.
       if checkP RBRACE s \<or> checkP EOF s then POk (Inr names) s
       else if matchP [NEWLINE, INDENT, DEDENT] s then POk (Inl names) (advanceP s)
       else if checkP IDENT s then (let (name, s) = bangName s in POk (Inl (names @ [name])) (skipTok COMMA s))
       else POk (Inl names) (skipTok COMMA (skipTok NOT s))) []"

definition parseExportDecl :: "knots \<Rightarrow> Node parser" where
  "parseExportDecl K s0 =
     (let s = advanceP s0 in
      bindP (if checkP LBRACE s then
               (\<lambda>s. bindP (exportNames (k_fuel K)) (\<lambda>names. bindP (expectP RBRACE) (\<lambda>_. returnP names)) (advanceP s))
             else returnP []) (\<lambda>names s.
        if checkP KW_AS s then
          (let s = advanceP s in
           POk (NLeaf noPos (ExportDecl names (if checkP IDENT s then tok_Literal (peekP s) else []))) (skipTok IDENT s))
        else POk (NLeaf noPos (ExportDecl names [])) s) s)"

definition parseTestDecl :: "knots \<Rightarrow> Node parser" where
  "parseTestDecl K s0 =
     (let s = advanceP s0 in
      if \<not> checkP STRING_LIT s then errAtTok (peekP s) (''expected string description after 'test'' @ [CHR 0x27]) [] s
      else
        bindP (expectP ASSIGN) (\<lambda>_. mapP (\<lambda>body. NDecl noPos (TestDecl (tok_Literal (peekP s)) (orNil body))) (parseFuncBody K))
          (skipNewlines (advanceP s)))"

text \<open>The parameters of a macro and their types; a token that is neither a name nor a comma stays.\<close>

definition macroParams :: "knots \<Rightarrow> (string list \<times> string list) parser" where
  "macroParams K =
     loopP (k_fuel K) (\<lambda>(params, types) s.
       if checkP RPAREN s \<or> checkP EOF s then POk (Inr (params, types)) s
       else if checkP IDENT s then
         (let name = tok_Literal (peekP s); s = advanceP s in
          bindP (if \<not> matchP [COMMA, RPAREN, EOF] s then mapP TypeExpr_String (parseTypeExpr (k_fuel K)) else returnP []) (\<lambda>t s.
            POk (Inl (params @ [name], types @ [t])) (skipTok COMMA s)) s)
       else POk (Inl (params, types)) (skipTok COMMA s)) ([], [])"

definition suffixKind :: "string \<Rightarrow> string option" where
  "suffixKind t = (if take 7 t = ''suffix@'' then Some (drop 7 t) else None)"

definition validKind :: "string \<Rightarrow> bool" where
  "validKind k \<longleftrightarrow> k \<in> set [''int'', ''float'', ''string'', ''bool'']"

text \<open>The checks of the suffix tags; \<open>None\<close> when they pass, the format and the arguments of the error otherwise.\<close>

definition suffixError :: "string \<Rightarrow> string list \<Rightarrow> (string \<times> string list) option" where
  "suffixError name tags =
     (let kinds = List.map_filter suffixKind tags; hasNoExcl = (''no_excl'' \<in> set tags);
          nameEndsBang = (name \<noteq> [] \<and> last name = CHR 0x21) in
      case find (\<lambda>k. \<not> validKind k) kinds of
        Some k \<Rightarrow> Some (''unknown #suffix kind @%s; valid kinds are @int, @float, @string, @bool'', [k])
      | None \<Rightarrow>
          if kinds \<noteq> [] \<and> nameEndsBang = hasNoExcl then
            (if nameEndsBang then Some (''#suffix macro `%s` ends with `!` and also has `#no_excl`; pick one'', [name])
             else Some (''#suffix macro `%s` is unreachable: declare it as `%s!` for the `<lit>_%s!` call form, or add `#no_excl` for the `<lit>_%s` call form'',
                    [name, name, name, name]))
          else None)"

fun isBlockNode :: "Node option \<Rightarrow> bool" where
  "isBlockNode (Some (NBlock _)) = True"
| "isBlockNode _ = False"

definition parseMacroDecl :: "knots \<Rightarrow> string list \<Rightarrow> Node parser" where
  "parseMacroDecl K tags0 s0 =
     (let (moreTags, s) = parseTags (advanceP s0) in
      bindP (expectP IDENT) (\<lambda>nameTok s.
        let name = (if checkP NOT s then tok_Literal nameTok @ ''!'' else tok_Literal nameTok); s = skipTok NOT s in
        bindP (if checkP LPAREN s then
                 (\<lambda>s. bindP (macroParams K) (\<lambda>r. bindP (expectP RPAREN) (\<lambda>_. returnP r)) (advanceP s))
               else returnP ([], [])) (\<lambda>(params, types).
        bindP (expectP ASSIGN) (\<lambda>_.
        bindP (parseFuncBody K) (\<lambda>body.
          let tags = tags0 @ moreTags @ (if isBlockNode body then [''computed''] else []) in
          case suffixError name tags of
            Some (format, args) \<Rightarrow> errorf format args
          | None \<Rightarrow> returnP (NDecl noPos (MacroDecl name tags params types (orNil body)))))) s) s)"

section \<open>Statements\<close>

definition blocksRemoved :: string where
  "blocksRemoved =
     ''`{#tag} { body }` blocks were removed; use `do{#tag}: body` (indent block) or `do{#tag}: stmt` (single-statement inline) instead''"

text \<open>The switch of \<open>parseStatement\<close>.\<close>

definition statementSwitch :: "knots \<Rightarrow> string list \<Rightarrow> Node option parser" where
  "statementSwitch K tags s =
     (let t = tok_Type (peekP s) in
      if t = KW_VAR then
        (if ps_blockDepth s > 0 then
           errAtTok (peekP s) ''%q is module-scope only; use %q for a mutable local binding, or move the %q declaration to the top level''
             [''var'', ''let'', ''var''] s
         else mapP Some (parseTopLevelVar K) s)
      else if t = KW_SPAWN then mapP Some (parseSpawnExprStmt K) s
      else if t = KW_AWAIT then
        (if nextIs 1 KW_MATCH s then mapP Some (parseAwaitMatchStmt K) s else mapP Some (parseExprStatement K) s)
      else if t = KW_YIELD then POk (Some (NLeaf noPos YieldStmt)) (advanceP s)
      else if t = KW_LET \<or> t = KW_CONST then mapP Some (parseLetStmt K) s
      else if t = KW_FN then mapP (Some \<circ> NFunc) (parseFuncDecl K tags False) s
      else if t = KW_STRUCT then mapP Some (parseStructDecl K tags) s
      else if t = KW_TYPE then
        errorf ''`type` declarations are only allowed at top level, not inside a function or block body'' [] s
      else if t = KW_ENUM then mapP Some (parseEnumDecl K) s
      else if t = KW_RETURN then mapP Some (parseReturnStmt K) s
      else if t = KW_PASS then POk None (advanceP s)
      else if t = KW_BREAK then POk (Some (NLeaf noPos BreakStmt)) (advanceP s)
      else if t = KW_DEFER then mapP Some (parseDeferStmt K) s
      else if t = KW_DO then mapP Some (parseDoBlock K) s
      else if t = KW_IF then mapP Some (parseIfStmt K) s
      else if t = KW_FOR then mapP Some (parseForStmt K) s
      else if t = KW_MATCH then mapP Some (parseMatchStmt K) s
      else if t = KW_ECHO then mapP Some (parseEchoStmt K) s
      else if t = KW_USE then errorf ''`use` declarations are only allowed at top level, not inside a function or block body'' [] s
      else if t = KW_EXPORT then mapP Some (parseExportDecl K) s
      else if t = KW_WHERE then mapP Some (parseWhereStmt K) s
      else if t = LBRACE \<and> nextIs 1 CONTROL_TAG s then errorf blocksRemoved [] s
      else if t = NEWLINE \<or> t = DEDENT \<or> t = SEMI then POk None s
      else mapP Some (parseExprStatement K) s)"

definition parseStatement :: "knots \<Rightarrow> Node option parser" where
  "parseStatement K s0 =
     (let (tags, s) = parseTags s0; t = tok_Type (peekP s) in
      if tags \<noteq> [] \<and> checkP LBRACE s then errorf blocksRemoved [] s
      else if tags \<noteq> [] \<and> t \<noteq> KW_FN \<and> t \<noteq> KW_STRUCT then
        errorf ''tags here are only valid before `fn` or `struct`; got %s'' [tok_Literal (peekP s)] s
      else
        (case (if t = IDENT then ps_noParensMacros s (tok_Literal (peekP s)) else None) of
           Some expansion \<Rightarrow> bindP (expandNoParens (k_tables K) expansion) (\<lambda>_. k_parseStatement K) s
         | None \<Rightarrow> statementSwitch K tags s))"

section \<open>The top level\<close>

definition parseTopLevel :: "knots \<Rightarrow> Node option parser" where
  "parseTopLevel K s0 =
     (let (tags, s) = parseTags s0; t = tok_Type (peekP s) in
      if tags \<noteq> [] \<and> checkP LBRACE s then errorf blocksRemoved [] s
      else if tags \<noteq> [] \<and> t \<notin> set [KW_FN, KW_STRUCT, KW_MACRO, KW_STATIC] then
        errorf ''tags here are only valid before `fn`, `struct`, `macro` or `static`; got %s'' [tok_Literal (peekP s)] s
      else if t = KW_FN then mapP (Some \<circ> NFunc) (parseFuncDecl K tags False) s
      else if t = KW_MACRO then mapP Some (parseMacroDecl K tags) s
      else if t = KW_STRUCT then mapP Some (parseStructDecl K tags) s
      else if t = KW_TRAIT then mapP Some (parseTraitDecl K) s
      else if t = KW_TYPE then mapP Some (parseTypeDecl K) s
      else if t = KW_ENUM then mapP Some (parseEnumDecl K) s
      else if t = KW_UNION then mapP Some (parseUnionDecl K) s
      else if t = KW_USE then mapP Some (parseUseDecl K) s
      else if t = KW_EXPORT then mapP Some (parseExportDecl K) s
      else if t = KW_TEST then mapP Some (parseTestDecl K) s
      else if t = KW_CONST then mapP Some (parseTopLevelLetConst K) s
      else if t = KW_STATIC then mapP (Some \<circ> NFunc) (parseFuncDecl K tags True) (advanceP s)
      else if t = DEDENT then POk None (advanceP s)
      else if t = IDENT then
        (if litIs ''data'' s \<and> nextIs 1 IDENT s then mapP Some (parseDataDecl K) s
         else
           (case ps_noParensMacros s (tok_Literal (peekP s)) of
              Some expansion \<Rightarrow> bindP (expandNoParens (k_tables K) expansion) (\<lambda>_. k_parseTopLevel K) s
            | None \<Rightarrow> parseStatement K s))
      else parseStatement K s)"

definition knot0 :: "unicode_tables \<Rightarrow> (string \<Rightarrow> float64) \<Rightarrow> (string \<Rightarrow> string) \<Rightarrow> knots" where
  "knot0 U F Q =
     \<lparr>k_fuel = 0, k_tables = U, k_ParseFloat = F, k_quote = Q, k_parseExpr = divergeP, k_parseStatement = divergeP,
      k_parseUnary = divergeP, k_parsePointerOperand = divergeP, k_parsePostfixOpt = (\<lambda>_. divergeP),
      k_parseStructPattern = divergeP, k_parseTopLevel = divergeP\<rparr>"

definition tie :: "knots \<Rightarrow> knots" where
  "tie K =
     \<lparr>k_fuel = Suc (k_fuel K), k_tables = k_tables K, k_ParseFloat = k_ParseFloat K, k_quote = k_quote K, k_parseExpr = parseExpr K,
      k_parseStatement = parseStatement K, k_parseUnary = parseUnary K, k_parsePointerOperand = parsePointerOperand K,
      k_parsePostfixOpt = parsePostfixOpt K, k_parseStructPattern = parseStructPattern K, k_parseTopLevel = parseTopLevel K\<rparr>"

primrec parserKnots :: "unicode_tables \<Rightarrow> (string \<Rightarrow> float64) \<Rightarrow> (string \<Rightarrow> string) \<Rightarrow> nat \<Rightarrow> knots" where
  "parserKnots U F Q 0 = knot0 U F Q"
| "parserKnots U F Q (Suc n) = tie (parserKnots U F Q n)"

text \<open>
  \<open>Parse\<close>: a node without a position gets the position of its first token.  The program is the list of its nodes.
\<close>

definition ensurePos :: "Pos \<Rightarrow> Node \<Rightarrow> Node" where
  "ensurePos p n = (if Line (node_Pos n) = 0 then setPos p n else n)"

definition Parse :: "knots \<Rightarrow> Node list parser" where
  "Parse K s =
     loopP (k_fuel K) (\<lambda>stmts s.
       if checkP EOF s then POk (Inr stmts) s
       else
         bindP (parseTopLevel K) (\<lambda>node s'.
           POk (Inl (stmts @ map (ensurePos (curPos s)) (stmtList node))) (skipSemisAndNewlines s')) s) [] (skipSemisAndNewlines s)"

end
