(* ===== verification/TinParseFrame.thy ===== *)
theory TinParseFrame
  imports TinParseProgram "HOL-Library.Sublist"
begin

text \<open>
  What a call of the parser keeps of its state.  The locale \<open>parser_frame\<close> lists what a relation between the states before and after
  has to satisfy; one lemma per method shows that the call respects it, whether it returns a value or an error.
\<close>

named_theorems frame

definition keeps :: "(Parser \<Rightarrow> Parser \<Rightarrow> bool) \<Rightarrow> Parser \<Rightarrow> 'a presult \<Rightarrow> bool" where
  "keeps R s r \<longleftrightarrow> (case r of POk _ t \<Rightarrow> R s t | PErr _ t \<Rightarrow> R s t | PDiverge \<Rightarrow> True)"

section \<open>Control structure\<close>

lemma keeps_result [frame]:
  "R s t \<Longrightarrow> keeps R s (POk x t)" "R s t \<Longrightarrow> keeps R s (PErr e t)" "keeps R s PDiverge" "keeps R s (divergeP t)"
  "R s t \<Longrightarrow> keeps R s (returnP x t)"
  by (simp_all add: keeps_def divergeP_def returnP_def)

lemma keeps_error [frame]:
  "R s t \<Longrightarrow> keeps R s (errAt l c f as t)" "R s t \<Longrightarrow> keeps R s (errAtTok tok f as t)" "R s t \<Longrightarrow> keeps R s (errorf f as t)"
  "R s t \<Longrightarrow> keeps R s (errPlain f as t)"
  by (simp_all add: keeps_def errAt_def errAtTok_def errorf_def errPlain_def)

lemma keeps_bindP [frame]: "keeps R s (f t) \<Longrightarrow> (\<And>x u. R s u \<Longrightarrow> keeps R s (g x u)) \<Longrightarrow> keeps R s (bindP f g t)"
  by (cases "f t") (simp_all add: keeps_def bindP_def)

lemma keeps_mapP [frame]: "keeps R s (f t) \<Longrightarrow> keeps R s (mapP g f t)"
  by (simp add: keeps_def mapP_def bindP_def returnP_def split: presult.splits)

lemma keeps_whenP [frame]: "R s t \<Longrightarrow> keeps R s (f t) \<Longrightarrow> keeps R s (whenP c f t)"
  by (simp add: whenP_def keeps_mapP keeps_result)

lemma keeps_ignoreErr [frame]: "keeps R s (f t) \<Longrightarrow> keeps R s (ignoreErr x f t)"
  by (simp add: keeps_def ignoreErr_def split: presult.splits)

lemma keeps_if [frame]:
  "(c \<Longrightarrow> keeps R s a) \<Longrightarrow> (\<not> c \<Longrightarrow> keeps R s b) \<Longrightarrow> keeps R s (if c then a else b)"
  "(c \<Longrightarrow> keeps R s (f t)) \<Longrightarrow> (\<not> c \<Longrightarrow> keeps R s (g t)) \<Longrightarrow> keeps R s ((if c then f else g) t)"
  by simp_all

lemma keeps_let [frame]: "keeps R s (h e) \<Longrightarrow> keeps R s (Let e h)" "keeps R s (h' e t) \<Longrightarrow> keeps R s (Let e h' t)"
  by simp_all

lemma keeps_case [frame]:
  "keeps R s (h (fst p) (snd p)) \<Longrightarrow> keeps R s (case p of (a, b) \<Rightarrow> h a b)"
  "keeps R s (h' (fst p) (snd p) t) \<Longrightarrow> keeps R s ((case p of (a, b) \<Rightarrow> h' a b) t)"
  "(x = None \<Longrightarrow> keeps R s a) \<Longrightarrow> (\<And>y. x = Some y \<Longrightarrow> keeps R s (b y)) \<Longrightarrow> keeps R s (case x of None \<Rightarrow> a | Some y \<Rightarrow> b y)"
  "(x = None \<Longrightarrow> keeps R s (f t)) \<Longrightarrow> (\<And>y. x = Some y \<Longrightarrow> keeps R s (g y t)) \<Longrightarrow> keeps R s ((case x of None \<Rightarrow> f | Some y \<Rightarrow> g y) t)"
  "(xs = [] \<Longrightarrow> keeps R s (f t)) \<Longrightarrow> (\<And>y ys. xs = y # ys \<Longrightarrow> keeps R s (k y ys t)) \<Longrightarrow> keeps R s ((case xs of [] \<Rightarrow> f | y # ys \<Rightarrow> k y ys) t)"
  by (cases p; cases x; cases xs; simp)+

lemma keeps_loopP [frame]:
  "R s t \<Longrightarrow> (\<And>x u. R s u \<Longrightarrow> keeps R s (body x u)) \<Longrightarrow> keeps R s (loopP n body acc t)"
proof (induction n arbitrary: acc t)
  case 0
  then show ?case by (simp add: keeps_def)
next
  case (Suc n)
  from Suc.prems(2) [OF Suc.prems(1)] have "keeps R s (body acc t)" .
  then show ?case using Suc.IH [OF _ Suc.prems(2)]
    by (cases "body acc t") (auto simp: keeps_def split: sum.splits)
qed

lemma keeps_items [frame]:
  "R s t \<Longrightarrow> (\<And>u. R s u \<Longrightarrow> keeps R s (item u)) \<Longrightarrow> (\<And>u. R s u \<Longrightarrow> R s (after u)) \<Longrightarrow> keeps R s (itemsUntil n c item after t)"
  "R s t \<Longrightarrow> (\<And>u. R s u \<Longrightarrow> keeps R s (item u)) \<Longrightarrow> (\<And>u. R s u \<Longrightarrow> R s (advanceP u)) \<Longrightarrow> keeps R s (itemsWhile n c item xs t)"
  unfolding itemsUntil_def itemsWhile_def by (intro frame; assumption?; blast?)+

section \<open>Progress\<close>

definition tokensLeft :: "Parser \<Rightarrow> nat" where
  "tokensLeft s = length (ps_tokens s) - ps_pos s"

lemma advance_left: "tokensLeft (advanceP s) \<le> tokensLeft s"
  by (auto simp: tokensLeft_def advanceP_def)

lemma advance_consumes: "checkP CONTROL_TAG s \<Longrightarrow> tokensLeft (advanceP s) < tokensLeft s"
  by (auto simp: tokensLeft_def advanceP_def checkP_def peekP_def eofToken_def split: if_splits)

lemma advance_twice: "checkP CONTROL_TAG s \<Longrightarrow> tokensLeft (advanceP (advanceP (advanceP s))) < tokensLeft s"
  by (meson advance_consumes advance_left le_less_trans)

definition keepsKnots :: "(Parser \<Rightarrow> Parser \<Rightarrow> bool) \<Rightarrow> knots \<Rightarrow> bool" where
  "keepsKnots R K \<longleftrightarrow> (\<forall>s t. R s t \<longrightarrow>
     keeps R s (k_parseExpr K t) \<and> keeps R s (k_parseStatement K t) \<and> keeps R s (k_parseUnary K t) \<and>
     keeps R s (k_parsePointerOperand K t) \<and> (\<forall>stop. keeps R s (k_parsePostfixOpt K stop t)) \<and>
     keeps R s (k_parseStructPattern K t) \<and> keeps R s (k_parseTopLevel K t))"

lemma keepsKnotsD [frame]:
  "keepsKnots R K \<Longrightarrow> R s t \<Longrightarrow> keeps R s (k_parseExpr K t)" "keepsKnots R K \<Longrightarrow> R s t \<Longrightarrow> keeps R s (k_parseStatement K t)"
  "keepsKnots R K \<Longrightarrow> R s t \<Longrightarrow> keeps R s (k_parseUnary K t)" "keepsKnots R K \<Longrightarrow> R s t \<Longrightarrow> keeps R s (k_parsePointerOperand K t)"
  "keepsKnots R K \<Longrightarrow> R s t \<Longrightarrow> keeps R s (k_parsePostfixOpt K stop t)"
  "keepsKnots R K \<Longrightarrow> R s t \<Longrightarrow> keeps R s (k_parseStructPattern K t)" "keepsKnots R K \<Longrightarrow> R s t \<Longrightarrow> keeps R s (k_parseTopLevel K t)"
  by (simp_all add: keepsKnots_def)

section \<open>The relation\<close>

locale pos_frame =
  fixes R :: "Parser \<Rightarrow> Parser \<Rightarrow> bool"
  assumes refl: "R s s"
    and trans: "R s t \<Longrightarrow> R t u \<Longrightarrow> R s u"
    and forward: "ps_pos s \<le> p \<Longrightarrow> (ps_pos s \<le> length (ps_tokens s) \<Longrightarrow> p \<le> length (ps_tokens s)) \<Longrightarrow> R s (s\<lparr>ps_pos := p\<rparr>)"
begin

lemma forward_by:
  "R s t \<Longrightarrow> k \<le> length (drop (ps_pos t) (ps_tokens t)) \<Longrightarrow> R s (t\<lparr>ps_pos := ps_pos t + k\<rparr>)"
  by (rule trans, assumption, rule forward) auto

lemma step [frame]: "R s t \<Longrightarrow> R s (advanceP t)" "R s t \<Longrightarrow> R s (skipAll ts t)" "R s t \<Longrightarrow> R s (drainDedents n t)"
proof -
  assume a: "R s t"
  show "R s (advanceP t)" using forward_by [OF a, of 1] a by (simp add: advanceP_def)
  show "R s (skipAll ts t)" unfolding skipAll_def by (rule forward_by [OF a]) (rule length_takeWhile_le)
  show "R s (drainDedents n t)" unfolding drainDedents_def owedDedents_def
    by (rule forward_by [OF a]) (rule min.coboundedI2, rule length_takeWhile_le)
qed

lemma either [frame]: "(b \<Longrightarrow> R s t) \<Longrightarrow> (\<not> b \<Longrightarrow> R s u) \<Longrightarrow> R s (if b then t else u)"
  by simp

lemma skips [frame]: "R s t \<Longrightarrow> R s (skipTok ty t)" "R s t \<Longrightarrow> R s (skipWhitespace t)"
  unfolding skipTok_def skipWhitespace_def by (simp_all add: frame)

lemma more_skips [frame]:
  "R s t \<Longrightarrow> R s (skipSeparator t)" "R s t \<Longrightarrow> R s (closeIndents n t)" "R s t \<Longrightarrow> R s (snd (lineCont n t))"
  "R s t \<Longrightarrow> R s (skipParamName t)" "R s t \<Longrightarrow> R s (snd (arraySize t))"
  unfolding skipSeparator_def closeIndents_def lineCont_def skipParamName_def arraySize_def by (simp_all add: Let_def frame)

lemma expectP_frame [frame]: "R s t \<Longrightarrow> keeps R s (expectP ty t)"
  unfolding expectP_def by (intro frame)

subsection \<open>Types\<close>

lemma qualifiedName_frame [frame]: "R s t \<Longrightarrow> keeps R s (qualifiedName n x1 t)"
  unfolding qualifiedName_def by (intro frame)

lemma wildcardType_frame [frame]: "R s t \<Longrightarrow> keeps R s (wildcardType t)"
  unfolding wildcardType_def by (intro frame)

lemma funcTypeParams_frame [frame]:
  assumes "R s t" and item: "\<And>u. R s u \<Longrightarrow> keeps R s (item u)"
  shows "keeps R s (funcTypeParams n item t)"
  using assms(1) unfolding funcTypeParams_def by (intro frame item)

lemma tagLoop_frame: "R s t \<Longrightarrow> R s (snd (tagLoop tags t))"
proof (induction "tokensLeft t" arbitrary: tags t rule: less_induct)
  case less
  note IH = less(1) [OF advance_twice] less(1) [OF advance_consumes]
  show ?case by (subst tagLoop.simps) (simp add: Let_def IH less(2) frame)
qed

lemma parseTags_frame [frame]: "R s t \<Longrightarrow> R s (snd (parseTags t))"
  unfolding parseTags_def by (simp add: Let_def split_beta tagLoop_frame frame)

lemma structTagLoop_frame: "R s t \<Longrightarrow> keeps R s (structTagLoop tags scoped t)"
proof (induction "tokensLeft t" arbitrary: tags scoped t rule: less_induct)
  case less
  note IH = less(1) [OF advance_twice] less(1) [OF advance_consumes]
  show ?case using less(2) by (subst structTagLoop.simps) (simp add: Let_def IH frame)
qed

lemma parseStructTags_frame [frame]: "R s t \<Longrightarrow> keeps R s (parseStructTags t)"
  unfolding parseStructTags_def by (intro frame structTagLoop_frame)

lemma types_frame:
  "(\<forall>s t. R s t \<longrightarrow> keeps R s (parseTypeUnion n t)) \<and> (\<forall>s t. R s t \<longrightarrow> keeps R s (parseTypeSingle n t)) \<and>
   (\<forall>s t. R s t \<longrightarrow> keeps R s (parseFuncType n t))"
proof (induction n)
  case 0
  show ?case by (simp add: frame)
next
  case (Suc n)
  have u [frame]: "keeps R s (parseTypeUnion n t)" and si [frame]: "keeps R s (parseTypeSingle n t)"
    and f [frame]: "keeps R s (parseFuncType n t)" if "R s t" for s t using Suc that by blast+
  have "keeps R s (parseTypeUnion (Suc n) t)" if "R s t" for s t
    using that unfolding parseTypeUnion.simps by (intro frame u si f)
  moreover have "keeps R s (parseTypeSingle (Suc n) t)" if "R s t" for s t
    using that unfolding parseTypeSingle.simps by (intro frame u si f)
  moreover have "keeps R s (parseFuncType (Suc n) t)" if "R s t" for s t
    using that unfolding parseFuncType.simps by (intro frame u si f)
  ultimately show ?case by blast
qed

lemma type_frame [frame]:
  "R s t \<Longrightarrow> keeps R s (parseTypeUnion n t)" "R s t \<Longrightarrow> keeps R s (parseTypeSingle n t)" "R s t \<Longrightarrow> keeps R s (parseFuncType n t)"
  using types_frame by blast+

lemma paramType_frame [frame]: "R s t \<Longrightarrow> keeps R s (paramType n param t)"
  unfolding paramType_def by (intro frame)

lemma parseParam_frame [frame]: "R s t \<Longrightarrow> keeps R s (parseParam n t)"
  unfolding parseParam_def by (intro frame)

lemma parseParams_frame [frame]: "R s t \<Longrightarrow> keeps R s (parseParams n t)"
  unfolding parseParams_def by (intro frame)

lemma parseTypeParamsWithWildcards_frame [frame]: "R s t \<Longrightarrow> keeps R s (parseTypeParamsWithWildcards n t)"
  unfolding parseTypeParamsWithWildcards_def by (intro frame)

lemma parseTypeParams_frame [frame]: "R s t \<Longrightarrow> keeps R s (parseTypeParams n t)"
  unfolding parseTypeParams_def by (intro frame)

lemma parseTypeArgList_frame [frame]: "R s t \<Longrightarrow> keeps R s (parseTypeArgList n t)"
  unfolding parseTypeArgList_def by (intro frame)

lemma boundLoop_frame [frame]:
  assumes "R s t" and sub: "\<And>u. R s u \<Longrightarrow> keeps R s (sub u)"
  shows "keeps R s (boundLoop n ops mk sub t)"
  using assms(1) unfolding boundLoop_def by (intro frame sub)

lemma bounds_frame:
  "(\<forall>s t. R s t \<longrightarrow> keeps R s (parseTypeBound n t)) \<and> (\<forall>s t. R s t \<longrightarrow> keeps R s (parseTypeBoundAnd n t)) \<and>
   (\<forall>s t. R s t \<longrightarrow> keeps R s (parseTypeBoundUnary n t)) \<and> (\<forall>s t. R s t \<longrightarrow> keeps R s (parseTypeBoundAtom n t))"
proof (induction n)
  case 0
  show ?case by (simp add: frame)
next
  case (Suc n)
  have IH: "R s t \<Longrightarrow> keeps R s (parseTypeBound n t)" "R s t \<Longrightarrow> keeps R s (parseTypeBoundAnd n t)"
    "R s t \<Longrightarrow> keeps R s (parseTypeBoundUnary n t)" "R s t \<Longrightarrow> keeps R s (parseTypeBoundAtom n t)" for s t using Suc by blast+
  have "keeps R s (parseTypeBound (Suc n) t)" if "R s t" for s t
    using that unfolding parseTypeBound.simps by (intro frame IH)
  moreover have "keeps R s (parseTypeBoundAnd (Suc n) t)" if "R s t" for s t
    using that unfolding parseTypeBoundAnd.simps by (intro frame IH)
  moreover have "keeps R s (parseTypeBoundUnary (Suc n) t)" if "R s t" for s t
    using that unfolding parseTypeBoundUnary.simps by (intro frame IH)
  moreover have "keeps R s (parseTypeBoundAtom (Suc n) t)" if "R s t" for s t
    using that unfolding parseTypeBoundAtom.simps by (intro frame IH)
  ultimately show ?case by blast
qed

lemma bound_frame [frame]: "R s t \<Longrightarrow> keeps R s (parseTypeBound n t)"
  using bounds_frame by blast

lemma parseConstraint_frame [frame]: "R s t \<Longrightarrow> keeps R s (parseConstraint n t)"
  unfolding parseConstraint_def by (intro frame)

lemma moreConstraints_frame [frame]: "R s t \<Longrightarrow> keeps R s (moreConstraints n x1 t)"
  unfolding moreConstraints_def by (intro frame)

end

text \<open>The parsers of types only move the position.\<close>

definition onlyPos :: "Parser \<Rightarrow> Parser \<Rightarrow> bool" where
  "onlyPos s t \<longleftrightarrow> t\<lparr>ps_pos := ps_pos s\<rparr> = s"

interpretation types: pos_frame onlyPos
proof
  show "onlyPos s t \<Longrightarrow> onlyPos t u \<Longrightarrow> onlyPos s u" for s t u
    by (cases s; cases t; cases u) (simp add: onlyPos_def)
qed (simp_all add: onlyPos_def)

lemma restored: "keeps onlyPos (advanceP s) (POk x t) \<Longrightarrow> t\<lparr>ps_pos := ps_pos s\<rparr> = s"
  using types.trans [OF types.step(1) [OF types.refl, of s]] by (simp add: keeps_def onlyPos_def)

context pos_frame
begin

lemma parseTypeConstraints_frame [frame]: "R s t \<Longrightarrow> keeps R s (parseTypeConstraints n t)"
  unfolding parseTypeConstraints_def
proof (rule keeps_loopP, assumption)
  fix cs u assume u: "R s u"
  let ?f = "parseConstraint n (advanceP u)"
  have "keeps R s ?f" by (intro frame u)
  moreover have "keeps onlyPos (advanceP u) ?f" by (rule types.parseConstraint_frame [OF types.refl])
  ultimately have "keeps R s (bindP (moreConstraints n (cs @ [c])) (\<lambda>cs. returnP (Inl cs)) t)" "t\<lparr>ps_pos := ps_pos u\<rparr> = u"
    if "?f = POk c' t" for c c' t using that restored [of u c' t] by (simp_all add: keeps_def [of R s "POk c' t"] frame)
  then show "keeps R s (if \<not> checkP KW_WHERE u then POk (Inr cs) u
      else bindP (parseConstraint n) (\<lambda>c t. case c of None \<Rightarrow> POk (Inr cs) (t\<lparr>ps_pos := ps_pos u\<rparr>)
        | Some c \<Rightarrow> bindP (moreConstraints n (cs @ [c])) (\<lambda>cs. returnP (Inl cs)) t) (advanceP u))"
    using u \<open>keeps R s ?f\<close> by (cases ?f) (auto simp: bindP_def [of "parseConstraint n"] keeps_def [of R s "PErr _ _"] frame split: option.split)
qed

end

section \<open>All methods\<close>

locale parser_frame = pos_frame +
  assumes continuation: "R s (s\<lparr>ps_continuationDedents := c\<rparr>)"
    and pending: "R s (s\<lparr>ps_pendingLambdaDedents := c\<rparr>)"
    and warning: "R s (s\<lparr>ps_warnings := ps_warnings s @ ws\<rparr>)"
    and expansion: "ps_noParensMacros s \<noteq> Map.empty \<Longrightarrow>
      R s (s\<lparr>ps_tokens := take (ps_pos s) (ps_tokens s) @ toks @ drop (ps_pos s) (ps_tokens s)\<rparr>)"
    and depth: "R (s\<lparr>ps_blockDepth := ps_blockDepth s + 1\<rparr>) t \<Longrightarrow> R s (t\<lparr>ps_blockDepth := ps_blockDepth t - 1\<rparr>)"
    and casts: "R (s\<lparr>ps_suppressPostfixCast := 0\<rparr>) t \<Longrightarrow> R s (t\<lparr>ps_suppressPostfixCast := ps_suppressPostfixCast s\<rparr>)"
    and noCasts: "R (s\<lparr>ps_suppressPostfixCast := ps_suppressPostfixCast s + 1\<rparr>) t \<Longrightarrow>
      R s (t\<lparr>ps_suppressPostfixCast := ps_suppressPostfixCast t - 1\<rparr>)"
begin

lemma updates [frame]:
  "R s t \<Longrightarrow> R s (t\<lparr>ps_continuationDedents := c\<rparr>)" "R s t \<Longrightarrow> R s (t\<lparr>ps_pendingLambdaDedents := c\<rparr>)"
  "R s t \<Longrightarrow> R s (warnAt l c' name body t)"
  unfolding warnAt_def by (erule trans, rule continuation pending warning)+

lemma drains [frame]: "R s t \<Longrightarrow> R s (drainContinuation t)" "R s t \<Longrightarrow> R s (drainLambda t)"
  unfolding drainContinuation_def drainLambda_def by (simp_all add: frame)

lemma skip_lines [frame]:
  "R s t \<Longrightarrow> R s (skipNewlines t)" "R s t \<Longrightarrow> R s (skipSemisAndNewlines t)" "R s t \<Longrightarrow> R s (enterIndents t)"
proof -
  assume a: "R s t"
  show "R s (enterIndents t)"
    unfolding enterIndents_def Let_def
    by (rule trans [OF forward_by [OF a] continuation]) (rule length_takeWhile_le)
qed (simp_all add: skipNewlines_def skipSemisAndNewlines_def frame)

subsection \<open>Statements\<close>

lemma inBlock_frame [frame]:
  assumes "R s t" and "\<And>s' u. R s' u \<Longrightarrow> keeps R s' (f u)"
  shows "keeps R s (inBlock f t)"
proof -
  let ?t = "t\<lparr>ps_blockDepth := ps_blockDepth t + 1\<rparr>"
  have "keeps R ?t (f ?t)" using assms(2) refl by blast
  then show ?thesis using trans [OF assms(1) depth] by (auto simp: keeps_def inBlock_def split: presult.splits)
qed

lemma owedLambdaDedent_frame [frame]: "R s t \<Longrightarrow> R s (owedLambdaDedent t)"
  unfolding owedLambdaDedent_def by (intro frame)

lemma blockStep_frame [frame]: "keepsKnots R K \<Longrightarrow> R s t \<Longrightarrow> keeps R s (blockStep K acc t)"
  unfolding blockStep_def by (intro frame)

lemma parseBlock_frame [frame]: "keepsKnots R K \<Longrightarrow> R s t \<Longrightarrow> keeps R s (parseBlock K t)"
  unfolding parseBlock_def by (intro frame)

lemma colonBlock_frame [frame]: "keepsKnots R K \<Longrightarrow> R s t \<Longrightarrow> keeps R s (colonBlock K t)"
  unfolding colonBlock_def by (intro frame)

lemma parseColonBody_frame [frame]: "keepsKnots R K \<Longrightarrow> R s t \<Longrightarrow> keeps R s (parseColonBody K t)"
  unfolding parseColonBody_def by (intro frame)

lemma structPatternField_frame [frame]: "keepsKnots R K \<Longrightarrow> R s t \<Longrightarrow> keeps R s (structPatternField K t)"
  unfolding structPatternField_def by (intro frame)

lemma parseStructPattern_frame [frame]: "keepsKnots R K \<Longrightarrow> R s t \<Longrightarrow> keeps R s (parseStructPattern K t)"
  unfolding parseStructPattern_def by (intro frame)

lemma parseArrayPattern_frame [frame]: "keepsKnots R K \<Longrightarrow> R s t \<Longrightarrow> keeps R s (parseArrayPattern K t)"
  unfolding parseArrayPattern_def by (intro frame)

lemma parsePatternElem_frame [frame]: "keepsKnots R K \<Longrightarrow> R s t \<Longrightarrow> keeps R s (parsePatternElem K t)"
  unfolding parsePatternElem_def by (intro frame)

lemma parseWherePattern_frame [frame]: "keepsKnots R K \<Longrightarrow> R s t \<Longrightarrow> keeps R s (parseWherePattern K t)"
  unfolding parseWherePattern_def by (intro frame)

lemma guardP_frame [frame]: "keepsKnots R K \<Longrightarrow> R s t \<Longrightarrow> keeps R s (guardP K t)"
  unfolding guardP_def by (intro frame)

lemma whereTest_frame [frame]: "keepsKnots R K \<Longrightarrow> R s t \<Longrightarrow> keeps R s (whereTest K t)"
  unfolding whereTest_def by (intro frame)

lemma whereBody_frame [frame]: "keepsKnots R K \<Longrightarrow> R s t \<Longrightarrow> keeps R s (whereBody K t)"
  unfolding whereBody_def by (intro frame)

lemma parseWhereClause_frame [frame]: "keepsKnots R K \<Longrightarrow> R s t \<Longrightarrow> keeps R s (parseWhereClause K t)"
  unfolding parseWhereClause_def by (intro frame)

lemma parseWhereBlock_frame [frame]: "keepsKnots R K \<Longrightarrow> R s t \<Longrightarrow> keeps R s (parseWhereBlock K t)"
  unfolding parseWhereBlock_def by (intro frame)

lemma parseWhereStmt_frame [frame]: "keepsKnots R K \<Longrightarrow> R s t \<Longrightarrow> keeps R s (parseWhereStmt K t)"
  unfolding parseWhereStmt_def by (intro frame)

lemma moreStatements_frame [frame]: "keepsKnots R K \<Longrightarrow> R s t \<Longrightarrow> keeps R s (moreStatements K x1 t)"
  unfolding moreStatements_def by (intro frame)

lemma parseFuncBody_frame [frame]: "keepsKnots R K \<Longrightarrow> R s t \<Longrightarrow> keeps R s (parseFuncBody K t)"
  unfolding parseFuncBody_def by (intro frame)

lemma parseLambda_frame [frame]: "keepsKnots R K \<Longrightarrow> R s t \<Longrightarrow> keeps R s (parseLambda K t)"
  unfolding parseLambda_def by (intro frame)

lemma optType_frame [frame]: "keepsKnots R K \<Longrightarrow> R s t \<Longrightarrow> keeps R s (optType K t)"
  unfolding optType_def by (intro frame)

lemma optInit_frame [frame]: "keepsKnots R K \<Longrightarrow> R s t \<Longrightarrow> keeps R s (optInit K t)"
  unfolding optInit_def by (intro frame)

lemma binding_frame [frame]: "keepsKnots R K \<Longrightarrow> R s t \<Longrightarrow> keeps R s (binding K t)"
  unfolding binding_def by (intro frame)

lemma parseVarDecl_frame [frame]: "keepsKnots R K \<Longrightarrow> R s t \<Longrightarrow> keeps R s (parseVarDecl K t)"
  unfolding parseVarDecl_def by (intro frame)

lemma parseTopLevelVar_frame [frame]: "keepsKnots R K \<Longrightarrow> R s t \<Longrightarrow> keeps R s (parseTopLevelVar K t)"
  unfolding parseTopLevelVar_def by (intro frame)

lemma parseTopLevelLetConst_frame [frame]: "keepsKnots R K \<Longrightarrow> R s t \<Longrightarrow> keeps R s (parseTopLevelLetConst K t)"
  unfolding parseTopLevelLetConst_def by (intro frame)

lemma initValue_frame [frame]: "keepsKnots R K \<Longrightarrow> R s t \<Longrightarrow> keeps R s (initValue K t)"
  unfolding initValue_def by (intro frame)

lemma destructName_frame [frame]: "R s t \<Longrightarrow> keeps R s (destructName t)"
  unfolding destructName_def by (intro frame)

lemma destructTypes_frame [frame]: "keepsKnots R K \<Longrightarrow> R s t \<Longrightarrow> keeps R s (destructTypes K t)"
  unfolding destructTypes_def by (intro frame)

lemma parseArrayDestructDecl_frame [frame]: "keepsKnots R K \<Longrightarrow> R s t \<Longrightarrow> keeps R s (parseArrayDestructDecl K p t)"
  unfolding parseArrayDestructDecl_def by (intro frame)

lemma destructField_frame [frame]: "R s t \<Longrightarrow> keeps R s (destructField t)"
  unfolding destructField_def by (intro frame)

lemma parseStructDestructDecl_frame [frame]: "keepsKnots R K \<Longrightarrow> R s t \<Longrightarrow> keeps R s (parseStructDestructDecl K p t)"
  unfolding parseStructDestructDecl_def by (intro frame)

lemma parseTupleDestructDecl_frame [frame]: "keepsKnots R K \<Longrightarrow> R s t \<Longrightarrow> keeps R s (parseTupleDestructDecl K isConst p t)"
  unfolding parseTupleDestructDecl_def by (intro frame)

lemma parseLetStmt_frame [frame]: "keepsKnots R K \<Longrightarrow> R s t \<Longrightarrow> keeps R s (parseLetStmt K t)"
  unfolding parseLetStmt_def by (intro frame)

lemma parseReturnStmt_frame [frame]: "keepsKnots R K \<Longrightarrow> R s t \<Longrightarrow> keeps R s (parseReturnStmt K t)"
  unfolding parseReturnStmt_def by (intro frame)

lemma parseEchoStmt_frame [frame]: "keepsKnots R K \<Longrightarrow> R s t \<Longrightarrow> keeps R s (parseEchoStmt K t)"
  unfolding parseEchoStmt_def by (intro frame)

lemma parseDoBlock_frame [frame]: "keepsKnots R K \<Longrightarrow> R s t \<Longrightarrow> keeps R s (parseDoBlock K t)"
  unfolding parseDoBlock_def by (intro frame)

lemma parseDeferStmt_frame [frame]: "keepsKnots R K \<Longrightarrow> R s t \<Longrightarrow> keeps R s (parseDeferStmt K t)"
  unfolding parseDeferStmt_def by (intro frame)

lemma spawnBody_frame [frame]: "keepsKnots R K \<Longrightarrow> R s t \<Longrightarrow> keeps R s (spawnBody K t)"
  unfolding spawnBody_def by (intro frame)

lemma parseSpawnExpr_frame [frame]: "keepsKnots R K \<Longrightarrow> R s t \<Longrightarrow> keeps R s (parseSpawnExpr K t)"
  unfolding parseSpawnExpr_def by (intro frame)

lemma parseSpawnExprStmt_frame [frame]: "keepsKnots R K \<Longrightarrow> R s t \<Longrightarrow> keeps R s (parseSpawnExprStmt K t)"
  unfolding parseSpawnExprStmt_def by (intro frame)

lemma parseExprStatement_frame [frame]: "keepsKnots R K \<Longrightarrow> R s t \<Longrightarrow> keeps R s (parseExprStatement K t)"
  unfolding parseExprStatement_def by (intro frame)

lemma elseStep_frame [frame]: "keepsKnots R K \<Longrightarrow> R s t \<Longrightarrow> keeps R s (elseStep K elifs t)"
  unfolding elseStep_def by (intro frame)

lemma parseIfStmt_frame [frame]: "keepsKnots R K \<Longrightarrow> R s t \<Longrightarrow> keeps R s (parseIfStmt K t)"
  unfolding parseIfStmt_def by (intro frame)

lemma forBody_frame [frame]: "keepsKnots R K \<Longrightarrow> R s t \<Longrightarrow> keeps R s (forBody K mk t)"
  unfolding forBody_def by (intro frame)

lemma condAndPost_frame [frame]: "keepsKnots R K \<Longrightarrow> R s t \<Longrightarrow> keeps R s (condAndPost K init t)"
  unfolding condAndPost_def by (intro frame)

lemma forLetHeader_frame [frame]: "keepsKnots R K \<Longrightarrow> R s t \<Longrightarrow> keeps R s (forLetHeader K name typ t)"
  unfolding forLetHeader_def by (intro frame)

lemma parseForStmt_frame [frame]: "keepsKnots R K \<Longrightarrow> R s t \<Longrightarrow> keeps R s (parseForStmt K t)"
  unfolding parseForStmt_def by (intro frame)

lemma casePattern_frame [frame]: "keepsKnots R K \<Longrightarrow> R s t \<Longrightarrow> keeps R s (casePattern K t)"
  unfolding casePattern_def by (intro frame)

lemma armBody_frame [frame]: "keepsKnots R K \<Longrightarrow> R s t \<Longrightarrow> keeps R s (armBody K mk t)"
  unfolding armBody_def by (intro frame)

lemma parseMatchCase_frame [frame]: "keepsKnots R K \<Longrightarrow> R s t \<Longrightarrow> keeps R s (parseMatchCase K t)"
  unfolding parseMatchCase_def by (intro frame)

lemma defaultArm_frame [frame]: "keepsKnots R K \<Longrightarrow> R s t \<Longrightarrow> keeps R s (defaultArm K old t)"
  unfolding defaultArm_def by (intro frame)

lemma matchArms_frame [frame]:
  assumes "keepsKnots R K" and "R s t" and arm: "\<And>u. R s u \<Longrightarrow> keeps R s (arm u)"
  shows "keeps R s (matchArms K arm t)"
  using assms(1,2) unfolding matchArms_def by (intro frame arm)

lemma spacedItems_frame [frame]:
  assumes "R s t" and item: "\<And>u. R s u \<Longrightarrow> keeps R s (item u)"
  shows "keeps R s (spacedItems n c item t)"
  using assms(1) unfolding spacedItems_def by (intro frame item)

lemma parseMatchStmt_frame [frame]: "keepsKnots R K \<Longrightarrow> R s t \<Longrightarrow> keeps R s (parseMatchStmt K t)"
  unfolding parseMatchStmt_def by (intro frame)

lemma awaitSlot_frame [frame]: "R s t \<Longrightarrow> keeps R s (awaitSlot t)"
  unfolding awaitSlot_def by (intro frame)

lemma parseAwaitMatchCase_frame [frame]: "keepsKnots R K \<Longrightarrow> R s t \<Longrightarrow> keeps R s (parseAwaitMatchCase K nFutures t)"
  unfolding parseAwaitMatchCase_def by (intro frame)

lemma awaitMatchWarning_frame [frame]: "R s t \<Longrightarrow> R s (awaitMatchWarning tok arms t)"
  unfolding awaitMatchWarning_def by (simp add: frame)

lemma parseAwaitMatchStmt_frame [frame]: "keepsKnots R K \<Longrightarrow> R s t \<Longrightarrow> keeps R s (parseAwaitMatchStmt K t)"
  unfolding parseAwaitMatchStmt_def by (intro frame)

subsection \<open>Expressions\<close>

lemma skip_comma [frame]: "R s t \<Longrightarrow> R s (skipSpaced t)" "R s t \<Longrightarrow> R s (commaThenSpace t)"
  unfolding skipSpaced_def commaThenSpace_def by (simp_all add: frame)

lemma interpExpr_frame [frame]: "R s t \<Longrightarrow> keeps R s (interpExpr K e t)"
  unfolding interpExpr_def by (simp add: keeps_def split: option.split sum.split presult.split)

lemma exprPart_frame [frame]: "keepsKnots R K \<Longrightarrow> R s t \<Longrightarrow> keeps R s (exprPart K slot t)"
  unfolding exprPart_def by (intro frame)

lemma interpStep_frame [frame]: "keepsKnots R K \<Longrightarrow> R s t \<Longrightarrow> keeps R s (interpStep K acc t)"
  unfolding interpStep_def by (intro frame)

lemma parseStringInterp_frame [frame]: "keepsKnots R K \<Longrightarrow> R s t \<Longrightarrow> keeps R s (parseStringInterp K text t)"
  unfolding parseStringInterp_def by (intro frame)

lemma parseArgList_frame [frame]: "keepsKnots R K \<Longrightarrow> R s t \<Longrightarrow> keeps R s (parseArgList K t)"
  unfolding parseArgList_def by (intro frame)

lemma parseArrayLit_frame [frame]: "keepsKnots R K \<Longrightarrow> R s t \<Longrightarrow> keeps R s (parseArrayLit K t)"
  unfolding parseArrayLit_def by (intro frame)

lemma structLitItem_frame [frame]: "keepsKnots R K \<Longrightarrow> R s t \<Longrightarrow> keeps R s (structLitItem K t)"
  unfolding structLitItem_def by (intro frame)

lemma parseStructLit_frame [frame]: "keepsKnots R K \<Longrightarrow> R s t \<Longrightarrow> keeps R s (parseStructLit K name typeArgs t)"
  unfolding parseStructLit_def by (intro frame)

lemma maybeWrapSuffix_frame [frame]: "keepsKnots R K \<Longrightarrow> R s t \<Longrightarrow> keeps R s (maybeWrapSuffix K lit p t)"
  unfolding maybeWrapSuffix_def by (intro frame)

lemma typeOperand_frame [frame]: "keepsKnots R K \<Longrightarrow> R s t \<Longrightarrow> keeps R s (typeOperand K mk t)"
  unfolding typeOperand_def by (intro frame)

lemma unaryOperand_frame [frame]: "keepsKnots R K \<Longrightarrow> R s t \<Longrightarrow> keeps R s (unaryOperand K mk t)"
  unfolding unaryOperand_def by (intro frame)

lemma binaryOperand_frame [frame]: "keepsKnots R K \<Longrightarrow> R s t \<Longrightarrow> keeps R s (binaryOperand K mk t)"
  unfolding binaryOperand_def by (intro frame)

lemma ternaryOperand_frame [frame]: "keepsKnots R K \<Longrightarrow> R s t \<Longrightarrow> keeps R s (ternaryOperand K mk t)"
  unfolding ternaryOperand_def by (intro frame)

lemma parseDefault_frame [frame]: "keepsKnots R K \<Longrightarrow> R s t \<Longrightarrow> keeps R s (parseDefault K t)"
  unfolding parseDefault_def by (intro frame)

lemma parseAt_frame [frame]: "R s t \<Longrightarrow> keeps R s (parseAt t)"
  unfolding parseAt_def by (intro frame)

lemma withCasts_frame [frame]:
  assumes "R s t" and "\<And>s' u. R s' u \<Longrightarrow> keeps R s' (f u)"
  shows "keeps R s (withCasts f t)"
proof -
  let ?t = "t\<lparr>ps_suppressPostfixCast := 0\<rparr>"
  have "keeps R ?t (f ?t)" using assms(2) refl by blast
  then show ?thesis using trans [OF assms(1) casts] by (auto simp: keeps_def withCasts_def split: presult.splits)
qed

lemma withoutCasts_frame [frame]:
  assumes "R s t" and "\<And>s' u. R s' u \<Longrightarrow> keeps R s' (f u)"
  shows "keeps R s (withoutCasts f t)"
proof -
  let ?t = "t\<lparr>ps_suppressPostfixCast := ps_suppressPostfixCast t + 1\<rparr>"
  have "keeps R ?t (f ?t)" using assms(2) refl by blast
  then show ?thesis using trans [OF assms(1) noCasts] by (auto simp: keeps_def withoutCasts_def split: presult.splits)
qed

lemma parseBlockStmts_frame [frame]: "keepsKnots R K \<Longrightarrow> R s t \<Longrightarrow> keeps R s (parseBlockStmts K first t)"
  unfolding parseBlockStmts_def by (intro frame)

lemma parseParens_frame [frame]: "keepsKnots R K \<Longrightarrow> R s t \<Longrightarrow> keeps R s (parseParens K t)"
  unfolding parseParens_def by (intro frame)

lemma parseIdentifier_frame [frame]:
  assumes K: "keepsKnots R K" and t: "R s t"
  shows "keeps R s (parseIdentifier K t)"
proof -
  have a: "R s (advanceP t)" by (intro frame t)
  have lit: "R s u \<Longrightarrow> keeps R s (parseStructLit K name ts u)" for name ts u by (intro frame K)
  let ?f = "parseTypeArgList (k_fuel K) (advanceP t)"
  have "keeps R s ?f" by (intro frame t)
  moreover have "keeps onlyPos (advanceP t) ?f" by (rule types.parseTypeArgList_frame [OF types.refl])
  ultimately show ?thesis unfolding parseIdentifier_def Let_def
    using a by (cases ?f) (auto simp: keeps_def [of R s "POk _ _"] keeps_def [of R s "PErr _ _"] keeps_def [of R s PDiverge]
      keeps_def [of onlyPos] onlyPos_def keeps_mapP keepsKnotsD K lit)
qed

lemma bareName_frame [frame]: "R s t \<Longrightarrow> keeps R s (bareName kwTok mk errIdent errPartial t)"
  unfolding bareName_def by (intro frame)

lemma parseLiteral_frame [frame]: "keepsKnots R K \<Longrightarrow> R s t \<Longrightarrow> keeps R s (parseLiteral K t)"
  unfolding parseLiteral_def by (intro frame)

lemma parseOperator_frame [frame]: "keepsKnots R K \<Longrightarrow> R s t \<Longrightarrow> keeps R s (parseOperator K tx t)"
  unfolding parseOperator_def by (intro frame)

lemma parsePrimary_frame [frame]: "keepsKnots R K \<Longrightarrow> R s t \<Longrightarrow> keeps R s (parsePrimary K t)"
  unfolding parsePrimary_def by (intro frame)

lemma parseAsSuffix_frame [frame]: "keepsKnots R K \<Longrightarrow> R s t \<Longrightarrow> keeps R s (parseAsSuffix K expr t)"
  unfolding parseAsSuffix_def by (intro frame)

lemma parseIsSuffix_frame [frame]: "keepsKnots R K \<Longrightarrow> R s t \<Longrightarrow> keeps R s (parseIsSuffix K expr t)"
  unfolding parseIsSuffix_def by (intro frame)

lemma applyPostfixCasts_frame [frame]: "keepsKnots R K \<Longrightarrow> R s t \<Longrightarrow> keeps R s (applyPostfixCasts K x1 t)"
  unfolding applyPostfixCasts_def by (intro frame)

lemma fieldSuffix_frame [frame]: "keepsKnots R K \<Longrightarrow> R s t \<Longrightarrow> keeps R s (fieldSuffix K stop isPtr expr n t)"
  unfolding fieldSuffix_def by (intro frame)

lemma dotSuffix_frame [frame]: "keepsKnots R K \<Longrightarrow> R s t \<Longrightarrow> keeps R s (dotSuffix K stop expr n0 t)"
  unfolding dotSuffix_def by (intro frame)

lemma arrowSuffix_frame [frame]: "keepsKnots R K \<Longrightarrow> R s t \<Longrightarrow> keeps R s (arrowSuffix K stop expr n0 t)"
  unfolding arrowSuffix_def by (intro frame)

lemma scopeTail_frame [frame]: "keepsKnots R K \<Longrightarrow> R s t \<Longrightarrow> keeps R s (scopeTail K stop allowLit p path field n t)"
  unfolding scopeTail_def by (intro frame)

lemma scopeSuffix_frame [frame]: "keepsKnots R K \<Longrightarrow> R s t \<Longrightarrow> keeps R s (scopeSuffix K stop expr n t)"
proof -
  assume a: "keepsKnots R K" "R s t"
  show ?thesis
  proof (cases expr)
    case (NLeaf p x)
    with a show ?thesis unfolding scopeSuffix_def by (cases x; simp only: Node.case Leaf.case; intro frame; assumption?)
  next
    case (NExpr p x)
    with a show ?thesis unfolding scopeSuffix_def by (cases x; simp only: Node.case Expr.case; intro frame; assumption?)
  qed (use a in \<open>simp only: scopeSuffix_def Node.case; intro frame; assumption?\<close>)+
qed

lemma genericLit_frame [frame]: "keepsKnots R K \<Longrightarrow> R s t \<Longrightarrow> keeps R s (genericLit K idx base index n t)"
  unfolding genericLit_def by (intro frame)

lemma indexStart_frame [frame]: "keepsKnots R K \<Longrightarrow> R s t \<Longrightarrow> keeps R s (indexStart K expr t)"
  unfolding indexStart_def by (intro frame)

lemma indexSuffix_frame [frame]: "keepsKnots R K \<Longrightarrow> R s t \<Longrightarrow> keeps R s (indexSuffix K expr n t)"
  unfolding indexSuffix_def by (intro frame)

lemma postfixSwitch_frame [frame]: "keepsKnots R K \<Longrightarrow> R s t \<Longrightarrow> keeps R s (postfixSwitch K stop expr n t)"
  unfolding postfixSwitch_def by (intro frame)

lemma postfixStep_frame [frame]: "keepsKnots R K \<Longrightarrow> R s t \<Longrightarrow> keeps R s (postfixStep K stop acc t)"
  unfolding postfixStep_def by (intro frame)

lemma parsePostfixOpt_frame [frame]: "keepsKnots R K \<Longrightarrow> R s t \<Longrightarrow> keeps R s (parsePostfixOpt K stopAfterCall t)"
  unfolding parsePostfixOpt_def by (intro frame)

lemma parsePostfix_frame [frame]: "keepsKnots R K \<Longrightarrow> R s t \<Longrightarrow> keeps R s (parsePostfix K t)"
  unfolding parsePostfix_def by (intro frame)

lemma parsePostfixNoCast_frame [frame]: "keepsKnots R K \<Longrightarrow> R s t \<Longrightarrow> keeps R s (parsePostfixNoCast K t)"
  unfolding parsePostfixNoCast_def by (intro frame)

lemma parsePointerOperand_frame [frame]: "keepsKnots R K \<Longrightarrow> R s t \<Longrightarrow> keeps R s (parsePointerOperand K t)"
  unfolding parsePointerOperand_def by (intro frame)

lemma parseUnary_frame [frame]: "keepsKnots R K \<Longrightarrow> R s t \<Longrightarrow> keeps R s (parseUnary K t)"
  unfolding parseUnary_def by (intro frame)

lemma binaryOp_frame: "R s t \<Longrightarrow> binaryOp l ops t = Some u \<Longrightarrow> R s u"
  by (auto simp: binaryOp_def Let_def frame split: if_splits)

lemma parseBinaryImpl_frame [frame]:
  assumes "R s t" and sub: "\<And>u. R s u \<Longrightarrow> keeps R s (sub u)"
  shows "keeps R s (parseBinaryImpl K sub l ops t)"
  using assms(1) unfolding parseBinaryImpl_def
  by (intro frame sub) (auto intro: frame binaryOp_frame)

lemma parseBinary_frame [frame]:
  assumes "R s t" and sub: "\<And>u. R s u \<Longrightarrow> keeps R s (sub u)"
  shows "keeps R s (parseBinary K sub ops t)" "keeps R s (parseBinaryAllowLeading K sub ops t)"
  using assms(1) unfolding parseBinary_def parseBinaryAllowLeading_def by (simp_all add: frame sub)

lemma parseMultiplicative_frame [frame]: "keepsKnots R K \<Longrightarrow> R s t \<Longrightarrow> keeps R s (parseMultiplicative K t)"
  unfolding parseMultiplicative_def by (intro frame)

lemma operator_frame:
  "R s t \<Longrightarrow> additiveOp n t = Some (u, m) \<Longrightarrow> R s u" "R s t \<Longrightarrow> pipeOp n t = Some (u, m) \<Longrightarrow> R s u"
  by (auto simp: additiveOp_def pipeOp_def Let_def split_beta frame split: if_splits)

lemma parseAdditive_frame [frame]: "keepsKnots R K \<Longrightarrow> R s t \<Longrightarrow> keeps R s (parseAdditive K t)"
  unfolding parseAdditive_def by (intro frame) (auto intro: operator_frame)

lemma parseShift_frame [frame]: "keepsKnots R K \<Longrightarrow> R s t \<Longrightarrow> keeps R s (parseShift K t)"
  unfolding parseShift_def by (intro frame)

lemma parseComparison_frame [frame]: "keepsKnots R K \<Longrightarrow> R s t \<Longrightarrow> keeps R s (parseComparison K t)"
  unfolding parseComparison_def by (intro frame)

lemma parseEquality_frame [frame]: "keepsKnots R K \<Longrightarrow> R s t \<Longrightarrow> keeps R s (parseEquality K t)"
  unfolding parseEquality_def by (intro frame)

lemma parseBitAnd_frame [frame]: "keepsKnots R K \<Longrightarrow> R s t \<Longrightarrow> keeps R s (parseBitAnd K t)"
  unfolding parseBitAnd_def by (intro frame)

lemma parseBitXor_frame [frame]: "keepsKnots R K \<Longrightarrow> R s t \<Longrightarrow> keeps R s (parseBitXor K t)"
  unfolding parseBitXor_def by (intro frame)

lemma parseBitOr_frame [frame]: "keepsKnots R K \<Longrightarrow> R s t \<Longrightarrow> keeps R s (parseBitOr K t)"
  unfolding parseBitOr_def by (intro frame)

lemma parseAnd_frame [frame]: "keepsKnots R K \<Longrightarrow> R s t \<Longrightarrow> keeps R s (parseAnd K t)"
  unfolding parseAnd_def by (intro frame)

lemma parseOr_frame [frame]: "keepsKnots R K \<Longrightarrow> R s t \<Longrightarrow> keeps R s (parseOr K t)"
  unfolding parseOr_def by (intro frame)

lemma parseTernary_frame [frame]: "keepsKnots R K \<Longrightarrow> R s t \<Longrightarrow> keeps R s (parseTernary K t)"
  unfolding parseTernary_def by (intro frame)

lemma parseRange_frame [frame]: "keepsKnots R K \<Longrightarrow> R s t \<Longrightarrow> keeps R s (parseRange K t)"
  unfolding parseRange_def by (intro frame)

lemma parsePipe_frame [frame]: "keepsKnots R K \<Longrightarrow> R s t \<Longrightarrow> keeps R s (parsePipe K t)"
  unfolding parsePipe_def by (intro frame) (auto intro: operator_frame)

lemma parseExpr_frame [frame]: "keepsKnots R K \<Longrightarrow> R s t \<Longrightarrow> keeps R s (parseExpr K t)"
  unfolding parseExpr_def by (intro frame)

lemma ParseExpr_frame [frame]: "keepsKnots R K \<Longrightarrow> R s t \<Longrightarrow> keeps R s (ParseExpr K t)"
  unfolding ParseExpr_def by (intro frame)

subsection \<open>Declarations\<close>

lemma bracketEnd_le: "bracketEnd d ts \<le> length ts"
  by (induction d ts rule: bracketEnd.induct) auto

lemma collectTypeArgs_frame [frame]: "R s t \<Longrightarrow> R s (snd (collectTypeArgs t))"
  unfolding collectTypeArgs_def Let_def by (simp add: forward_by bracketEnd_le del: length_drop)

lemma aliasSegments_frame [frame]: "R s t \<Longrightarrow> keeps R s (aliasSegments n t)"
  unfolding aliasSegments_def by (intro frame)

lemma pathSegments_frame [frame]: "R s t \<Longrightarrow> keeps R s (pathSegments n x1 t)"
  unfolding pathSegments_def by (intro frame)

lemma funcName_frame [frame]: "R s t \<Longrightarrow> keeps R s (funcName K t)"
  unfolding funcName_def by (intro frame)

lemma parseFuncDecl_frame [frame]: "keepsKnots R K \<Longrightarrow> R s t \<Longrightarrow> keeps R s (parseFuncDecl K tags0 isStatic t)"
  unfolding parseFuncDecl_def by (intro frame)

lemma traitList_frame [frame]: "keepsKnots R K \<Longrightarrow> R s t \<Longrightarrow> keeps R s (traitList K t)"
  unfolding traitList_def by (intro frame)

lemma fieldTags_frame [frame]: "R s t \<Longrightarrow> keeps R s (fieldTags n t)"
  unfolding fieldTags_def by (intro frame)

lemma modifiers_frame [frame]: "R s t \<Longrightarrow> R s (snd (snd (ownership t)))" "R s t \<Longrightarrow> R s (snd (snd (mutability t)))"
  unfolding ownership_def mutability_def by (simp_all add: frame)

lemma indented_frame [frame]:
  assumes "R s t" and item: "\<And>xs u. R s u \<Longrightarrow> keeps R s (item xs u)"
  shows "keeps R s (indented n item t)"
  using assms(1) unfolding indented_def by (intro frame item)

lemma parseStructField_frame [frame]: "keepsKnots R K \<Longrightarrow> R s t \<Longrightarrow> keeps R s (parseStructField K t)"
  unfolding parseStructField_def by (intro frame)

lemma parseStructItem_frame [frame]: "keepsKnots R K \<Longrightarrow> R s t \<Longrightarrow> keeps R s (parseStructItem K t)"
  unfolding parseStructItem_def by (intro frame)

lemma structItem_frame [frame]: "keepsKnots R K \<Longrightarrow> R s t \<Longrightarrow> keeps R s (structItem K items t)"
  unfolding structItem_def by (intro frame)

lemma parseStructDecl_frame [frame]: "keepsKnots R K \<Longrightarrow> R s t \<Longrightarrow> keeps R s (parseStructDecl K tags0 t)"
  unfolding parseStructDecl_def by (intro frame)

lemma traitItem_frame [frame]: "keepsKnots R K \<Longrightarrow> R s t \<Longrightarrow> keeps R s (traitItem K items t)"
  unfolding traitItem_def by (intro frame)

lemma parseTraitDecl_frame [frame]: "keepsKnots R K \<Longrightarrow> R s t \<Longrightarrow> keeps R s (parseTraitDecl K t)"
  unfolding parseTraitDecl_def by (intro frame)

lemma overrideItem_frame [frame]: "keepsKnots R K \<Longrightarrow> R s t \<Longrightarrow> keeps R s (overrideItem K fns t)"
  unfolding overrideItem_def by (intro frame)

lemma parseTypeDecl_frame [frame]: "keepsKnots R K \<Longrightarrow> R s t \<Longrightarrow> keeps R s (parseTypeDecl K t)"
  unfolding parseTypeDecl_def by (intro frame)

lemma parseEnumMember_frame [frame]: "keepsKnots R K \<Longrightarrow> R s t \<Longrightarrow> keeps R s (parseEnumMember K isAtom t)"
  unfolding parseEnumMember_def by (intro frame)

lemma parseEnumDecl_frame [frame]: "keepsKnots R K \<Longrightarrow> R s t \<Longrightarrow> keeps R s (parseEnumDecl K t)"
  unfolding parseEnumDecl_def by (intro frame)

lemma unionMember_frame [frame]: "keepsKnots R K \<Longrightarrow> R s t \<Longrightarrow> keeps R s (unionMember K t)"
  unfolding unionMember_def by (intro frame)

lemma parseUnionDecl_frame [frame]: "keepsKnots R K \<Longrightarrow> R s t \<Longrightarrow> keeps R s (parseUnionDecl K t)"
  unfolding parseUnionDecl_def by (intro frame)

lemma parseDataVariantField_frame [frame]: "keepsKnots R K \<Longrightarrow> R s t \<Longrightarrow> keeps R s (parseDataVariantField K t)"
  unfolding parseDataVariantField_def by (intro frame)

lemma parseDataVariant_frame [frame]: "keepsKnots R K \<Longrightarrow> R s t \<Longrightarrow> keeps R s (parseDataVariant K t)"
  unfolding parseDataVariant_def by (intro frame)

lemma dataItem_frame [frame]: "keepsKnots R K \<Longrightarrow> R s t \<Longrightarrow> keeps R s (dataItem K name items t)"
  unfolding dataItem_def by (intro frame)

lemma parseDataDecl_frame [frame]: "keepsKnots R K \<Longrightarrow> R s t \<Longrightarrow> keeps R s (parseDataDecl K t)"
  unfolding parseDataDecl_def by (intro frame)

lemma bangName_frame [frame]: "R s t \<Longrightarrow> R s (snd (bangName t))"
  unfolding bangName_def by (simp add: Let_def frame)

lemma importNames_frame [frame]: "R s t \<Longrightarrow> keeps R s (importNames n t)"
  unfolding importNames_def by (intro frame)

lemma pathParts_frame [frame]: "R s t \<Longrightarrow> keeps R s (pathParts n x1 t)"
  unfolding pathParts_def by (intro frame)

lemma modulePath_frame [frame]: "R s t \<Longrightarrow> keeps R s (modulePath n t)"
  unfolding modulePath_def by (intro frame)

lemma parseUseImport_frame [frame]: "keepsKnots R K \<Longrightarrow> R s t \<Longrightarrow> keeps R s (parseUseImport K t)"
  unfolding parseUseImport_def by (intro frame)

lemma parseUseDecl_frame [frame]: "keepsKnots R K \<Longrightarrow> R s t \<Longrightarrow> keeps R s (parseUseDecl K t)"
  unfolding parseUseDecl_def by (intro frame)

lemma exportNames_frame [frame]: "R s t \<Longrightarrow> keeps R s (exportNames n t)"
  unfolding exportNames_def by (intro frame)

lemma parseExportDecl_frame [frame]: "keepsKnots R K \<Longrightarrow> R s t \<Longrightarrow> keeps R s (parseExportDecl K t)"
  unfolding parseExportDecl_def by (intro frame)

lemma parseTestDecl_frame [frame]: "keepsKnots R K \<Longrightarrow> R s t \<Longrightarrow> keeps R s (parseTestDecl K t)"
  unfolding parseTestDecl_def by (intro frame)

lemma macroParams_frame [frame]: "keepsKnots R K \<Longrightarrow> R s t \<Longrightarrow> keeps R s (macroParams K t)"
  unfolding macroParams_def by (intro frame)

lemma parseMacroDecl_frame [frame]: "keepsKnots R K \<Longrightarrow> R s t \<Longrightarrow> keeps R s (parseMacroDecl K tags0 t)"
  unfolding parseMacroDecl_def by (intro frame)

lemma expandNoParens_frame [frame]:
  assumes "R s t" and "ps_noParensMacros t \<noteq> Map.empty"
  shows "keeps R s (expandNoParens U e t)"
proof -
  have "ps_noParensMacros (advanceP t) = ps_noParensMacros t" by (simp add: advanceP_def)
  then show ?thesis unfolding expandNoParens_def Let_def
    using step(1) [OF assms(1)] trans [OF step(1) [OF assms(1)] expansion] assms(2)
    by (simp add: keeps_def split: option.split sum.split)
qed

lemma statementSwitch_frame [frame]: "keepsKnots R K \<Longrightarrow> R s t \<Longrightarrow> keeps R s (statementSwitch K tags t)"
  unfolding statementSwitch_def by (intro frame) (auto split: if_splits)

lemma parseStatement_frame [frame]: "keepsKnots R K \<Longrightarrow> R s t \<Longrightarrow> keeps R s (parseStatement K t)"
  unfolding parseStatement_def by (intro frame) (auto split: if_splits)

lemma parseTopLevel_frame [frame]: "keepsKnots R K \<Longrightarrow> R s t \<Longrightarrow> keeps R s (parseTopLevel K t)"
  unfolding parseTopLevel_def by (intro frame) (auto split: if_splits)

lemma Parse_frame [frame]: "keepsKnots R K \<Longrightarrow> R s t \<Longrightarrow> keeps R s (Parse K t)"
  unfolding Parse_def by (intro frame)

lemma knot0_frame: "keepsKnots R (knot0 U F Q)"
  by (simp add: keepsKnots_def knot0_def frame)

lemma tie_frame: "keepsKnots R K \<Longrightarrow> keepsKnots R (tie K)"
  unfolding keepsKnots_def [of R "tie K"] by (simp add: tie_def frame)

lemma parserKnots_frame [frame]: "keepsKnots R (parserKnots U F Q n)"
  by (induction n) (simp_all add: knot0_frame tie_frame)

end

section \<open>What a call leaves alone\<close>

text \<open>
  The state after a call compared with the state before: the position has not moved back and is still within the tokens, the tokens
  before it are the same, and all tokens are if there is no macro to expand; the file, the macros and the warning switch are the
  same; the counters that a call raises while it runs are back at their value; warnings were only added.
\<close>

definition framed :: "Parser \<Rightarrow> Parser \<Rightarrow> bool" where
  "framed s t \<longleftrightarrow>
     (ps_pos s \<le> length (ps_tokens s) \<longrightarrow>
        ps_pos s \<le> ps_pos t \<and> ps_pos t \<le> length (ps_tokens t) \<and> take (ps_pos s) (ps_tokens t) = take (ps_pos s) (ps_tokens s)) \<and>
     (ps_noParensMacros s = Map.empty \<longrightarrow> ps_tokens t = ps_tokens s) \<and>
     ps_file t = ps_file s \<and> ps_noParensMacros t = ps_noParensMacros s \<and>
     ps_noWarnAwaitMatchGuards t = ps_noWarnAwaitMatchGuards s \<and>
     ps_suppressPostfixCast t = ps_suppressPostfixCast s \<and> ps_blockDepth t = ps_blockDepth s \<and>
     prefix (ps_warnings s) (ps_warnings t)"

lemma take_shorter: "take p xs = take p ys \<Longrightarrow> q \<le> p \<Longrightarrow> take q xs = take q ys"
  by (metis min.absorb1 take_take)

lemma framed_trans: "framed s t \<Longrightarrow> framed t u \<Longrightarrow> framed s u"
  using take_shorter [of "ps_pos t" "ps_tokens u" "ps_tokens t" "ps_pos s"] unfolding framed_def
  by (simp, intro conjI impI) (auto intro: prefix_order.trans)

interpretation whole: parser_frame framed
proof
  show "framed s t \<Longrightarrow> framed t u \<Longrightarrow> framed s u" for s t u by (rule framed_trans)
  show "framed s (s\<lparr>ps_tokens := take (ps_pos s) (ps_tokens s) @ toks @ drop (ps_pos s) (ps_tokens s)\<rparr>)"
    if "ps_noParensMacros s \<noteq> Map.empty" for s toks using that by (simp add: framed_def)
qed (auto simp: framed_def)

text \<open>
  C35: a call of \<open>Parse\<close>, \<open>parseStatement\<close> or \<open>parseExpr\<close>, on every input and whether it returns a node or an error, never moves back
  over a token it has passed, changes no token before the position (and none at all when the file has no macro without
  parentheses), leaves \<open>suppressPostfixCast\<close> and \<open>blockDepth\<close> as it found them and only adds to the warnings.
\<close>

theorem parser_framed:
  "keeps framed s (Parse (parserKnots U F Q n) s) \<and>
   keeps framed s (parseStatement (parserKnots U F Q n) s) \<and>
   keeps framed s (parseExpr (parserKnots U F Q n) s)"
  by (intro conjI whole.Parse_frame whole.parseStatement_frame whole.parseExpr_frame whole.parserKnots_frame whole.refl)

end
