(* ===== verification/TinParseFuel.thy ===== *)
theory TinParseFuel
  imports TinParseProgram TinLexerCorrect
begin

text \<open>
  The fuel of the parser is not visible in its results: a call that returns within some fuel returns the same with more.  One lemma per
  method, each by the rules of the collection \<open>fuel\<close>.
\<close>

named_theorems fuel

definition below :: "'a presult \<Rightarrow> 'a presult \<Rightarrow> bool" where
  "below r r' \<longleftrightarrow> r = PDiverge \<or> r = r'"

section \<open>Control structure\<close>

lemma below_refl [fuel]: "below r r" "below PDiverge r'" "below (divergeP t) r'" "(n :: nat) \<le> n"
  by (simp_all add: below_def divergeP_def)

lemma below_presult [fuel]:
  assumes "below r r'" and "\<And>x u. below (f x u) (f' x u)" and "\<And>e u. below (g e u) (g' e u)"
  shows "below (case r of POk x u \<Rightarrow> f x u | PErr e u \<Rightarrow> g e u | PDiverge \<Rightarrow> PDiverge)
    (case r' of POk x u \<Rightarrow> f' x u | PErr e u \<Rightarrow> g' e u | PDiverge \<Rightarrow> PDiverge)"
proof (cases "r = PDiverge")
  case False
  with assms(1) have "r' = r" by (simp add: below_def)
  then show ?thesis using assms(2,3) False by (cases r) simp_all
qed (simp add: below_def)

lemma below_bindP [fuel]: "below (f t) (f' t) \<Longrightarrow> (\<And>x u. below (g x u) (g' x u)) \<Longrightarrow> below (bindP f g t) (bindP f' g' t)"
  unfolding bindP_def by (intro fuel)

lemma below_mapP [fuel]: "below (f t) (f' t) \<Longrightarrow> below (mapP g f t) (mapP g f' t)"
  by (auto simp: below_def mapP_def bindP_def)

lemma below_whenP [fuel]: "below (f t) (f' t) \<Longrightarrow> below (whenP c f t) (whenP c f' t)"
  by (simp add: whenP_def below_mapP below_refl)

lemma below_ignoreErr [fuel]: "below (f t) (f' t) \<Longrightarrow> below (ignoreErr x f t) (ignoreErr x f' t)"
  by (auto simp: below_def ignoreErr_def)

lemma below_scoped [fuel]:
  "(\<And>u. below (f u) (f' u)) \<Longrightarrow> below (inBlock f t) (inBlock f' t)"
  "(\<And>u. below (f u) (f' u)) \<Longrightarrow> below (withCasts f t) (withCasts f' t)"
  "(\<And>u. below (f u) (f' u)) \<Longrightarrow> below (withoutCasts f t) (withoutCasts f' t)"
  unfolding inBlock_def withCasts_def withoutCasts_def by (intro fuel; assumption)+

lemma below_if [fuel]:
  "(c \<Longrightarrow> below a a') \<Longrightarrow> (\<not> c \<Longrightarrow> below b b') \<Longrightarrow> below (if c then a else b) (if c then a' else b')"
  "(c \<Longrightarrow> below (f t) (f' t)) \<Longrightarrow> (\<not> c \<Longrightarrow> below (g t) (g' t)) \<Longrightarrow> below ((if c then f else g) t) ((if c then f' else g') t)"
  by simp_all

lemma below_let [fuel]: "below (h e) (h' e) \<Longrightarrow> below (Let e h) (Let e h')" "below (k e t) (k' e t) \<Longrightarrow> below (Let e k t) (Let e k' t)"
  by simp_all

lemma below_case [fuel]:
  "(\<And>y. below (u y) (u' y)) \<Longrightarrow> (\<And>y. below (v y) (v' y)) \<Longrightarrow>
     below (case w of Inl y \<Rightarrow> u y | Inr y \<Rightarrow> v y) (case w of Inl y \<Rightarrow> u' y | Inr y \<Rightarrow> v' y)"
  "below (h (fst p) (snd p)) (h' (fst p) (snd p)) \<Longrightarrow> below (case p of (a, b) \<Rightarrow> h a b) (case p of (a, b) \<Rightarrow> h' a b)"
  "below (k (fst p) (snd p) t) (k' (fst p) (snd p) t) \<Longrightarrow> below ((case p of (a, b) \<Rightarrow> k a b) t) ((case p of (a, b) \<Rightarrow> k' a b) t)"
  "below a a' \<Longrightarrow> (\<And>y. below (b y) (b' y)) \<Longrightarrow> below (case x of None \<Rightarrow> a | Some y \<Rightarrow> b y) (case x of None \<Rightarrow> a' | Some y \<Rightarrow> b' y)"
  "below (f t) (f' t) \<Longrightarrow> (\<And>y. below (g y t) (g' y t)) \<Longrightarrow>
     below ((case x of None \<Rightarrow> f | Some y \<Rightarrow> g y) t) ((case x of None \<Rightarrow> f' | Some y \<Rightarrow> g' y) t)"
  "below (f t) (f' t) \<Longrightarrow> (\<And>y ys. below (l y ys t) (l' y ys t)) \<Longrightarrow>
     below ((case xs of [] \<Rightarrow> f | y # ys \<Rightarrow> l y ys) t) ((case xs of [] \<Rightarrow> f' | y # ys \<Rightarrow> l' y ys) t)"
  by (cases p; cases x; cases xs; cases w; simp)+

lemma below_loopP [fuel]:
  "n \<le> m \<Longrightarrow> (\<And>x u. below (body x u) (body' x u)) \<Longrightarrow> below (loopP n body acc t) (loopP m body' acc t)"
proof (induction n arbitrary: m acc t)
  case 0
  then show ?case by (simp add: below_def)
next
  case (Suc n)
  then obtain k where m: "m = Suc k" "n \<le> k" by (cases m) auto
  have "below (body acc t) (body' acc t)" by (rule Suc.prems)
  moreover have "below (loopP n body x u) (loopP k body' x u)" for x u using Suc m by blast
  ultimately show ?case unfolding m loopP.simps by (intro fuel)
qed

lemma below_items [fuel]:
  "n \<le> m \<Longrightarrow> (\<And>u. below (item u) (item' u)) \<Longrightarrow> below (itemsUntil n c item after t) (itemsUntil m c item' after t)"
  "n \<le> m \<Longrightarrow> (\<And>u. below (item u) (item' u)) \<Longrightarrow> below (itemsWhile n c item xs t) (itemsWhile m c item' xs t)"
  "n \<le> m \<Longrightarrow> (\<And>u. below (item u) (item' u)) \<Longrightarrow> below (spacedItems n c item t) (spacedItems m c item' t)"
  "n \<le> m \<Longrightarrow> (\<And>xs u. below (items xs u) (items' xs u)) \<Longrightarrow> below (indented n items t) (indented m items' t)"
  unfolding itemsUntil_def itemsWhile_def spacedItems_def indented_def by (intro fuel; assumption)+

section \<open>Types\<close>

lemma qualifiedName_fuel [fuel]: "n \<le> m \<Longrightarrow> below (qualifiedName n x1 t) (qualifiedName m x1 t)"
  unfolding qualifiedName_def by (intro fuel)

lemma funcTypeParams_fuel [fuel]:
  "n \<le> m \<Longrightarrow> (\<And>u. below (item u) (item' u)) \<Longrightarrow> below (funcTypeParams n item t) (funcTypeParams m item' t)"
  unfolding funcTypeParams_def by (intro fuel; assumption)

lemma types_fuel:
  "n \<le> m \<Longrightarrow> (\<forall>t. below (parseTypeUnion n t) (parseTypeUnion m t)) \<and> (\<forall>t. below (parseTypeSingle n t) (parseTypeSingle m t)) \<and>
     (\<forall>t. below (parseFuncType n t) (parseFuncType m t))"
proof (induction n arbitrary: m)
  case 0
  show ?case by (simp add: fuel)
next
  case (Suc n)
  then obtain k where m: "m = Suc k" and le: "n \<le> k" by (cases m) auto
  have IH: "below (parseTypeUnion n t) (parseTypeUnion k t)" "below (parseTypeSingle n t) (parseTypeSingle k t)"
    "below (parseFuncType n t) (parseFuncType k t)" for t using Suc.IH [OF le] by blast+
  have "below (parseTypeUnion (Suc n) t) (parseTypeUnion m t)" for t
    unfolding m parseTypeUnion.simps by (intro fuel IH le)
  moreover have "below (parseTypeSingle (Suc n) t) (parseTypeSingle m t)" for t
    unfolding m parseTypeSingle.simps by (intro fuel IH le)
  moreover have "below (parseFuncType (Suc n) t) (parseFuncType m t)" for t
    unfolding m parseFuncType.simps by (intro fuel IH le)
  ultimately show ?case by blast
qed

lemma type_fuel [fuel]:
  "n \<le> m \<Longrightarrow> below (parseTypeUnion n t) (parseTypeUnion m t)" "n \<le> m \<Longrightarrow> below (parseTypeSingle n t) (parseTypeSingle m t)"
  "n \<le> m \<Longrightarrow> below (parseFuncType n t) (parseFuncType m t)"
  using types_fuel by blast+

lemma paramType_fuel [fuel]: "n \<le> m \<Longrightarrow> below (paramType n param t) (paramType m param t)"
  unfolding paramType_def by (intro fuel)

lemma parseParam_fuel [fuel]: "n \<le> m \<Longrightarrow> below (parseParam n t) (parseParam m t)"
  unfolding parseParam_def by (intro fuel)

lemma parseParams_fuel [fuel]: "n \<le> m \<Longrightarrow> below (parseParams n t) (parseParams m t)"
  unfolding parseParams_def by (intro fuel)

lemma parseTypeParamsWithWildcards_fuel [fuel]: "n \<le> m \<Longrightarrow> below (parseTypeParamsWithWildcards n t) (parseTypeParamsWithWildcards m t)"
  unfolding parseTypeParamsWithWildcards_def by (intro fuel)

lemma parseTypeParams_fuel [fuel]: "n \<le> m \<Longrightarrow> below (parseTypeParams n t) (parseTypeParams m t)"
  unfolding parseTypeParams_def by (intro fuel)

lemma parseTypeArgList_fuel [fuel]: "n \<le> m \<Longrightarrow> below (parseTypeArgList n t) (parseTypeArgList m t)"
  unfolding parseTypeArgList_def by (intro fuel)

lemma boundLoop_fuel [fuel]:
  "n \<le> m \<Longrightarrow> (\<And>u. below (sub u) (sub' u)) \<Longrightarrow> below (boundLoop n ops mk sub t) (boundLoop m ops mk sub' t)"
  unfolding boundLoop_def by (intro fuel; assumption)

lemma bounds_fuel:
  "n \<le> m \<Longrightarrow> (\<forall>t. below (parseTypeBound n t) (parseTypeBound m t)) \<and> (\<forall>t. below (parseTypeBoundAnd n t) (parseTypeBoundAnd m t)) \<and>
     (\<forall>t. below (parseTypeBoundUnary n t) (parseTypeBoundUnary m t)) \<and> (\<forall>t. below (parseTypeBoundAtom n t) (parseTypeBoundAtom m t))"
proof (induction n arbitrary: m)
  case 0
  show ?case by (simp add: fuel)
next
  case (Suc n)
  then obtain k where m: "m = Suc k" and le: "n \<le> k" by (cases m) auto
  have IH: "below (parseTypeBound n t) (parseTypeBound k t)" "below (parseTypeBoundAnd n t) (parseTypeBoundAnd k t)"
    "below (parseTypeBoundUnary n t) (parseTypeBoundUnary k t)" "below (parseTypeBoundAtom n t) (parseTypeBoundAtom k t)" for t
    using Suc.IH [OF le] by blast+
  have "below (parseTypeBound (Suc n) t) (parseTypeBound m t)" for t unfolding m parseTypeBound.simps by (intro fuel IH le)
  moreover have "below (parseTypeBoundAnd (Suc n) t) (parseTypeBoundAnd m t)" for t
    unfolding m parseTypeBoundAnd.simps by (intro fuel IH le)
  moreover have "below (parseTypeBoundUnary (Suc n) t) (parseTypeBoundUnary m t)" for t
    unfolding m parseTypeBoundUnary.simps by (intro fuel IH le)
  moreover have "below (parseTypeBoundAtom (Suc n) t) (parseTypeBoundAtom m t)" for t
    unfolding m parseTypeBoundAtom.simps by (intro fuel IH le)
  ultimately show ?case by blast
qed

lemma bound_fuel [fuel]: "n \<le> m \<Longrightarrow> below (parseTypeBound n t) (parseTypeBound m t)"
  using bounds_fuel by blast

lemma parseConstraint_fuel [fuel]: "n \<le> m \<Longrightarrow> below (parseConstraint n t) (parseConstraint m t)"
  unfolding parseConstraint_def by (intro fuel)

lemma moreConstraints_fuel [fuel]: "n \<le> m \<Longrightarrow> below (moreConstraints n x1 t) (moreConstraints m x1 t)"
  unfolding moreConstraints_def by (intro fuel)

lemma parseTypeConstraints_fuel [fuel]: "n \<le> m \<Longrightarrow> below (parseTypeConstraints n t) (parseTypeConstraints m t)"
  unfolding parseTypeConstraints_def by (intro fuel)

section \<open>Knots\<close>

definition belowKnots :: "knots \<Rightarrow> knots \<Rightarrow> bool" where
  "belowKnots K L \<longleftrightarrow>
     k_fuel K \<le> k_fuel L \<and> k_tables K = k_tables L \<and> k_ParseFloat K = k_ParseFloat L \<and> k_quote K = k_quote L \<and>
     (\<forall>t. below (k_parseExpr K t) (k_parseExpr L t) \<and> below (k_parseStatement K t) (k_parseStatement L t) \<and>
       below (k_parseUnary K t) (k_parseUnary L t) \<and> below (k_parsePointerOperand K t) (k_parsePointerOperand L t) \<and>
       (\<forall>stop. below (k_parsePostfixOpt K stop t) (k_parsePostfixOpt L stop t)) \<and>
       below (k_parseStructPattern K t) (k_parseStructPattern L t) \<and> below (k_parseTopLevel K t) (k_parseTopLevel L t))"

lemma belowKnotsD [fuel]:
  assumes "belowKnots K L"
  shows "k_fuel K \<le> k_fuel L" "below (k_parseExpr K t) (k_parseExpr L t)" "below (k_parseStatement K t) (k_parseStatement L t)"
    "below (k_parseUnary K t) (k_parseUnary L t)" "below (k_parsePointerOperand K t) (k_parsePointerOperand L t)"
    "below (k_parsePostfixOpt K stop t) (k_parsePostfixOpt L stop t)" "below (k_parseStructPattern K t) (k_parseStructPattern L t)"
    "below (k_parseTopLevel K t) (k_parseTopLevel L t)"
  using assms by (simp_all add: belowKnots_def)

lemma belowKnots_parameters:
  assumes "belowKnots K L"
  shows "k_tables K = k_tables L" "k_ParseFloat K = k_ParseFloat L" "describeToken K = describeToken L"
  using assms by (auto simp: belowKnots_def describeToken_def Let_def fun_eq_iff)

section \<open>Statements\<close>

lemma blockStep_fuel [fuel]: "belowKnots K L \<Longrightarrow> below (blockStep K acc t) (blockStep L acc t)"
  unfolding blockStep_def by (intro fuel)

lemma parseBlock_fuel [fuel]: "belowKnots K L \<Longrightarrow> below (parseBlock K t) (parseBlock L t)"
  unfolding parseBlock_def by (intro fuel)

lemma colonBlock_fuel [fuel]: "belowKnots K L \<Longrightarrow> below (colonBlock K t) (colonBlock L t)"
  unfolding colonBlock_def by (intro fuel)

lemma parseColonBody_fuel [fuel]: "belowKnots K L \<Longrightarrow> below (parseColonBody K t) (parseColonBody L t)"
  unfolding parseColonBody_def by (intro fuel)

lemma structPatternField_fuel [fuel]: "belowKnots K L \<Longrightarrow> below (structPatternField K t) (structPatternField L t)"
  unfolding structPatternField_def by (intro fuel)

lemma parseStructPattern_fuel [fuel]: "belowKnots K L \<Longrightarrow> below (parseStructPattern K t) (parseStructPattern L t)"
  unfolding parseStructPattern_def by (intro fuel)

lemma parseArrayPattern_fuel [fuel]: "belowKnots K L \<Longrightarrow> below (parseArrayPattern K t) (parseArrayPattern L t)"
  unfolding parseArrayPattern_def by (intro fuel)

lemma parsePatternElem_fuel [fuel]: "belowKnots K L \<Longrightarrow> below (parsePatternElem K t) (parsePatternElem L t)"
  unfolding parsePatternElem_def by (intro fuel)

lemma parseWherePattern_fuel [fuel]: "belowKnots K L \<Longrightarrow> below (parseWherePattern K t) (parseWherePattern L t)"
  unfolding parseWherePattern_def by (intro fuel)

lemma guardP_fuel [fuel]: "belowKnots K L \<Longrightarrow> below (guardP K t) (guardP L t)"
  unfolding guardP_def by (intro fuel)

lemma whereTest_fuel [fuel]: "belowKnots K L \<Longrightarrow> below (whereTest K t) (whereTest L t)"
  unfolding whereTest_def by (intro fuel)

lemma whereBody_fuel [fuel]: "belowKnots K L \<Longrightarrow> below (whereBody K t) (whereBody L t)"
  unfolding whereBody_def by (intro fuel)

lemma parseWhereClause_fuel [fuel]: "belowKnots K L \<Longrightarrow> below (parseWhereClause K t) (parseWhereClause L t)"
  unfolding parseWhereClause_def by (intro fuel)

lemma parseWhereBlock_fuel [fuel]: "belowKnots K L \<Longrightarrow> below (parseWhereBlock K t) (parseWhereBlock L t)"
  unfolding parseWhereBlock_def by (intro fuel)

lemma parseWhereStmt_fuel [fuel]: "belowKnots K L \<Longrightarrow> below (parseWhereStmt K t) (parseWhereStmt L t)"
  unfolding parseWhereStmt_def by (intro fuel)

lemma moreStatements_fuel [fuel]: "belowKnots K L \<Longrightarrow> below (moreStatements K x1 t) (moreStatements L x1 t)"
  unfolding moreStatements_def by (intro fuel)

lemma parseFuncBody_fuel [fuel]: "belowKnots K L \<Longrightarrow> below (parseFuncBody K t) (parseFuncBody L t)"
  unfolding parseFuncBody_def by (intro fuel)

lemma parseLambda_fuel [fuel]: "belowKnots K L \<Longrightarrow> below (parseLambda K t) (parseLambda L t)"
  unfolding parseLambda_def by (intro fuel)

lemma optType_fuel [fuel]: "belowKnots K L \<Longrightarrow> below (optType K t) (optType L t)"
  unfolding optType_def by (intro fuel)

lemma optInit_fuel [fuel]: "belowKnots K L \<Longrightarrow> below (optInit K t) (optInit L t)"
  unfolding optInit_def by (intro fuel)

lemma binding_fuel [fuel]: "belowKnots K L \<Longrightarrow> below (binding K t) (binding L t)"
  unfolding binding_def by (intro fuel)

lemma parseVarDecl_fuel [fuel]: "belowKnots K L \<Longrightarrow> below (parseVarDecl K t) (parseVarDecl L t)"
  unfolding parseVarDecl_def by (intro fuel)

lemma parseTopLevelVar_fuel [fuel]: "belowKnots K L \<Longrightarrow> below (parseTopLevelVar K t) (parseTopLevelVar L t)"
  unfolding parseTopLevelVar_def by (intro fuel)

lemma parseTopLevelLetConst_fuel [fuel]: "belowKnots K L \<Longrightarrow> below (parseTopLevelLetConst K t) (parseTopLevelLetConst L t)"
  unfolding parseTopLevelLetConst_def by (intro fuel)

lemma initValue_fuel [fuel]: "belowKnots K L \<Longrightarrow> below (initValue K t) (initValue L t)"
  unfolding initValue_def by (intro fuel)

lemma destructTypes_fuel [fuel]: "belowKnots K L \<Longrightarrow> below (destructTypes K t) (destructTypes L t)"
  unfolding destructTypes_def by (intro fuel)

lemma parseArrayDestructDecl_fuel [fuel]: "belowKnots K L \<Longrightarrow> below (parseArrayDestructDecl K p t) (parseArrayDestructDecl L p t)"
  unfolding parseArrayDestructDecl_def by (intro fuel)

lemma parseStructDestructDecl_fuel [fuel]: "belowKnots K L \<Longrightarrow> below (parseStructDestructDecl K p t) (parseStructDestructDecl L p t)"
  unfolding parseStructDestructDecl_def by (intro fuel)

lemma parseTupleDestructDecl_fuel [fuel]: "belowKnots K L \<Longrightarrow> below (parseTupleDestructDecl K isConst p t) (parseTupleDestructDecl L isConst p t)"
  unfolding parseTupleDestructDecl_def by (intro fuel)

lemma parseLetStmt_fuel [fuel]: "belowKnots K L \<Longrightarrow> below (parseLetStmt K t) (parseLetStmt L t)"
  unfolding parseLetStmt_def by (intro fuel)

lemma parseReturnStmt_fuel [fuel]: "belowKnots K L \<Longrightarrow> below (parseReturnStmt K t) (parseReturnStmt L t)"
  unfolding parseReturnStmt_def by (intro fuel)

lemma parseEchoStmt_fuel [fuel]: "belowKnots K L \<Longrightarrow> below (parseEchoStmt K t) (parseEchoStmt L t)"
  unfolding parseEchoStmt_def by (intro fuel)

lemma parseDoBlock_fuel [fuel]: "belowKnots K L \<Longrightarrow> below (parseDoBlock K t) (parseDoBlock L t)"
  unfolding parseDoBlock_def by (intro fuel)

lemma parseDeferStmt_fuel [fuel]: "belowKnots K L \<Longrightarrow> below (parseDeferStmt K t) (parseDeferStmt L t)"
  unfolding parseDeferStmt_def by (intro fuel)

lemma spawnBody_fuel [fuel]: "belowKnots K L \<Longrightarrow> below (spawnBody K t) (spawnBody L t)"
  unfolding spawnBody_def by (intro fuel)

lemma parseSpawnExpr_fuel [fuel]: "belowKnots K L \<Longrightarrow> below (parseSpawnExpr K t) (parseSpawnExpr L t)"
  unfolding parseSpawnExpr_def by (intro fuel)

lemma parseSpawnExprStmt_fuel [fuel]: "belowKnots K L \<Longrightarrow> below (parseSpawnExprStmt K t) (parseSpawnExprStmt L t)"
  unfolding parseSpawnExprStmt_def by (intro fuel)

lemma parseExprStatement_fuel [fuel]: "belowKnots K L \<Longrightarrow> below (parseExprStatement K t) (parseExprStatement L t)"
  unfolding parseExprStatement_def by (intro fuel)

lemma elseStep_fuel [fuel]: "belowKnots K L \<Longrightarrow> below (elseStep K elifs t) (elseStep L elifs t)"
  unfolding elseStep_def by (intro fuel)

lemma parseIfStmt_fuel [fuel]: "belowKnots K L \<Longrightarrow> below (parseIfStmt K t) (parseIfStmt L t)"
  unfolding parseIfStmt_def by (intro fuel)

lemma forBody_fuel [fuel]: "belowKnots K L \<Longrightarrow> below (forBody K mk t) (forBody L mk t)"
  unfolding forBody_def by (intro fuel)

lemma condAndPost_fuel [fuel]: "belowKnots K L \<Longrightarrow> below (condAndPost K init t) (condAndPost L init t)"
  unfolding condAndPost_def by (intro fuel)

lemma forLetHeader_fuel [fuel]: "belowKnots K L \<Longrightarrow> below (forLetHeader K name typ t) (forLetHeader L name typ t)"
  unfolding forLetHeader_def by (intro fuel)

lemma parseForStmt_fuel [fuel]: "belowKnots K L \<Longrightarrow> below (parseForStmt K t) (parseForStmt L t)"
  unfolding parseForStmt_def by (intro fuel)

lemma casePattern_fuel [fuel]: "belowKnots K L \<Longrightarrow> below (casePattern K t) (casePattern L t)"
  unfolding casePattern_def by (intro fuel)

lemma armBody_fuel [fuel]: "belowKnots K L \<Longrightarrow> below (armBody K mk t) (armBody L mk t)"
  unfolding armBody_def by (intro fuel)

lemma parseMatchCase_fuel [fuel]: "belowKnots K L \<Longrightarrow> below (parseMatchCase K t) (parseMatchCase L t)"
  unfolding parseMatchCase_def by (intro fuel)

lemma defaultArm_fuel [fuel]: "belowKnots K L \<Longrightarrow> below (defaultArm K old t) (defaultArm L old t)"
  unfolding defaultArm_def by (intro fuel)

lemma matchArms_fuel [fuel]:
  assumes "belowKnots K L" and "\<And>u. below (arm u) (arm' u)"
  shows "below (matchArms K arm t) (matchArms L arm' t)"
  unfolding matchArms_def by (intro fuel assms)

lemma parseMatchStmt_fuel [fuel]: "belowKnots K L \<Longrightarrow> below (parseMatchStmt K t) (parseMatchStmt L t)"
  unfolding parseMatchStmt_def by (intro fuel)

lemma parseAwaitMatchCase_fuel [fuel]: "belowKnots K L \<Longrightarrow> below (parseAwaitMatchCase K nFutures t) (parseAwaitMatchCase L nFutures t)"
  unfolding parseAwaitMatchCase_def by (intro fuel)

lemma parseAwaitMatchStmt_fuel [fuel]: "belowKnots K L \<Longrightarrow> below (parseAwaitMatchStmt K t) (parseAwaitMatchStmt L t)"
  unfolding parseAwaitMatchStmt_def by (intro fuel)

section \<open>Expressions\<close>

lemma interpExpr_fuel [fuel]: 
  assumes K: "belowKnots K L"
  shows "below (interpExpr K exprSrc t) (interpExpr L exprSrc t)"
  unfolding interpExpr_def belowKnots_parameters [OF K] by (intro fuel K)

lemma exprPart_fuel [fuel]: "belowKnots K L \<Longrightarrow> below (exprPart K slot t) (exprPart L slot t)"
  unfolding exprPart_def by (intro fuel)

lemma interpStep_fuel [fuel]: "belowKnots K L \<Longrightarrow> below (interpStep K acc t) (interpStep L acc t)"
  unfolding interpStep_def by (intro fuel)

lemma parseStringInterp_fuel [fuel]: "belowKnots K L \<Longrightarrow> below (parseStringInterp K text t) (parseStringInterp L text t)"
  unfolding parseStringInterp_def by (intro fuel)

lemma parseArgList_fuel [fuel]: "belowKnots K L \<Longrightarrow> below (parseArgList K t) (parseArgList L t)"
  unfolding parseArgList_def by (intro fuel)

lemma parseArrayLit_fuel [fuel]: "belowKnots K L \<Longrightarrow> below (parseArrayLit K t) (parseArrayLit L t)"
  unfolding parseArrayLit_def by (intro fuel)

lemma structLitItem_fuel [fuel]: "belowKnots K L \<Longrightarrow> below (structLitItem K t) (structLitItem L t)"
  unfolding structLitItem_def by (intro fuel)

lemma parseStructLit_fuel [fuel]: "belowKnots K L \<Longrightarrow> below (parseStructLit K name typeArgs t) (parseStructLit L name typeArgs t)"
  unfolding parseStructLit_def by (intro fuel)

lemma maybeWrapSuffix_fuel [fuel]: "belowKnots K L \<Longrightarrow> below (maybeWrapSuffix K lit p t) (maybeWrapSuffix L lit p t)"
  unfolding maybeWrapSuffix_def by (intro fuel)

lemma typeOperand_fuel [fuel]: "belowKnots K L \<Longrightarrow> below (typeOperand K mk t) (typeOperand L mk t)"
  unfolding typeOperand_def by (intro fuel)

lemma unaryOperand_fuel [fuel]: "belowKnots K L \<Longrightarrow> below (unaryOperand K mk t) (unaryOperand L mk t)"
  unfolding unaryOperand_def by (intro fuel)

lemma binaryOperand_fuel [fuel]: "belowKnots K L \<Longrightarrow> below (binaryOperand K mk t) (binaryOperand L mk t)"
  unfolding binaryOperand_def by (intro fuel)

lemma ternaryOperand_fuel [fuel]: "belowKnots K L \<Longrightarrow> below (ternaryOperand K mk t) (ternaryOperand L mk t)"
  unfolding ternaryOperand_def by (intro fuel)

lemma parseDefault_fuel [fuel]: "belowKnots K L \<Longrightarrow> below (parseDefault K t) (parseDefault L t)"
  unfolding parseDefault_def by (intro fuel)

lemma parseBlockStmts_fuel [fuel]: "belowKnots K L \<Longrightarrow> below (parseBlockStmts K first t) (parseBlockStmts L first t)"
  unfolding parseBlockStmts_def by (intro fuel)

lemma parseParens_fuel [fuel]: "belowKnots K L \<Longrightarrow> below (parseParens K t) (parseParens L t)"
  unfolding parseParens_def by (intro fuel)

lemma parseIdentifier_fuel [fuel]: "belowKnots K L \<Longrightarrow> below (parseIdentifier K t) (parseIdentifier L t)"
  unfolding parseIdentifier_def by (intro fuel)

lemma parseLiteral_fuel [fuel]: 
  assumes K: "belowKnots K L"
  shows "below (parseLiteral K t) (parseLiteral L t)"
  unfolding parseLiteral_def belowKnots_parameters [OF K] by (intro fuel K)

lemma parseOperator_fuel [fuel]: "belowKnots K L \<Longrightarrow> below (parseOperator K tx t) (parseOperator L tx t)"
  unfolding parseOperator_def by (intro fuel)

lemma parsePrimary_fuel [fuel]: 
  assumes K: "belowKnots K L"
  shows "below (parsePrimary K t) (parsePrimary L t)"
  unfolding parsePrimary_def belowKnots_parameters [OF K] by (intro fuel K)

lemma parseAsSuffix_fuel [fuel]: "belowKnots K L \<Longrightarrow> below (parseAsSuffix K expr t) (parseAsSuffix L expr t)"
  unfolding parseAsSuffix_def by (intro fuel)

lemma parseIsSuffix_fuel [fuel]: "belowKnots K L \<Longrightarrow> below (parseIsSuffix K expr t) (parseIsSuffix L expr t)"
  unfolding parseIsSuffix_def by (intro fuel)

lemma applyPostfixCasts_fuel [fuel]: "belowKnots K L \<Longrightarrow> below (applyPostfixCasts K x1 t) (applyPostfixCasts L x1 t)"
  unfolding applyPostfixCasts_def by (intro fuel)

lemma fieldSuffix_fuel [fuel]: "belowKnots K L \<Longrightarrow> below (fieldSuffix K stop isPtr expr nx t) (fieldSuffix L stop isPtr expr nx t)"
  unfolding fieldSuffix_def by (intro fuel)

lemma dotSuffix_fuel [fuel]: "belowKnots K L \<Longrightarrow> below (dotSuffix K stop expr n0 t) (dotSuffix L stop expr n0 t)"
  unfolding dotSuffix_def by (intro fuel)

lemma arrowSuffix_fuel [fuel]: "belowKnots K L \<Longrightarrow> below (arrowSuffix K stop expr n0 t) (arrowSuffix L stop expr n0 t)"
  unfolding arrowSuffix_def by (intro fuel)

lemma scopeTail_fuel [fuel]: "belowKnots K L \<Longrightarrow> below (scopeTail K stop allowLit p path field nx t) (scopeTail L stop allowLit p path field nx t)"
  unfolding scopeTail_def by (intro fuel)

lemma scopeSuffix_fuel [fuel]: "belowKnots K L \<Longrightarrow> below (scopeSuffix K stop expr n t) (scopeSuffix L stop expr n t)"
proof -
  assume a: "belowKnots K L"
  show ?thesis
  proof (cases expr)
    case (NLeaf p x)
    with a show ?thesis unfolding scopeSuffix_def by (cases x; simp only: Node.case Leaf.case; intro fuel; assumption?)
  next
    case (NExpr p x)
    with a show ?thesis unfolding scopeSuffix_def by (cases x; simp only: Node.case Expr.case; intro fuel; assumption?)
  qed (use a in \<open>simp only: scopeSuffix_def Node.case; intro fuel; assumption?\<close>)+
qed

lemma genericLit_fuel [fuel]: "belowKnots K L \<Longrightarrow> below (genericLit K idx base index nx t) (genericLit L idx base index nx t)"
  unfolding genericLit_def by (intro fuel)

lemma indexStart_fuel [fuel]: "belowKnots K L \<Longrightarrow> below (indexStart K expr t) (indexStart L expr t)"
  unfolding indexStart_def by (intro fuel)

lemma indexSuffix_fuel [fuel]: "belowKnots K L \<Longrightarrow> below (indexSuffix K expr nx t) (indexSuffix L expr nx t)"
  unfolding indexSuffix_def by (intro fuel)

lemma postfixSwitch_fuel [fuel]: "belowKnots K L \<Longrightarrow> below (postfixSwitch K stop expr nx t) (postfixSwitch L stop expr nx t)"
  unfolding postfixSwitch_def by (intro fuel)

lemma postfixStep_fuel [fuel]: "belowKnots K L \<Longrightarrow> below (postfixStep K stop acc t) (postfixStep L stop acc t)"
  unfolding postfixStep_def by (intro fuel)

lemma parsePostfixOpt_fuel [fuel]: "belowKnots K L \<Longrightarrow> below (parsePostfixOpt K stopAfterCall t) (parsePostfixOpt L stopAfterCall t)"
  unfolding parsePostfixOpt_def by (intro fuel)

lemma parsePostfix_fuel [fuel]: "belowKnots K L \<Longrightarrow> below (parsePostfix K t) (parsePostfix L t)"
  unfolding parsePostfix_def by (intro fuel)

lemma parsePostfixNoCast_fuel [fuel]: "belowKnots K L \<Longrightarrow> below (parsePostfixNoCast K t) (parsePostfixNoCast L t)"
  unfolding parsePostfixNoCast_def by (intro fuel)

lemma parsePointerOperand_fuel [fuel]: "belowKnots K L \<Longrightarrow> below (parsePointerOperand K t) (parsePointerOperand L t)"
  unfolding parsePointerOperand_def by (intro fuel)

lemma parseUnary_fuel [fuel]: "belowKnots K L \<Longrightarrow> below (parseUnary K t) (parseUnary L t)"
  unfolding parseUnary_def by (intro fuel)

lemma parseBinary_fuel [fuel]:
  assumes "belowKnots K L" and "\<And>u. below (sub u) (sub' u)"
  shows "below (parseBinary K sub ops t) (parseBinary L sub' ops t)"
    "below (parseBinaryAllowLeading K sub ops t) (parseBinaryAllowLeading L sub' ops t)"
  unfolding parseBinary_def parseBinaryAllowLeading_def parseBinaryImpl_def by (intro fuel assms)+

lemma parseMultiplicative_fuel [fuel]: "belowKnots K L \<Longrightarrow> below (parseMultiplicative K t) (parseMultiplicative L t)"
  unfolding parseMultiplicative_def by (intro fuel)

lemma parseAdditive_fuel [fuel]: "belowKnots K L \<Longrightarrow> below (parseAdditive K t) (parseAdditive L t)"
  unfolding parseAdditive_def by (intro fuel)

lemma parseShift_fuel [fuel]: "belowKnots K L \<Longrightarrow> below (parseShift K t) (parseShift L t)"
  unfolding parseShift_def by (intro fuel)

lemma parseComparison_fuel [fuel]: "belowKnots K L \<Longrightarrow> below (parseComparison K t) (parseComparison L t)"
  unfolding parseComparison_def by (intro fuel)

lemma parseEquality_fuel [fuel]: "belowKnots K L \<Longrightarrow> below (parseEquality K t) (parseEquality L t)"
  unfolding parseEquality_def by (intro fuel)

lemma parseBitAnd_fuel [fuel]: "belowKnots K L \<Longrightarrow> below (parseBitAnd K t) (parseBitAnd L t)"
  unfolding parseBitAnd_def by (intro fuel)

lemma parseBitXor_fuel [fuel]: "belowKnots K L \<Longrightarrow> below (parseBitXor K t) (parseBitXor L t)"
  unfolding parseBitXor_def by (intro fuel)

lemma parseBitOr_fuel [fuel]: "belowKnots K L \<Longrightarrow> below (parseBitOr K t) (parseBitOr L t)"
  unfolding parseBitOr_def by (intro fuel)

lemma parseAnd_fuel [fuel]: "belowKnots K L \<Longrightarrow> below (parseAnd K t) (parseAnd L t)"
  unfolding parseAnd_def by (intro fuel)

lemma parseOr_fuel [fuel]: "belowKnots K L \<Longrightarrow> below (parseOr K t) (parseOr L t)"
  unfolding parseOr_def by (intro fuel)

lemma parseTernary_fuel [fuel]: "belowKnots K L \<Longrightarrow> below (parseTernary K t) (parseTernary L t)"
  unfolding parseTernary_def by (intro fuel)

lemma parseRange_fuel [fuel]: "belowKnots K L \<Longrightarrow> below (parseRange K t) (parseRange L t)"
  unfolding parseRange_def by (intro fuel)

lemma parsePipe_fuel [fuel]: "belowKnots K L \<Longrightarrow> below (parsePipe K t) (parsePipe L t)"
  unfolding parsePipe_def by (intro fuel)

lemma parseExpr_fuel [fuel]: "belowKnots K L \<Longrightarrow> below (parseExpr K t) (parseExpr L t)"
  unfolding parseExpr_def by (intro fuel)

lemma ParseExpr_fuel [fuel]: "belowKnots K L \<Longrightarrow> below (ParseExpr K t) (ParseExpr L t)"
  unfolding ParseExpr_def by (intro fuel)

section \<open>Declarations\<close>

lemma aliasSegments_fuel [fuel]: "n \<le> m \<Longrightarrow> below (aliasSegments n t) (aliasSegments m t)"
  unfolding aliasSegments_def by (intro fuel)

lemma pathSegments_fuel [fuel]: "n \<le> m \<Longrightarrow> below (pathSegments n x1 t) (pathSegments m x1 t)"
  unfolding pathSegments_def by (intro fuel)

lemma funcName_fuel [fuel]: "belowKnots K L \<Longrightarrow> below (funcName K t) (funcName L t)"
  unfolding funcName_def by (intro fuel)

lemma parseFuncDecl_fuel [fuel]: "belowKnots K L \<Longrightarrow> below (parseFuncDecl K tags0 isStatic t) (parseFuncDecl L tags0 isStatic t)"
  unfolding parseFuncDecl_def by (intro fuel)

lemma traitList_fuel [fuel]: "belowKnots K L \<Longrightarrow> below (traitList K t) (traitList L t)"
  unfolding traitList_def by (intro fuel)

lemma fieldTags_fuel [fuel]: "n \<le> m \<Longrightarrow> below (fieldTags n t) (fieldTags m t)"
  unfolding fieldTags_def by (intro fuel)

lemma parseStructField_fuel [fuel]: "belowKnots K L \<Longrightarrow> below (parseStructField K t) (parseStructField L t)"
  unfolding parseStructField_def by (intro fuel)

lemma parseStructItem_fuel [fuel]: "belowKnots K L \<Longrightarrow> below (parseStructItem K t) (parseStructItem L t)"
  unfolding parseStructItem_def by (intro fuel)

lemma structItem_fuel [fuel]: "belowKnots K L \<Longrightarrow> below (structItem K items t) (structItem L items t)"
  unfolding structItem_def by (intro fuel)

lemma parseStructDecl_fuel [fuel]: "belowKnots K L \<Longrightarrow> below (parseStructDecl K tags0 t) (parseStructDecl L tags0 t)"
  unfolding parseStructDecl_def by (intro fuel)

lemma traitItem_fuel [fuel]: "belowKnots K L \<Longrightarrow> below (traitItem K items t) (traitItem L items t)"
  unfolding traitItem_def by (intro fuel)

lemma parseTraitDecl_fuel [fuel]: "belowKnots K L \<Longrightarrow> below (parseTraitDecl K t) (parseTraitDecl L t)"
  unfolding parseTraitDecl_def by (intro fuel)

lemma overrideItem_fuel [fuel]: "belowKnots K L \<Longrightarrow> below (overrideItem K fns t) (overrideItem L fns t)"
  unfolding overrideItem_def by (intro fuel)

lemma parseTypeDecl_fuel [fuel]: "belowKnots K L \<Longrightarrow> below (parseTypeDecl K t) (parseTypeDecl L t)"
  unfolding parseTypeDecl_def by (intro fuel)

lemma parseEnumMember_fuel [fuel]: "belowKnots K L \<Longrightarrow> below (parseEnumMember K isAtom t) (parseEnumMember L isAtom t)"
  unfolding parseEnumMember_def by (intro fuel)

lemma parseEnumDecl_fuel [fuel]: "belowKnots K L \<Longrightarrow> below (parseEnumDecl K t) (parseEnumDecl L t)"
  unfolding parseEnumDecl_def by (intro fuel)

lemma unionMember_fuel [fuel]: "belowKnots K L \<Longrightarrow> below (unionMember K t) (unionMember L t)"
  unfolding unionMember_def by (intro fuel)

lemma parseUnionDecl_fuel [fuel]: "belowKnots K L \<Longrightarrow> below (parseUnionDecl K t) (parseUnionDecl L t)"
  unfolding parseUnionDecl_def by (intro fuel)

lemma parseDataVariantField_fuel [fuel]: "belowKnots K L \<Longrightarrow> below (parseDataVariantField K t) (parseDataVariantField L t)"
  unfolding parseDataVariantField_def by (intro fuel)

lemma parseDataVariant_fuel [fuel]: "belowKnots K L \<Longrightarrow> below (parseDataVariant K t) (parseDataVariant L t)"
  unfolding parseDataVariant_def by (intro fuel)

lemma dataItem_fuel [fuel]: "belowKnots K L \<Longrightarrow> below (dataItem K name items t) (dataItem L name items t)"
  unfolding dataItem_def by (intro fuel)

lemma parseDataDecl_fuel [fuel]: "belowKnots K L \<Longrightarrow> below (parseDataDecl K t) (parseDataDecl L t)"
  unfolding parseDataDecl_def by (intro fuel)

lemma importNames_fuel [fuel]: "n \<le> m \<Longrightarrow> below (importNames n t) (importNames m t)"
  unfolding importNames_def by (intro fuel)

lemma pathParts_fuel [fuel]: "n \<le> m \<Longrightarrow> below (pathParts n x1 t) (pathParts m x1 t)"
  unfolding pathParts_def by (intro fuel)

lemma modulePath_fuel [fuel]: "n \<le> m \<Longrightarrow> below (modulePath n t) (modulePath m t)"
  unfolding modulePath_def by (intro fuel)

lemma parseUseImport_fuel [fuel]: "belowKnots K L \<Longrightarrow> below (parseUseImport K t) (parseUseImport L t)"
  unfolding parseUseImport_def by (intro fuel)

lemma parseUseDecl_fuel [fuel]: "belowKnots K L \<Longrightarrow> below (parseUseDecl K t) (parseUseDecl L t)"
  unfolding parseUseDecl_def by (intro fuel)

lemma exportNames_fuel [fuel]: "n \<le> m \<Longrightarrow> below (exportNames n t) (exportNames m t)"
  unfolding exportNames_def by (intro fuel)

lemma parseExportDecl_fuel [fuel]: "belowKnots K L \<Longrightarrow> below (parseExportDecl K t) (parseExportDecl L t)"
  unfolding parseExportDecl_def by (intro fuel)

lemma parseTestDecl_fuel [fuel]: "belowKnots K L \<Longrightarrow> below (parseTestDecl K t) (parseTestDecl L t)"
  unfolding parseTestDecl_def by (intro fuel)

lemma macroParams_fuel [fuel]: "belowKnots K L \<Longrightarrow> below (macroParams K t) (macroParams L t)"
  unfolding macroParams_def by (intro fuel)

lemma parseMacroDecl_fuel [fuel]: "belowKnots K L \<Longrightarrow> below (parseMacroDecl K tags0 t) (parseMacroDecl L tags0 t)"
  unfolding parseMacroDecl_def by (intro fuel)

lemma statementSwitch_fuel [fuel]: "belowKnots K L \<Longrightarrow> below (statementSwitch K tags t) (statementSwitch L tags t)"
  unfolding statementSwitch_def by (intro fuel)

lemma parseStatement_fuel [fuel]: 
  assumes K: "belowKnots K L"
  shows "below (parseStatement K t) (parseStatement L t)"
  unfolding parseStatement_def belowKnots_parameters [OF K] by (intro fuel K)

lemma parseTopLevel_fuel [fuel]: 
  assumes K: "belowKnots K L"
  shows "below (parseTopLevel K t) (parseTopLevel L t)"
  unfolding parseTopLevel_def belowKnots_parameters [OF K] by (intro fuel K)

lemma Parse_fuel [fuel]: "belowKnots K L \<Longrightarrow> below (Parse K t) (Parse L t)"
  unfolding Parse_def by (intro fuel)

lemma tie_fuel: "belowKnots K L \<Longrightarrow> belowKnots (tie K) (tie L)"
  unfolding belowKnots_def [of "tie K"] by (simp add: tie_def belowKnots_parameters fuel) (simp add: belowKnots_def)

lemma knot0_fuel: "belowKnots (knot0 U F Q) (parserKnots U F Q n)"
  by (induction n) (simp_all add: belowKnots_def knot0_def tie_def fuel)

lemma parserKnots_fuel [fuel]: "n \<le> m \<Longrightarrow> belowKnots (parserKnots U F Q n) (parserKnots U F Q m)"
proof (induction n arbitrary: m)
  case 0
  show ?case by (simp add: knot0_fuel)
next
  case (Suc n)
  then obtain k where "m = Suc k" "n \<le> k" by (cases m) auto
  then show ?case using Suc.IH [of k] by (simp add: tie_fuel)
qed

section \<open>Independence of the fuel\<close>

fun outcome :: "'a presult \<Rightarrow> (parse_error + 'a) option" where
  "outcome (POk x _) = Some (Inr x)"
| "outcome (PErr e _) = Some (Inl e)"
| "outcome PDiverge = None"

lemma knots_fuel [simp]: "k_fuel (tie K) = Suc (k_fuel K)" "k_fuel (knot0 U F Q) = 0"
  by (simp_all add: knot0_def tie_def)

lemma parserKnots_k_fuel [simp]: "k_fuel (parserKnots U F Q n) = n"
  by (induction n) simp_all


lemmas parser_eval =
  Parse_def parseTopLevel_def parseStatement_def statementSwitch_def parseTags_def NewP_def bindP_def checkP_def peekP_def
  skipSemisAndNewlines_def drainLambda_def drainContinuation_def skipAll_def drainDedents_def owedDedents_def advanceP_def
  nextIs_def litIs_def ensurePos_def curPos_def tokPos_def stmtList_def noPos_def Let_def

definition yieldTokens :: "Token list" where
  "yieldTokens =
     [\<lparr>tok_Type = KW_YIELD, tok_Literal = ''yield'', tok_Line = 1, tok_Col = 1\<rparr>,
      \<lparr>tok_Type = NEWLINE, tok_Literal = [], tok_Line = 1, tok_Col = 6\<rparr>,
      \<lparr>tok_Type = EOF, tok_Literal = [], tok_Line = 2, tok_Col = 1\<rparr>]"

lemma Parse_yield:
  "outcome (Parse (parserKnots empty_tables (\<lambda>_. 0) id (Suc (Suc 0))) (NewP yieldTokens ''a.tin'')) =
     Some (Inr [NLeaf \<lparr>Line = 1, Col = 1\<rparr> YieldStmt])"
  by (simp add: parser_eval yieldTokens_def)


end
