(* ===== verification/TinParseTypeCorrect.thy ===== *)
theory TinParseTypeCorrect
  imports TinParseFrame TinParseFuel
begin

text \<open>
  Termination of the parsers of types: every round of their loops and every recursive call consumes a token, so fuel in the number of
  tokens left is enough.
\<close>

section \<open>Consuming tokens\<close>

definition ahead :: "Parser \<Rightarrow> Parser \<Rightarrow> bool" where
  "ahead s t \<longleftrightarrow> ps_tokens t = ps_tokens s \<and> ps_pos s \<le> ps_pos t"

interpretation moves: pos_frame ahead
  by unfold_locales (auto simp: ahead_def)

lemma ahead_left: "ahead s t \<Longrightarrow> tokensLeft t \<le> tokensLeft s"
  by (auto simp: ahead_def tokensLeft_def)

lemmas moves_left = moves.step [OF moves.refl, THEN ahead_left] moves.skips [OF moves.refl, THEN ahead_left]
  moves.more_skips [OF moves.refl, THEN ahead_left] moves.parseTags_frame [OF moves.refl, THEN ahead_left]

lemma advance_less: "peekP s \<noteq> eofToken \<Longrightarrow> tokensLeft (advanceP s) < tokensLeft s"
  by (auto simp: tokensLeft_def advanceP_def peekP_def split: if_splits)

lemma check_less: "checkP ty s \<Longrightarrow> ty \<noteq> EOF \<Longrightarrow> tokensLeft (advanceP s) < tokensLeft s"
  by (rule advance_less) (auto simp: checkP_def eofToken_def)

text \<open>The call returns; when it returns a value, fewer than \<open>l\<close> tokens are left.\<close>

definition ends :: "nat \<Rightarrow> 'a presult \<Rightarrow> bool" where
  "ends l r \<longleftrightarrow> (case r of POk _ t \<Rightarrow> tokensLeft t < l | PErr _ _ \<Rightarrow> True | PDiverge \<Rightarrow> False)"

named_theorems ending

lemma ends_result [ending]:
  "tokensLeft t < l \<Longrightarrow> ends l (POk x t)" "ends l (PErr e t)" "tokensLeft t < l \<Longrightarrow> ends l (returnP x t)"
  "ends l (errorf f as t)" "ends l (errPlain f as t)" "ends l (errAtTok tok f as t)" "ends l (errAt i j f as t)"
  by (simp_all add: ends_def returnP_def errorf_def errPlain_def errAtTok_def errAt_def)

lemma ends_bindP:
  "ends k (f t) \<Longrightarrow> (\<And>x u. tokensLeft u < k \<Longrightarrow> ends l (g x u)) \<Longrightarrow> ends l (bindP f g t)"
  by (cases "f t") (simp_all add: ends_def bindP_def)

lemma ends_mono: "ends k r \<Longrightarrow> k \<le> l \<Longrightarrow> ends l r"
  by (auto simp: ends_def split: presult.splits)

lemma ends_expectP: "ty \<noteq> EOF \<Longrightarrow> ends (tokensLeft t) (expectP ty t)"
  using check_less [of ty t] by (auto simp: expectP_def Let_def ends_def errAtTok_def errAt_def checkP_def split: presult.splits)

lemma ends_loopP:
  assumes "tokensLeft t < n"
    and "\<And>x u. tokensLeft u \<le> tokensLeft t \<Longrightarrow>
      (case body x u of POk (Inl _) v \<Rightarrow> tokensLeft v < tokensLeft u | POk (Inr _) v \<Rightarrow> tokensLeft v \<le> tokensLeft u
       | PErr _ _ \<Rightarrow> True | PDiverge \<Rightarrow> False)"
  shows "ends (Suc (tokensLeft t)) (loopP n body acc t)"
  using assms
proof (induction n arbitrary: acc t)
  case 0
  then show ?case by simp
next
  case (Suc n)
  note step = Suc.prems(2) [OF order_refl, of acc]
  show ?case
  proof (cases "body acc t")
    case (POk r v)
    show ?thesis
    proof (cases r)
      case (Inl x)
      with POk step have "tokensLeft v < tokensLeft t" by simp
      moreover from this have "ends (Suc (tokensLeft v)) (loopP n body x v)" using Suc.prems by (intro Suc.IH) auto
      ultimately show ?thesis using POk Inl by (auto intro: ends_mono)
    qed (use POk step in \<open>auto simp: ends_def\<close>)
  qed (use step in \<open>auto simp: ends_def\<close>)
qed

lemma ends_itemsUntil:
  assumes "tokensLeft t < n" and "\<And>u. tokensLeft u \<le> tokensLeft t \<Longrightarrow> ends (tokensLeft u) (item u)"
    and "\<And>u. tokensLeft (after u) \<le> tokensLeft u"
  shows "ends (Suc (tokensLeft t)) (itemsUntil n c item after t)"
  unfolding itemsUntil_def
  by (rule ends_loopP [OF assms(1)])
    (use assms(2,3) in \<open>fastforce simp: ends_def bindP_def dest: le_less_trans split: presult.splits\<close>)

lemma ends_itemsWhile:
  assumes "tokensLeft t < n" and "\<And>u. tokensLeft u < tokensLeft t \<Longrightarrow> ends (tokensLeft u) (item u)" and "sep \<noteq> EOF"
  shows "ends (Suc (tokensLeft t)) (itemsWhile n sep item xs t)"
  unfolding itemsWhile_def
proof (rule ends_loopP [OF assms(1)])
  fix ys u assume u: "tokensLeft u \<le> tokensLeft t"
  show "case if checkP sep u then bindP item (\<lambda>x. returnP (Inl (ys @ [x]))) (advanceP u) else POk (Inr ys) u of
      POk (Inl _) v \<Rightarrow> tokensLeft v < tokensLeft u | POk (Inr _) v \<Rightarrow> tokensLeft v \<le> tokensLeft u | PErr _ _ \<Rightarrow> True | PDiverge \<Rightarrow> False"
  proof (cases "checkP sep u")
    case True
    with check_less [OF True assms(3)] assms(2) [of "advanceP u"] u show ?thesis
      by (auto simp: ends_def bindP_def returnP_def split: presult.splits)
  qed simp
qed

text \<open>The same with one bound \<open>l\<close> for all calls, once a token has been consumed.\<close>

lemma ends_control [ending]:
  "ends l (f t) \<Longrightarrow> (\<And>x u. tokensLeft u < l \<Longrightarrow> ends l (g x u)) \<Longrightarrow> ends l (bindP f g t)"
  "(c \<Longrightarrow> ends l r) \<Longrightarrow> (\<not> c \<Longrightarrow> ends l r') \<Longrightarrow> ends l (if c then r else r')"
  "ends l (h e) \<Longrightarrow> ends l (Let e h)" "ends l (k (fst p) (snd p)) \<Longrightarrow> ends l (case p of (a, b) \<Rightarrow> k a b)"
  "ends l (k' (fst p) (snd p) t) \<Longrightarrow> ends l ((case p of (a, b) \<Rightarrow> k' a b) t)"
  by (auto intro: ends_bindP split: prod.split)

lemma left_advance: "tokensLeft t < l \<Longrightarrow> tokensLeft (advanceP t) < l"
  using moves_left(1) le_less_trans by blast

lemma left_skip [ending]:
  "tokensLeft t < l \<Longrightarrow> tokensLeft (skipTok ty t) < l"
  "tokensLeft t < l \<Longrightarrow> tokensLeft (snd (arraySize t)) < l" "tokensLeft t < l \<Longrightarrow> tokensLeft (skipParamName t) < l"
  "tokensLeft t < l \<Longrightarrow> tokensLeft (snd (parseTags t)) < l"
  using moves_left le_less_trans by blast+

lemma expectP_ends [ending]: "tokensLeft t < l \<Longrightarrow> ty \<noteq> EOF \<Longrightarrow> ends l (expectP ty t)"
  by (auto intro: ends_mono [OF ends_expectP])

lemma items_end:
  assumes "tokensLeft t < l" "l \<le> n" and "\<And>u. tokensLeft u < l \<Longrightarrow> ends (tokensLeft u) (item u)"
  shows "ends l (itemsUntil n c item (skipTok COMMA) t)" "sep \<noteq> EOF \<Longrightarrow> ends l (itemsWhile n sep item xs t)"
proof -
  show "ends l (itemsUntil n c item (skipTok COMMA) t)"
    using assms moves_left(4) by (intro ends_mono [OF ends_itemsUntil]) auto
  show "ends l (itemsWhile n sep item xs t)" if "sep \<noteq> EOF"
    using assms that by (intro ends_mono [OF ends_itemsWhile]) auto
qed

lemma wildcardType_ends: "peekP t \<noteq> eofToken \<Longrightarrow> ends (tokensLeft t) (wildcardType t)"
  unfolding wildcardType_def using advance_less [of t] by (intro ending) (auto intro: left_advance)

lemma qualifiedName_ends:
  assumes "tokensLeft t < l" "l \<le> n"
  shows "ends l (qualifiedName n name t)"
proof -
  have "ends (Suc (tokensLeft t)) (qualifiedName n name t)" unfolding qualifiedName_def
  proof (rule ends_loopP)
    fix x u
    show "case if checkP DCOLON u then bindP (expectP IDENT) (\<lambda>part. returnP (Inl (x @ ''::'' @ tok_Literal part))) (advanceP u)
        else POk (Inr x) u of
      POk (Inl _) v \<Rightarrow> tokensLeft v < tokensLeft u | POk (Inr _) v \<Rightarrow> tokensLeft v \<le> tokensLeft u | PErr _ _ \<Rightarrow> True | PDiverge \<Rightarrow> False"
      using ends_expectP [of IDENT "advanceP u"] check_less [of DCOLON u]
      by (auto simp: ends_def bindP_def returnP_def split: presult.splits)
  qed (use assms in simp)
  then show ?thesis by (rule ends_mono) (use assms in simp)
qed

lemma funcTypeParams_ends:
  assumes "tokensLeft t < l" "l \<le> n" and item: "\<And>u. tokensLeft u < l \<Longrightarrow> ends (tokensLeft u) (item u)"
  shows "ends l (funcTypeParams n item t)"
proof -
  have "ends (Suc (tokensLeft t)) (funcTypeParams n item t)" unfolding funcTypeParams_def
  proof (rule ends_loopP)
    fix ps u assume u: "tokensLeft u \<le> tokensLeft t"
    let ?v = "skipParamName u" and ?w = "advanceP (skipParamName u)"
    have v: "tokensLeft ?v \<le> tokensLeft u" "tokensLeft ?w \<le> tokensLeft ?v" by (simp_all add: moves_left)
    then have "ends (tokensLeft ?v) (item ?v)" "ends (tokensLeft ?w) (item ?w)" using item u assms(1) by auto
    with v show "case if checkP RPAREN u \<or> checkP EOF u then POk (Inr (ps, False)) u
        else (let s = skipParamName u in
          if checkP DOTDOTDOT s then
            (let s = advanceP s in
             if \<not> checkP RPAREN s then bindP item (\<lambda>t. returnP (Inr (ps @ [t], True))) s else POk (Inr (ps, True)) s)
          else bindP item (\<lambda>t s. POk (Inl (ps @ [t])) (skipTok COMMA s)) s) of
      POk (Inl _) v \<Rightarrow> tokensLeft v < tokensLeft u | POk (Inr _) v \<Rightarrow> tokensLeft v \<le> tokensLeft u | PErr _ _ \<Rightarrow> True | PDiverge \<Rightarrow> False"
      using left_skip(1) by (auto simp: Let_def ends_def bindP_def returnP_def split: presult.splits)
  qed (use assms in simp)
  then show ?thesis by (rule ends_mono) (use assms in simp)
qed

section \<open>Types\<close>

lemma name_not_end: "checkP IDENT s \<or> isTypeKeyword (peekP s) \<Longrightarrow> peekP s \<noteq> eofToken"
  by (auto simp: isTypeKeyword_def checkP_def eofToken_def)

lemma types_end:
  "(\<forall>s. 3 * tokensLeft s + 3 \<le> n \<longrightarrow> ends (tokensLeft s) (parseTypeUnion n s)) \<and>
   (\<forall>s. 3 * tokensLeft s + 2 \<le> n \<longrightarrow> ends (tokensLeft s) (parseTypeSingle n s)) \<and>
   (\<forall>s. checkP KW_FN s \<longrightarrow> 3 * tokensLeft s + 1 \<le> n \<longrightarrow> ends (tokensLeft s) (parseFuncType n s))"
proof (induction n)
  case 0
  show ?case by simp
next
  case (Suc n)
  have union: "ends (tokensLeft u) (parseTypeUnion n u)" if "3 * tokensLeft u + 3 \<le> n" for u using Suc that by blast
  have single: "ends (tokensLeft u) (parseTypeSingle n u)" if "3 * tokensLeft u + 2 \<le> n" for u using Suc that by blast
  have fn: "ends (tokensLeft u) (parseFuncType n u)" if "checkP KW_FN u" "3 * tokensLeft u + 1 \<le> n" for u using Suc that by blast
  have "ends (tokensLeft s) (parseTypeUnion (Suc n) s)" if "3 * tokensLeft s + 3 \<le> Suc n" for s
    unfolding parseTypeUnion.simps using that by (intro ending items_end single) auto
  moreover have "ends (tokensLeft s) (parseFuncType (Suc n) s)" if "checkP KW_FN s" "3 * tokensLeft s + 1 \<le> Suc n" for s
    unfolding parseFuncType.simps using that check_less [OF that(1)]
    by (intro ending funcTypeParams_ends union ends_mono [OF single]) auto
  moreover have "ends (tokensLeft s) (parseTypeSingle (Suc n) s)" if n: "3 * tokensLeft s + 2 \<le> Suc n" for s
  proof -
    let ?s = "skipTok KW_CONST (skipTok KW_VOLATILE s)"
    have le: "tokensLeft ?s \<le> tokensLeft s" by (meson moves_left(4) order_trans)
    have "tokensLeft (advanceP ?s) < tokensLeft s" if "checkP ty ?s" "ty \<noteq> EOF" for ty using check_less [OF that] le by simp
    note first = this [of STAR] this [of AT] this [of LBRACKET] this [of KW_EXTERN] this [of LPAREN] this [of IDENT]
    have "tokensLeft (advanceP ?s) < tokensLeft s" "peekP ?s \<noteq> eofToken" if "checkP IDENT ?s \<or> isTypeKeyword (peekP ?s)"
      using advance_less [OF name_not_end [OF that]] name_not_end [OF that] le by simp_all
    with first show ?thesis unfolding parseTypeSingle.simps Let_def using n le
      by (intro ending items_end union ends_mono [OF fn] ends_mono [OF single] ends_mono [OF union] ends_mono [OF wildcardType_ends] qualifiedName_ends)
        (auto intro: left_advance)
  qed
  ultimately show ?case by blast
qed

lemma union_ends: "3 * tokensLeft s + 3 \<le> n \<Longrightarrow> ends (tokensLeft s) (parseTypeUnion n s)"
  using types_end by blast

section \<open>Parameters\<close>

lemma paramType_step:
  assumes "3 * tokensLeft s + 3 \<le> n"
  shows "case paramType n p s of POk _ v \<Rightarrow> tokensLeft v < tokensLeft s \<or> v = s \<and> matchP [RPAREN, COMMA, DOTDOTDOT] s
    | PErr _ _ \<Rightarrow> True | PDiverge \<Rightarrow> False"
  using union_ends [OF assms] by (auto simp: paramType_def ends_def bindP_def returnP_def split: presult.splits)

lemma parseParam_step:
  assumes n: "3 * tokensLeft s + 3 \<le> n" and "\<not> checkP RPAREN s"
  shows "case parseParam n s of POk _ v \<Rightarrow> tokensLeft (skipSeparator v) < tokensLeft s | PErr _ _ \<Rightarrow> True | PDiverge \<Rightarrow> False"
proof -
  let ?s = "skipTok KW_CONST s"
  have sep: "tokensLeft (skipSeparator v) \<le> tokensLeft v" for v by (rule moves_left)
  have less: "tokensLeft (advanceP u) < tokensLeft u" if "checkP DOTDOTDOT u \<or> checkP IDENT u \<or> checkP COMMA u \<or> checkP KW_CONST u" for u
    using that check_less by auto
  have le: "tokensLeft ?s \<le> tokensLeft s" "tokensLeft (advanceP u) \<le> tokensLeft u" for u by (rule moves_left)+
  have comma: "tokensLeft (skipSeparator u) < tokensLeft u" if "checkP COMMA u" for u
    using that less [of u] moves_left(5) [of "advanceP u"] by (auto simp: skipSeparator_def)
  have start: "?s = s \<or> tokensLeft ?s < tokensLeft s" using less [of s] by (auto simp: skipTok_def)
  have step: "case paramType n p u of POk _ v \<Rightarrow> tokensLeft (skipSeparator v) < tokensLeft s | PErr _ _ \<Rightarrow> True | PDiverge \<Rightarrow> False"
    if "u = s \<and> \<not> checkP DOTDOTDOT s \<or> tokensLeft u < tokensLeft s" for p u
  proof -
    have "3 * tokensLeft u + 3 \<le> n" using that n by auto
    from paramType_step [OF this, of p] show ?thesis using that assms(2) comma [of s]
      by (cases "paramType n p u") (auto simp: matchP_def checkP_def intro: le_less_trans [OF sep])
  qed
  have name: "tokensLeft (advanceP ?s) < tokensLeft s" if "checkP IDENT ?s \<or> checkP DOTDOTDOT ?s" using less [of ?s] le that by auto
  have rest: "tokensLeft (skipSeparator (advanceP u)) < tokensLeft s" if "tokensLeft (advanceP u) < tokensLeft s" for u
    by (rule le_less_trans [OF sep that])
  show ?thesis
  proof (cases "checkP DOTDOTDOT ?s")
    case True
    then show ?thesis using rest name by (simp add: parseParam_def Let_def)
  next
    case False
    then have "?s = s \<and> \<not> checkP DOTDOTDOT s \<or> tokensLeft ?s < tokensLeft s" using start by metis
    with False name step rest left_advance show ?thesis by (auto simp: parseParam_def Let_def)
  qed
qed

lemma params_end:
  assumes "tokensLeft t < l" "3 * l \<le> n"
  shows "ends l (itemsUntil n RPAREN (parseParam n) skipSeparator t)"
proof -
  have "ends (Suc (tokensLeft t)) (itemsUntil n RPAREN (parseParam n) skipSeparator t)" unfolding itemsUntil_def
  proof (rule ends_loopP)
    fix ps u assume u: "tokensLeft u \<le> tokensLeft t"
    then have "3 * tokensLeft u + 3 \<le> n" using assms by auto
    from parseParam_step [OF this]
    show "case if checkP RPAREN u \<or> checkP EOF u then POk (Inr ps) u
        else bindP (parseParam n) (\<lambda>x s. POk (Inl (ps @ [x])) (skipSeparator s)) u of
      POk (Inl _) v \<Rightarrow> tokensLeft v < tokensLeft u | POk (Inr _) v \<Rightarrow> tokensLeft v \<le> tokensLeft u | PErr _ _ \<Rightarrow> True | PDiverge \<Rightarrow> False"
      by (cases "checkP RPAREN u") (auto simp: bindP_def split: presult.splits)
  qed (use assms in simp)
  then show ?thesis by (rule ends_mono) (use assms in simp)
qed

lemma parseParams_ends: "3 * tokensLeft s + 3 \<le> n \<Longrightarrow> ends (tokensLeft s) (parseParams n s)"
  unfolding parseParams_def
  by (rule ends_bindP, rule ends_expectP, simp, intro ending params_end)
    (auto intro: le_less_trans [OF moves_left(5)])

text \<open>
  C37: a type expression and a parameter list are parsed, or rejected with an error, after a bounded number of calls: fuel of three times
  the number of tokens left, and three more, is always enough, on every input.
\<close>

theorem types_and_params_return:
  "parseTypeExpr (3 * tokensLeft s + 3 + k) s \<noteq> PDiverge \<and> parseParams (3 * tokensLeft s + 3 + k) s \<noteq> PDiverge"
  using union_ends [of s "3 * tokensLeft s + 3 + k"] parseParams_ends [of s "3 * tokensLeft s + 3 + k"] by (auto simp: ends_def)

end
