(* ===== verification/TinParseTypeRound.thy ===== *)
theory TinParseTypeRound
  imports TinParseTypeCorrect
begin

text \<open>
  Every type expression has a spelling as tokens that the parser reads back.  A union below a pointer, in a union or as a result type
  and a function type without a result type are put in parentheses.
\<close>

section \<open>Decimal numbers\<close>

lemma decValue_append: "decValue acc (xs @ ys) = Option.bind (decValue acc xs) (\<lambda>v. decValue v ys)"
  by (induction xs arbitrary: acc) (auto split: option.split)

lemma decDigit_char_of: "d < 10 \<Longrightarrow> decDigit (char_of (48 + d :: nat)) = Some (int d)"
  using of_nat_of_char [of "char_of (48 + d)", where 'a = int] by (simp add: decDigit_def between_def)

lemma showNat_nonempty: "showNat n \<noteq> []"
  by (subst showNat.simps) simp

lemma decValue_showNat: "decValue 0 (showNat n) = Some (int n)"
proof (induction n rule: showNat.induct)
  case (1 n)
  then show ?case
    by (subst showNat.simps) (auto simp: decValue_append decDigit_char_of zdiv_int zmod_int)
qed

lemma atoi_unsigned:
  assumes "c \<noteq> CHR ''-''" "c \<noteq> CHR ''+''"
  shows "atoi (c # cs) = (case decimal (c # cs) of Some n \<Rightarrow> clamp64 n | None \<Rightarrow> 0)"
  using assms by (cases c) (auto simp: atoi_def split: bool.splits)

lemma atoi_showNat:
  assumes "n < 2 ^ 63"
  shows "atoi (showNat n) = int n"
proof -
  have "decimal (showNat n) = Some (int n)" by (simp add: decimal_def showNat_nonempty decValue_showNat)
  moreover have "clamp64 (int n) = int n" using assms by (simp add: clamp64_def)
  moreover obtain c cs where "showNat n = c # cs" using showNat_nonempty by (cases "showNat n") auto
  moreover from this have "c \<noteq> CHR ''-''" "c \<noteq> CHR ''+''" using decValue_showNat [of n] by (auto simp: decDigit_def between_def)
  ultimately show ?thesis by (simp add: atoi_unsigned)
qed

section \<open>The spelling\<close>

definition tk :: "TokenType \<Rightarrow> string \<Rightarrow> Token" where
  "tk ty lit = \<lparr>tok_Type = ty, tok_Literal = lit, tok_Line = 1, tok_Col = 1\<rparr>"

fun commaToks :: "Token list list \<Rightarrow> Token list" where
  "commaToks [] = []"
| "commaToks [ts] = ts"
| "commaToks (ts # us # r) = ts @ tk COMMA '','' # commaToks (us # r)"

fun barToks :: "Token list list \<Rightarrow> Token list" where
  "barToks [] = []"
| "barToks (ts # r) = tk BITOR ''|'' # ts @ barToks r"

definition paren :: "bool \<Rightarrow> Token list \<Rightarrow> Token list" where
  "paren b ts = (if b then tk LPAREN ''('' # ts @ [tk RPAREN '')''] else ts)"

definition isUnion :: "TypeExpr \<Rightarrow> bool" where
  "isUnion t = (case t of UnionTypeExpr _ \<Rightarrow> True | _ \<Rightarrow> False)"

fun typeToks :: "TypeExpr \<Rightarrow> Token list" where
  "typeToks (SimpleType n) = [tk IDENT n]"
| "typeToks (GenericType n ts) = tk IDENT n # tk LBRACKET ''['' # commaToks (map typeToks ts) @ [tk RBRACKET '']'']"
| "typeToks (ArrayType e k) =
     tk LBRACKET ''['' # typeToks e @ (if k < 0 then [] else [tk SEMI '';'', tk INT_LIT (sprintf_d k)]) @ [tk RBRACKET '']'']"
| "typeToks (PointerType e c v) =
     (if v then [tk KW_VOLATILE ''volatile''] else []) @ (if c then [tk KW_CONST ''const''] else []) @
     tk STAR ''*'' # paren (isUnion e) (typeToks e)"
| "typeToks (FuncType ps r va async) =
     paren (r = None)
       (tk KW_FN ''fn'' # (if async then [tk LBRACE ''{'', tk CONTROL_TAG ''async'', tk RBRACE ''}''] else []) @
        tk LPAREN ''('' # commaToks (map typeToks ps @ (if va then [[tk DOTDOTDOT ''...'']] else [])) @ tk RPAREN '')'' #
        (case r of None \<Rightarrow> [] | Some t \<Rightarrow> paren (isUnion t) (typeToks t)))"
| "typeToks (UnionTypeExpr ts) = tl (barToks (map (\<lambda>t. paren (isUnion t) (typeToks t)) ts))"
| "typeToks VoidType = []"
| "typeToks (WildcardType n) = tk IDENT ''_'' # (if n = [] then [] else [tk COLON '':'', tk IDENT n])"
| "typeToks (TupleArrayType ts) = tk AT ''@'' # tk LBRACKET ''['' # commaToks (map typeToks ts) @ [tk RBRACKET '']'']"

definition spell :: "TypeExpr \<Rightarrow> Token list" where
  "spell t = paren (isUnion t) (typeToks t)"

text \<open>The type expressions the parser can build.\<close>

fun wfType :: "TypeExpr \<Rightarrow> bool" where
  "wfType (SimpleType n) = (n \<noteq> ''_'')"
| "wfType (GenericType n ts) = (n \<noteq> ''_'' \<and> list_all wfType ts)"
| "wfType (ArrayType e k) = (wfType e \<and> (k = -1 \<or> 0 \<le> k \<and> k < 2 ^ 63))"
| "wfType (PointerType e _ _) = wfType e"
| "wfType (FuncType ps r _ _) = (list_all wfType ps \<and> pred_option wfType r)"
| "wfType (UnionTypeExpr ts) = (2 \<le> length ts \<and> list_all wfType ts)"
| "wfType VoidType = False"
| "wfType (WildcardType _) = True"
| "wfType (TupleArrayType ts) = list_all wfType ts"

section \<open>Runs with enough fuel\<close>

definition runs :: "(nat \<Rightarrow> 'a parser) \<Rightarrow> Parser \<Rightarrow> 'a \<Rightarrow> Parser \<Rightarrow> bool" where
  "runs f s x t \<longleftrightarrow> (\<exists>N. \<forall>n\<ge>N. f n s = POk x t)"

definition loops :: "(nat \<Rightarrow> 'a \<Rightarrow> ('a + 'b) parser) \<Rightarrow> 'a \<Rightarrow> Parser \<Rightarrow> 'b \<Rightarrow> Parser \<Rightarrow> bool" where
  "loops body acc s x t \<longleftrightarrow> (\<exists>N. \<forall>n\<ge>N. \<forall>k\<ge>N. loopP k (body n) acc s = POk x t)"

lemma runs_const: "f s = POk x t \<Longrightarrow> runs (\<lambda>_. f) s x t"
  by (simp add: runs_def)

lemma runs_now: "(\<And>n. f n s = POk x t) \<Longrightarrow> runs f s x t"
  by (simp add: runs_def)

lemma runs_via: "runs g u x t \<Longrightarrow> (\<And>n. f n s = g n u) \<Longrightarrow> runs f s x t"
  by (simp add: runs_def)

lemma runs_POk: "runs (\<lambda>_. returnP x) s x s" "runs (\<lambda>_ s. POk (h s) (k s)) s (h s) (k s)"
  by (simp_all add: runs_def returnP_def)

lemma runs_bindP: "runs f s x t \<Longrightarrow> runs (\<lambda>n. g n x) t y u \<Longrightarrow> runs (\<lambda>n. bindP (f n) (g n)) s y u"
proof -
  assume "runs f s x t" "runs (\<lambda>n. g n x) t y u"
  then obtain N M where "\<forall>n\<ge>N. f n s = POk x t" "\<forall>n\<ge>M. g n x t = POk y u" unfolding runs_def by blast
  then have "\<forall>n\<ge>max N M. bindP (f n) (g n) s = POk y u" by (simp add: bindP_def)
  then show ?thesis unfolding runs_def by blast
qed

lemma runs_then: "runs f s x t \<Longrightarrow> runs g t y u \<Longrightarrow> runs (\<lambda>n. bindP (f n) (\<lambda>_. g n)) s y u"
  by (rule runs_bindP)

lemma runs_bindP_pair:
  "runs f s (a, b) t \<Longrightarrow> runs (\<lambda>n. g n a b) t y u \<Longrightarrow> runs (\<lambda>n. bindP (f n) (\<lambda>(a, b). g n a b)) s y u"
  by (rule runs_bindP [where x = "(a, b)"]) simp_all

lemma runs_Suc: "runs f u x t \<Longrightarrow> (\<And>n. g (Suc n) s = f n u) \<Longrightarrow> runs g s x t"
proof -
  assume "runs f u x t" and g: "\<And>n. g (Suc n) s = f n u"
  then obtain N where N: "\<forall>n\<ge>N. f n u = POk x t" unfolding runs_def by blast
  have "g n s = POk x t" if "n \<ge> Suc N" for n using N g that by (cases n) auto
  then show ?thesis unfolding runs_def by blast
qed

lemma runs_loopP: "loops body acc s x t \<Longrightarrow> runs (\<lambda>n. loopP n (body n) acc) s x t"
  unfolding runs_def loops_def by blast

lemma loops_done: "(\<And>n. body n acc s = POk (Inr x) t) \<Longrightarrow> loops body acc s x t"
proof -
  assume b: "\<And>n. body n acc s = POk (Inr x) t"
  have "loopP k (body n) acc s = POk x t" if "k \<ge> 1" for n k using that b by (cases k) auto
  then show ?thesis unfolding loops_def by blast
qed

lemma loops_step: "runs (\<lambda>n. body n acc) s (Inl acc') t \<Longrightarrow> loops body acc' t x u \<Longrightarrow> loops body acc s x u"
proof -
  assume "runs (\<lambda>n. body n acc) s (Inl acc') t" "loops body acc' t x u"
  then obtain N M where N: "\<forall>n\<ge>N. body n acc s = POk (Inl acc') t" and M: "\<forall>n\<ge>M. \<forall>k\<ge>M. loopP k (body n) acc' t = POk x u"
    unfolding runs_def loops_def by blast
  have "loopP k (body n) acc s = POk x u" if "k \<ge> Suc (max N M)" "n \<ge> Suc (max N M)" for n k
    using that N M by (cases k) auto
  then show ?thesis unfolding loops_def by blast
qed

section \<open>Positions\<close>

definition toGo :: "Parser \<Rightarrow> Token list" where
  "toGo s = drop (ps_pos s) (ps_tokens s)"

definition forth :: "nat \<Rightarrow> Parser \<Rightarrow> Parser" where
  "forth k s = s\<lparr>ps_pos := ps_pos s + k\<rparr>"

lemma forth_simps [simp]: "forth 0 s = s" "forth j (forth k s) = forth (k + j) s" "toGo (forth k s) = drop k (toGo s)"
  by (simp_all add: forth_def toGo_def add.commute add.assoc)

lemma toGo_Cons:
  assumes "toGo s = x # ts"
  shows "peekP s = x" "advanceP s = forth 1 s"
proof -
  have l: "ps_pos s < length (ps_tokens s)" using assms unfolding toGo_def by (metis drop_eq_Nil leI list.simps(3))
  then show "peekP s = x" "advanceP s = forth 1 s" using assms
    by (simp_all add: peekP_def advanceP_def forth_def toGo_def Cons_nth_drop_Suc [symmetric])
qed

definition headType :: "Token list \<Rightarrow> TokenType" where
  "headType ts = (case ts of [] \<Rightarrow> EOF | t # _ \<Rightarrow> tok_Type t)"

lemma headType_simps [simp]: "headType [] = EOF" "headType (t # ts) = tok_Type t"
  by (simp_all add: headType_def)

lemma tk_simps [simp]: "tok_Type (tk ty l) = ty" "tok_Literal (tk ty l) = l"
  by (simp_all add: tk_def)

lemma peek_type: "tok_Type (peekP s) = headType (toGo s)"
proof (cases "toGo s")
  case Nil
  then show ?thesis by (simp add: toGo_def peekP_def eofToken_def)
qed (simp add: toGo_Cons)

lemma check_head: "checkP ty s \<longleftrightarrow> headType (toGo s) = ty" "matchP tys s \<longleftrightarrow> headType (toGo s) \<in> set tys"
  by (simp_all add: checkP_def matchP_def peek_type)

lemma skip_head: "skipTok ty s = (if headType (toGo s) = ty \<and> toGo s \<noteq> [] then forth 1 s else s)"
  by (cases "toGo s") (auto simp: skipTok_def check_head toGo_Cons, auto simp: advanceP_def toGo_def)

lemma toGo_peekAt: "toGo s = x # y # ts \<Longrightarrow> peekAtP 1 s = y"
proof -
  assume "toGo s = x # y # ts"
  moreover have "peekAtP 1 s = peekP (forth 1 s)" by (simp add: peekAtP_def peekP_def forth_def)
  ultimately show ?thesis using toGo_Cons(1) [of "forth 1 s" y ts] by simp
qed

lemma expect_head: "toGo s = x # ts \<Longrightarrow> tok_Type x = ty \<Longrightarrow> runs (\<lambda>_. expectP ty) s x (forth 1 s)"
  by (simp add: runs_def expectP_def toGo_Cons)

section \<open>Lists\<close>

text \<open>What may follow a type without and with the operator of unions.\<close>

definition ends1 :: "Token list \<Rightarrow> bool" where
  "ends1 ts \<longleftrightarrow> headType ts \<notin> {DCOLON, LBRACKET, COLON}"

definition endsU :: "Token list \<Rightarrow> bool" where
  "endsU ts \<longleftrightarrow> headType ts \<notin> {DCOLON, LBRACKET, COLON, BITOR}"

definition reads1 :: "TypeExpr \<Rightarrow> bool" where
  "reads1 t \<longleftrightarrow> (\<forall>s rest. toGo s = spell t @ rest \<longrightarrow> ends1 rest \<longrightarrow> runs parseTypeSingle s t (forth (length (spell t)) s))"

definition readsU :: "TypeExpr \<Rightarrow> bool" where
  "readsU t \<longleftrightarrow>
     (\<forall>s rest. toGo s = typeToks t @ rest \<longrightarrow> endsU rest \<longrightarrow> runs parseTypeUnion s t (forth (length (typeToks t)) s))"

lemma readsD:
  "readsU t \<Longrightarrow> toGo s = typeToks t @ rest \<Longrightarrow> endsU rest \<Longrightarrow> runs parseTypeUnion s t (forth (length (typeToks t)) s)"
  "reads1 t \<Longrightarrow> toGo s = spell t @ rest \<Longrightarrow> ends1 rest \<Longrightarrow> runs parseTypeSingle s t (forth (length (spell t)) s)"
  by (auto simp: readsU_def reads1_def)

definition startToks :: "TokenType set" where
  "startToks = {IDENT, LBRACKET, STAR, KW_CONST, KW_VOLATILE, KW_FN, AT, LPAREN}"

lemma paren_start: "headType (paren b ts @ r) = (if b then LPAREN else headType (ts @ r))"
  by (simp add: paren_def)

lemma typeToks_start: "wfType t \<Longrightarrow> typeToks t \<noteq> [] \<and> headType (typeToks t @ r) \<in> startToks"
proof (induction t arbitrary: r)
  case (UnionTypeExpr ts)
  then obtain u us where ts: "ts = u # us" by (cases ts) auto
  with UnionTypeExpr show ?case by (simp add: paren_start startToks_def) (simp add: paren_def)
qed (auto simp: startToks_def paren_def)

definition itemBody :: "TokenType \<Rightarrow> nat \<Rightarrow> TypeExpr list \<Rightarrow> (TypeExpr list + TypeExpr list) parser" where
  "itemBody close n xs s =
     (if checkP close s \<or> checkP EOF s then POk (Inr xs) s
      else bindP (parseTypeUnion n) (\<lambda>x s. POk (Inl (xs @ [x])) (skipTok COMMA s)) s)"

lemma itemBody_end: "headType (toGo s) = close \<Longrightarrow> itemBody close n acc s = POk (Inr acc) s"
  by (simp add: itemBody_def check_head)

lemma item_step:
  assumes "wfType t" "readsU t" and "toGo s = typeToks t @ rest" "endsU rest" and "close \<in> {RBRACKET, RPAREN}"
  shows "runs (\<lambda>n. itemBody close n acc) s (Inl (acc @ [t])) (skipTok COMMA (forth (length (typeToks t)) s))"
proof -
  have "headType (toGo s) \<in> startToks" using assms(1,3) typeToks_start by metis
  then have "\<not> checkP close s" "\<not> checkP EOF s" using assms(5) by (auto simp: check_head startToks_def)
  moreover have "runs (\<lambda>n. bindP (parseTypeUnion n) (\<lambda>x s. POk (Inl (acc @ [x])) (skipTok COMMA s))) s (Inl (acc @ [t]))
         (skipTok COMMA (forth (length (typeToks t)) s))"
    using assms(2-4) unfolding readsU_def by (intro runs_bindP) (auto intro: runs_const)
  ultimately show ?thesis by (simp add: runs_def itemBody_def)
qed

lemma until_types:
  assumes "\<forall>t\<in>set ts. wfType t \<and> readsU t" and c: "tok_Type c = close" "close \<in> {RBRACKET, RPAREN}"
    and "toGo s = commaToks (map typeToks ts) @ c # rest"
  shows "loops (itemBody close) acc s (acc @ ts) (forth (length (commaToks (map typeToks ts))) s)"
  using assms(1,4)
proof (induction ts arbitrary: acc s rule: induct_list012)
  case 1
  then show ?case using c by (intro loops_done) (simp add: itemBody_end)
next
  case (2 t)
  let ?u = "forth (length (typeToks t)) s"
  have u: "toGo ?u = c # rest" using 2 by simp
  then have "skipTok COMMA ?u = ?u" using c by (auto simp: skip_head)
  with item_step [of t s "c # rest" close acc] 2 c have "runs (\<lambda>n. itemBody close n acc) s (Inl (acc @ [t])) ?u"
    by (auto simp: endsU_def)
  moreover have "loops (itemBody close) (acc @ [t]) ?u (acc @ [t]) ?u"
    using u c by (intro loops_done itemBody_end) simp
  ultimately show ?case by (simp add: loops_step)
next
  case (3 t u ts)
  let ?rest = "tk COMMA '','' # commaToks (map typeToks (u # ts)) @ c # rest" and ?u = "forth (length (typeToks t) + 1) s"
  have s: "toGo s = typeToks t @ ?rest" using 3 by simp
  then have "skipTok COMMA (forth (length (typeToks t)) s) = ?u" by (simp add: skip_head)
  with item_step [of t s ?rest close acc] 3 c s have "runs (\<lambda>n. itemBody close n acc) s (Inl (acc @ [t])) ?u"
    by (simp add: endsU_def)
  moreover have "loops (itemBody close) (acc @ [t]) ?u ((acc @ [t]) @ u # ts) (forth (length (commaToks (map typeToks (u # ts)))) ?u)"
    using 3 s by (intro 3(2)) auto
  ultimately show ?case by (auto simp: add_ac dest: loops_step)
qed

lemma commaToks_Cons: "commaToks (x # xs) = x @ (if xs = [] then [] else tk COMMA '','' # commaToks xs)"
  by (cases xs) simp_all

text \<open>A type is not taken for the name of a parameter.\<close>

lemma not_type [simp]:
  "\<not> isTypeToken (tk COMMA '','')" "\<not> isTypeToken (tk RPAREN '')'')" "\<not> isTypeToken (tk BITOR ''|'')" "\<not> isTypeToken (tk COLON '':'')"
  by (simp_all add: isTypeToken_def isTypeKeyword_def)

lemma second_token:
  assumes "wfType t" "tok_Type x \<in> {COMMA, RPAREN, BITOR}" "\<not> isTypeToken x" "headType (typeToks t @ x # r) = IDENT"
  shows "\<exists>i y ts. typeToks t @ x # r = i # y # ts \<and> tok_Type y \<noteq> IDENT \<and> (isTypeToken y \<longrightarrow> tok_Type y = LBRACKET)"
  using assms
proof (induction t arbitrary: x r)
  case (UnionTypeExpr ts)
  then obtain u v us where ts: "ts = u # v # us" by (cases ts rule: remdups_adj.cases) auto
  have "\<not> isUnion u" using UnionTypeExpr.prems ts by (auto simp: paren_def)
  then show ?case
    using UnionTypeExpr.IH [of u "tk BITOR ''|''" "paren (isUnion v) (typeToks v) @ barToks (map (\<lambda>t. paren (isUnion t) (typeToks t)) us) @ x # r"]
      UnionTypeExpr.prems ts by (auto simp: paren_def [of False])
next
  case (WildcardType n)
  then show ?case by (cases "n = []") auto
next
  case (FuncType ps r va async)
  then show ?case by (auto simp: paren_def split: if_splits)
qed (auto split: if_splits)

lemma skipParamName_type:
  assumes "wfType t" "toGo s = typeToks t @ x # r" "tok_Type x \<in> {COMMA, RPAREN, BITOR}" "\<not> isTypeToken x"
  shows "skipParamName s = s"
proof (cases "headType (toGo s) = IDENT")
  case True
  with second_token [of t x r] assms obtain i y ts where
    "toGo s = i # y # ts" "tok_Type y \<noteq> IDENT" "isTypeToken y \<longrightarrow> tok_Type y = LBRACKET" by auto
  then show ?thesis using toGo_peekAt [of s i y ts] by (auto simp: skipParamName_def Let_def)
qed (simp add: skipParamName_def Let_def check_head)

definition paramBody :: "nat \<Rightarrow> TypeExpr list \<Rightarrow> (TypeExpr list + TypeExpr list \<times> bool) parser" where
  "paramBody n ps s =
     (if checkP RPAREN s \<or> checkP EOF s then POk (Inr (ps, False)) s
      else
        (let s = skipParamName s in
         if checkP DOTDOTDOT s then
           (let s = advanceP s in
            if \<not> checkP RPAREN s then bindP (parseTypeUnion n) (\<lambda>t. returnP (Inr (ps @ [t], True))) s else POk (Inr (ps, True)) s)
         else bindP (parseTypeUnion n) (\<lambda>t s. POk (Inl (ps @ [t])) (skipTok COMMA s)) s))"

lemma param_step:
  assumes "wfType t" "readsU t" and "toGo s = typeToks t @ x # rest" "tok_Type x \<in> {COMMA, RPAREN}" "\<not> isTypeToken x"
  shows "runs (\<lambda>n. paramBody n acc) s (Inl (acc @ [t])) (skipTok COMMA (forth (length (typeToks t)) s))"
proof -
  have "headType (toGo s) \<in> startToks" using assms(1,3) typeToks_start by metis
  then have "\<not> checkP RPAREN s" "\<not> checkP EOF s" "\<not> checkP DOTDOTDOT s" by (auto simp: check_head startToks_def)
  moreover have "skipParamName s = s" using assms by (intro skipParamName_type) auto
  moreover have "runs (\<lambda>n. bindP (parseTypeUnion n) (\<lambda>x s. POk (Inl (acc @ [x])) (skipTok COMMA s))) s (Inl (acc @ [t]))
         (skipTok COMMA (forth (length (typeToks t)) s))"
    using assms(2-4) unfolding readsU_def by (intro runs_bindP) (auto simp: endsU_def intro: runs_const)
  ultimately show ?thesis by (simp add: runs_def paramBody_def)
qed

lemma param_types:
  assumes "\<forall>t\<in>set ps. wfType t \<and> readsU t"
    and "toGo s = commaToks (map typeToks ps @ (if va then [[tk DOTDOTDOT ''...'']] else [])) @ tk RPAREN '')'' # rest"
  shows "loops paramBody acc s (acc @ ps, va) (forth (length (commaToks (map typeToks ps @ (if va then [[tk DOTDOTDOT ''...'']] else [])))) s)"
  using assms
proof (induction ps arbitrary: acc s)
  case Nil
  then show ?case
    by (cases va; intro loops_done) (auto simp: paramBody_def check_head skipParamName_def Let_def toGo_Cons)
next
  case (Cons t ps)
  let ?V = "if va then [[tk DOTDOTDOT ''...'']] else []" and ?n = "length (typeToks t)"
  show ?case
  proof (cases "map typeToks ps @ ?V = []")
    case True
    then have s: "toGo s = typeToks t @ tk RPAREN '')'' # rest" "ps = []" "\<not> va" using Cons.prems by (auto split: if_splits)
    then have "skipTok COMMA (forth ?n s) = forth ?n s" by (simp add: skip_head)
    with param_step [of t s "tk RPAREN '')''" rest acc] Cons.prems s
    have "runs (\<lambda>n. paramBody n acc) s (Inl (acc @ [t])) (forth ?n s)" by simp
    moreover have "loops paramBody (acc @ [t]) (forth ?n s) (acc @ [t], False) (forth ?n s)"
      using s by (intro loops_done) (simp add: paramBody_def check_head)
    ultimately show ?thesis using s by (simp add: loops_step)
  next
    case False
    let ?r = "commaToks (map typeToks ps @ ?V)"
    have s: "toGo s = typeToks t @ tk COMMA '','' # ?r @ tk RPAREN '')'' # rest"
      using Cons.prems(2) False by (simp add: commaToks_Cons)
    then have "skipTok COMMA (forth ?n s) = forth (?n + 1) s" by (simp add: skip_head)
    with param_step [of t s "tk COMMA '','' " "?r @ tk RPAREN '')'' # rest" acc] Cons.prems s
    have "runs (\<lambda>n. paramBody n acc) s (Inl (acc @ [t])) (forth (?n + 1) s)" by simp
    moreover have "loops paramBody (acc @ [t]) (forth (?n + 1) s) ((acc @ [t]) @ ps, va) (forth (length ?r) (forth (?n + 1) s))"
      using Cons.prems(1) s by (intro Cons.IH) auto
    ultimately show ?thesis using False by (auto simp: commaToks_Cons add_ac dest: loops_step)
  qed
qed

section \<open>Reading a spelling\<close>

lemma qualifiedName_plain: "headType (toGo u) \<noteq> DCOLON \<Longrightarrow> runs (\<lambda>n. qualifiedName n name) u name u"
  unfolding qualifiedName_def by (intro runs_loopP loops_done) (simp add: check_head)

lemmas start_simps = parseTypeSingle.simps Let_def skip_head [of KW_VOLATILE] skip_head [of KW_CONST] check_head toGo_Cons litIs_def isTypeKeyword_def

definition nameTail :: "nat \<Rightarrow> string \<Rightarrow> TypeExpr parser" where
  "nameTail n name s =
     (if checkP LBRACKET s then
        bindP (itemsUntil n RBRACKET (parseTypeUnion n) (skipTok COMMA)) (\<lambda>args.
        bindP (expectP RBRACKET) (\<lambda>_. returnP (GenericType name args))) (advanceP s)
      else POk (SimpleType name) s)"

lemma start_name:
  assumes "toGo s = tk IDENT name # r" "name \<noteq> ''_''" "headType r \<noteq> DCOLON" and "runs (\<lambda>n. nameTail n name) (forth 1 s) t u"
  shows "runs parseTypeSingle s t u"
proof -
  have "runs (\<lambda>n. bindP (qualifiedName n name) (nameTail n)) (forth 1 s) t u"
    using assms by (intro runs_bindP [OF qualifiedName_plain]) auto
  then show ?thesis by (rule runs_Suc) (use assms(1,2) in \<open>simp add: start_simps nameTail_def [abs_def]\<close>)
qed

lemma read_simple:
  assumes "toGo s = tk IDENT name # r" "name \<noteq> ''_''" "ends1 r"
  shows "runs parseTypeSingle s (SimpleType name) (forth 1 s)"
  using assms by (intro start_name runs_now) (auto simp: ends1_def nameTail_def check_head)

lemma read_items:
  assumes "\<forall>t\<in>set ts. wfType t \<and> readsU t" and "toGo s = commaToks (map typeToks ts) @ tk RBRACKET '']'' # rest"
  shows "runs (\<lambda>n. bindP (itemsUntil n RBRACKET (parseTypeUnion n) (skipTok COMMA)) (\<lambda>ts. bindP (expectP RBRACKET) (\<lambda>_. returnP (mk ts)))) s
    (mk ts) (forth (length (commaToks (map typeToks ts)) + 1) s)"
proof -
  let ?u = "forth (length (commaToks (map typeToks ts))) s"
  have "runs (\<lambda>n. itemsUntil n RBRACKET (parseTypeUnion n) (skipTok COMMA)) s ts ?u"
    using until_types [OF assms(1), of "tk RBRACKET '']''" RBRACKET s rest "[]"] assms(2)
    unfolding itemsUntil_def itemBody_def [abs_def] by (intro runs_loopP) simp
  moreover have "runs (\<lambda>_. expectP RBRACKET) ?u (tk RBRACKET '']'') (forth 1 ?u)" using assms(2) by (intro expect_head) auto
  ultimately show ?thesis using runs_POk(1) by (intro runs_bindP) auto
qed

lemma read_generic:
  assumes "\<forall>t\<in>set ts. wfType t \<and> readsU t" "name \<noteq> ''_''"
    and s: "toGo s = tk IDENT name # tk LBRACKET ''['' # commaToks (map typeToks ts) @ tk RBRACKET '']'' # rest"
  shows "runs parseTypeSingle s (GenericType name ts) (forth (length (commaToks (map typeToks ts)) + 3) s)"
proof (rule start_name [OF s assms(2)])
  have "toGo (forth 2 s) = commaToks (map typeToks ts) @ tk RBRACKET '']'' # rest" using s by (simp add: numeral_2_eq_2)
  from read_items [OF assms(1) this, of "GenericType name"]
  have "runs (\<lambda>n. nameTail n name) (forth 1 s) (GenericType name ts) (forth (length (commaToks (map typeToks ts)) + 1) (forth 2 s))"
    by (rule runs_via) (use s in \<open>simp add: nameTail_def check_head toGo_Cons numeral_2_eq_2\<close>)
  then show "runs (\<lambda>n. nameTail n name) (forth 1 s) (GenericType name ts) (forth (length (commaToks (map typeToks ts)) + 3) s)"
    by (simp add: eval_nat_numeral)
qed simp

lemma read_tuple:
  assumes "\<forall>t\<in>set ts. wfType t \<and> readsU t"
    and s: "toGo s = tk AT ''@'' # tk LBRACKET ''['' # commaToks (map typeToks ts) @ tk RBRACKET '']'' # rest"
  shows "runs parseTypeSingle s (TupleArrayType ts) (forth (length (commaToks (map typeToks ts)) + 3) s)"
proof -
  let ?u = "forth 1 s" and ?v = "forth 1 (forth 1 s)"
  have "toGo ?v = commaToks (map typeToks ts) @ tk RBRACKET '']'' # rest" using s by simp
  note items = read_items [OF assms(1) this, of TupleArrayType]
  have "runs (\<lambda>_. expectP LBRACKET) ?u (tk LBRACKET ''['') ?v" using s by (intro expect_head) auto
  from runs_bindP [OF this items]
  have "runs parseTypeSingle s (TupleArrayType ts) (forth (length (commaToks (map typeToks ts)) + 1) ?v)"
    by (rule runs_Suc) (use s in \<open>simp add: start_simps\<close>)
  then show ?thesis by (simp add: eval_nat_numeral)
qed

lemma read_array:
  assumes "readsU e" "k = -1 \<or> 0 \<le> k \<and> k < 2 ^ 63" "wfType e"
    and s: "toGo s = tk LBRACKET ''['' # typeToks e @ (if k < 0 then [] else [tk SEMI '';'', tk INT_LIT (sprintf_d k)]) @ tk RBRACKET '']'' # rest"
  shows "runs parseTypeSingle s (ArrayType e k) (forth (length (typeToks (ArrayType e k))) s)"
proof -
  let ?u = "forth 1 s" and ?v = "forth (length (typeToks e)) (forth 1 s)" and ?w = "forth (length (typeToks (ArrayType e k)) - 1) s"
  have u: "runs parseTypeUnion ?u e ?v" using s by (intro readsD(1) [OF assms(1)]) (auto simp: endsU_def split: if_splits)
  have size: "arraySize ?v = (k, ?w)" "toGo ?w = tk RBRACKET '']'' # rest"
    using assms(2) s by (auto simp: arraySize_def check_head toGo_Cons Let_def sprintf_d_def atoi_showNat split: if_splits)
  have "headType (typeToks e @ r) \<noteq> RBRACKET" for r using typeToks_start [OF assms(3), of r] by (auto simp: startToks_def)
  then have start: "\<not> checkP RBRACKET ?u" using s by (simp add: check_head)
  have "runs (\<lambda>_ s. let (size, s) = arraySize s in bindP (expectP RBRACKET) (\<lambda>_. returnP (ArrayType e size)) s) ?v
    (ArrayType e k) (forth 1 ?w)"
    using size by (intro runs_const) (simp add: bindP_def expectP_def toGo_Cons returnP_def)
  from runs_bindP [where g = "\<lambda>_ e s. let (size, s) = arraySize s in bindP (expectP RBRACKET) (\<lambda>_. returnP (ArrayType e size)) s", OF u this]
  have "runs parseTypeSingle s (ArrayType e k) (forth 1 ?w)"
    by (rule runs_Suc) (use s start in \<open>simp add: start_simps\<close>)
  then show ?thesis by simp
qed

lemma read_wildcard:
  assumes "toGo s = typeToks (WildcardType n) @ rest" "ends1 rest"
  shows "runs parseTypeSingle s (WildcardType n) (forth (length (typeToks (WildcardType n))) s)"
proof -
  have "runs (\<lambda>_. wildcardType) s (WildcardType n) (forth (length (typeToks (WildcardType n))) s)"
  proof (rule runs_const, cases "n = []")
    case True
    then show "wildcardType s = POk (WildcardType n) (forth (length (typeToks (WildcardType n))) s)"
      using assms by (simp add: wildcardType_def Let_def toGo_Cons check_head ends1_def)
  next
    case False
    let ?v = "forth 1 (forth 1 s)"
    have "toGo ?v = tk IDENT n # rest" "checkP COLON (forth 1 s)" "advanceP (forth 1 s) = ?v" "advanceP s = forth 1 s"
      using assms(1) False by (simp_all add: check_head toGo_Cons)
    then show "wildcardType s = POk (WildcardType n) (forth (length (typeToks (WildcardType n))) s)"
      using False toGo_Cons [of ?v "tk IDENT n" rest] unfolding wildcardType_def Let_def bindP_def expectP_def returnP_def
      by (simp del: forth_simps(2)) simp
  qed
  then show ?thesis by (rule runs_Suc) (use assms(1) in \<open>simp add: start_simps\<close>)
qed

text \<open>A type in parentheses.\<close>

lemma read_group:
  assumes "runs parseTypeUnion (forth 1 s) t (forth k (forth 1 s))"
    and s: "toGo s = tk LPAREN ''('' # ts" "drop k ts = tk RPAREN '')'' # rest"
  shows "runs parseTypeSingle s t (forth (k + 2) s)"
proof -
  let ?u = "forth k (forth 1 s)"
  have "runs (\<lambda>n. itemsWhile n COMMA (parseTypeUnion n) [t]) ?u [t] ?u"
    unfolding itemsWhile_def using s by (intro runs_loopP loops_done) (simp add: check_head)
  moreover have "runs (\<lambda>_. expectP RPAREN) ?u (tk RPAREN '')'') (forth 1 ?u)" using s by (intro expect_head) auto
  ultimately have "runs (\<lambda>n. bindP (parseTypeUnion n) (\<lambda>first. bindP (itemsWhile n COMMA (parseTypeUnion n) [first]) (\<lambda>types.
      bindP (expectP RPAREN) (\<lambda>_. returnP (tupleOrGroup types))))) (forth 1 s) t (forth 1 ?u)"
    using runs_POk(1) [of t] by (intro runs_bindP [OF assms(1)] runs_bindP [where x = "[t]"]) (auto simp: tupleOrGroup_def intro: runs_bindP)
  then have "runs parseTypeSingle s t (forth 1 ?u)" by (rule runs_Suc) (use s in \<open>simp add: start_simps\<close>)
  then show ?thesis by (simp add: eval_nat_numeral)
qed

lemma single_union:
  assumes "runs parseTypeSingle s t u" "headType (toGo u) \<noteq> BITOR"
  shows "runs parseTypeUnion s t u"
proof -
  have "runs (\<lambda>n. bindP (parseTypeSingle n) (\<lambda>first s.
       if \<not> checkP BITOR s then POk first s
       else bindP (itemsWhile n BITOR (parseTypeSingle n) [first]) (\<lambda>ts. returnP (UnionTypeExpr ts)) s)) s t u"
    using assms(2) by (intro runs_bindP [OF assms(1)] runs_now) (simp add: check_head)
  then show ?thesis by (rule runs_Suc) (simp add: parseTypeUnion.simps)
qed

lemma reads1_readsU: "\<not> isUnion t \<Longrightarrow> reads1 t \<Longrightarrow> readsU t"
  unfolding readsU_def
proof (intro allI impI)
  fix s rest assume u: "\<not> isUnion t" "reads1 t" and s: "toGo s = typeToks t @ rest" and e: "endsU rest"
  have t: "spell t = typeToks t" using u(1) by (simp add: spell_def paren_def)
  have "runs parseTypeSingle s t (forth (length (typeToks t)) s)"
    using readsD(2) [OF u(2), of s rest] s e t by (simp add: endsU_def ends1_def)
  then show "runs parseTypeUnion s t (forth (length (typeToks t)) s)"
    by (rule single_union) (use s e in \<open>simp add: endsU_def\<close>)
qed

lemma readsU_reads1: "isUnion t \<Longrightarrow> readsU t \<Longrightarrow> reads1 t"
  unfolding reads1_def
proof (intro allI impI)
  fix s rest assume u: "isUnion t" "readsU t" and s: "toGo s = spell t @ rest"
  then have ts: "toGo s = tk LPAREN ''('' # typeToks t @ tk RPAREN '')'' # rest" by (simp add: spell_def paren_def)
  have "runs parseTypeUnion (forth 1 s) t (forth (length (typeToks t)) (forth 1 s))"
    using ts by (intro readsD(1) [OF u(2)]) (auto simp: endsU_def)
  from read_group [OF this ts] u(1) show "runs parseTypeSingle s t (forth (length (spell t)) s)" by (simp add: spell_def paren_def)
qed

lemma read_pointer:
  assumes "reads1 e" "toGo s = typeToks (PointerType e c v) @ rest" "ends1 rest"
  shows "runs parseTypeSingle s (PointerType e c v) (forth (length (typeToks (PointerType e c v))) s)"
proof -
  define u where "u = forth (of_bool v + of_bool c) s"
  have u: "toGo u = tk STAR ''*'' # spell e @ rest" using assms(2) by (auto simp: spell_def u_def)
  have skip: "checkP KW_VOLATILE s = v" "checkP KW_CONST (skipTok KW_VOLATILE s) = c" "skipTok KW_CONST (skipTok KW_VOLATILE s) = u"
    using assms(2) by (auto simp: check_head skip_head u_def)
  have "runs parseTypeSingle (forth 1 u) e (forth (length (spell e)) (forth 1 u))"
    using u by (intro readsD(2) [OF assms(1) _ assms(3)]) simp
  from runs_bindP [where g = "\<lambda>_ elem. returnP (PointerType elem c v)", OF this runs_POk(1)]
  have "runs parseTypeSingle s (PointerType e c v) (forth (length (spell e)) (forth 1 u))"
    by (rule runs_Suc) (use u in \<open>simp add: parseTypeSingle.simps Let_def skip check_head(1) [of STAR u] toGo_Cons\<close>)
  then show ?thesis by (cases c; cases v) (simp_all add: spell_def u_def)
qed

definition asyncToks :: "bool \<Rightarrow> Token list" where
  "asyncToks async = (if async then [tk LBRACE ''{'', tk CONTROL_TAG ''async'', tk RBRACE ''}''] else [])"

lemma read_tags:
  assumes "toGo s = asyncToks async @ tk LPAREN ''('' # rest"
  shows "parseTags s = (if async then [''async''] else [], forth (length (asyncToks async)) s)"
proof (cases async)
  case True
  then have s: "toGo s = tk LBRACE ''{'' # tk CONTROL_TAG ''async'' # tk RBRACE ''}'' # tk LPAREN ''('' # rest"
    using assms by (simp add: asyncToks_def)
  let ?u = "forth 1 s" and ?v = "forth (Suc (Suc 0)) s"
  have v: "toGo ?v = tk RBRACE ''}'' # tk LPAREN ''('' # rest" using s by simp
  then have "tagLoop [''async''] ?v = ([''async''], ?v)" by (subst tagLoop.simps) (simp add: check_head)
  moreover have "tagLoop [] ?u = tagLoop [''async''] ?v"
    by (subst tagLoop.simps) (use s in \<open>simp add: check_head toGo_Cons Let_def\<close>)
  ultimately show ?thesis using True s v by (simp add: parseTags_def asyncToks_def check_head toGo_Cons skip_head)
qed (use assms in \<open>simp add: parseTags_def asyncToks_def check_head\<close>)

definition fnToks :: "TypeExpr list \<Rightarrow> TypeExpr option \<Rightarrow> bool \<Rightarrow> bool \<Rightarrow> Token list" where
  "fnToks ps r va async =
     tk KW_FN ''fn'' # asyncToks async @ tk LPAREN ''('' #
     commaToks (map typeToks ps @ (if va then [[tk DOTDOTDOT ''...'']] else [])) @ tk RPAREN '')'' #
     (case r of None \<Rightarrow> [] | Some t \<Rightarrow> spell t)"

lemma read_func:
  assumes ps: "\<forall>t\<in>set ps. wfType t \<and> readsU t" and r: "pred_option (\<lambda>t. wfType t \<and> reads1 t) r"
    and "toGo s = fnToks ps r va async @ rest"
    and rest: "ends1 rest" "r = None \<Longrightarrow> headType rest = RPAREN"
  shows "runs parseTypeSingle s (FuncType ps r va async) (forth (length (fnToks ps r va async)) s)"
proof -
  have s: "toGo s = tk KW_FN ''fn'' # asyncToks async @ tk LPAREN ''('' #
      commaToks (map typeToks ps @ (if va then [[tk DOTDOTDOT ''...'']] else [])) @ tk RPAREN '')'' #
      (case r of None \<Rightarrow> [] | Some t \<Rightarrow> spell t) @ rest" using assms(3) by (simp add: fnToks_def)
  let ?n = "length (asyncToks async)" and ?P = "commaToks (map typeToks ps @ (if va then [[tk DOTDOTDOT ''...'']] else []))"
    and ?R = "(case r of None \<Rightarrow> [] | Some t \<Rightarrow> spell t)"
  let ?u = "forth ?n (forth 1 s)" and ?v = "forth 1 (forth ?n (forth 1 s))"
  let ?w = "forth (length ?P) ?v" and ?x = "forth 1 (forth (length ?P) ?v)"
  have tags: "parseTags (forth 1 s) = (if async then [''async''] else [], ?u)" using s by (intro read_tags) simp
  have lp: "runs (\<lambda>_. expectP LPAREN) ?u (tk LPAREN ''('') ?v" using s by (intro expect_head) auto
  have pars: "runs (\<lambda>n. funcTypeParams n (parseTypeUnion n)) ?v (ps, va) ?w"
    using param_types [OF ps, of ?v va "?R @ rest" "[]"] s
    unfolding funcTypeParams_def paramBody_def [abs_def] by (intro runs_loopP) simp
  have w: "toGo ?w = tk RPAREN '')'' # ?R @ rest" using s by simp
  have x: "toGo ?x = ?R @ rest" using forth_simps(3) [of 1 ?w] w by (simp del: forth_simps)
  have rp: "runs (\<lambda>_. expectP RPAREN) ?w (tk RPAREN '')'') ?x" by (rule expect_head [OF w]) simp
  let ?ret = "\<lambda>n s. if \<not> matchP [NEWLINE, EOF, RPAREN, COMMA, RBRACKET, ASSIGN, COLON] s then
          bindP (parseTypeSingle n) (\<lambda>ret. returnP (FuncType ps (Some ret) va async)) s
        else POk (FuncType ps None va async) s"
  have ret: "runs ?ret ?x (FuncType ps r va async) (forth (length ?R) ?x)"
  proof (cases r)
    case None
    then have "headType (toGo ?x) = RPAREN" using x rest by (simp del: forth_simps)
    then have "?ret n ?x = POk (FuncType ps r va async) ?x" for n using None by (simp add: check_head del: forth_simps)
    then show ?thesis using None by (intro runs_now) (simp del: forth_simps(2))
  next
    case (Some t)
    have x: "toGo ?x = spell t @ rest" using x Some by (simp del: forth_simps)
    have "headType (typeToks t @ rest) \<in> startToks" using r Some typeToks_start by simp
    then have "headType (spell t @ rest) \<in> startToks" by (simp add: spell_def paren_start startToks_def)
    then have "\<not> matchP [NEWLINE, EOF, RPAREN, COMMA, RBRACKET, ASSIGN, COLON] ?x" using x by (auto simp: check_head startToks_def simp del: forth_simps)
    moreover have "runs parseTypeSingle ?x t (forth (length (spell t)) ?x)" using r Some by (intro readsD(2) [OF _ x rest(1)]) simp
    note runs_bindP [where g = "\<lambda>_ ret. returnP (FuncType ps (Some ret) va async)", OF this runs_POk(1)]
    ultimately show ?thesis using Some by (simp add: runs_def del: forth_simps)
  qed
  have tail: "runs (\<lambda>n. bindP (expectP RPAREN) (\<lambda>_. ?ret n)) ?w (FuncType ps r va async) (forth (length ?R) ?x)"
    by (rule runs_then [OF rp ret])
  have "runs (\<lambda>n. bindP (funcTypeParams n (parseTypeUnion n)) (\<lambda>(ps, va). bindP (expectP RPAREN) (\<lambda>_ s.
        if \<not> matchP [NEWLINE, EOF, RPAREN, COMMA, RBRACKET, ASSIGN, COLON] s then
          bindP (parseTypeSingle n) (\<lambda>ret. returnP (FuncType ps (Some ret) va async)) s
        else POk (FuncType ps None va async) s))) ?v (FuncType ps r va async) (forth (length ?R) ?x)"
    by (rule runs_bindP_pair, rule pars, rule tail)
  from runs_then [OF lp this]
  have "runs parseFuncType s (FuncType ps r va async) (forth (length ?R) ?x)"
    by (rule runs_Suc) (use s tags in \<open>cases async; simp add: parseFuncType.simps toGo_Cons cong: if_cong\<close>)
  then have "runs parseTypeSingle s (FuncType ps r va async) (forth (length ?R) ?x)"
    by (rule runs_Suc) (use s in \<open>simp add: start_simps\<close>)
  then show ?thesis by (cases va) (simp_all add: fnToks_def add_ac)
qed

definition unionBody :: "nat \<Rightarrow> TypeExpr list \<Rightarrow> (TypeExpr list + TypeExpr list) parser" where
  "unionBody n xs s = (if checkP BITOR s then bindP (parseTypeSingle n) (\<lambda>x. returnP (Inl (xs @ [x]))) (advanceP s) else POk (Inr xs) s)"

lemma union_members:
  assumes "\<forall>t\<in>set ts. reads1 t" "toGo s = barToks (map spell ts) @ rest" "endsU rest"
  shows "loops unionBody acc s (acc @ ts) (forth (length (barToks (map spell ts))) s)"
  using assms(1,2)
proof (induction ts arbitrary: acc s)
  case Nil
  then show ?case using assms(3) by (intro loops_done) (simp add: unionBody_def check_head endsU_def)
next
  case (Cons t ts)
  let ?r = "barToks (map spell ts) @ rest" and ?u = "forth 1 s" and ?v = "forth (length (spell t)) (forth 1 s)"
  have e: "ends1 ?r" using assms(3) by (cases ts) (auto simp: ends1_def endsU_def)
  have "runs parseTypeSingle ?u t ?v" using Cons.prems by (intro readsD(2) [OF _ _ e]) auto
  then have "runs (\<lambda>n. bindP (parseTypeSingle n) (\<lambda>x. returnP (Inl (acc @ [x]) :: TypeExpr list + TypeExpr list))) ?u (Inl (acc @ [t])) ?v"
    by (rule runs_bindP) (rule runs_POk)
  then have "runs (\<lambda>n. unionBody n acc) s (Inl (acc @ [t])) ?v"
    by (rule runs_via) (use Cons.prems in \<open>simp add: unionBody_def check_head toGo_Cons\<close>)
  moreover have "loops unionBody (acc @ [t]) ?v ((acc @ [t]) @ ts) (forth (length (barToks (map spell ts))) ?v)"
    using Cons.prems by (intro Cons.IH) auto
  ultimately show ?case by (auto simp: add_ac dest: loops_step)
qed

lemma reads_union:
  assumes "\<forall>t\<in>set ts. reads1 t" "2 \<le> length ts"
  shows "readsU (UnionTypeExpr ts)"
  unfolding readsU_def
proof (intro allI impI)
  fix s rest assume s: "toGo s = typeToks (UnionTypeExpr ts) @ rest" and e: "endsU rest"
  obtain t u us where ts: "ts = t # u # us" using assms(2) by (cases ts rule: remdups_adj.cases) auto
  let ?n = "length (spell t)" and ?B = "barToks (map spell (u # us))"
  have toks: "typeToks (UnionTypeExpr ts) = spell t @ ?B" by (simp add: ts spell_def [abs_def])
  have s: "toGo s = spell t @ ?B @ rest" using s unfolding toks by simp
  have "runs parseTypeSingle s t (forth ?n s)"
    using assms(1) ts s by (intro readsD(2) [where rest = "?B @ rest"]) (auto simp: ends1_def)
  moreover have bar: "checkP BITOR (forth ?n s)" using s by (simp add: check_head)
  moreover have "runs (\<lambda>n. itemsWhile n BITOR (parseTypeSingle n) [t]) (forth ?n s) ts (forth (length ?B) (forth ?n s))"
    using union_members [of "u # us" "forth ?n s" rest "[t]"] assms(1) ts s e
    unfolding itemsWhile_def unionBody_def [abs_def] by (intro runs_loopP) simp
  note runs_bindP [where g = "\<lambda>_ ts. returnP (UnionTypeExpr ts)", OF this runs_POk(1)]
  then have "runs (\<lambda>n s. if \<not> checkP BITOR s then POk t s
       else bindP (itemsWhile n BITOR (parseTypeSingle n) [t]) (\<lambda>ts. returnP (UnionTypeExpr ts)) s) (forth ?n s)
       (UnionTypeExpr ts) (forth (length ?B) (forth ?n s))"
    by (rule runs_via) (use bar in simp)
  ultimately have "runs (\<lambda>n. bindP (parseTypeSingle n) (\<lambda>first s.
       if \<not> checkP BITOR s then POk first s
       else bindP (itemsWhile n BITOR (parseTypeSingle n) [first]) (\<lambda>ts. returnP (UnionTypeExpr ts)) s)) s
       (UnionTypeExpr ts) (forth (length ?B) (forth ?n s))"
    by (intro runs_bindP)
  then have "runs parseTypeUnion s (UnionTypeExpr ts) (forth (length ?B) (forth ?n s))"
    by (rule runs_Suc) (simp add: parseTypeUnion.simps)
  then show "runs parseTypeUnion s (UnionTypeExpr ts) (forth (length (typeToks (UnionTypeExpr ts))) s)" using toks by simp
qed

lemma reads_func:
  assumes ps: "\<forall>t\<in>set ps. wfType t \<and> readsU t" and r: "pred_option (\<lambda>t. wfType t \<and> reads1 t) r"
  shows "reads1 (FuncType ps r va async)"
  unfolding reads1_def
proof (intro allI impI)
  fix s rest assume s: "toGo s = spell (FuncType ps r va async) @ rest" and e: "ends1 rest"
  let ?fn = "fnToks ps r va async"
  have sp: "spell (FuncType ps r va async) = paren (r = None) ?fn"
    by (simp add: spell_def paren_def isUnion_def asyncToks_def fnToks_def split: option.split)
  show "runs parseTypeSingle s (FuncType ps r va async) (forth (length (spell (FuncType ps r va async))) s)"
  proof (cases "r = None")
    case True
    then have s: "toGo s = tk LPAREN ''('' # ?fn @ tk RPAREN '')'' # rest" using s sp by (simp add: paren_def)
    have "runs parseTypeSingle (forth 1 s) (FuncType ps r va async) (forth (length ?fn) (forth 1 s))"
      using read_func [OF ps r, of "forth 1 s" va async "tk RPAREN '')'' # rest"] s by (simp add: ends1_def)
    then have "runs parseTypeUnion (forth 1 s) (FuncType ps r va async) (forth (length ?fn) (forth 1 s))"
      by (rule single_union) (use s in simp)
    from read_group [OF this s, of rest] True sp show ?thesis by (simp add: paren_def)
  next
    case False
    then have sp: "spell (FuncType ps r va async) = ?fn" using sp by (auto simp: paren_def)
    have "runs parseTypeSingle s (FuncType ps r va async) (forth (length ?fn) s)"
      by (rule read_func [OF ps r _ e]) (use s sp False in auto)
    then show ?thesis unfolding sp .
  qed
qed

lemma readsI:
  assumes "\<not> isUnion t"
    and "\<And>s rest. toGo s = typeToks t @ rest \<Longrightarrow> ends1 rest \<Longrightarrow> runs parseTypeSingle s t (forth (length (typeToks t)) s)"
  shows "reads1 t \<and> readsU t"
proof -
  have "spell t = typeToks t" using assms(1) by (simp add: spell_def paren_def)
  then have "reads1 t" unfolding reads1_def using assms(2) by simp
  then show ?thesis using reads1_readsU [OF assms(1)] by simp
qed

lemma reads_all: "wfType t \<Longrightarrow> reads1 t \<and> readsU t"
proof (induction t)
  case (SimpleType n)
  then show ?case by (intro readsI) (auto simp: isUnion_def dest: read_simple)
next
  case (GenericType n ts)
  then have "\<forall>t\<in>set ts. wfType t \<and> readsU t" "n \<noteq> ''_''" by (auto simp: list_all_iff)
  note read = read_generic [OF this]
  show ?case using read by (intro readsI) (auto simp: isUnion_def eval_nat_numeral)
next
  case (ArrayType e k)
  then show ?case by (intro readsI read_array) (auto simp: isUnion_def)
next
  case (PointerType e c v)
  then show ?case by (intro readsI read_pointer) (auto simp: isUnion_def)
next
  case (FuncType ps r va async)
  then have "reads1 (FuncType ps r va async)" by (intro reads_func) (auto simp: list_all_iff pred_option_def)
  then show ?case by (simp add: reads1_readsU isUnion_def)
next
  case (UnionTypeExpr ts)
  then have "readsU (UnionTypeExpr ts)" by (intro reads_union) (auto simp: list_all_iff)
  then show ?case by (simp add: readsU_reads1 isUnion_def)
next
  case (WildcardType n)
  show ?case by (intro readsI read_wildcard) (auto simp: isUnion_def)
next
  case (TupleArrayType ts)
  then have "\<forall>t\<in>set ts. wfType t \<and> readsU t" by (auto simp: list_all_iff)
  note read = read_tuple [OF this]
  show ?case using read by (intro readsI) (auto simp: isUnion_def eval_nat_numeral)
qed simp

text \<open>
  C38: every type expression the parser can build has a spelling as tokens, and the parser, at the start of that spelling, returns
  this type expression and stops right behind the spelling, whatever follows that does not continue a type.
\<close>

theorem type_roundtrip:
  assumes "wfType t" and "drop (ps_pos s) (ps_tokens s) = typeToks t @ rest" and "headType rest \<notin> {DCOLON, LBRACKET, COLON, BITOR}"
  shows "parseTypeExpr (3 * tokensLeft s + 3) s = POk t (s\<lparr>ps_pos := ps_pos s + length (typeToks t)\<rparr>)"
proof -
  let ?n = "3 * tokensLeft s + 3"
  have "runs parseTypeUnion s t (forth (length (typeToks t)) s)"
    using reads_all [OF assms(1)] assms(2,3) by (intro readsD(1)) (auto simp: toGo_def endsU_def)
  then obtain N where N: "\<forall>n\<ge>N. parseTypeUnion n s = POk t (forth (length (typeToks t)) s)" unfolding runs_def by blast
  then have "parseTypeUnion (max N ?n) s = POk t (forth (length (typeToks t)) s)" by simp
  moreover have "parseTypeUnion ?n s \<noteq> PDiverge" using union_ends [of s ?n] by (auto simp: ends_def)
  moreover have "below (parseTypeUnion ?n s) (parseTypeUnion (max N ?n) s)" by (intro fuel) simp
  ultimately show ?thesis by (simp add: below_def forth_def)
qed

definition sampleType :: TypeExpr where
  "sampleType =
     UnionTypeExpr [PointerType (UnionTypeExpr [SimpleType ''i32'', WildcardType ''a'']) True False,
       FuncType [GenericType ''Map'' [SimpleType ''string'', ArrayType (SimpleType ''u8'') 16]] None True True]"

theorem type_roundtrip_witness:
  "parseTypeExpr (3 * length (typeToks sampleType) + 3) (NewP (typeToks sampleType) ''a.tin'') =
     POk sampleType ((NewP (typeToks sampleType) ''a.tin'')\<lparr>ps_pos := length (typeToks sampleType)\<rparr>)"
  using type_roundtrip [of sampleType "NewP (typeToks sampleType) ''a.tin''" "[]"]
  by (simp add: NewP_def tokensLeft_def sampleType_def)

end
