(* ===== verification/TinParseTypeWf.thy ===== *)
theory TinParseTypeWf
  imports TinParseTypeRound
begin

text \<open>The parsers of types only build type expressions that have a spelling.\<close>

definition plainInts :: "Parser \<Rightarrow> bool" where
  "plainInts s \<longleftrightarrow> list_all (\<lambda>t. tok_Type t = INT_LIT \<longrightarrow> take 1 (tok_Literal t) \<noteq> ''-'') (ps_tokens s)"

definition gives :: "('a \<Rightarrow> bool) \<Rightarrow> 'a presult \<Rightarrow> bool" where
  "gives P r \<longleftrightarrow> (case r of POk x t \<Rightarrow> P x \<and> plainInts t | _ \<Rightarrow> True)"

named_theorems giving

lemma gives_result [giving]:
  "P x \<Longrightarrow> plainInts t \<Longrightarrow> gives P (POk x t)" "P x \<Longrightarrow> plainInts t \<Longrightarrow> gives P (returnP x t)" "gives P (divergeP t)"
  "gives P (errorf f as t)" "gives P (errPlain f as t)" "gives P (errAtTok tok f as t)"
  by (simp_all add: gives_def returnP_def divergeP_def errorf_def errPlain_def errAtTok_def errAt_def)

lemma gives_bindP: "gives P (f t) \<Longrightarrow> (\<And>x u. P x \<Longrightarrow> plainInts u \<Longrightarrow> gives Q (g x u)) \<Longrightarrow> gives Q (bindP f g t)"
  by (cases "f t") (simp_all add: gives_def bindP_def)

lemma gives_control [giving]:
  "(c \<Longrightarrow> gives P r) \<Longrightarrow> (\<not> c \<Longrightarrow> gives P r') \<Longrightarrow> gives P (if c then r else r')"
  "gives P (h e) \<Longrightarrow> gives P (Let e h)" "gives P (k (fst p) (snd p)) \<Longrightarrow> gives P (case p of (a, b) \<Rightarrow> k a b)"
  "gives P (k' (fst p) (snd p) t) \<Longrightarrow> gives P ((case p of (a, b) \<Rightarrow> k' a b) t)"
  by (auto split: prod.split)

lemma plainInts_moves: "ahead s t \<Longrightarrow> plainInts s \<Longrightarrow> plainInts t"
  by (simp add: plainInts_def ahead_def)

lemma plainInts_skip [giving]:
  "plainInts t \<Longrightarrow> plainInts (advanceP t)" "plainInts t \<Longrightarrow> plainInts (skipTok ty t)" "plainInts t \<Longrightarrow> plainInts (skipParamName t)"
  "plainInts t \<Longrightarrow> plainInts (snd (arraySize t))" "plainInts t \<Longrightarrow> plainInts (snd (parseTags t))"
  by (rule plainInts_moves; auto intro: moves.step moves.skips moves.more_skips moves.parseTags_frame moves.refl)+

lemma expectP_gives: "plainInts t \<Longrightarrow> gives (\<lambda>_. True) (expectP ty t)"
  by (simp add: expectP_def Let_def giving)

lemma gives_loopP:
  assumes "P acc" "plainInts t"
    and "\<And>x u. P x \<Longrightarrow> plainInts u \<Longrightarrow> gives (case_sum P Q) (body x u)"
  shows "gives Q (loopP n body acc t)"
  using assms(1,2)
proof (induction n arbitrary: acc t)
  case (Suc n)
  with assms(3) [OF Suc.prems] show ?case
    by (cases "body acc t") (auto simp: gives_def split: sum.splits)
qed (simp add: gives_def)

lemma until_gives:
  assumes "plainInts t" and "\<And>u. plainInts u \<Longrightarrow> gives P (item u)"
  shows "gives (list_all P) (itemsUntil n c item (skipTok COMMA) t)"
  unfolding itemsUntil_def
  by (rule gives_loopP [where P = "list_all P"]) (auto intro!: giving gives_bindP [OF assms(2)] assms(1))

lemma while_gives:
  assumes "list_all P xs" "plainInts t" and "\<And>u. plainInts u \<Longrightarrow> gives P (item u)"
  shows "gives (\<lambda>ys. list_all P ys \<and> length xs \<le> length ys) (itemsWhile n sep item xs t)"
  unfolding itemsWhile_def
  by (rule gives_loopP [where P = "\<lambda>ys. list_all P ys \<and> length xs \<le> length ys"])
    (use assms(1,2) in \<open>auto intro!: giving gives_bindP [OF assms(3)]\<close>)

lemma while_gives_more:
  assumes "list_all P xs" "plainInts t" "checkP sep t" and "\<And>u. plainInts u \<Longrightarrow> gives P (item u)"
  shows "gives (\<lambda>ys. list_all P ys \<and> length xs < length ys) (itemsWhile n sep item xs t)"
proof (cases n)
  case (Suc m)
  show ?thesis
  proof (cases "item (advanceP t)")
    case (POk x u)
    with assms(4) [of "advanceP t"] have "P x" "plainInts u" using plainInts_skip(1) [OF assms(2)] by (auto simp: gives_def)
    then have "gives (\<lambda>ys. list_all P ys \<and> length (xs @ [x]) \<le> length ys) (itemsWhile m sep item (xs @ [x]) u)"
      using assms(1,4) by (intro while_gives) auto
    then show ?thesis using Suc POk assms(3)
      by (auto simp: itemsWhile_def bindP_def returnP_def gives_def split: presult.splits)
  qed (use Suc assms(3) in \<open>auto simp: itemsWhile_def bindP_def gives_def\<close>)
qed (simp add: itemsWhile_def gives_def)

lemma qualifiedName_gives: "name \<noteq> ''_'' \<Longrightarrow> plainInts t \<Longrightarrow> gives (\<lambda>n. n \<noteq> ''_'') (qualifiedName n name t)"
  unfolding qualifiedName_def
  by (rule gives_loopP [where P = "\<lambda>n. n \<noteq> ''_''"]) (auto intro!: giving gives_bindP [OF expectP_gives] simp: append_eq_Cons_conv)

lemma params_give:
  assumes "plainInts t" and "\<And>u. plainInts u \<Longrightarrow> gives P (item u)"
  shows "gives (\<lambda>(ps, _). list_all P ps) (funcTypeParams n item t)"
  unfolding funcTypeParams_def
  by (rule gives_loopP [where P = "list_all P"]) (auto intro!: giving gives_bindP [OF assms(2)] assms(1))

lemma decDigit_nonneg: "decDigit c = Some d \<Longrightarrow> 0 \<le> d"
  using of_nat_of_char [of c, where 'a = int] by (auto simp: decDigit_def between_def split: if_splits)

lemma decValue_nonneg: "decValue acc s = Some n \<Longrightarrow> 0 \<le> acc \<Longrightarrow> 0 \<le> n"
proof (induction s arbitrary: acc)
  case (Cons c s)
  then obtain d where "decDigit c = Some d" "decValue (acc * 10 + d) s = Some n" by (auto split: option.splits)
  with Cons decDigit_nonneg [of c d] show ?case by auto
qed simp

lemma atoi_range:
  assumes "take 1 s \<noteq> ''-''"
  shows "0 \<le> atoi s \<and> atoi s < 2 ^ 63"
proof -
  have "0 \<le> clamp64 n \<and> clamp64 n < 2 ^ 63" if "decimal r = Some n" for r n
    using that decValue_nonneg [of 0 r n] by (auto simp: decimal_def clamp64_def split: if_splits)
  then have d: "0 \<le> (case decimal r of Some n \<Rightarrow> clamp64 n | None \<Rightarrow> 0) \<and> (case decimal r of Some n \<Rightarrow> clamp64 n | None \<Rightarrow> 0) < 2 ^ 63" for r
    by (auto split: option.split)
  show ?thesis
  proof (cases s)
    case Nil
    then show ?thesis using d [of "[]"] by (simp add: atoi_def)
  next
    case (Cons c r)
    show ?thesis
    proof (cases "c = CHR ''+''")
      case True
      then show ?thesis using d [of r] Cons by (simp add: atoi_def)
    next
      case False
      then show ?thesis using d [of s] Cons assms by (auto simp: atoi_unsigned)
    qed
  qed
qed

lemma arraySize_range:
  assumes "plainInts t"
  shows "fst (arraySize t) = -1 \<or> 0 \<le> fst (arraySize t) \<and> fst (arraySize t) < 2 ^ 63"
proof -
  let ?u = "advanceP t"
  have "take 1 (tok_Literal (peekP ?u)) \<noteq> ''-''" if "checkP INT_LIT ?u"
  proof -
    from that have "peekP ?u \<in> set (ps_tokens ?u)" by (auto simp: checkP_def peekP_def eofToken_def split: if_splits)
    then show ?thesis using plainInts_skip(1) [OF assms] that by (auto simp: plainInts_def checkP_def list_all_iff)
  qed
  then show ?thesis using atoi_range by (auto simp: arraySize_def Let_def)
qed

lemma wildcard_gives: "plainInts t \<Longrightarrow> gives wfType (wildcardType t)"
  unfolding wildcardType_def by (intro giving gives_bindP [OF expectP_gives]) auto

lemma tupleOrGroup_wf: "list_all wfType ts \<Longrightarrow> wfType (tupleOrGroup ts)"
  by (auto simp: tupleOrGroup_def split: list.split)

lemma types_give:
  "(\<forall>t. plainInts t \<longrightarrow> gives wfType (parseTypeUnion n t)) \<and> (\<forall>t. plainInts t \<longrightarrow> gives wfType (parseTypeSingle n t)) \<and>
   (\<forall>t. plainInts t \<longrightarrow> gives wfType (parseFuncType n t))"
proof (induction n)
  case 0
  show ?case by (simp add: giving)
next
  case (Suc n)
  have u: "gives wfType (parseTypeUnion n t)" and si: "gives wfType (parseTypeSingle n t)" and f: "gives wfType (parseFuncType n t)"
    if "plainInts t" for t using Suc that by blast+
  have "gives wfType (parseTypeUnion (Suc n) t)" if "plainInts t" for t unfolding parseTypeUnion.simps
    using that by (intro giving gives_bindP [OF si] gives_bindP [OF while_gives_more [OF _ _ _ si]]) auto
  moreover have "gives wfType (parseFuncType (Suc n) t)" if "plainInts t" for t unfolding parseFuncType.simps
    using that by (intro giving gives_bindP [OF expectP_gives] gives_bindP [OF params_give [OF _ u]] gives_bindP [OF si]) auto
  moreover have "gives wfType (parseTypeSingle (Suc n) t)" if "plainInts t" for t unfolding parseTypeSingle.simps
    using that arraySize_range
    by (intro giving gives_bindP [OF expectP_gives] gives_bindP [OF si] gives_bindP [OF u] f wildcard_gives
        gives_bindP [OF until_gives [OF _ u]] gives_bindP [OF while_gives [OF _ _ u]] gives_bindP [OF qualifiedName_gives])
      (auto simp: tupleOrGroup_wf litIs_def isTypeKeyword_def checkP_def)
  ultimately show ?case by blast
qed

text \<open>
  C39: a type expression that the parser returns is one that has a spelling, when no integer token is written with a sign: a union has
  at least two members, the size of an array is \<open>-1\<close> or a number below \<open>2 ^ 63\<close>, no simple or generic type has the name \<open>_\<close>.
\<close>

theorem parsed_type_wf:
  assumes "parseTypeExpr n s = POk t s'"
    and "list_all (\<lambda>tok. tok_Type tok = INT_LIT \<longrightarrow> take 1 (tok_Literal tok) \<noteq> ''-'') (ps_tokens s)"
  shows "wfType t"
  using types_give [of n] assms by (auto simp: gives_def plainInts_def split: presult.splits)

lemma parse_array: "parseTypeExpr 2 (NewP [tk LBRACKET ''['', tk RBRACKET '']''] ''a.tin'') =
    POk (ArrayType (SimpleType ''void'') (-1)) ((NewP [tk LBRACKET ''['', tk RBRACKET '']''] ''a.tin'')\<lparr>ps_pos := 2\<rparr>)"
  by (simp add: numeral_2_eq_2 parseTypeUnion.simps parseTypeSingle.simps bindP_def skipTok_def checkP_def peekP_def advanceP_def NewP_def eofToken_def Let_def)

theorem parsed_type_wf_witness: "wfType (ArrayType (SimpleType ''void'') (-1))"
  by (rule parsed_type_wf [OF parse_array]) (simp add: NewP_def)

end
