(* ===== verification/TinParseHang.thy ===== *)
theory TinParseHang
  imports TinParseFuel
begin

text \<open>
  Inputs on which the parser does not return: four loops over the names of a list leave a token in place that is neither a name nor a
  separator nor the end of the list.
\<close>

lemma loopP_stuck: "body acc s = POk (Inl acc) s \<Longrightarrow> loopP n body acc s = PDiverge"
  by (induction n) auto

lemmas stuck_simps = checkP_def matchP_def litIs_def skipTok_def Let_def

lemma typeParams_stuck:
  "tok_Type (peekP s) = LBRACKET \<Longrightarrow> tok_Type (peekP (advanceP s)) \<notin> set [IDENT, COMMA, RBRACKET, EOF] \<Longrightarrow>
     parseTypeParamsWithWildcards n s = PDiverge"
  unfolding parseTypeParamsWithWildcards_def bindP_def by (subst loopP_stuck) (auto simp: stuck_simps)

lemma importNames_stuck: "tok_Type (peekP s) \<notin> set [IDENT, COMMA, RBRACE, EOF] \<Longrightarrow> importNames n s = PDiverge"
  unfolding importNames_def by (rule loopP_stuck) (simp add: stuck_simps)

lemma exportNames_stuck:
  "tok_Type (peekP s) \<notin> set [IDENT, COMMA, NOT, RBRACE, EOF, NEWLINE, INDENT, DEDENT] \<Longrightarrow> exportNames n s = PDiverge"
  unfolding exportNames_def by (rule loopP_stuck) (simp add: stuck_simps)

lemma macroParams_stuck: "tok_Type (peekP s) \<notin> set [IDENT, COMMA, RPAREN, EOF] \<Longrightarrow> macroParams K s = PDiverge"
  unfolding macroParams_def by (rule loopP_stuck) (simp add: stuck_simps)

text \<open>The beginnings of such declarations, with the tokens that may follow.\<close>

definition listStarts :: "(TokenType list \<times> TokenType list) list" where
  "listStarts =
     [([KW_STRUCT, IDENT, LBRACKET], [IDENT, COMMA, RBRACKET, EOF]),
      ([KW_USE, LBRACE], [IDENT, COMMA, RBRACE, EOF]),
      ([KW_EXPORT, LBRACE], [IDENT, COMMA, NOT, RBRACE, EOF, NEWLINE, INDENT, DEDENT]),
      ([KW_MACRO, IDENT, LPAREN], [IDENT, COMMA, RPAREN, EOF])]"

lemmas open_simps = parseTopLevel_def parseTags_def checkP_def peekP_def advanceP_def Let_def bindP_def expectP_def mapP_def nth_Cons'

lemma topLevel_stuck:
  assumes "(map tok_Type start, ok) \<in> set listStarts" and "tok_Type x \<notin> set ok" and "ps_pos s = 0" "ps_tokens s = start @ x # rest"
  shows "parseTopLevel K s = PDiverge"
proof -
  from assms(1) consider (struct) "map tok_Type start = [KW_STRUCT, IDENT, LBRACKET]" "ok = [IDENT, COMMA, RBRACKET, EOF]"
    | (use) "map tok_Type start = [KW_USE, LBRACE]" "ok = [IDENT, COMMA, RBRACE, EOF]"
    | (export) "map tok_Type start = [KW_EXPORT, LBRACE]" "ok = [IDENT, COMMA, NOT, RBRACE, EOF, NEWLINE, INDENT, DEDENT]"
    | (macro) "map tok_Type start = [KW_MACRO, IDENT, LPAREN]" "ok = [IDENT, COMMA, RPAREN, EOF]"
    by (auto simp: listStarts_def)
  then show ?thesis
  proof cases
    case struct
    then obtain a b c where "start = [a, b, c]" "tok_Type a = KW_STRUCT" "tok_Type b = IDENT" "tok_Type c = LBRACKET"
      by (auto simp: map_eq_Cons_conv)
    with struct assms(2-) show ?thesis
      by (simp add: open_simps parseStructDecl_def parseStructTags_def typeParams_stuck)
  next
    case use
    then obtain a b where "start = [a, b]" "tok_Type a = KW_USE" "tok_Type b = LBRACE" by (auto simp: map_eq_Cons_conv)
    with use assms(2-) show ?thesis by (simp add: open_simps parseUseDecl_def importNames_stuck)
  next
    case export
    then obtain a b where "start = [a, b]" "tok_Type a = KW_EXPORT" "tok_Type b = LBRACE" by (auto simp: map_eq_Cons_conv)
    with export assms(2-) show ?thesis by (simp add: open_simps parseExportDecl_def exportNames_stuck)
  next
    case macro
    then obtain a b c where "start = [a, b, c]" "tok_Type a = KW_MACRO" "tok_Type b = IDENT" "tok_Type c = LPAREN"
      by (auto simp: map_eq_Cons_conv)
    with macro assms(2-) show ?thesis by (simp add: open_simps parseMacroDecl_def skipTok_def macroParams_stuck)
  qed
qed

lemma first_token:
  assumes "tok_Type a \<notin> {NEWLINE, SEMI}"
  shows "ps_pos (skipSemisAndNewlines (NewP (a # ts) file)) = 0" "ps_tokens (skipSemisAndNewlines (NewP (a # ts) file)) = a # ts"
  using assms by (simp_all add: skipSemisAndNewlines_def drainLambda_def drainContinuation_def skipAll_def drainDedents_def
      owedDedents_def NewP_def)

text \<open>
  C40: on a file that begins with \<open>struct S[\<close>, \<open>use {\<close>, \<open>export {\<close> or \<open>macro m(\<close> and a token that the list cannot contain, such as
  \<open>use { 1\<close> or a line break after \<open>use {\<close>, the parser never returns, whatever the rest of the file is.
\<close>

theorem Parse_hangs:
  assumes "(map tok_Type start, ok) \<in> set listStarts" and "tok_Type x \<notin> set ok"
  shows "Parse (parserKnots U F Q n) (NewP (start @ x # rest) file) = PDiverge"
proof -
  let ?s = "skipSemisAndNewlines (NewP (start @ x # rest) file)"
  from assms(1) obtain a ts where start: "start = a # ts" "tok_Type a \<notin> {NEWLINE, SEMI, EOF}"
    by (cases start) (auto simp: listStarts_def)
  then have s: "ps_pos ?s = 0" "ps_tokens ?s = start @ x # rest" using first_token [of a] by auto
  have "\<not> checkP EOF ?s" using start s by (simp add: checkP_def peekP_def)
  moreover have "parseTopLevel K ?s = PDiverge" for K by (rule topLevel_stuck [OF assms s])
  ultimately show ?thesis by (cases n) (simp_all add: Parse_def bindP_def)
qed

definition tokenOf :: "TokenType \<Rightarrow> string \<Rightarrow> Token" where
  "tokenOf ty lit = \<lparr>tok_Type = ty, tok_Literal = lit, tok_Line = 1, tok_Col = 1\<rparr>"

theorem Parse_hangs_witness:
  "\<forall>n. Parse (parserKnots empty_tables (\<lambda>_. 0) id n)
     (NewP ([tokenOf KW_USE ''use'', tokenOf LBRACE ''{''] @ tokenOf NEWLINE [] # [tokenOf RBRACE ''}'']) ''a.tin'') = PDiverge"
  by (intro allI Parse_hangs [where ok = "[IDENT, COMMA, RBRACE, EOF]"]) (simp_all add: listStarts_def tokenOf_def)

end
