(* ===== verification/Spec2Isabelle.thy ===== *)
theory Spec2Isabelle
  imports TinLexerText TinMatchCorrect TinIntervalCorrect TinDemorgan TinDfCorrect TinLiveness TinCyclesCorrect
    TinParseTypeWf TinParseHang
begin

text \<open>
  A verification library for the compiler of the Tin language (\<^verbatim>\<open>src/\<close>, written in Go).

  \<^bold>\<open>The program.\<close>  \<^verbatim>\<open>lexer/\<close> turns the text of a file into tokens, \<^verbatim>\<open>parser/\<close> turns the tokens into the syntax
  tree of \<^verbatim>\<open>ast/\<close>, and \<^verbatim>\<open>codegen/\<close> analyses the tree and emits LLVM IR.  The front end and the analyses of
  \<^verbatim>\<open>codegen/\<close> that do not depend on LLVM are the core of this library: lexer and parser, exhaustiveness of pattern
  matching, constant folding, simplification of conditions, points-to sets, the dataflow pass with its value domains, the
  choice of implicit moves, and reference cycles between structs.

  \<^bold>\<open>Theories of the front end.\<close>
  \<^item> \<open>TinPrelude\<close>: bytes, runes and UTF-8, 64-bit wrap-around (\<open>wrap64\<close>), Go's truncating division, lemmas on lists.
  \<^item> \<open>TinToken\<close>, \<open>TinLexer\<close>: \<^verbatim>\<open>lexer/lexer.go\<close>.  The record \<open>Lexer\<close> is the struct; every method is a function from
    the scanner state to an error or a token and the next state; \<open>Tokenize\<close> is a partial function, so that a call that never
    returns is \<open>None\<close>.  \<open>TinLexerCorrect\<close> (C1--C3): tokens are well nested, the lexer returns on ASCII text, and there is a
    text on which it does not.  \<open>TinLexerText\<close> (C4--C6): maximal munch, positions, string literals.
  \<^item> \<open>TinAst\<close>: the structs of \<^verbatim>\<open>ast/ast.go\<close> as datatypes.  \<open>TinPrint\<close> (C30): \<^verbatim>\<open>ast/print.go\<close>, and the trees on
    which it panics.
  \<^item> \<open>TinParser\<close>: the record \<open>Parser\<close>, navigation and lookahead (\<^verbatim>\<open>parser/parser.go\<close>).  A method is a function from
    the parser state to an outcome (a node, an error, out of fuel) and the next state.  \<open>TinParseType\<close> (\<^verbatim>\<open>types.go\<close>),
    \<open>TinParseStmt\<close> and \<open>TinParseFlow\<close> (\<^verbatim>\<open>stmts*.go\<close>), \<open>TinParseExpr\<close> and \<open>TinParseOps\<close> (\<^verbatim>\<open>exprs*.go\<close>),
    \<open>TinParseDecl\<close> (\<^verbatim>\<open>decls.go\<close>, \<^verbatim>\<open>funcs.go\<close>), \<open>TinParseProgram\<close> (the two switches, \<open>Parse\<close> and the knot that
    ties the mutual recursion): one definition per method.
  \<^item> \<open>TinParseFrame\<close> (C35): what any call keeps of the parser's state.  \<open>TinParseFuel\<close> (C36): results do not depend on the
    fuel.  \<open>TinParseTypeCorrect\<close> (C37): parsing types and parameters returns.  \<open>TinParseTypeRound\<close> (C38): the spelling of a
    type is read back.  \<open>TinParseTypeWf\<close> (C39): parsed types have a spelling.  \<open>TinParseHang\<close> (C40): inputs on which
    \<open>Parse\<close> never returns.

  \<^bold>\<open>Theories of the analyses.\<close>
  \<^item> \<open>TinMaranget\<close>: \<open>useful\<close> and the construction of witnesses in \<^verbatim>\<open>codegen/maranget.go\<close>.  \<open>TinMarangetCorrect\<close>
    (C7, C8): the verdict against a semantics of values and patterns, in both directions.  \<open>TinMatch\<close>: from the arms of
    \<open>match\<close> and \<open>where\<close> to that analysis and to warnings, and the dispatch that is generated (\<^verbatim>\<open>exhaustive.go\<close>,
    \<^verbatim>\<open>data_match.go\<close>, \<^verbatim>\<open>data_ctors.go\<close>, \<^verbatim>\<open>stmts_match_data.go\<close>, \<^verbatim>\<open>stmts_where.go\<close>).
    \<open>TinMatchCorrect\<close> (C31--C33): accepted lists handle every value, the dispatch runs the arm it should, and where both differ.
  \<^item> \<open>TinInterval\<close>: nil facts, constants and strided intervals of \<^verbatim>\<open>codegen/dataflow_state.go\<close>, \<^verbatim>\<open>dataflow_cmp.go\<close>,
    \<^verbatim>\<open>dataflow_run.go\<close>.  \<open>TinIntervalCorrect\<close> (C9--C14): every operation against the set of integers an interval stands for,
    and the inputs for which wrap-around makes it wrong.
  \<^item> \<open>TinFold\<close> (C15--C17): the tree walk \<open>walkAST\<close> and constant folding, \<^verbatim>\<open>codegen/fold.go\<close>.
  \<^item> \<open>TinDemorgan\<close> (C18--C20): \<^verbatim>\<open>codegen/demorgan.go\<close>; the rewriting keeps value and effects and reaches a normal form.
  \<^item> \<open>TinAndersen\<close> (C21): \<^verbatim>\<open>codegen/andersen.go\<close>; the solver computes the least solution of its constraints.
  \<^item> \<open>TinDfState\<close>, \<open>TinDataflow\<close>: the dataflow pass, \<^verbatim>\<open>codegen/dataflow*.go\<close>: abstract states and their join, the
    evaluation of expressions, branch narrowing, the checks with their warnings, the walk over statements with the fixpoint of
    loops, the summaries of manual allocation.  \<open>TinDfSummary\<close> (C22): the summaries are the least solution of their rules.
    \<open>TinDfCorrect\<close> (C23--C27): against a big-step semantics \<open>exec\<close>, joins are upper bounds, constant propagation is sound, a
    warning about a condition is right; and two programs for which a warning is wrong.
  \<^item> \<open>TinLiveness\<close> (C28, C29): \<^verbatim>\<open>codegen/liveness.go\<close>; an implicit move happens at a single read, save for loops over an
    iterable.
  \<^item> \<open>TinCycles\<close>, \<open>TinCyclesCorrect\<close> (C34): \<^verbatim>\<open>codegen/cycles.go\<close>; Tarjan's algorithm returns the strongly connected
    components of the struct graph, and the check rejects exactly the programs it is meant to.

  \<^bold>\<open>How the code is modelled.\<close>  A struct is a record or a constructor with the fields of the source, an \<open>int64\<close> an \<open>int\<close>
  with \<open>wrap64\<close> after every operation that can overflow, a Go map an association list (its order stands for the order of
  \<open>range\<close>), an \<open>error\<close> or a panic a value of a sum or option type, a nil pointer or interface \<open>None\<close> or a constructor of
  its own.  Warnings are part of the result.

  \<^bold>\<open>Interfaces.\<close>  \<open>lexer_invariant\<close> lists what a property of the scanner state has to satisfy to be kept by the driver
  (interpreted for the indentation stack and for the source text); \<open>pos_frame\<close> and its extension \<open>parser_frame\<close> what a relation
  between parser states has to satisfy to hold across every method (interpreted for the fields that type parsing leaves alone, for
  progress in the token list, and for the frame of the whole parser); \<open>value_domain\<close> what a join has to satisfy for the join of
  two maps of facts to be sound (interpreted for nil facts, constants and intervals); \<open>scc_cover\<close> what the cycle check needs of a
  list of components (interpreted for the result of Tarjan's algorithm).

  \<^bold>\<open>Fuel and bounds.\<close>  \<open>tryFoldExpr\<close> has a fuel argument because it follows identifiers to their initializers; C15 shows
  that enough fuel exists when initializers are not circular.  The parser has fuel because some of its loops do not end (C40); C36
  shows that a result does not depend on how much there is, and C37 that three units for each token left, and three more, are
  enough for types and parameters.  The loops of the solver, of the summaries and of the walk are \<open>while\<close> loops or recursions with
  a termination proof.

  \<^bold>\<open>Parameters.\<close>  The Unicode range tables, IEEE arithmetic, \<open>strconv.ParseFloat\<close> and the verbs of \<open>fmt\<close> for floats and
  quoted strings, the order in which Go ranges over a map, the compile-time evaluator behind \<open>tryFoldPureCall\<close>.

  \<^bold>\<open>Not modelled.\<close>  Macro expansion and the compile-time interpreter; the syntactic checks and ownership analyses beside those
  named above; the emission of LLVM IR, which consists of calls of the package llir/llvm; packages, caches and the command line
  (files and processes); the formatter, the printers of diagnostics and the REPL (text output).
\<close>

end
